(* ===== verification/Prelude.thy ===== *)
theory Prelude
  imports Main "HOL-Library.Word" "HOL-Library.Monad_Syntax"
begin

text \<open>
  Shared vocabulary of the development.

  The library is built for 32-bit ARM targets (Zynq-7000 Cortex-A9, Zynq UltraScale+
  Cortex-R5), so \<^verbatim>\<open>unsigned long\<close>, \<^verbatim>\<open>unsigned int\<close> and pointers into shared memory
  are 32-bit words and memory is little endian.  Objects that come from
  \<^verbatim>\<open>malloc\<close> are named by abstract pointers (\<open>ptr\<close>, with \<open>0\<close> for \<^verbatim>\<open>NULL\<close>).

  An operation that can run into undefined behaviour of C (an access outside an array, a
  dereference of \<^verbatim>\<open>NULL\<close> or of a freed object) or that can stop in the endless
  loop of a failed \<^verbatim>\<open>VQASSERT\<close> returns an \<open>option\<close>: \<open>None\<close> is that outcome,
  \<open>Some\<close> is a normal return.  Error codes are ordinary values of type \<^typ>\<open>int\<close>.

  The theory also holds the array accessors, the little-endian byte memory and the lemmas on
  free-running ring indices that the other theories use.
\<close>

unbundle bit_operations_syntax

section \<open>Machine types\<close>

type_synonym u8 = "8 word"
type_synonym u16 = "16 word"
type_synonym u32 = "32 word"
type_synonym u64 = "64 word"
type_synonym ptr = nat

abbreviation (input) NULL :: ptr where
  "NULL \<equiv> 0"

named_theorems arr_simps \<open>array accessors\<close>
named_theorems mem_simps \<open>little-endian memory\<close>
named_theorems mem_disj \<open>loads outside the stored range\<close>

section \<open>Arrays\<close>

text \<open>An array access outside the bounds is undefined behaviour, hence \<open>None\<close>.\<close>

definition aget :: "'a list \<Rightarrow> nat \<Rightarrow> 'a option" where
  "aget xs i = (if i < length xs then Some (xs ! i) else None)"

definition aset :: "'a list \<Rightarrow> nat \<Rightarrow> 'a \<Rightarrow> 'a list option" where
  "aset xs i v = (if i < length xs then Some (xs[i := v]) else None)"

lemma aget_Some [simp]: "i < length xs \<Longrightarrow> aget xs i = Some (xs ! i)"
  by (simp add: aget_def)

lemma aget_None [simp]: "length xs \<le> i \<Longrightarrow> aget xs i = None"
  by (simp add: aget_def)

lemma aset_Some [simp]: "i < length xs \<Longrightarrow> aset xs i v = Some (xs[i := v])"
  by (simp add: aset_def)

lemma aset_None [simp]: "length xs \<le> i \<Longrightarrow> aset xs i v = None"
  by (simp add: aset_def)

lemma aget_eq_Some_iff [arr_simps]: "aget xs i = Some v \<longleftrightarrow> i < length xs \<and> v = xs ! i"
  by (auto simp: aget_def)

lemma aset_eq_Some_iff [arr_simps]: "aset xs i v = Some ys \<longleftrightarrow> i < length xs \<and> ys = xs[i := v]"
  by (auto simp: aset_def)

lemmas option_bind_simps = Option.bind_eq_Some_conv

lemma distinct_map_upd: "distinct xs \<Longrightarrow> i \<notin> set xs \<Longrightarrow> map (f(i := v)) xs = map f xs"
  by (induction xs) auto

lemma unat_image_iff [simp]: "unat x \<in> unat ` S \<longleftrightarrow> (x :: 'a::len word) \<in> S"
  by (metis image_iff word_unat_eq_iff)

lemma ucast_widen_narrow [simp]:
  "ucast (ucast (a :: u32) :: u64) = a"
  "ucast (ucast (b :: u16) :: u32) = b"
  by (rule bit_word_eqI; simp add: bit_simps)+

section \<open>Ring indices\<close>

text \<open>
  Ring indices are free-running 16-bit counters; a slot number is the counter masked with
  \<open>nentries - 1\<close>.  For a power of two this is the remainder.
\<close>

definition pow2_size :: "u16 \<Rightarrow> bool" where
  "pow2_size n \<longleftrightarrow> (\<exists>k < 16. n = 2 ^ k)"

lemma unat_pow2_16: "k < 16 \<Longrightarrow> unat ((2::u16) ^ k) = 2 ^ k"
proof -
  assume "k < 16"
  then have lt: "(2::nat) ^ k < 2 ^ 16" by (rule power_strict_increasing) simp
  have "unat (of_nat m :: u16) = m" if "m < 2 ^ 16" for m
    using that by (simp add: unat_of_nat)
  from this [OF lt] show ?thesis by simp
qed

lemma unat_mask_index:
  assumes "pow2_size n"
  shows "unat (i AND (n - 1)) = unat i mod unat n"
proof -
  from assms obtain k where k: "k < 16" "n = 2 ^ k" by (auto simp: pow2_size_def)
  have "n - 1 = mask k" by (simp add: k mask_eq_exp_minus_1)
  then have "i AND (n - 1) = take_bit k i" by (simp add: take_bit_eq_mask)
  then have "unat (i AND (n - 1)) = take_bit k (unat i)" by (simp add: unsigned_take_bit_eq)
  then show ?thesis using k by (simp add: take_bit_eq_mod unat_pow2_16)
qed

lemma pow2_size_pos: "pow2_size n \<Longrightarrow> 0 < unat n"
  by (auto simp: pow2_size_def unat_pow2_16)

lemma pow2_size_dvd:
  assumes "pow2_size n"
  shows "unat n dvd 65536"
proof -
  from assms obtain k where k: "k < 16" "n = 2 ^ k" by (auto simp: pow2_size_def)
  have "(2::nat) ^ k dvd 2 ^ 16" by (rule le_imp_power_dvd) (use k in simp)
  then show ?thesis using k by (simp add: unat_pow2_16)
qed

lemma pow2_size_le: "pow2_size n \<Longrightarrow> unat n \<le> 32768"
proof -
  assume "pow2_size n"
  then obtain k where k: "k < 16" "n = 2 ^ k" by (auto simp: pow2_size_def)
  have "(2::nat) ^ k \<le> 2 ^ 15" by (rule power_increasing) (use k in auto)
  then show ?thesis using k by (simp add: unat_pow2_16)
qed

lemma unat_add_mod_ring:
  assumes "pow2_size n"
  shows "unat (i + of_nat j :: u16) mod unat n = (unat i + j) mod unat n"
proof -
  have "unat (i + of_nat j :: u16) = (unat i + j) mod 65536"
    by (simp add: unat_word_ariths unat_of_nat mod_simps)
  then show ?thesis using pow2_size_dvd [OF assms] by (simp add: mod_mod_cancel)
qed

text \<open>Two different offsets below the ring size name two different slots.\<close>

lemma ring_slot_less:
  fixes a i j N :: nat
  assumes "i < j" "j < N"
  shows "(a + i) mod N \<noteq> (a + j) mod N"
proof
  assume "(a + i) mod N = (a + j) mod N"
  then have "N dvd (a + j) - (a + i)"
    using assms mod_eq_dvd_iff_nat [of "a + i" "a + j" N] by simp
  then show False using assms by (simp add: nat_dvd_not_less)
qed

lemma ring_slot_inj:
  fixes a i j N :: nat
  shows "i < N \<Longrightarrow> j < N \<Longrightarrow> (a + i) mod N = (a + j) mod N \<Longrightarrow> i = j"
  by (metis linorder_neqE_nat ring_slot_less)

end
