(* ===== verification/Memory.thy ===== *)
theory Memory
  imports Prelude
begin

text \<open>
  The byte memory both processors see: little-endian loads and stores of 16- and 32-bit
  fields and block copies (\<^verbatim>\<open>env_memcpy\<close>, \<^verbatim>\<open>env_memset\<close>), with the laws the message
  and resource-table code relies on: a load returns what was last stored there, and a store does not
  disturb the bytes outside its range.
\<close>

type_synonym memory = "u32 \<Rightarrow> u8"

definition load16 :: "memory \<Rightarrow> u32 \<Rightarrow> u16" where
  "load16 m a = ucast (m a) OR push_bit 8 (ucast (m (a + 1)))"

definition load32 :: "memory \<Rightarrow> u32 \<Rightarrow> u32" where
  "load32 m a = ucast (m a) OR push_bit 8 (ucast (m (a + 1)))
     OR push_bit 16 (ucast (m (a + 2))) OR push_bit 24 (ucast (m (a + 3)))"

definition store16 :: "memory \<Rightarrow> u32 \<Rightarrow> u16 \<Rightarrow> memory" where
  "store16 m a v = m(a := ucast v, a + 1 := ucast (drop_bit 8 v))"

definition store32 :: "memory \<Rightarrow> u32 \<Rightarrow> u32 \<Rightarrow> memory" where
  "store32 m a v = m(a := ucast v, a + 1 := ucast (drop_bit 8 v),
     a + 2 := ucast (drop_bit 16 v), a + 3 := ucast (drop_bit 24 v))"

primrec load_bytes :: "memory \<Rightarrow> u32 \<Rightarrow> nat \<Rightarrow> u8 list" where
  "load_bytes m a 0 = []"
| "load_bytes m a (Suc n) = m a # load_bytes m (a + 1) n"

primrec store_bytes :: "memory \<Rightarrow> u32 \<Rightarrow> u8 list \<Rightarrow> memory" where
  "store_bytes m a [] = m"
| "store_bytes m a (b # bs) = store_bytes (m(a := b)) (a + 1) bs"

text \<open>\<^verbatim>\<open>env_memset\<close> and \<^verbatim>\<open>env_memcpy\<close>; the ranges of a copy do not overlap.\<close>

definition env_memset :: "memory \<Rightarrow> u32 \<Rightarrow> u32 \<Rightarrow> u32 \<Rightarrow> memory" where
  "env_memset m p v n = store_bytes m p (replicate (unat n) (ucast v))"

definition env_memcpy :: "memory \<Rightarrow> u32 \<Rightarrow> u32 \<Rightarrow> u32 \<Rightarrow> memory" where
  "env_memcpy m dst src len = store_bytes m dst (load_bytes m src (unat len))"

lemma load16_store16 [mem_simps]: "load16 (store16 m a v) a = v"
  by (rule bit_word_eqI) (auto simp: load16_def store16_def bit_simps)

lemma load32_store32 [mem_simps]: "load32 (store32 m a v) a = v"
proof (rule bit_word_eqI)
  fix n :: nat
  assume "n < LENGTH(32)"
  then consider "n < 8" | "8 \<le> n" "n < 16" | "16 \<le> n" "n < 24" | "24 \<le> n" "n < 32" by force
  then show "bit (load32 (store32 m a v) a) n = bit v n"
    by cases (auto simp: load32_def store32_def bit_simps)
qed

text \<open>The range \<open>a, \<dots>, a + n - 1\<close>, which may wrap around the address space.\<close>

definition range32 :: "u32 \<Rightarrow> nat \<Rightarrow> u32 set" where
  "range32 a n = {a + of_nat i | i. i < n}"

lemma range32_0 [simp]: "range32 a 0 = {}"
  by (simp add: range32_def)

lemma range32_Suc: "range32 a (Suc n) = insert a (range32 (a + 1) n)"
proof -
  have "{i. i < Suc n} = insert 0 (Suc ` {i. i < n})"
    by (auto simp: image_iff less_Suc_eq_0_disj)
  moreover have "range32 b k = (\<lambda>i. b + of_nat i) ` {i. i < k}" for b k
    by (auto simp: range32_def)
  ultimately show ?thesis by (simp add: image_image add.assoc)
qed

lemma store_bytes_outside [mem_simps]:
  "b \<notin> range32 a (length bs) \<Longrightarrow> store_bytes m a bs b = m b"
  by (induction bs arbitrary: m a) (auto simp: range32_Suc)

lemma length_load_bytes [simp]: "length (load_bytes m a n) = n"
  by (induction n arbitrary: a) auto

lemma load_bytes_cong:
  "(\<And>b. b \<in> range32 a n \<Longrightarrow> m b = m' b) \<Longrightarrow> load_bytes m a n = load_bytes m' a n"
  by (induction n arbitrary: a) (auto simp: range32_Suc)

lemma notin_range32_next:
  assumes "n < 2 ^ 32"
  shows "a \<notin> range32 (a + 1) n"
proof
  assume "a \<in> range32 (a + 1) n"
  then obtain i where i: "i < n" and "a = a + 1 + of_nat i" by (auto simp: range32_def)
  then have "(of_nat (Suc i) :: u32) = 0" by (simp add: add.assoc)
  then have "2 ^ 32 dvd Suc i" by (simp add: word_of_nat_eq_0_iff del: of_nat_Suc)
  with i assms show False by (auto dest: dvd_imp_le)
qed

lemma load_store_bytes [mem_simps]:
  "length bs < 2 ^ 32 \<Longrightarrow> load_bytes (store_bytes m a bs) a (length bs) = bs"
proof (induction bs arbitrary: m a)
  case Nil
  then show ?case by simp
next
  case (Cons b bs)
  then have "store_bytes (m(a := b)) (a + 1) bs a = b"
    by (simp add: store_bytes_outside notin_range32_next)
  with Cons show ?case by simp
qed

lemma env_memcpy_copies:
  "load_bytes (env_memcpy m dst src len) dst (unat len) = load_bytes m src (unat len)"
  "b \<notin> range32 dst (unat len) \<Longrightarrow> env_memcpy m dst src len b = m b"
  using load_store_bytes [of "load_bytes m src (unat len)" m dst] unsigned_less [of len, where 'a = nat]
  by (simp_all add: env_memcpy_def store_bytes_outside)

lemma load_bytes_store_bytes_disjoint [mem_simps]:
  "range32 a n \<inter> range32 b (length bs) = {} \<Longrightarrow>
     load_bytes (store_bytes m b bs) a n = load_bytes m a n"
  by (rule load_bytes_cong, rule store_bytes_outside) blast

lemma load32_cong:
  "(\<And>b. b \<in> range32 a 4 \<Longrightarrow> m b = m' b) \<Longrightarrow> load32 m a = load32 m' a"
  by (simp add: load32_def range32_Suc numeral_eq_Suc add.assoc)

lemma load16_cong:
  "(\<And>b. b \<in> range32 a 2 \<Longrightarrow> m b = m' b) \<Longrightarrow> load16 m a = load16 m' a"
  by (simp add: load16_def range32_Suc numeral_eq_Suc)

lemma store32_outside [mem_simps]: "b \<notin> range32 a 4 \<Longrightarrow> store32 m a v b = m b"
  by (simp add: store32_def range32_Suc numeral_eq_Suc add.assoc)

lemma store16_outside [mem_simps]: "b \<notin> range32 a 2 \<Longrightarrow> store16 m a v b = m b"
  by (simp add: store16_def range32_Suc numeral_eq_Suc)

section \<open>Disjoint ranges\<close>

text \<open>Fields at increasing offsets of one block do not overlap as long as the block does not wrap.\<close>

lemma range32_disjoint:
  assumes "i + n \<le> j" "j + m \<le> 2 ^ 32"
  shows "range32 (a + of_nat i) n \<inter> range32 (a + of_nat j) m = {}"
proof (rule equals0I)
  fix x
  assume "x \<in> range32 (a + of_nat i) n \<inter> range32 (a + of_nat j) m"
  then obtain k l where kl: "k < n" "l < m" "(of_nat (i + k) :: u32) = of_nat (j + l)"
    by (auto simp: range32_def add.assoc)
  moreover have "i + k < 2 ^ 32" "j + l < 2 ^ 32" using kl(1,2) assms by linarith+
  ultimately have "i + k = j + l"
    by (simp add: word_of_nat_eq_iff take_bit_nat_eq_self del: of_nat_add)
  then show False using kl(1) assms(1) by simp
qed

lemma range32_subset: "i + n \<le> m \<Longrightarrow> range32 (a + of_nat i) n \<subseteq> range32 a m"
  by (auto simp: range32_def add.assoc) (metis add_less_cancel_left of_nat_add order_less_le_trans)

lemma load32_store_bytes [mem_disj]:
  "range32 a 4 \<inter> range32 b (length bs) = {} \<Longrightarrow> load32 (store_bytes m b bs) a = load32 m a"
  by (rule load32_cong, rule store_bytes_outside) blast

lemma load16_store_bytes [mem_disj]:
  "range32 a 2 \<inter> range32 b (length bs) = {} \<Longrightarrow> load16 (store_bytes m b bs) a = load16 m a"
  by (rule load16_cong, rule store_bytes_outside) blast

lemma load32_store32_other [mem_disj]:
  "range32 a 4 \<inter> range32 b 4 = {} \<Longrightarrow> load32 (store32 m b v) a = load32 m a"
  by (rule load32_cong, rule store32_outside) blast

lemma load32_store16_other [mem_disj]:
  "range32 a 4 \<inter> range32 b 2 = {} \<Longrightarrow> load32 (store16 m b v) a = load32 m a"
  by (rule load32_cong, rule store16_outside) blast

lemma load16_store32_other [mem_disj]:
  "range32 a 2 \<inter> range32 b 4 = {} \<Longrightarrow> load16 (store32 m b v) a = load16 m a"
  by (rule load16_cong, rule store32_outside) blast

lemma load_bytes_store32 [mem_disj]:
  "range32 a n \<inter> range32 b 4 = {} \<Longrightarrow> load_bytes (store32 m b v) a n = load_bytes m a n"
  by (rule load_bytes_cong, rule store32_outside) blast

lemma load_bytes_store16 [mem_disj]:
  "range32 a n \<inter> range32 b 2 = {} \<Longrightarrow> load_bytes (store16 m b v) a n = load_bytes m a n"
  by (rule load_bytes_cong, rule store16_outside) blast

lemma range32_4: "range32 a 4 = {a, a + 1, a + 2, a + 3}"
  by (auto simp: range32_Suc numeral_eq_Suc add.assoc)

lemma load_bytes_4: "load_bytes m a 4 = [m a, m (a + 1), m (a + 2), m (a + 3)]"
  by (simp add: numeral_eq_Suc add.assoc)

section \<open>Encoded fields\<close>

text \<open>A memory holds a byte sequence at an address; fields of the sequence are the loads at their offsets.\<close>

definition le32 :: "u32 \<Rightarrow> u8 list" where
  "le32 v = [ucast v, ucast (drop_bit 8 v), ucast (drop_bit 16 v), ucast (drop_bit 24 v)]"

definition holds :: "memory \<Rightarrow> u32 \<Rightarrow> u8 list \<Rightarrow> bool" where
  "holds m a bs \<longleftrightarrow> load_bytes m a (length bs) = bs"

lemma length_le32 [simp]: "length (le32 v) = 4"
  by (simp add: le32_def)

lemma load_bytes_add: "load_bytes m a (n + k) = load_bytes m a n @ load_bytes m (a + of_nat n) k"
  by (induction n arbitrary: a) (auto simp: add.assoc)

lemma holds_Nil [simp]: "holds m a []"
  by (simp add: holds_def)

lemma holds_append: "holds m a (xs @ ys) \<longleftrightarrow> holds m a xs \<and> holds m (a + of_nat (length xs)) ys"
  by (simp add: holds_def load_bytes_add)

lemma holds_Cons: "holds m a (b # bs) \<longleftrightarrow> m a = b \<and> holds m (a + 1) bs"
  by (simp add: holds_def)

lemma holds_le32: "holds m a (le32 v) \<Longrightarrow> load32 m a = v"
proof -
  assume "holds m a (le32 v)"
  then have "m a = ucast v" "m (a + 1) = ucast (drop_bit 8 v)" "m (a + 2) = ucast (drop_bit 16 v)"
    "m (a + 3) = ucast (drop_bit 24 v)"
    by (simp_all add: le32_def holds_Cons add.assoc)
  then have "load32 m a = load32 (store32 m a v) a"
    by (simp add: load32_def store32_def)
  then show ?thesis by (simp add: load32_store32)
qed

lemma holds_store_bytes: "length bs < 2 ^ 32 \<Longrightarrow> holds (store_bytes m a bs) a bs"
  by (simp add: holds_def load_store_bytes)

end
