(* ===== verification/Env.thy ===== *)
theory Env
  imports Memory
begin

text \<open>
  The bare-metal environment layer, \<^verbatim>\<open>lib/system/generic/env.c\<close>, on top of the interrupt-mask
  code of \<^verbatim>\<open>machine_system.c\<close>: mutexes realised by masking interrupts, the table of
  registered interrupt handlers and the dispatcher \<^verbatim>\<open>bm_env_isr\<close>, spin locks, and the string
  functions of libc the library calls through the environment.

  The state is an extensible record, so that the states of the higher layers extend it and the
  operations here apply to them.  Calls into the machine layer that only touch device registers
  (interrupt controller, MMU, caches) are recorded in order in \<open>plat_calls\<close>.
\<close>

section \<open>Strings\<close>

text \<open>
  A C string is a character list that holds its terminator; reading past the end of the
  list is undefined.  \<^verbatim>\<open>env_strncmp\<close>, \<^verbatim>\<open>env_strncpy\<close> and \<^verbatim>\<open>env_strcmp\<close> forward to libc.
\<close>

abbreviation NUL :: char where
  "NUL \<equiv> CHR 0x00"

fun env_strncmp :: "char list \<Rightarrow> char list \<Rightarrow> nat \<Rightarrow> int option" where
  "env_strncmp a b 0 = Some 0"
| "env_strncmp (x # a) (y # b) (Suc n) =
     (if x \<noteq> y then Some (of_char x - of_char y)
      else if x = NUL then Some 0 else env_strncmp a b n)"
| "env_strncmp a b (Suc n) = None"

fun env_strcmp :: "char list \<Rightarrow> char list \<Rightarrow> int option" where
  "env_strcmp (x # a) (y # b) =
     (if x \<noteq> y then Some (of_char x - of_char y)
      else if x = NUL then Some 0 else env_strcmp a b)"
| "env_strcmp a b = None"

text \<open>\<open>env_strncpy s n\<close> is the new content of the destination array of size \<open>n\<close>.\<close>

fun env_strncpy :: "char list \<Rightarrow> nat \<Rightarrow> char list option" where
  "env_strncpy s 0 = Some []"
| "env_strncpy (c # s) (Suc n) =
     (if c = NUL then Some (replicate (Suc n) NUL)
      else map_option (Cons c) (env_strncpy s n))"
| "env_strncpy [] (Suc n) = None"

definition cstring :: "string \<Rightarrow> char list" where
  "cstring s = s @ [NUL]"

lemma env_strncpy_length: "env_strncpy s n = Some d \<Longrightarrow> length d = n"
  by (induction s n arbitrary: d rule: env_strncpy.induct) (auto split: if_splits)

lemma env_strncpy_cstring:
  "NUL \<notin> set s \<Longrightarrow> env_strncpy (cstring s) n = Some (take n s @ replicate (n - length s) NUL)"
proof (induction s arbitrary: n)
  case Nil
  then show ?case by (cases n) (auto simp: cstring_def)
next
  case (Cons c s)
  then show ?case by (cases n) (auto simp: cstring_def)
qed

lemma env_strncmp_refl: "n \<le> length a \<Longrightarrow> env_strncmp a a n = Some 0"
proof (induction a arbitrary: n)
  case Nil
  then show ?case by simp
next
  case (Cons x a)
  then show ?case by (cases n) auto
qed

lemma env_strncmp_eq_0:
  "env_strncmp a b n = Some 0 \<Longrightarrow>
     takeWhile (\<lambda>c. c \<noteq> NUL) (take n a) = takeWhile (\<lambda>c. c \<noteq> NUL) (take n b)"
  by (induction a b n rule: env_strncmp.induct) (auto split: if_splits)

section \<open>State\<close>

text \<open>
  The functions whose addresses the library registers as interrupt handlers;
  \<open>App_isr\<close> stands for handlers of the application.
\<close>

datatype isr_fn = Platform_isr | Ipi_handler | Ipi_handler_deinit | App_isr nat

record isr_info =
  ii_vector :: u32
  ii_priority :: u32
  ii_type :: u32
  ii_name :: "char list option"
  ii_shared :: bool
  ii_data :: ptr
  ii_isr :: "isr_fn option"

datatype plat_call =
    Interrupt_enable u32 u32 u32
  | Interrupt_disable u32
  | Map_mem_region u32 u32 u32 u32
  | Cache_all_flush_invalidate
  | Cache_disable

record env_state =
  isr_table :: "isr_info list"
  intr_count :: nat
  intr_enable_flag :: bool
  cpsr :: u32
  old_value :: u32
  plat_calls :: "plat_call list"

definition ISR_COUNT :: nat where
  "ISR_COUNT = 4"

definition isr_info0 :: isr_info where
  "isr_info0 = \<lparr>ii_vector = 0, ii_priority = 0, ii_type = 0, ii_name = None, ii_shared = False,
     ii_data = NULL, ii_isr = None\<rparr>"

definition plat_call :: "plat_call \<Rightarrow> 'a env_state_scheme \<Rightarrow> 'a env_state_scheme" where
  "plat_call c s = s\<lparr>plat_calls := plat_calls s @ [c]\<rparr>"

section \<open>Interrupt masking and mutexes\<close>

text \<open>\<^verbatim>\<open>CORTEXR5_CPSR_INTERRUPTS_BITS\<close>, \<^verbatim>\<open>ARM_AR_INTERRUPTS_DISABLE_BITS\<close>: I and F.\<close>

definition INTERRUPTS_BITS :: u32 where
  "INTERRUPTS_BITS = 0xC0"

definition ARM_AR_INT_BITS_SET :: "u32 \<Rightarrow> 'a env_state_scheme \<Rightarrow> 'a env_state_scheme" where
  "ARM_AR_INT_BITS_SET set_bits s = s\<lparr>cpsr := (cpsr s AND NOT INTERRUPTS_BITS) OR set_bits\<rparr>"

definition ARM_AR_INT_BITS_GET :: "'a env_state_scheme \<Rightarrow> u32" where
  "ARM_AR_INT_BITS_GET s = cpsr s AND INTERRUPTS_BITS"

definition restore_global_interrupts :: "'a env_state_scheme \<Rightarrow> 'a env_state_scheme" where
  "restore_global_interrupts s = ARM_AR_INT_BITS_SET (old_value s) s"

definition disable_global_interrupts :: "'a env_state_scheme \<Rightarrow> 'a env_state_scheme" where
  "disable_global_interrupts s =
     (let v = ARM_AR_INT_BITS_GET s in
      if v \<noteq> old_value s then (ARM_AR_INT_BITS_SET INTERRUPTS_BITS s)\<lparr>old_value := v\<rparr> else s)"

definition env_disable_interrupts :: "'a env_state_scheme \<Rightarrow> 'a env_state_scheme" where
  "env_disable_interrupts s =
     (if intr_enable_flag s then (disable_global_interrupts s)\<lparr>intr_enable_flag := False\<rparr> else s)"

definition env_restore_interrupts :: "'a env_state_scheme \<Rightarrow> 'a env_state_scheme" where
  "env_restore_interrupts s =
     (if \<not> intr_enable_flag s then (restore_global_interrupts s)\<lparr>intr_enable_flag := True\<rparr> else s)"

text \<open>A mutex is the interrupt mask; the handle is not used.\<close>

definition env_lock_mutex :: "'a env_state_scheme \<Rightarrow> 'a env_state_scheme" where
  "env_lock_mutex s = env_disable_interrupts s"

definition env_unlock_mutex :: "'a env_state_scheme \<Rightarrow> 'a env_state_scheme" where
  "env_unlock_mutex s = env_restore_interrupts s"

definition env_init :: "'a env_state_scheme \<Rightarrow> int \<times> 'a env_state_scheme" where
  "env_init s = (0, s)"

definition env_deinit :: "'a env_state_scheme \<Rightarrow> int \<times> 'a env_state_scheme" where
  "env_deinit s = (0, s)"

definition env_create_mutex :: "int" where
  "env_create_mutex = 0"

definition env_delete_mutex :: "'a env_state_scheme \<Rightarrow> 'a env_state_scheme" where
  "env_delete_mutex s = s"

text \<open>The three barriers order nothing in a sequentially consistent memory; there is no clock.\<close>

definition env_mb :: "'a env_state_scheme \<Rightarrow> 'a env_state_scheme" where "env_mb s = s"
definition env_rmb :: "'a env_state_scheme \<Rightarrow> 'a env_state_scheme" where "env_rmb s = s"
definition env_wmb :: "'a env_state_scheme \<Rightarrow> 'a env_state_scheme" where "env_wmb s = s"
definition env_get_timestamp :: u64 where "env_get_timestamp = 0"

definition env_map_memory :: "u32 \<Rightarrow> u32 \<Rightarrow> u32 \<Rightarrow> u32 \<Rightarrow> 'a env_state_scheme \<Rightarrow> 'a env_state_scheme" where
  "env_map_memory pa va sz flags s = plat_call (Map_mem_region va pa sz flags) s"

definition env_disable_cache :: "'a env_state_scheme \<Rightarrow> 'a env_state_scheme" where
  "env_disable_cache s = plat_call Cache_disable (plat_call Cache_all_flush_invalidate s)"

definition env_flush_invalidate_all_caches :: "'a env_state_scheme \<Rightarrow> 'a env_state_scheme" where
  "env_flush_invalidate_all_caches s = plat_call Cache_all_flush_invalidate s"

section \<open>Interrupt handlers\<close>

definition env_register_isr_shared ::
  "u32 \<Rightarrow> ptr \<Rightarrow> isr_fn option \<Rightarrow> char list option \<Rightarrow> bool \<Rightarrow> 'a env_state_scheme
     \<Rightarrow> 'a env_state_scheme" where
  "env_register_isr_shared vector data isr name shared s =
     (let s = env_disable_interrupts s;
          s = (if intr_count s < ISR_COUNT
               then s\<lparr>isr_table := (isr_table s)[intr_count s :=
                        (isr_table s ! intr_count s)\<lparr>ii_vector := vector, ii_data := data,
                           ii_name := name, ii_shared := shared, ii_isr := isr\<rparr>],
                      intr_count := Suc (intr_count s)\<rparr>
               else s)
      in env_restore_interrupts s)"

definition env_register_isr ::
  "u32 \<Rightarrow> ptr \<Rightarrow> isr_fn option \<Rightarrow> 'a env_state_scheme \<Rightarrow> 'a env_state_scheme" where
  "env_register_isr vector data isr s = env_register_isr_shared vector data isr None False s"

text \<open>
  The loop of \<^verbatim>\<open>env_update_isr\<close> over the slots \<open>idx, \<dots>\<close>; a slot registered without a
  name is passed to \<^verbatim>\<open>strcmp\<close> as \<^verbatim>\<open>NULL\<close> when a name is given.
\<close>

fun env_update_isr_loop ::
  "nat list \<Rightarrow> u32 \<Rightarrow> ptr \<Rightarrow> isr_fn option \<Rightarrow> char list option \<Rightarrow> bool \<Rightarrow> 'a env_state_scheme
     \<Rightarrow> 'a env_state_scheme option" where
  "env_update_isr_loop [] vector data isr name shared s = Some s"
| "env_update_isr_loop (idx # idxs) vector data isr name shared s =
     (let info = isr_table s ! idx;
          upd = s\<lparr>isr_table := (isr_table s)[idx :=
                    info\<lparr>ii_data := data, ii_isr := isr, ii_shared := shared\<rparr>]\<rparr>
      in if ii_vector info = vector
         then case name of
                None \<Rightarrow> Some upd
              | Some nm \<Rightarrow> do {
                  inm \<leftarrow> ii_name info;
                  c \<leftarrow> env_strcmp inm nm;
                  (if c \<noteq> 0 then env_update_isr_loop idxs vector data isr name shared s
                   else Some upd) }
         else env_update_isr_loop idxs vector data isr name shared s)"

definition env_update_isr ::
  "u32 \<Rightarrow> ptr \<Rightarrow> isr_fn option \<Rightarrow> char list option \<Rightarrow> bool \<Rightarrow> 'a env_state_scheme
     \<Rightarrow> 'a env_state_scheme option" where
  "env_update_isr vector data isr name shared s =
     map_option env_restore_interrupts
       (env_update_isr_loop [0..<ISR_COUNT] vector data isr name shared (env_disable_interrupts s))"

fun env_enable_interrupt_loop ::
  "nat list \<Rightarrow> u32 \<Rightarrow> u32 \<Rightarrow> u32 \<Rightarrow> 'a env_state_scheme \<Rightarrow> 'a env_state_scheme" where
  "env_enable_interrupt_loop [] vector priority polarity s = s"
| "env_enable_interrupt_loop (idx # idxs) vector priority polarity s =
     (if ii_vector (isr_table s ! idx) = vector
      then plat_call (Interrupt_enable vector polarity priority)
             (s\<lparr>isr_table := (isr_table s)[idx :=
                  (isr_table s ! idx)\<lparr>ii_priority := priority, ii_type := polarity\<rparr>]\<rparr>)
      else env_enable_interrupt_loop idxs vector priority polarity s)"

definition env_enable_interrupt ::
  "u32 \<Rightarrow> u32 \<Rightarrow> u32 \<Rightarrow> 'a env_state_scheme \<Rightarrow> 'a env_state_scheme" where
  "env_enable_interrupt vector priority polarity s =
     env_restore_interrupts
       (env_enable_interrupt_loop [0..<ISR_COUNT] vector priority polarity (env_disable_interrupts s))"

definition env_disable_interrupt :: "u32 \<Rightarrow> 'a env_state_scheme \<Rightarrow> 'a env_state_scheme" where
  "env_disable_interrupt vector s = plat_call (Interrupt_disable vector) s"

text \<open>
  \<^verbatim>\<open>bm_env_isr\<close>: \<open>call\<close> runs the body of a handler (code of the platform or of the
  application); a slot whose handler pointer is \<^verbatim>\<open>NULL\<close> is a jump to address 0.
\<close>

fun bm_env_isr_loop ::
  "(isr_fn \<Rightarrow> u32 \<Rightarrow> ptr \<Rightarrow> 'a env_state_scheme \<Rightarrow> 'a env_state_scheme option) \<Rightarrow>
     nat list \<Rightarrow> u32 \<Rightarrow> 'a env_state_scheme \<Rightarrow> 'a env_state_scheme option" where
  "bm_env_isr_loop call [] vector s = Some s"
| "bm_env_isr_loop call (idx # idxs) vector s =
     (if ii_vector (isr_table s ! idx) = vector
      then do {
        isr \<leftarrow> ii_isr (isr_table s ! idx);
        s \<leftarrow> call isr (ii_vector (isr_table s ! idx)) (ii_data (isr_table s ! idx)) s;
        let info = isr_table s ! idx;
        let s = env_enable_interrupt (ii_vector info) (ii_priority info) (ii_type info) s;
        (if \<not> ii_shared (isr_table s ! idx) then Some s else bm_env_isr_loop call idxs vector s) }
      else bm_env_isr_loop call idxs vector s)"

definition bm_env_isr ::
  "(isr_fn \<Rightarrow> u32 \<Rightarrow> ptr \<Rightarrow> 'a env_state_scheme \<Rightarrow> 'a env_state_scheme option) \<Rightarrow>
     u32 \<Rightarrow> 'a env_state_scheme \<Rightarrow> 'a env_state_scheme option" where
  "bm_env_isr call vector s =
     bm_env_isr_loop call [0..<ISR_COUNT] vector (env_disable_interrupt vector s)"

section \<open>Spin locks\<close>

text \<open>
  \<^verbatim>\<open>xchg\<close> stores a value and returns the old one.  The waiting loop of
  \<^verbatim>\<open>acquire_spin_lock\<close> runs against interrupt handlers: the list gives, for each turn of
  the loop, the value a handler writes to the lock word before the exchange, if any.  When
  the list is used up and the lock is still taken the loop spins for ever (\<open>None\<close>).
\<close>

definition LOCKED :: u32 where "LOCKED = 0"
definition UNLOCKED :: u32 where "UNLOCKED = 1"

definition xchg :: "u32 \<Rightarrow> u32 \<Rightarrow> u32 \<times> u32" where
  "xchg cell v = (cell, v)"

fun acquire_spin_lock :: "u32 \<Rightarrow> u32 option list \<Rightarrow> (u32 \<times> u32 option list) option" where
  "acquire_spin_lock cell [] = None"
| "acquire_spin_lock cell (w # ws) =
     (let (ret, cell) = xchg (case w of None \<Rightarrow> cell | Some v \<Rightarrow> v) LOCKED
      in if ret = LOCKED then acquire_spin_lock cell ws else Some (cell, ws))"

definition release_spin_lock :: "u32 \<Rightarrow> u32" where
  "release_spin_lock cell = snd (xchg cell UNLOCKED)"

definition env_acquire_sync_lock :: "u32 \<Rightarrow> u32 option list \<Rightarrow> (u32 \<times> u32 option list) option" where
  "env_acquire_sync_lock cell ws = acquire_spin_lock cell ws"

definition env_release_sync_lock :: "u32 \<Rightarrow> u32" where
  "env_release_sync_lock cell = release_spin_lock cell"

text \<open>A freed lock is \<open>None\<close>.\<close>

definition env_delete_sync_lock :: "u32 option \<Rightarrow> u32 option" where
  "env_delete_sync_lock lock = (case lock of None \<Rightarrow> lock | Some cell \<Rightarrow> None)"

text \<open>\<open>env_create_sync_lock ok state\<close>: \<open>ok\<close> is the outcome of \<^verbatim>\<open>malloc\<close>.\<close>

definition env_create_sync_lock :: "bool \<Rightarrow> u32 \<Rightarrow> int \<times> u32 option" where
  "env_create_sync_lock ok state = (if ok then (0, Some state) else (-1, None))"

section \<open>Lemmas\<close>

lemmas intr_defs = env_disable_interrupts_def env_restore_interrupts_def
  disable_global_interrupts_def restore_global_interrupts_def ARM_AR_INT_BITS_SET_def
  ARM_AR_INT_BITS_GET_def

lemmas mutex_defs = env_lock_mutex_def env_unlock_mutex_def intr_defs

lemma intr_frame [simp]:
  "isr_table (env_disable_interrupts s) = isr_table s"
  "isr_table (env_restore_interrupts s) = isr_table s"
  "intr_count (env_disable_interrupts s) = intr_count s"
  "intr_count (env_restore_interrupts s) = intr_count s"
  "plat_calls (env_disable_interrupts s) = plat_calls s"
  "plat_calls (env_restore_interrupts s) = plat_calls s"
  "env_state.more (env_disable_interrupts s) = env_state.more s"
  "env_state.more (env_restore_interrupts s) = env_state.more s"
  "intr_enable_flag (env_restore_interrupts s)"
  "\<not> intr_enable_flag (env_disable_interrupts s)"
  by (simp_all add: intr_defs Let_def)

lemma plat_call_frame [simp]:
  "isr_table (plat_call c s) = isr_table s"
  "intr_count (plat_call c s) = intr_count s"
  "intr_enable_flag (plat_call c s) = intr_enable_flag s"
  "cpsr (plat_call c s) = cpsr s"
  "old_value (plat_call c s) = old_value s"
  "env_state.more (plat_call c s) = env_state.more s"
  "plat_calls (plat_call c s) = plat_calls s @ [c]"
  by (simp_all add: plat_call_def)

text \<open>The masked bits are only ever the I and F bits.\<close>

definition intr_wf :: "'a env_state_scheme \<Rightarrow> bool" where
  "intr_wf s \<longleftrightarrow> old_value s AND INTERRUPTS_BITS = old_value s"

lemma int_bits_get_set:
  "v AND INTERRUPTS_BITS = v \<Longrightarrow> ((c AND NOT INTERRUPTS_BITS) OR v) AND INTERRUPTS_BITS = v"
proof (rule bit_word_eqI)
  fix n :: nat
  assume "v AND INTERRUPTS_BITS = v"
  then have "bit v n \<Longrightarrow> bit INTERRUPTS_BITS n" by (metis bit_and_iff)
  then show "bit (((c AND NOT INTERRUPTS_BITS) OR v) AND INTERRUPTS_BITS) n = bit v n"
    by (auto simp: bit_simps)
qed

lemma intr_wf_disable: "intr_wf s \<Longrightarrow> intr_wf (env_disable_interrupts s)"
  by (auto simp: intr_wf_def intr_defs Let_def and.assoc)

lemma intr_wf_restore: "intr_wf s \<Longrightarrow> intr_wf (env_restore_interrupts s)"
  by (auto simp: intr_wf_def intr_defs Let_def)

subsection \<open>The handler table\<close>

definition isr_wf :: "'a env_state_scheme \<Rightarrow> bool" where
  "isr_wf s \<longleftrightarrow> length (isr_table s) = ISR_COUNT \<and> intr_count s \<le> ISR_COUNT"

lemma isr_wf_register: "isr_wf s \<Longrightarrow> isr_wf (env_register_isr_shared v d i n sh s)"
  by (auto simp: isr_wf_def env_register_isr_shared_def Let_def)

lemma env_enable_interrupt_loop_frame [simp]:
  "length (isr_table (env_enable_interrupt_loop idxs v p q s)) = length (isr_table s)"
  "intr_count (env_enable_interrupt_loop idxs v p q s) = intr_count s"
  by (induction idxs v p q s rule: env_enable_interrupt_loop.induct) auto

lemma isr_wf_enable: "isr_wf s \<Longrightarrow> isr_wf (env_enable_interrupt v p q s)"
  by (simp add: isr_wf_def env_enable_interrupt_def)

lemma env_update_isr_loop_frame:
  "env_update_isr_loop idxs v d i n sh s = Some s' \<Longrightarrow>
     length (isr_table s') = length (isr_table s) \<and> intr_count s' = intr_count s"
  by (induction idxs v d i n sh s rule: env_update_isr_loop.induct)
    (auto simp: Let_def option_bind_simps split: if_splits option.splits)

lemma isr_wf_update: "isr_wf s \<Longrightarrow> env_update_isr v d i n sh s = Some s' \<Longrightarrow> isr_wf s'"
  by (auto simp: isr_wf_def env_update_isr_def dest!: env_update_isr_loop_frame)

subsection \<open>Spin locks\<close>

lemma acquire_spin_lock_locked:
  "acquire_spin_lock cell ws = Some (cell', ws') \<Longrightarrow> cell' = LOCKED"
  by (induction cell ws rule: acquire_spin_lock.induct)
    (auto simp: xchg_def split: if_splits option.splits)

lemma acquire_spin_lock_taken:
  "(\<exists>r. acquire_spin_lock LOCKED ws = Some r) \<longleftrightarrow> (\<exists>v. Some v \<in> set ws \<and> v \<noteq> LOCKED)"
proof (induction ws)
  case Nil
  then show ?case by simp
next
  case (Cons w ws)
  then show ?case by (cases w) (auto simp: xchg_def)
qed

lemma acquire_spin_lock_free:
  "cell \<noteq> LOCKED \<Longrightarrow> acquire_spin_lock cell (None # ws) = Some (LOCKED, ws)"
  by (simp add: xchg_def)

subsection \<open>Dispatch\<close>

text \<open>
  What the dispatcher runs: the slots of the vector in table order, up to and including the
  first one that is not shared.
\<close>

definition isr_key :: "isr_info \<Rightarrow> u32 \<times> bool \<times> isr_fn option \<times> ptr" where
  "isr_key i = (ii_vector i, ii_shared i, ii_isr i, ii_data i)"

fun dispatched ::
  "(u32 \<times> bool \<times> isr_fn option \<times> ptr) list \<Rightarrow> u32 \<Rightarrow> (isr_fn option \<times> ptr) list" where
  "dispatched [] v = []"
| "dispatched ((v', sh, f, d) # ks) v =
     (if v' = v then (f, d) # (if sh then dispatched ks v else []) else dispatched ks v)"

text \<open>A handler that only logs its call, for the statement of the dispatch property.\<close>

definition log_call ::
  "isr_fn \<Rightarrow> u32 \<Rightarrow> ptr \<Rightarrow> (isr_fn option \<times> ptr) list env_state_scheme
     \<Rightarrow> (isr_fn option \<times> ptr) list env_state_scheme option" where
  "log_call f v d s = Some (s\<lparr>env_state.more := env_state.more s @ [(Some f, d)]\<rparr>)"

lemma isr_key_list_update:
  "isr_key i = isr_key (t ! k) \<Longrightarrow> map isr_key (t[k := i]) = map isr_key t"
  by (metis list_update_id map_update)

lemma isr_key_enable_loop [simp]:
  "map isr_key (isr_table (env_enable_interrupt_loop idxs v p q s)) = map isr_key (isr_table s)"
  "env_state.more (env_enable_interrupt_loop idxs v p q s) = env_state.more s"
  by (induction idxs v p q s rule: env_enable_interrupt_loop.induct)
    (auto simp: isr_key_list_update isr_key_def)

lemma isr_key_enable [simp]:
  "map isr_key (isr_table (env_enable_interrupt v p q s)) = map isr_key (isr_table s)"
  "env_state.more (env_enable_interrupt v p q s) = env_state.more s"
  by (simp_all add: env_enable_interrupt_def)

lemma bm_env_isr_loop_log:
  assumes "map isr_key (isr_table s) = ks"
    and "\<forall>k \<in> set idxs. k < length ks"
    and "\<forall>(v', sh, f, d) \<in> set ks. v' = v \<longrightarrow> f \<noteq> None"
  shows "\<exists>s'. bm_env_isr_loop log_call idxs v s = Some s' \<and>
           env_state.more s' = env_state.more s @ dispatched (map ((!) ks) idxs) v"
  using assms
proof (induction idxs arbitrary: s)
  case Nil
  then show ?case by simp
next
  case (Cons k idxs)
  define i where "i = isr_table s ! k"
  have len: "length (isr_table s) = length ks" using Cons.prems(1) by auto
  have key: "ks ! k = (ii_vector i, ii_shared i, ii_isr i, ii_data i)"
    using Cons.prems(1,2) by (auto simp: i_def isr_key_def)
  show ?case
  proof (cases "ii_vector i = v")
    case False
    with Cons.IH [OF Cons.prems(1)] Cons.prems(2,3) key show ?thesis by (simp add: i_def)
  next
    case True
    have "ks ! k \<in> set ks" using Cons.prems(2) by simp
    with Cons.prems(3) True key obtain f where f: "ii_isr i = Some f" by fastforce
    define s1 where "s1 = s\<lparr>env_state.more := env_state.more s @ [(Some f, ii_data i)]\<rparr>"
    define s2 where "s2 = env_enable_interrupt v (ii_priority i) (ii_type i) s1"
    have s2: "map isr_key (isr_table s2) = ks"
      "env_state.more s2 = env_state.more s @ [(Some f, ii_data i)]"
      using Cons.prems(1) by (simp_all add: s2_def s1_def)
    then have "isr_key (isr_table s2 ! k) = ks ! k" using Cons.prems(2) by auto
    then have sh: "ii_shared (isr_table s2 ! k) = ii_shared i" using key by (simp add: isr_key_def)
    have step: "bm_env_isr_loop log_call (k # idxs) v s =
        (if \<not> ii_shared i then Some s2 else bm_env_isr_loop log_call idxs v s2)"
      using True f sh by (simp add: log_call_def s2_def s1_def i_def Let_def)
    show ?thesis
      unfolding step using Cons.IH [OF s2(1)] Cons.prems(2,3) s2(2) True key f
      by (cases "ii_shared i") auto
  qed
qed

section \<open>Properties\<close>

text \<open>
  Property C39.  The interrupt dispatcher \<^verbatim>\<open>bm_env_isr\<close> calls the handlers registered for the
  vector in table order, each with its own data, up to and including the first slot that is
  not marked shared, and no other handler; it always returns when every slot of the vector
  has a handler.
\<close>

theorem bm_env_isr_dispatch:
  assumes "isr_wf s" and "\<forall>i \<in> set (isr_table s). ii_vector i = v \<longrightarrow> ii_isr i \<noteq> None"
  shows "\<exists>s'. bm_env_isr log_call v s = Some s' \<and>
           env_state.more s' = env_state.more s @ dispatched (map isr_key (isr_table s)) v"
proof -
  let ?s = "env_disable_interrupt v s" and ?ks = "map isr_key (isr_table s)"
  have "\<exists>s'. bm_env_isr_loop log_call [0..<ISR_COUNT] v ?s = Some s' \<and>
      env_state.more s' = env_state.more ?s @ dispatched (map ((!) ?ks) [0..<ISR_COUNT]) v"
    using assms by (intro bm_env_isr_loop_log) (auto simp: env_disable_interrupt_def isr_wf_def isr_key_def)
  moreover have "map ((!) ?ks) [0..<ISR_COUNT] = ?ks"
    using assms(1) by (simp add: isr_wf_def map_nth [of ?ks, simplified] list_eq_iff_nth_eq)
  ultimately show ?thesis by (simp add: bm_env_isr_def env_disable_interrupt_def)
qed

definition env_example :: "(isr_fn option \<times> ptr) list env_state_scheme" where
  "env_example = \<lparr>isr_table =
       [isr_info0\<lparr>ii_vector := 65, ii_isr := Some Ipi_handler, ii_shared := True, ii_data := 7\<rparr>,
        isr_info0\<lparr>ii_vector := 65, ii_isr := Some Platform_isr, ii_shared := False, ii_data := 8\<rparr>,
        isr_info0, isr_info0],
     intr_count = 2, intr_enable_flag = True, cpsr = 0x1F, old_value = 0, plat_calls = [], \<dots> = []\<rparr>"

theorem bm_env_isr_dispatch_witness:
  "isr_wf env_example \<and> (\<exists>s'. bm_env_isr log_call 65 env_example = Some s' \<and>
     env_state.more s' = [(Some Ipi_handler, 7), (Some Platform_isr, 8)])"
proof -
  have wf: "isr_wf env_example" by (simp add: isr_wf_def env_example_def ISR_COUNT_def)
  have "\<forall>i \<in> set (isr_table env_example). ii_vector i = 65 \<longrightarrow> ii_isr i \<noteq> None"
    by (simp add: env_example_def isr_info0_def)
  from bm_env_isr_dispatch [OF wf this] wf show ?thesis
    by (simp add: env_example_def isr_key_def)
qed

text \<open>
  Property C40.  Interrupt masking works at most once: \<^verbatim>\<open>disable_global_interrupts\<close> masks the I and F bits
  only when their value differs from the saved \<^verbatim>\<open>old_value\<close>, and unlocking restores exactly
  \<^verbatim>\<open>old_value\<close>; so after any lock/unlock pair the next \<^verbatim>\<open>env_lock_mutex\<close> leaves the
  I and F bits of CPSR as they are and the critical section runs with interrupts enabled.
\<close>

theorem env_lock_mutex_second_lock_masks_nothing:
  assumes "intr_wf s" and "intr_enable_flag s"
  shows "let u = env_unlock_mutex (env_lock_mutex s)
         in cpsr (env_lock_mutex u) = cpsr u \<and> \<not> intr_enable_flag (env_lock_mutex u)"
proof -
  let ?u = "env_unlock_mutex (env_lock_mutex s)"
  have "ARM_AR_INT_BITS_GET ?u = old_value ?u"
    using assms intr_wf_disable [OF assms(1)]
    by (auto simp: mutex_defs Let_def int_bits_get_set intr_wf_def and.assoc)
  then show ?thesis by (simp add: Let_def mutex_defs)
qed

theorem env_lock_mutex_second_lock_witness:
  "intr_wf env_example \<and> intr_enable_flag env_example \<and>
     (let u = env_unlock_mutex (env_lock_mutex env_example) in cpsr (env_lock_mutex u) = cpsr u)"
proof -
  have wf: "intr_wf env_example" "intr_enable_flag env_example"
    by (simp_all add: intr_wf_def env_example_def)
  with env_lock_mutex_second_lock_masks_nothing [OF wf] show ?thesis by (simp add: Let_def)
qed

text \<open>
  The spin lock excludes: \<^verbatim>\<open>env_acquire_sync_lock\<close> on a taken lock returns exactly when some
  handler releases the lock while it waits, it leaves the lock taken, and a release makes
  the next acquisition return at once.
\<close>

theorem sync_lock_acquire_iff_released:
  "((\<exists>r. env_acquire_sync_lock LOCKED ws = Some r) \<longleftrightarrow> (\<exists>v. Some v \<in> set ws \<and> v \<noteq> LOCKED)) \<and>
   env_acquire_sync_lock (env_release_sync_lock c) (None # ws) = Some (LOCKED, ws)"
proof -
  have "release_spin_lock c \<noteq> LOCKED" by (simp add: release_spin_lock_def xchg_def UNLOCKED_def LOCKED_def)
  from acquire_spin_lock_free [OF this] show ?thesis
    unfolding env_acquire_sync_lock_def env_release_sync_lock_def
    by (simp only: acquire_spin_lock_taken simp_thms)
qed

end
