(* ===== verification/LList.thy ===== *)
theory LList
  imports Prelude
begin

text \<open>
  The doubly linked list of \<^verbatim>\<open>lib/common/llist.c\<close>, which holds the channels and endpoints of a
  remote device and the processors of the hardware interface layer.  Nodes live in a heap
  \<open>ptr \<rightharpoonup> llist\<close>; a list is named by the pointer to its first node.  \<open>dll\<close> relates a list in the
  heap to the sequence of its nodes, and the operations are shown to implement consing and
  removal on that sequence.  The contract is the locale \<open>heap_list\<close>, which the code's two
  functions interpret.
\<close>

section \<open>Model\<close>

record llist =
  ll_data :: ptr
  ll_attr :: u32
  ll_next :: ptr
  ll_prev :: ptr

type_synonym node_heap = "ptr \<rightharpoonup> llist"

definition add_to_list :: "node_heap \<Rightarrow> ptr \<Rightarrow> ptr \<Rightarrow> (node_heap \<times> ptr) option" where
  "add_to_list h head node =
     (if node = NULL then Some (h, head)
      else if head \<noteq> NULL then do {
        n \<leftarrow> h node;
        let h = h(node \<mapsto> n\<lparr>ll_next := head, ll_prev := NULL\<rparr>);
        hd0 \<leftarrow> h head;
        let h = h(head \<mapsto> hd0\<lparr>ll_prev := node\<rparr>);
        Some (h, node) }
      else do {
        n \<leftarrow> h node;
        Some (h(node \<mapsto> n\<lparr>ll_next := NULL, ll_prev := NULL\<rparr>), node) })"

definition remove_from_list :: "node_heap \<Rightarrow> ptr \<Rightarrow> ptr \<Rightarrow> (node_heap \<times> ptr) option" where
  "remove_from_list h head node =
     (if head = NULL \<or> node = NULL then Some (h, head)
      else if node = head then do {
        hd0 \<leftarrow> h head;
        Some (h, ll_next hd0) }
      else do {
        n \<leftarrow> h node;
        p \<leftarrow> h (ll_prev n);
        let h = h(ll_prev n \<mapsto> p\<lparr>ll_next := ll_next n\<rparr>);
        (if ll_next n = NULL then Some (h, head)
         else do {
           q \<leftarrow> h (ll_next n);
           Some (h(ll_next n \<mapsto> q\<lparr>ll_prev := ll_prev n\<rparr>), head) }) })"

text \<open>
  The search loops of the library (\<^verbatim>\<open>while (node) \<dots> node = node->next\<close>): the first node whose
  data satisfies the test, \<^verbatim>\<open>NULL\<close> when there is none.  On a cyclic list the loop does not
  return.
\<close>

partial_function (option) find_node :: "node_heap \<Rightarrow> (ptr \<Rightarrow> bool option) \<Rightarrow> ptr \<Rightarrow> ptr option" where
  "find_node h P p =
     (if p = NULL then Some NULL
      else do {
        n \<leftarrow> h p;
        b \<leftarrow> P (ll_data n);
        (if b then Some p else find_node h P (ll_next n)) })"

declare find_node.simps [code]

section \<open>Lists in the heap\<close>

text \<open>
  \<open>dll h p xs\<close>: starting at \<open>p\<close> the \<^verbatim>\<open>next\<close> links visit exactly the nodes \<open>xs\<close>, and every node
  after the first points back to its predecessor.  The \<^verbatim>\<open>prev\<close> link of the first node is not
  constrained: removing the first node leaves a stale one behind.
\<close>

fun dll :: "node_heap \<Rightarrow> ptr \<Rightarrow> ptr list \<Rightarrow> bool" where
  "dll h p [] \<longleftrightarrow> p = NULL"
| "dll h p [x] \<longleftrightarrow> p = x \<and> x \<noteq> NULL \<and> (\<exists>n. h x = Some n \<and> ll_next n = NULL)"
| "dll h p (x # y # xs) \<longleftrightarrow> p = x \<and> x \<noteq> NULL \<and> (\<exists>n. h x = Some n \<and> ll_next n = y) \<and>
     (\<exists>m. h y = Some m \<and> ll_prev m = x) \<and> dll h y (y # xs)"

lemma dll_NULL [simp]: "dll h NULL xs \<longleftrightarrow> xs = []"
  by (induction h "0 :: nat" xs rule: dll.induct) auto

lemma dll_head: "dll h p (x # xs) \<Longrightarrow> p = x \<and> x \<noteq> NULL \<and> (\<exists>n. h x = Some n \<and> dll h (ll_next n) xs)"
  by (cases xs) auto

lemma dll_alloc: "dll h p xs \<Longrightarrow> x \<in> set xs \<Longrightarrow> x \<noteq> NULL \<and> h x \<noteq> None"
  by (induction h p xs rule: dll.induct) auto

lemma dll_cong:
  assumes "dll h p xs" "\<And>x. x \<in> set xs \<Longrightarrow>
    map_option (\<lambda>n. (ll_next n, ll_prev n)) (h' x) = map_option (\<lambda>n. (ll_next n, ll_prev n)) (h x)"
  shows "dll h' p xs"
  using assms
proof (induction h p xs rule: dll.induct)
  case (1 h p)
  then show ?case by simp
next
  case (2 h p x)
  then show ?case by (fastforce simp: map_option_case split: option.splits)
next
  case (3 h p x y xs)
  have x: "map_option (\<lambda>n. (ll_next n, ll_prev n)) (h' x) = map_option (\<lambda>n. (ll_next n, ll_prev n)) (h x)"
    and y: "map_option (\<lambda>n. (ll_next n, ll_prev n)) (h' y) = map_option (\<lambda>n. (ll_next n, ll_prev n)) (h y)"
    using 3 by simp_all
  have "dll h' y (y # xs)" using 3 by simp
  with x y 3(2) show ?case by (auto simp: map_option_case split: option.splits)
qed

lemma dll_upd_notin [simp]: "x \<notin> set xs \<Longrightarrow> dll h p xs \<Longrightarrow> dll (h(x := v)) p xs"
  by (erule dll_cong) auto

text \<open>The \<^verbatim>\<open>prev\<close> link of the first node may be anything.\<close>

lemma dll_upd_head_prev:
  "dll h p (x # xs) \<Longrightarrow> distinct (x # xs) \<Longrightarrow> h x = Some n \<Longrightarrow>
     dll (h(x \<mapsto> n\<lparr>ll_prev := q\<rparr>)) p (x # xs)"
  by (cases xs) (auto intro: dll_upd_notin)

lemma dll_Cons:
  "dll h x (x # xs) \<longleftrightarrow> x \<noteq> NULL \<and>
     (\<exists>n. h x = Some n \<and> dll h (ll_next n) xs \<and>
       (xs \<noteq> [] \<longrightarrow> (\<exists>m. h (hd xs) = Some m \<and> ll_prev m = x)))"
  by (cases xs) (auto dest: dll_head)

lemma dll_unique: "dll h p xs \<Longrightarrow> dll h p ys \<Longrightarrow> xs = ys"
proof (induction xs arbitrary: p ys)
  case Nil
  then show ?case by simp
next
  case (Cons x xs)
  then obtain y ys' where "ys = y # ys'" by (cases ys) (auto dest: dll_head)
  with Cons show ?case by (fastforce dest!: dll_head)
qed

section \<open>The operations\<close>

text \<open>Neither operation changes the data of a node or the set of allocated nodes.\<close>

definition same_data :: "node_heap \<Rightarrow> node_heap \<Rightarrow> bool" where
  "same_data h h' \<longleftrightarrow> (\<forall>x. map_option ll_data (h' x) = map_option ll_data (h x))"

lemma same_data_refl [simp]: "same_data h h"
  by (simp add: same_data_def)

lemma add_to_list_correct:
  assumes "dll h p xs" "distinct xs" "node \<noteq> NULL" "h node \<noteq> None" "node \<notin> set xs"
  shows "\<exists>h'. add_to_list h p node = Some (h', node) \<and> dll h' node (node # xs) \<and> same_data h h' \<and>
    (\<forall>x. x \<notin> set (node # xs) \<longrightarrow> h' x = h x)"
proof (cases xs)
  case Nil
  with assms show ?thesis by (auto simp: add_to_list_def same_data_def)
next
  case (Cons x ys)
  with assms(1) obtain m where m: "p = x" "x \<noteq> NULL" "h x = Some m" by (auto dest: dll_head)
  from assms(4) obtain n where n: "h node = Some n" by auto
  have ne: "node \<noteq> x" using assms(5) Cons by auto
  define h' where "h' = h(node \<mapsto> n\<lparr>ll_next := x, ll_prev := NULL\<rparr>, x \<mapsto> m\<lparr>ll_prev := node\<rparr>)"
  have "dll (h(x \<mapsto> m\<lparr>ll_prev := node\<rparr>)) x (x # ys)"
    using assms(1,2) Cons m by (auto intro: dll_upd_head_prev)
  then have "dll h' x (x # ys)"
    using assms(5) Cons ne by (auto simp: h'_def fun_upd_twist intro!: dll_upd_notin)
  moreover have "h' node = Some (n\<lparr>ll_next := x, ll_prev := NULL\<rparr>)" "h' x = Some (m\<lparr>ll_prev := node\<rparr>)"
    using ne by (auto simp: h'_def)
  ultimately have "dll h' node (node # xs)" using assms(3) Cons by simp
  moreover have "add_to_list h p node = Some (h', node)"
    using assms(3) m n ne by (simp add: add_to_list_def h'_def Let_def)
  ultimately show ?thesis using m n ne Cons by (auto simp: h'_def same_data_def)
qed

text \<open>Unlinking the node \<open>x\<close> that follows \<open>u\<close>.\<close>

definition unlink :: "node_heap \<Rightarrow> ptr \<Rightarrow> llist \<Rightarrow> llist \<Rightarrow> node_heap" where
  "unlink h u m n =
     (let h1 = h(u \<mapsto> m\<lparr>ll_next := ll_next n\<rparr>)
      in if ll_next n = NULL then h1
         else h1(ll_next n := map_option (\<lambda>q. q\<lparr>ll_prev := u\<rparr>) (h1 (ll_next n))))"

lemma dll_unlink_base:
  assumes "dll h u (u # x # bs)" "distinct (u # x # bs)" "h u = Some m" "h x = Some n"
  shows "dll (unlink h u m n) u (u # bs)"
proof (cases bs)
  case Nil
  with assms show ?thesis by (simp add: unlink_def)
next
  case (Cons b cs)
  with assms(1) obtain q where q: "h b = Some q" "ll_next n = b" "b \<noteq> NULL" "dll h b (b # cs)"
    using assms(4) by (auto dest: dll_alloc)
  have ub: "u \<noteq> b" using assms(2) Cons by auto
  have "dll (h(b \<mapsto> q\<lparr>ll_prev := u\<rparr>)) b (b # cs)"
    using q assms(2) Cons by (intro dll_upd_head_prev) auto
  then have "dll (h(b \<mapsto> q\<lparr>ll_prev := u\<rparr>, u \<mapsto> m\<lparr>ll_next := b\<rparr>)) b (b # cs)"
    by (rule dll_upd_notin [rotated]) (use assms(2) Cons in auto)
  moreover have "unlink h u m n = h(b \<mapsto> q\<lparr>ll_prev := u\<rparr>, u \<mapsto> m\<lparr>ll_next := b\<rparr>)"
    using q ub by (auto simp: unlink_def Let_def fun_upd_twist)
  ultimately show ?thesis using assms(1) Cons ub by auto
qed

lemma unlink_frame:
  "y \<noteq> u \<Longrightarrow> y \<noteq> ll_next n \<Longrightarrow> unlink h u m n y = h y"
  by (simp add: unlink_def Let_def)

lemma unlink_prev_u:
  "ll_next n \<noteq> u \<Longrightarrow> unlink h u m n u = Some (m\<lparr>ll_next := ll_next n\<rparr>)"
  by (simp add: unlink_def Let_def)

lemma dll_unlink:
  assumes "dll h p (as @ u # x # bs)" "distinct (as @ u # x # bs)" "h u = Some m" "h x = Some n"
  shows "dll (unlink h u m n) p (as @ u # bs)"
  using assms(1,2)
proof (induction as arbitrary: p)
  case Nil
  then have "p = u" by simp
  with Nil have "dll h u (u # x # bs)" "distinct (u # x # bs)" by simp_all
  from dll_unlink_base [OF this assms(3,4)] \<open>p = u\<close> show ?case by simp
next
  case (Cons a as)
  let ?h = "unlink h u m n"
  from Cons.prems(1) have pa: "p = a" by (auto dest: dll_head)
  have "dll h a (a # (as @ u # x # bs))" using Cons.prems(1) pa by simp
  then obtain na where na: "a \<noteq> NULL" "h a = Some na" "dll h (ll_next na) (as @ u # x # bs)"
    "\<exists>w. h (hd (as @ u # x # bs)) = Some w \<and> ll_prev w = a"
    unfolding dll_Cons by auto
  have nx: "ll_next n = NULL \<or> bs \<noteq> [] \<and> ll_next n = hd bs"
  proof -
    have "dll h x (x # bs)" using na(3) by (induction as arbitrary: na) (auto simp: dll_Cons dest: dll_head)
    then show ?thesis using assms(4) by (cases bs) auto
  qed
  moreover have "NULL \<notin> set ((a # as) @ u # x # bs)" using dll_alloc [OF Cons.prems(1)] by blast
  moreover have "bs \<noteq> [] \<Longrightarrow> hd bs \<in> set bs" by simp
  ultimately have notin: "ll_next n \<notin> set (a # as) \<and> ll_next n \<noteq> u"
    using Cons.prems(2) by auto
  have rest: "dll ?h (ll_next na) (as @ u # bs)" using Cons na(3) by simp
  have a: "?h a = Some na" using na(2) notin Cons.prems(2) by (subst unlink_frame) auto
  have "\<exists>w. ?h (hd (as @ u # bs)) = Some w \<and> ll_prev w = a"
  proof (cases as)
    case Nil
    with na(4) notin assms(3) show ?thesis by (simp add: unlink_prev_u)
  next
    case (Cons c cs)
    with na(4) notin \<open>distinct ((a # as) @ u # x # bs)\<close> show ?thesis
      by (auto simp: unlink_frame)
  qed
  with pa na(1) a rest show ?case by (simp add: dll_Cons)
qed

lemma same_data_unlink: "h u = Some m \<Longrightarrow> same_data h (unlink h u m n)"
  by (auto simp: same_data_def unlink_def Let_def option.map_comp comp_def)

lemma remove_from_list_correct:
  assumes "dll h p xs" "distinct xs" "node \<in> set xs"
  shows "\<exists>h' p'. remove_from_list h p node = Some (h', p') \<and> dll h' p' (remove1 node xs) \<and> same_data h h' \<and>
    (\<forall>x. x \<notin> set xs \<longrightarrow> h' x = h x)"
proof -
  from assms(3) obtain ys zs where xs: "xs = ys @ node # zs" "node \<notin> set ys"
    by (auto dest: split_list_first)
  have "p \<noteq> NULL" using assms(1,3) by (metis dll_NULL empty_iff list.set(1))
  moreover have "node \<noteq> NULL" using assms(1,3) by (auto dest: dll_alloc)
  ultimately have pn: "p \<noteq> NULL" "node \<noteq> NULL" .
  show ?thesis
  proof (cases ys rule: rev_cases)
    case Nil
    with assms(1) xs obtain n where "p = node" "h node = Some n" "dll h (ll_next n) zs"
      by (auto dest: dll_head)
    with pn xs Nil show ?thesis by (auto simp: remove_from_list_def)
  next
    case (snoc as u)
    have d: "dll h p (as @ u # node # zs)" "distinct (as @ u # node # zs)"
      using assms(1,2) xs snoc by simp_all
    have "h u \<noteq> None" "h node \<noteq> None" using dll_alloc [OF d(1)] by auto
    then obtain m n where mn: "h u = Some m" "h node = Some n" by auto
    have tail: "dll h u (u # node # zs)"
      using d(1) by (induction as arbitrary: p) (auto simp: dll_Cons dest: dll_head)
    then have prev: "ll_prev n = u" using mn by simp
    have nnext: "ll_next n \<noteq> NULL \<Longrightarrow> (ll_next n \<noteq> u \<and> (\<exists>q. h (ll_next n) = Some q))"
      using tail mn d(2) by (cases zs) (auto dest: dll_alloc)
    have nin: "ll_next n \<noteq> NULL \<Longrightarrow> ll_next n \<in> set zs" using tail mn by (cases zs) auto
    have "node \<noteq> p" using d by (cases as) (auto dest: dll_head)
    then have "remove_from_list h p node = Some (unlink h u m n, p)"
      using pn mn prev nnext by (auto simp: remove_from_list_def unlink_def Let_def)
    moreover have "unlink h u m n y = h y" if "y \<notin> set xs" for y
      using that nin xs snoc by (auto simp: unlink_def Let_def)
    ultimately show ?thesis using dll_unlink [OF d mn] same_data_unlink [of h u m n] mn(1) xs snoc
      by (simp add: remove1_append)
  qed
qed

lemma find_node_correct:
  assumes "dll h p xs" "\<And>x n. x \<in> set xs \<Longrightarrow> h x = Some n \<Longrightarrow> P (ll_data n) = Some (Q x)"
  shows "find_node h P p = Some (case filter Q xs of [] \<Rightarrow> NULL | x # _ \<Rightarrow> x)"
  using assms
proof (induction xs arbitrary: p)
  case Nil
  then show ?case by (subst find_node.simps) simp
next
  case (Cons x xs)
  then obtain n where n: "p = x" "x \<noteq> NULL" "h x = Some n" "dll h (ll_next n) xs"
    by (auto dest: dll_head)
  then have P: "P (ll_data n) = Some (Q x)" using Cons.prems(2) by simp
  have "find_node h P (ll_next n) = Some (case filter Q xs of [] \<Rightarrow> NULL | x # _ \<Rightarrow> x)"
    using n(4) Cons.prems(2) by (intro Cons.IH) auto
  with n P show ?case by (subst find_node.simps) simp
qed

text \<open>Nodes outside the list are not touched, so two disjoint lists can share the heap.\<close>

lemma add_to_list_frame:
  assumes "dll h p xs" "distinct xs" "node \<noteq> NULL" "h node \<noteq> None" "node \<notin> set xs" "add_to_list h p node = Some (h', q)"
    and "x \<notin> set (node # xs)"
  shows "h' x = h x"
  using add_to_list_correct [OF assms(1-5)] assms(6,7) by auto

lemma remove_from_list_frame:
  assumes "dll h p xs" "distinct xs" "node \<in> set xs" "remove_from_list h p node = Some (h', q)" "x \<notin> set xs"
  shows "h' x = h x"
  using remove_from_list_correct [OF assms(1-3)] assms(4,5) by auto

section \<open>The interface\<close>

text \<open>
  What the clients of a list in the heap rely on: \<open>seq h p xs\<close> holds when the list at \<open>p\<close> has the
  nodes \<open>xs\<close>; insertion puts a fresh node first, removal takes a node out, a search returns the first
  node that satisfies the test.
\<close>

locale heap_list =
  fixes seq :: "'h \<Rightarrow> 'p \<Rightarrow> 'p list \<Rightarrow> bool"
    and fresh :: "'h \<Rightarrow> 'p \<Rightarrow> bool"
    and keeps :: "'h \<Rightarrow> 'h \<Rightarrow> bool"
    and add :: "'h \<Rightarrow> 'p \<Rightarrow> 'p \<Rightarrow> ('h \<times> 'p) option"
    and remove :: "'h \<Rightarrow> 'p \<Rightarrow> 'p \<Rightarrow> ('h \<times> 'p) option"
  assumes seq_distinct: "seq h p xs \<Longrightarrow> distinct xs"
    and seq_det: "seq h p xs \<Longrightarrow> seq h p ys \<Longrightarrow> xs = ys"
    and add_seq: "seq h p xs \<Longrightarrow> fresh h x \<Longrightarrow> x \<notin> set xs \<Longrightarrow>
      \<exists>h'. add h p x = Some (h', x) \<and> seq h' x (x # xs) \<and> keeps h h'"
    and remove_seq: "seq h p xs \<Longrightarrow> x \<in> set xs \<Longrightarrow>
      \<exists>h' p'. remove h p x = Some (h', p') \<and> seq h' p' (remove1 x xs) \<and> keeps h h'"
    and keeps_trans: "keeps h h' \<Longrightarrow> keeps h' h'' \<Longrightarrow> keeps h h''"
begin

lemma add_remove_same:
  assumes "seq h p xs" "fresh h x" "x \<notin> set xs"
  shows "\<exists>h' h'' p''. add h p x = Some (h', x) \<and> remove h' x x = Some (h'', p'') \<and>
           seq h'' p'' xs \<and> keeps h h''"
proof -
  from add_seq [OF assms] obtain h' where h': "add h p x = Some (h', x)" "seq h' x (x # xs)" "keeps h h'"
    by blast
  from remove_seq [OF h'(2), of x] obtain h'' p'' where
    "remove h' x x = Some (h'', p'')" "seq h'' p'' xs" "keeps h' h''" by auto
  with h' keeps_trans show ?thesis by blast
qed

lemma remove_absent:
  assumes "seq h p xs" "x \<in> set xs" "remove h p x = Some (h', p')"
  shows "\<exists>ys. seq h' p' ys \<and> x \<notin> set ys \<and> insert x (set ys) = set xs"
proof -
  from remove_seq [OF assms(1,2)] assms(3) have "seq h' p' (remove1 x xs)" by auto
  then show ?thesis using seq_distinct [OF assms(1)] assms(2) by (auto intro!: exI [of _ "remove1 x xs"])
qed

end

definition node_seq :: "node_heap \<Rightarrow> ptr \<Rightarrow> ptr list \<Rightarrow> bool" where
  "node_seq h p xs \<longleftrightarrow> dll h p xs \<and> distinct xs"

lemma node_seq_frame: "node_seq h p xs \<Longrightarrow> (\<And>x. x \<in> set xs \<Longrightarrow> h' x = h x) \<Longrightarrow> node_seq h' p xs"
  unfolding node_seq_def by (auto intro: dll_cong [of h p xs h'])

definition node_fresh :: "node_heap \<Rightarrow> ptr \<Rightarrow> bool" where
  "node_fresh h x \<longleftrightarrow> x \<noteq> NULL \<and> h x \<noteq> None"

interpretation ll: heap_list node_seq node_fresh same_data add_to_list remove_from_list
proof (unfold_locales, goal_cases)
  case (1 h p xs)
  then show ?case by (simp add: node_seq_def)
next
  case (2 h p xs ys)
  then show ?case by (auto simp: node_seq_def dest: dll_unique)
next
  case (3 h p xs x)
  then show ?case using add_to_list_correct [of h p xs x] by (auto simp: node_seq_def node_fresh_def)
next
  case (4 h p xs x)
  then show ?case using remove_from_list_correct [of h p xs x] by (auto simp: node_seq_def)
next
  case (5 h h' h'')
  then show ?case by (simp add: same_data_def)
qed

section \<open>Properties\<close>


definition llist_example :: node_heap where
  "llist_example = [1 \<mapsto> \<lparr>ll_data = 11, ll_attr = 0, ll_next = 2, ll_prev = 0\<rparr>,
     2 \<mapsto> \<lparr>ll_data = 12, ll_attr = 0, ll_next = 3, ll_prev = 1\<rparr>,
     3 \<mapsto> \<lparr>ll_data = 13, ll_attr = 0, ll_next = 0, ll_prev = 2\<rparr>,
     4 \<mapsto> \<lparr>ll_data = 14, ll_attr = 0, ll_next = 0, ll_prev = 0\<rparr>]"


text \<open>
  The search loop over a well-formed list returns: it gives the first node whose data passes
  the test and \<^verbatim>\<open>NULL\<close> when there is none.
\<close>

theorem find_node_first_match:
  assumes "node_seq h p xs" and "\<forall>x \<in> set xs. \<forall>n. h x = Some n \<longrightarrow> P (ll_data n) = Some (Q x)"
  shows "find_node h P p = Some (case filter Q xs of [] \<Rightarrow> NULL | x # _ \<Rightarrow> x)"
  using assms find_node_correct [of h p xs P Q] by (auto simp: node_seq_def)

theorem find_node_first_match_witness:
  "find_node llist_example (\<lambda>d. Some (d = 12)) 1 = Some 2"
proof -
  have a: "node_seq llist_example 1 [1, 2, 3]" by (simp add: node_seq_def llist_example_def)
  have "\<forall>x \<in> set [1, 2, 3]. \<forall>n. llist_example x = Some n \<longrightarrow> Some (ll_data n = 12) = Some (x = 2)"
    by (simp add: llist_example_def)
  from find_node_first_match [OF a this] show ?thesis by simp
qed

end
