(* ===== verification/ShMem.thy ===== *)
theory ShMem
  imports Memory "HOL-Library.Signed_Division"
begin

text \<open>
  The shared-memory buffer pool of \<^verbatim>\<open>lib/common/sh_mem.c\<close>: a bitmap allocator of fixed-size
  buffers.  The model keeps the code's memory layout of the bitmap: \<^verbatim>\<open>sh_mem_create_pool\<close>
  allocates \<open>bmp_size\<close> words behind the control block, while the accessor macro
  \<^verbatim>\<open>SH_MEM_POOL_LOCATE_BITMAP\<close> steps by 32 bytes, so bitmap word \<open>idx\<close> is the allocated word
  \<open>8 * idx\<close>.

  Shown here: the bit trick \<^verbatim>\<open>get_first_zero_bit\<close> finds the lowest zero bit; allocation and
  release implement a set of allocated indices (locale \<open>buffer_pool\<close>); buffers handed out are distinct
  and inside the region; the conditions under which the stride of the macro leaves the allocated
  bitmap.
\<close>

section \<open>Lowest zero bit\<close>

text \<open>\<open>033333333333\<close>, \<open>011111111111\<close> and \<open>030707070707\<close> of the source, in hexadecimal.\<close>

definition log2_of_mask :: "u32 \<Rightarrow> u32" where
  "log2_of_mask v =
     (let tmp32 = v - (drop_bit 1 v AND 0xDB6DB6DB) - (drop_bit 2 v AND 0x49249249)
      in ((tmp32 + drop_bit 3 tmp32) AND 0xC71C71C7) mod 63)"

definition get_first_zero_bit :: "u32 \<Rightarrow> u32" where
  "get_first_zero_bit v =
     (let v = NOT v;
          v = (v AND (- v)) - 1
      in log2_of_mask v)"

section \<open>The pool\<close>

definition BITMAP_WORD_SIZE :: nat where
  "BITMAP_WORD_SIZE = 32"

definition WORD_SIZE :: u32 where
  "WORD_SIZE = 4"

definition WORD_ALIGN :: "u32 \<Rightarrow> u32" where
  "WORD_ALIGN a = (if a AND (WORD_SIZE - 1) \<noteq> 0 then (a AND NOT (WORD_SIZE - 1)) + 4 else a)"

record sh_mem_pool =
  sp_start_addr :: u32
  sp_buff_size :: u32
  sp_total_buffs :: nat
  sp_used_buffs :: int
  sp_bmp_size :: nat
  sp_bitmap :: "u32 list"

text \<open>
  \<^verbatim>\<open>SH_MEM_POOL_LOCATE_BITMAP(pool, idx)\<close> is \<open>32 * idx\<close> bytes into the bitmap area, that is word
  \<open>8 * idx\<close> of it.
\<close>

definition LOCATE_BITMAP :: "nat \<Rightarrow> nat" where
  "LOCATE_BITMAP idx = (BITMAP_WORD_SIZE * idx) div 4"

text \<open>
  \<open>sh_mem_create_pool ok start size buff_size\<close>: \<open>ok\<close> is the outcome of \<^verbatim>\<open>env_allocate_memory\<close>.
  The outer \<open>None\<close> is the division by zero that follows when \<^verbatim>\<open>WORD_ALIGN\<close> wraps to 0; the inner
  \<open>None\<close> is the \<^verbatim>\<open>NULL\<close> result.
\<close>

definition sh_mem_create_pool :: "bool \<Rightarrow> u32 \<Rightarrow> u32 \<Rightarrow> u32 \<Rightarrow> sh_mem_pool option option" where
  "sh_mem_create_pool ok start_addr sz buff_size =
     (if start_addr = 0 \<or> sz = 0 \<or> buff_size = 0 then Some None
      else
        let buff_size = WORD_ALIGN buff_size
        in if buff_size = 0 then None
           else
             let num_buffs = unat (sz div buff_size) + (if sz mod buff_size = 0 then 0 else 1);
                 bmp_size = num_buffs div BITMAP_WORD_SIZE
                   + (if num_buffs mod BITMAP_WORD_SIZE = 0 then 0 else 1)
             in if \<not> ok then Some None
                else Some (Some \<lparr>sp_start_addr = start_addr, sp_buff_size = buff_size,
                       sp_total_buffs = num_buffs, sp_used_buffs = 0, sp_bmp_size = bmp_size,
                       sp_bitmap = replicate bmp_size 0\<rparr>))"

text \<open>The loop of \<^verbatim>\<open>sh_mem_get_buffer\<close> over the bitmap words; the result is the buffer address, 0 for \<^verbatim>\<open>NULL\<close>.\<close>

fun sh_mem_get_buffer_loop :: "nat list \<Rightarrow> sh_mem_pool \<Rightarrow> (u32 \<times> sh_mem_pool) option" where
  "sh_mem_get_buffer_loop [] p = Some (0, p)"
| "sh_mem_get_buffer_loop (idx # idxs) p = do {
     w \<leftarrow> aget (sp_bitmap p) (LOCATE_BITMAP idx);
     let bit_idx = unat (get_first_zero_bit w);
     (if bit_idx < 32 then do {
        bmp \<leftarrow> aset (sp_bitmap p) (LOCATE_BITMAP idx) (w OR push_bit bit_idx 1);
        Some (sp_start_addr p + sp_buff_size p * of_nat (idx * BITMAP_WORD_SIZE + bit_idx),
              p\<lparr>sp_bitmap := bmp, sp_used_buffs := sp_used_buffs p + 1\<rparr>) }
      else sh_mem_get_buffer_loop idxs p) }"

definition sh_mem_get_buffer :: "sh_mem_pool \<Rightarrow> (u32 \<times> sh_mem_pool) option" where
  "sh_mem_get_buffer p =
     (if sp_used_buffs p \<ge> int (sp_total_buffs p) then Some (0, p)
      else sh_mem_get_buffer_loop [0..<sp_bmp_size p] p)"

text \<open>
  \<^verbatim>\<open>sh_mem_free_buffer\<close>: the pointer difference is signed and the division truncates; a
  negative index shifts by a negative amount or leaves the bitmap.
\<close>

definition sh_mem_free_buffer :: "u32 \<Rightarrow> sh_mem_pool \<Rightarrow> sh_mem_pool option" where
  "sh_mem_free_buffer buff p =
     (if buff = 0 then Some p
      else
        let buff_idx = sint (buff - sp_start_addr p) sdiv sint (sp_buff_size p)
        in if sp_buff_size p = 0 \<or> buff_idx < 0 then None
           else do {
             let bmp_idx = nat buff_idx div BITMAP_WORD_SIZE;
             let bit_idx = nat buff_idx mod BITMAP_WORD_SIZE;
             w \<leftarrow> aget (sp_bitmap p) (LOCATE_BITMAP bmp_idx);
             bmp \<leftarrow> aset (sp_bitmap p) (LOCATE_BITMAP bmp_idx) (w XOR push_bit bit_idx 1);
             Some (p\<lparr>sp_bitmap := bmp, sp_used_buffs := sp_used_buffs p - 1\<rparr>) })"

section \<open>Correctness of the bit trick\<close>

lemma log2_of_mask_all: "\<forall>k \<in> set [0..<33]. log2_of_mask (mask k) = of_nat k"
  by code_simp

lemma log2_of_mask_eq: "k \<le> 32 \<Longrightarrow> unat (log2_of_mask (mask k)) = k"
  using log2_of_mask_all by (simp add: unat_of_nat)

lemma lowest_bit_and_minus:
  fixes w :: u32
  assumes "bit w k" "\<And>j. j < k \<Longrightarrow> \<not> bit w j"
  shows "(w AND - w) - 1 = mask k"
proof -
  define h where "h = w AND NOT (2 ^ k)"
  have k: "k < 32" using assms(1) bit_imp_le_length by fastforce
  have hb: "bit h n \<longleftrightarrow> bit w n \<and> n \<noteq> k" for n
    by (auto simp: h_def bit_simps dest: bit_imp_le_length)
  have pb: "bit (2 ^ k :: u32) n \<longleftrightarrow> n = k" for n using k by (auto simp: bit_simps)
  have w: "w = h OR 2 ^ k"
    by (rule bit_word_eqI) (use assms(1) in \<open>auto simp: hb pb bit_or_iff\<close>)
  have "w = h + 2 ^ k"
    unfolding w by (rule disjunctive_add_eq_or [symmetric]) (rule bit_word_eqI, auto simp: bit_simps hb pb)
  then have "w - 1 = h + mask k" by (simp add: mask_eq_exp_minus_1)
  also have "\<dots> = h OR mask k"
    by (rule disjunctive_add_eq_or) (rule bit_word_eqI, use assms(2) in \<open>auto simp: bit_simps hb\<close>)
  finally have m: "- w = NOT (h OR mask k)" by (simp add: minus_eq_not_minus_1)
  have "w AND - w = 2 ^ k"
    unfolding m by (rule bit_word_eqI) (use assms k in \<open>auto simp: bit_simps hb pb not_less le_less\<close>)
  then show ?thesis by (simp add: mask_eq_exp_minus_1)
qed

lemma first_zero_bit_found:
  assumes "k < 32" "\<not> bit v k" "\<And>j. j < k \<Longrightarrow> bit v j"
  shows "unat (get_first_zero_bit v) = k"
proof -
  have "((NOT v) AND - (NOT v)) - 1 = mask k"
    using assms by (intro lowest_bit_and_minus) (auto simp: bit_simps)
  then show ?thesis
    using log2_of_mask_eq [of k] assms(1) by (simp only: get_first_zero_bit_def Let_def less_imp_le)
qed

lemma first_zero_bit_full: "unat (get_first_zero_bit (- 1)) = 32"
proof -
  have "mask 32 = (- 1 :: u32)" by (rule bit_word_eqI) (simp add: bit_simps)
  then show ?thesis using log2_of_mask_eq [of 32] by (simp add: get_first_zero_bit_def)
qed

lemma all_bits_set: "(\<And>k. k < 32 \<Longrightarrow> bit (v :: u32) k) \<Longrightarrow> v = - 1"
  by (rule bit_word_eqI) simp

section \<open>The pool as a set of allocated indices\<close>

lemma LOCATE_BITMAP_eq [simp]: "LOCATE_BITMAP idx = 8 * idx"
  by (simp add: LOCATE_BITMAP_def BITMAP_WORD_SIZE_def)

text \<open>\<open>safe_words\<close> bitmap words are inside the allocated bitmap; the macro reaches no further.\<close>

definition safe_words :: "sh_mem_pool \<Rightarrow> nat" where
  "safe_words p = (sp_bmp_size p + 7) div 8"

definition alloc_set :: "sh_mem_pool \<Rightarrow> nat set" where
  "alloc_set p = {i. i div 32 < safe_words p \<and> bit (sp_bitmap p ! (8 * (i div 32))) (i mod 32)}"

definition pool_inv :: "sh_mem_pool \<Rightarrow> bool" where
  "pool_inv p \<longleftrightarrow> length (sp_bitmap p) = sp_bmp_size p \<and>
     sp_bmp_size p = sp_total_buffs p div 32 + (if sp_total_buffs p mod 32 = 0 then 0 else 1) \<and>
     sp_used_buffs p = int (card (alloc_set p)) \<and> alloc_set p \<subseteq> {..<sp_total_buffs p} \<and>
     0 < unat (sp_buff_size p) \<and> sp_start_addr p \<noteq> 0 \<and>
     unat (sp_start_addr p) + unat (sp_buff_size p) * sp_total_buffs p \<le> 2 ^ 32 \<and>
     unat (sp_buff_size p) * sp_total_buffs p < 2 ^ 31"

definition buff_addr :: "sh_mem_pool \<Rightarrow> nat \<Rightarrow> u32" where
  "buff_addr p i = sp_start_addr p + sp_buff_size p * of_nat i"

lemma safe_words_index: "k < safe_words p \<longleftrightarrow> 8 * k < sp_bmp_size p"
  by (auto simp: safe_words_def)

lemma word_full:
  assumes "\<forall>j < i. j \<in> alloc_set p" "32 * k + 31 < i"
  shows "sp_bitmap p ! (8 * k) = - 1"
proof (rule all_bits_set)
  fix b :: nat
  assume "b < 32"
  then have "32 * k + b \<in> alloc_set p" using assms by simp
  with \<open>b < 32\<close> show "bit (sp_bitmap p ! (8 * k)) b" by (simp add: alloc_set_def)
qed

lemma get_buffer_loop_found:
  assumes len: "length (sp_bitmap p) = sp_bmp_size p"
    and i: "i \<notin> alloc_set p" "i div 32 < safe_words p" "\<forall>j < i. j \<in> alloc_set p"
  shows "k \<le> i div 32 \<Longrightarrow> sh_mem_get_buffer_loop [k..<sp_bmp_size p] p =
    Some (buff_addr p i, p\<lparr>sp_bitmap := (sp_bitmap p)[8 * (i div 32) :=
       sp_bitmap p ! (8 * (i div 32)) OR push_bit (i mod 32) 1],
       sp_used_buffs := sp_used_buffs p + 1\<rparr>)"
proof (induction "i div 32 - k" arbitrary: k)
  case 0
  then have k: "k = i div 32" by simp
  have bd: "8 * k < sp_bmp_size p" using i(2) by (simp add: k safe_words_index)
  have z: "unat (get_first_zero_bit (sp_bitmap p ! (8 * k))) = i mod 32"
  proof (rule first_zero_bit_found)
    show "\<not> bit (sp_bitmap p ! (8 * k)) (i mod 32)" using i(1,2) by (simp add: alloc_set_def k)
    show "bit (sp_bitmap p ! (8 * k)) j" if "j < i mod 32" for j
    proof -
      from that have "32 * k + j < i" and j: "j < 32"
        by (simp_all add: k) (metis add_less_cancel_left mult_div_mod_eq)
      then have "32 * k + j \<in> alloc_set p" using i(3) by blast
      with j show ?thesis by (simp add: alloc_set_def)
    qed
  qed simp
  from bd have "[k..<sp_bmp_size p] = k # [Suc k..<sp_bmp_size p]" by (simp add: upt_conv_Cons)
  with bd z len show ?case by (simp add: k buff_addr_def BITMAP_WORD_SIZE_def mult.commute)
next
  case (Suc n)
  then have k: "k < i div 32" by simp
  then have bd: "8 * k < sp_bmp_size p" using i(2) by (simp add: safe_words_index)
  from k have "32 * k + 31 < i" by (simp add: div_less_iff_less_mult [symmetric] flip: less_eq_div_iff_mult_less_eq)
  then have "sp_bitmap p ! (8 * k) = - 1" using i(3) by (rule word_full [rotated])
  then have "sh_mem_get_buffer_loop (k # [Suc k..<sp_bmp_size p]) p =
      sh_mem_get_buffer_loop [Suc k..<sp_bmp_size p] p"
    using bd len by (simp add: first_zero_bit_full)
  moreover from bd have "[k..<sp_bmp_size p] = k # [Suc k..<sp_bmp_size p]" by (simp add: upt_conv_Cons)
  ultimately show ?case using Suc k by simp
qed

text \<open>When every reachable word is full the loop runs off the allocated bitmap.\<close>

lemma get_buffer_loop_overrun:
  assumes len: "length (sp_bitmap p) = sp_bmp_size p"
    and full: "\<forall>j < 32 * safe_words p. j \<in> alloc_set p" and more: "safe_words p < sp_bmp_size p"
  shows "k \<le> safe_words p \<Longrightarrow> sh_mem_get_buffer_loop [k..<sp_bmp_size p] p = None"
proof (induction "safe_words p - k" arbitrary: k)
  case 0
  then have k: "k = safe_words p" by simp
  then have "\<not> 8 * k < sp_bmp_size p" by (simp flip: safe_words_index)
  then have "aget (sp_bitmap p) (8 * k) = None" by (simp add: len)
  moreover from more k have "[k..<sp_bmp_size p] = k # [Suc k..<sp_bmp_size p]" by (simp add: upt_conv_Cons)
  ultimately show ?case by simp
next
  case (Suc n)
  then have k: "k < safe_words p" by simp
  then have bd: "8 * k < sp_bmp_size p" by (simp add: safe_words_index)
  have "sp_bitmap p ! (8 * k) = - 1" using full k by (intro word_full [of "32 * safe_words p"]) auto
  then have "sh_mem_get_buffer_loop (k # [Suc k..<sp_bmp_size p]) p =
      sh_mem_get_buffer_loop [Suc k..<sp_bmp_size p] p"
    using bd len by (simp add: first_zero_bit_full)
  moreover from bd have "[k..<sp_bmp_size p] = k # [Suc k..<sp_bmp_size p]" by (simp add: upt_conv_Cons)
  ultimately show ?case using Suc k by simp
qed

lemma alloc_set_upd_other:
  "alloc_set (p\<lparr>sp_used_buffs := u\<rparr>) = alloc_set p"
  by (simp add: alloc_set_def safe_words_def)

lemma same_index_iff: "j = i \<longleftrightarrow> j div 32 = i div 32 \<and> j mod 32 = (i mod 32 :: nat)"
  by (metis div_mult_mod_eq)

lemma alloc_set_bitmap_upd:
  assumes "length (sp_bitmap p) = sp_bmp_size p" "i div 32 < safe_words p"
    and op: "\<And>n. n < 32 \<Longrightarrow> bit w n \<longleftrightarrow> (if n = i mod 32 then b else bit (sp_bitmap p ! (8 * (i div 32))) n)"
  shows "alloc_set (p\<lparr>sp_bitmap := (sp_bitmap p)[8 * (i div 32) := w], sp_used_buffs := u\<rparr>) =
    (if b then insert i (alloc_set p) else alloc_set p - {i})"
proof -
  have bd: "8 * (i div 32) < length (sp_bitmap p)" using assms(1,2) by (simp add: safe_words_index)
  have mem: "j \<in> alloc_set (p\<lparr>sp_bitmap := (sp_bitmap p)[8 * (i div 32) := w], sp_used_buffs := u\<rparr>) \<longleftrightarrow>
      (if j = i then b else j \<in> alloc_set p)" for j
  proof (cases "j div 32 = i div 32")
    case True
    have "(j = i) = (j mod 32 = i mod 32)" using True same_index_iff by blast
    then show ?thesis using True bd assms(2) op [of "j mod 32"]
      by (simp add: alloc_set_def safe_words_def)
  next
    case False
    then have "8 * (j div 32) \<noteq> 8 * (i div 32)" and "j \<noteq> i" by auto
    then show ?thesis by (simp add: alloc_set_def safe_words_def)
  qed
  show ?thesis by (rule set_eqI) (simp add: mem)
qed

lemma alloc_set_bounded: "alloc_set p \<subseteq> {..<32 * safe_words p}"
  by (auto simp: alloc_set_def)

lemma finite_alloc_set [simp]: "finite (alloc_set p)"
  using alloc_set_bounded finite_subset by blast

lemma least_free_index:
  assumes "card (alloc_set p) < 32 * safe_words p"
  shows "\<exists>i. i \<notin> alloc_set p \<and> i div 32 < safe_words p \<and> (\<forall>j < i. j \<in> alloc_set p) \<and> i \<le> card (alloc_set p)"
proof -
  define i where "i = (LEAST i. i \<notin> alloc_set p)"
  have "\<exists>i. i \<notin> alloc_set p" using ex_new_if_finite [OF infinite_UNIV_nat finite_alloc_set] .
  then have i: "i \<notin> alloc_set p" "\<forall>j < i. j \<in> alloc_set p"
    unfolding i_def by (rule LeastI_ex) (use not_less_Least in auto)
  then have "{..<i} \<subseteq> alloc_set p" by auto
  then have le: "i \<le> card (alloc_set p)" using card_mono [OF finite_alloc_set] by (metis card_lessThan)
  with assms have "i div 32 < safe_words p" by linarith
  with i le show ?thesis by blast
qed

section \<open>Allocation and release\<close>

definition same_geometry :: "sh_mem_pool \<Rightarrow> sh_mem_pool \<Rightarrow> bool" where
  "same_geometry p q \<longleftrightarrow> sp_start_addr q = sp_start_addr p \<and> sp_buff_size q = sp_buff_size p \<and>
     sp_total_buffs q = sp_total_buffs p \<and> sp_bmp_size q = sp_bmp_size p"

definition pool_capacity :: "sh_mem_pool \<Rightarrow> nat" where
  "pool_capacity p = min (sp_total_buffs p) (32 * safe_words p)"

lemma same_geometry_capacity: "same_geometry p q \<Longrightarrow> pool_capacity q = pool_capacity p"
  by (simp add: same_geometry_def pool_capacity_def safe_words_def)

lemma same_geometry_addr: "same_geometry p q \<Longrightarrow> buff_addr q i = buff_addr p i"
  by (simp add: same_geometry_def buff_addr_def)

lemma sh_mem_get_buffer_exhausted:
  "pool_inv p \<Longrightarrow> sp_total_buffs p \<le> card (alloc_set p) \<Longrightarrow> sh_mem_get_buffer p = Some (0, p)"
  by (simp add: sh_mem_get_buffer_def pool_inv_def)

lemma sh_mem_get_buffer_index:
  assumes "pool_inv p" "card (alloc_set p) < pool_capacity p"
  shows "\<exists>i p'. sh_mem_get_buffer p = Some (buff_addr p i, p') \<and> i < sp_total_buffs p \<and>
    i \<notin> alloc_set p \<and> alloc_set p' = insert i (alloc_set p) \<and> pool_inv p' \<and> same_geometry p p'"
proof -
  from assms(2) have "card (alloc_set p) < 32 * safe_words p" by (simp add: pool_capacity_def)
  from least_free_index [OF this] obtain i where i: "i \<notin> alloc_set p" "i div 32 < safe_words p"
    "\<forall>j < i. j \<in> alloc_set p" "i \<le> card (alloc_set p)" by blast
  have len: "length (sp_bitmap p) = sp_bmp_size p" using assms(1) by (simp add: pool_inv_def)
  have lt: "i < sp_total_buffs p" using i(4) assms(2) by (simp add: pool_capacity_def)
  define w where "w = sp_bitmap p ! (8 * (i div 32)) OR push_bit (i mod 32) 1"
  define p' where "p' = p\<lparr>sp_bitmap := (sp_bitmap p)[8 * (i div 32) := w], sp_used_buffs := sp_used_buffs p + 1\<rparr>"
  have as: "alloc_set p' = insert i (alloc_set p)"
    using alloc_set_bitmap_upd [OF len i(2), of w True "sp_used_buffs p + 1"]
    by (simp add: p'_def w_def bit_simps)
  have "sh_mem_get_buffer p = Some (buff_addr p i, p')"
    using get_buffer_loop_found [OF len i(1-3), of 0] assms
    by (simp add: sh_mem_get_buffer_def p'_def w_def pool_inv_def pool_capacity_def)
  moreover have "pool_inv p'"
    unfolding pool_inv_def as using assms(1) [unfolded pool_inv_def] lt i(1) by (simp add: p'_def)
  ultimately show ?thesis using i(1) lt as by (auto simp: same_geometry_def p'_def)
qed

lemma buff_addr_bound:
  assumes "pool_inv p" "i < sp_total_buffs p"
  shows "unat (buff_addr p i) = unat (sp_start_addr p) + unat (sp_buff_size p) * i"
    and "unat (sp_buff_size p) * i < 2 ^ 31"
proof -
  let ?b = "unat (sp_buff_size p)" and ?s = "unat (sp_start_addr p)"
  have "?b * i < ?b * sp_total_buffs p" using assms by (auto simp: pool_inv_def)
  moreover have "?s + ?b * sp_total_buffs p \<le> 2 ^ 32" "?b * sp_total_buffs p < 2 ^ 31"
    using assms(1) unfolding pool_inv_def by blast+
  ultimately have lt: "?s + ?b * i < 2 ^ 32" and lt2: "?b * i < 2 ^ 31" by linarith+
  have i: "unat (of_nat i :: u32) = i"
  proof -
    have "i \<le> ?b * i" using assms(1) by (auto simp: pool_inv_def)
    with lt have "i < 2 ^ 32" by linarith
    then show ?thesis by (simp add: unat_of_nat)
  qed
  have "unat (sp_buff_size p * of_nat i) = ?b * i" using lt by (simp add: unat_word_ariths i)
  then show "unat (buff_addr p i) = ?s + ?b * i" using lt by (simp add: buff_addr_def unat_word_ariths)
  show "?b * i < 2 ^ 31" by (rule lt2)
qed

lemma buff_addr_inj:
  assumes "pool_inv p" "i < sp_total_buffs p" "j < sp_total_buffs p" "buff_addr p i = buff_addr p j"
  shows "i = j"
proof -
  have "unat (sp_buff_size p) * i = unat (sp_buff_size p) * j"
    using buff_addr_bound(1) [OF assms(1,2)] buff_addr_bound(1) [OF assms(1,3)] assms(4)
    by (metis add_left_imp_eq)
  then show ?thesis using assms(1) by (auto simp: pool_inv_def)
qed

lemma buff_addr_nonzero: "pool_inv p \<Longrightarrow> i < sp_total_buffs p \<Longrightarrow> buff_addr p i \<noteq> 0"
  using buff_addr_bound(1) [of p i] by (auto simp: pool_inv_def unat_eq_zero)

lemma sint_small: "unat (w :: u32) < 2 ^ 31 \<Longrightarrow> sint w = int (unat w)"
proof -
  assume "unat w < 2 ^ 31"
  then have "int (unat w) < int (2 ^ 31)" by (simp only: of_nat_less_iff)
  then have "uint w < 2 ^ 31" by simp
  moreover have "- (2 ^ 31) \<le> uint w" by (rule order_trans [OF _ uint_ge_0]) simp
  ultimately show ?thesis using signed_take_bit_int_eq_self [of 31 "uint w"] by (simp add: sint_uint)
qed

lemma sdiv_nonneg: "0 \<le> (a :: int) \<Longrightarrow> 0 < b \<Longrightarrow> a sdiv b = a div b"
  by (cases "a = 0") (auto simp: signed_divide_int_def)

lemma free_index:
  assumes "pool_inv p" "i < sp_total_buffs p"
  shows "sint (buff_addr p i - sp_start_addr p) sdiv sint (sp_buff_size p) = int i"
proof -
  let ?b = "unat (sp_buff_size p)"
  have d: "unat (buff_addr p i - sp_start_addr p) = ?b * i"
    using buff_addr_bound [OF assms] by (simp add: unat_sub word_le_nat_alt)
  have "sint (buff_addr p i - sp_start_addr p) = int (?b * i)"
    using sint_small [of "buff_addr p i - sp_start_addr p"] d buff_addr_bound(2) [OF assms] by simp
  moreover have "?b \<le> ?b * sp_total_buffs p" using assms by (cases "sp_total_buffs p") auto
  then have "?b < 2 ^ 31" using assms(1) unfolding pool_inv_def by linarith
  then have "sint (sp_buff_size p) = int ?b" by (rule sint_small)
  moreover have b0: "0 < ?b" using assms(1) by (simp add: pool_inv_def)
  then have "int (?b * i) sdiv int ?b = int (?b * i) div int ?b"
    by (intro sdiv_nonneg of_nat_0_le_iff) (simp only: of_nat_0_less_iff)
  moreover have "\<dots> = int i" using b0 by (simp only: flip: zdiv_int) simp
  ultimately show ?thesis by (simp only:)
qed

lemma sh_mem_free_buffer_index:
  assumes "pool_inv p" "i \<in> alloc_set p"
  shows "\<exists>p'. sh_mem_free_buffer (buff_addr p i) p = Some p' \<and>
    alloc_set p' = alloc_set p - {i} \<and> pool_inv p' \<and> same_geometry p p'"
proof -
  have lt: "i < sp_total_buffs p" using assms by (auto simp: pool_inv_def)
  have len: "length (sp_bitmap p) = sp_bmp_size p" using assms(1) by (simp add: pool_inv_def)
  have sw: "i div 32 < safe_words p" using assms(2) by (simp add: alloc_set_def)
  then have bd: "8 * (i div 32) < sp_bmp_size p" by (simp add: safe_words_index)
  define w where "w = sp_bitmap p ! (8 * (i div 32)) XOR push_bit (i mod 32) 1"
  define p' where "p' = p\<lparr>sp_bitmap := (sp_bitmap p)[8 * (i div 32) := w], sp_used_buffs := sp_used_buffs p - 1\<rparr>"
  have "bit (sp_bitmap p ! (8 * (i div 32))) (i mod 32)" using assms(2) by (simp add: alloc_set_def)
  then have as: "alloc_set p' = alloc_set p - {i}"
    using alloc_set_bitmap_upd [OF len sw, of w False "sp_used_buffs p - 1"]
    by (auto simp: p'_def w_def bit_simps)
  have "sp_buff_size p \<noteq> 0" using assms(1) by (auto simp: pool_inv_def)
  then have "sh_mem_free_buffer (buff_addr p i) p = Some p'"
    using free_index [OF assms(1) lt] buff_addr_nonzero [OF assms(1) lt] bd len
    by (simp add: sh_mem_free_buffer_def BITMAP_WORD_SIZE_def p'_def w_def Let_def)
  moreover have "0 < card (alloc_set p)" using assms(2) by (auto simp: card_gt_0_iff)
  then have "pool_inv p'"
    unfolding pool_inv_def as using assms [unfolded pool_inv_def] by (auto simp: p'_def of_nat_diff Suc_leI)
  ultimately show ?thesis using as by (auto simp: same_geometry_def p'_def)
qed

section \<open>The interface\<close>

text \<open>
  What the messaging layer relies on: while fewer than \<open>capacity\<close> buffers are live an allocation
  returns a buffer that is not live, and a release makes exactly the released buffer free.
\<close>

locale buffer_pool =
  fixes inv :: "'p \<Rightarrow> bool"
    and live :: "'p \<Rightarrow> 'b set"
    and capacity :: "'p \<Rightarrow> nat"
    and get :: "'p \<Rightarrow> ('b \<times> 'p) option"
    and put :: "'b \<Rightarrow> 'p \<Rightarrow> 'p option"
  assumes live_finite: "inv p \<Longrightarrow> finite (live p)"
    and get_fresh: "inv p \<Longrightarrow> card (live p) < capacity p \<Longrightarrow>
      \<exists>b p'. get p = Some (b, p') \<and> b \<notin> live p \<and> live p' = insert b (live p) \<and> inv p' \<and>
        capacity p' = capacity p"
    and put_live: "inv p \<Longrightarrow> b \<in> live p \<Longrightarrow>
      \<exists>p'. put b p = Some p' \<and> live p' = live p - {b} \<and> inv p' \<and> capacity p' = capacity p"
begin

lemma get_put:
  assumes "inv p" "card (live p) < capacity p"
  shows "\<exists>b p' p''. get p = Some (b, p') \<and> put b p' = Some p'' \<and> live p'' = live p \<and> inv p''"
proof -
  from get_fresh [OF assms] obtain b p' where g: "get p = Some (b, p')" "b \<notin> live p"
    "live p' = insert b (live p)" "inv p'" by blast
  from put_live [OF g(4), of b] g(3) obtain p'' where
    "put b p' = Some p''" "live p'' = live p' - {b}" "inv p''" by auto
  with g show ?thesis by auto
qed

text \<open>Repeated allocation, as the set-up of the receive queue does it.\<close>

primrec get_n :: "nat \<Rightarrow> 'p \<Rightarrow> ('b list \<times> 'p) option" where
  "get_n 0 p = Some ([], p)"
| "get_n (Suc n) p = (case get p of None \<Rightarrow> None
     | Some (b, p) \<Rightarrow> map_option (\<lambda>(bs, q). (b # bs, q)) (get_n n p))"

lemma get_n_distinct:
  "inv p \<Longrightarrow> card (live p) + n \<le> capacity p \<Longrightarrow>
    \<exists>bs q. get_n n p = Some (bs, q) \<and> length bs = n \<and> distinct bs \<and> set bs \<inter> live p = {} \<and>
      live q = live p \<union> set bs \<and> inv q \<and> capacity q = capacity p"
proof (induction n arbitrary: p)
  case 0
  then show ?case by simp
next
  case (Suc n)
  then have "card (live p) < capacity p" by simp
  from get_fresh [OF Suc.prems(1) this] obtain b p' where g: "get p = Some (b, p')" "b \<notin> live p"
    "live p' = insert b (live p)" "inv p'" "capacity p' = capacity p" by blast
  have "card (live p') + n \<le> capacity p'"
    using Suc.prems g live_finite [OF Suc.prems(1)] by simp
  from Suc.IH [OF g(4) this] obtain bs q where "get_n n p' = Some (bs, q)" "length bs = n" "distinct bs"
    "set bs \<inter> live p' = {}" "live q = live p' \<union> set bs" "inv q" "capacity q = capacity p'" by blast
  with g show ?case by auto
qed

end

definition live_buffers :: "sh_mem_pool \<Rightarrow> u32 set" where
  "live_buffers p = buff_addr p ` alloc_set p"

lemma inj_on_buff_addr: "pool_inv p \<Longrightarrow> inj_on (buff_addr p) (alloc_set p)"
proof (rule inj_onI)
  fix i j
  assume p: "pool_inv p" "i \<in> alloc_set p" "j \<in> alloc_set p" "buff_addr p i = buff_addr p j"
  then have "alloc_set p \<subseteq> {..<sp_total_buffs p}" by (simp add: pool_inv_def)
  with p have "i < sp_total_buffs p" "j < sp_total_buffs p" by blast+
  then show "i = j" using p by (intro buff_addr_inj)
qed

lemma card_live_buffers: "pool_inv p \<Longrightarrow> card (live_buffers p) = card (alloc_set p)"
  unfolding live_buffers_def by (rule card_image) (rule inj_on_buff_addr)

interpretation shm: buffer_pool pool_inv live_buffers pool_capacity sh_mem_get_buffer sh_mem_free_buffer
proof (unfold_locales, goal_cases)
  case (1 p)
  then show ?case by (simp add: live_buffers_def)
next
  case (2 p)
  then have "card (alloc_set p) < pool_capacity p" by (simp add: card_live_buffers)
  from sh_mem_get_buffer_index [OF 2(1) this] obtain i p' where g:
    "sh_mem_get_buffer p = Some (buff_addr p i, p')" "i < sp_total_buffs p" "i \<notin> alloc_set p"
    "alloc_set p' = insert i (alloc_set p)" "pool_inv p'" "same_geometry p p'" by blast
  have "buff_addr p i \<notin> live_buffers p"
    using g(2,3) 2(1) buff_addr_inj [OF 2(1)] by (auto simp: live_buffers_def pool_inv_def)
  moreover have "live_buffers p' = insert (buff_addr p i) (live_buffers p)"
    using g(4,6) by (simp add: live_buffers_def same_geometry_addr cong: image_cong)
  ultimately show ?case using g same_geometry_capacity by blast
next
  case (3 p b)
  then obtain i where i: "i \<in> alloc_set p" "b = buff_addr p i" by (auto simp: live_buffers_def)
  from sh_mem_free_buffer_index [OF 3(1) i(1)] obtain p' where g:
    "sh_mem_free_buffer b p = Some p'" "alloc_set p' = alloc_set p - {i}" "pool_inv p'" "same_geometry p p'"
    using i(2) by blast
  have "live_buffers p' = live_buffers p - {b}"
    using g(2,4) i inj_on_buff_addr [OF 3(1)] by (auto simp: live_buffers_def same_geometry_addr inj_on_def)
  then show ?case using g same_geometry_capacity by blast
qed

section \<open>A created pool\<close>

lemma alloc_set_fresh: "sp_bitmap p = replicate (sp_bmp_size p) 0 \<Longrightarrow> alloc_set p = {}"
  by (auto simp: alloc_set_def safe_words_index)

lemma unat_ceil_div:
  fixes sz b :: u32
  assumes "b \<noteq> 0"
  defines "n \<equiv> unat (sz div b) + (if sz mod b = 0 then 0 else 1)"
  shows "unat sz \<le> unat b * n" and "unat b * n < unat sz + unat b"
    and "unat b * n = unat sz \<longleftrightarrow> sz mod b = 0"
proof -
  have b: "0 < unat b" using assms(1) by (simp add: unat_gt_0)
  have m: "(sz mod b = 0) = (unat sz mod unat b = 0)" by (simp add: unat_mod [symmetric] unat_eq_zero)
  have split: "unat sz = unat b * unat (sz div b) + unat sz mod unat b"
    by (simp add: unat_div)
  have r: "unat sz mod unat b < unat b" using b by simp
  have n: "unat b * n = unat b * unat (sz div b) + (if unat sz mod unat b = 0 then 0 else unat b)"
    unfolding n_def m by (simp add: distrib_left)
  have "s \<le> q + (if t = 0 then 0 else c) \<and> q + (if t = 0 then 0 else c) < s + c \<and>
      (q + (if t = 0 then 0 else c) = s \<longleftrightarrow> t = 0)"
    if "s = q + t" "t < c" for s q t c :: nat using that by auto
  from this [OF split r] show "unat sz \<le> unat b * n" "unat b * n < unat sz + unat b"
    "unat b * n = unat sz \<longleftrightarrow> sz mod b = 0" unfolding n m by simp_all
qed

text \<open>
  \<^verbatim>\<open>get_first_zero_bit\<close> returns the position of the lowest zero bit of any
  32-bit value, and 32 when there is none: the octal population-count trick is right on all inputs.
\<close>

theorem get_first_zero_bit_lowest:
  "unat (get_first_zero_bit v) = (if v = - 1 then 32 else (LEAST k. \<not> bit v k))"
proof (cases "v = - 1")
  case False
  then obtain n where n: "n < 32" "\<not> bit v n" using all_bits_set by blast
  have "\<not> bit v (LEAST k. \<not> bit v k)" using n(2) by (rule LeastI)
  moreover have "(LEAST k. \<not> bit v k) < 32" using n Least_le [of "\<lambda>k. \<not> bit v k" n] by simp
  moreover have "bit v j" if "j < (LEAST k. \<not> bit v k)" for j using that not_less_Least by blast
  ultimately have "unat (get_first_zero_bit v) = (LEAST k. \<not> bit v k)" by (intro first_zero_bit_found)
  then show ?thesis using False by (simp only: if_False)
qed (simp add: first_zero_bit_full)

text \<open>
  A pool created over a non-empty region that does not wrap around the address space
  satisfies the pool invariant, has no live buffer, and its buffers cover the region; they
  end exactly at the end of the region if and only if the aligned buffer size divides the region size
  (otherwise the last buffer reaches past the region).
\<close>

theorem sh_mem_create_pool_establishes:
  assumes "start_addr \<noteq> 0" "sz \<noteq> 0" "buff_size \<noteq> 0" "WORD_ALIGN buff_size \<noteq> 0"
    and "unat start_addr + unat sz + unat (WORD_ALIGN buff_size) \<le> 2 ^ 32"
    and "unat sz + unat (WORD_ALIGN buff_size) \<le> 2 ^ 31"
  shows "\<exists>p. sh_mem_create_pool True start_addr sz buff_size = Some (Some p) \<and> pool_inv p \<and>
    live_buffers p = {} \<and>
    unat sz \<le> unat (sp_buff_size p) * sp_total_buffs p \<and>
    unat (sp_buff_size p) * sp_total_buffs p < unat sz + unat (sp_buff_size p) \<and>
    (unat (sp_buff_size p) * sp_total_buffs p = unat sz \<longleftrightarrow> sz mod sp_buff_size p = 0)"
proof -
  let ?b = "WORD_ALIGN buff_size"
  let ?n = "unat (sz div ?b) + (if sz mod ?b = 0 then 0 else 1)"
  let ?m = "?n div 32 + (if ?n mod 32 = 0 then 0 else 1)"
  obtain p where p: "sh_mem_create_pool True start_addr sz buff_size = Some (Some p)"
    "sp_buff_size p = ?b" "sp_start_addr p = start_addr" "sp_used_buffs p = 0"
    "sp_total_buffs p = unat (sz div ?b) + (if sz mod ?b = 0 then 0 else 1)"
    "sp_bmp_size p = sp_total_buffs p div 32 + (if sp_total_buffs p mod 32 = 0 then 0 else 1)"
    "sp_bitmap p = replicate (sp_bmp_size p) 0"
    by (rule that [of "\<lparr>sp_start_addr = start_addr, sp_buff_size = ?b, sp_total_buffs = ?n,
          sp_used_buffs = 0, sp_bmp_size = ?m, sp_bitmap = replicate ?m 0\<rparr>"])
      (use assms(1-4) in \<open>simp_all add: sh_mem_create_pool_def Let_def BITMAP_WORD_SIZE_def\<close>)
  note c = unat_ceil_div [OF assms(4), of sz, folded p(5)]
  have as: "alloc_set p = {}" using p(7) by (rule alloc_set_fresh)
  have "pool_inv p"
    unfolding pool_inv_def as p(2,3) p(6) [symmetric] using assms c p(4,7)
    by (auto simp: unat_gt_0)
  moreover have "live_buffers p = {}" by (simp add: live_buffers_def as)
  ultimately show ?thesis using p(1,2) c by auto
qed

theorem sh_mem_create_pool_establishes_witness:
  "\<exists>p. sh_mem_create_pool True 0x08008000 0x1000 510 = Some (Some p) \<and> pool_inv p \<and>
    live_buffers p = {} \<and> 0x1000 \<le> unat (sp_buff_size p) * sp_total_buffs p"
proof -
  have a: "WORD_ALIGN 510 = 512" by (simp add: WORD_ALIGN_def WORD_SIZE_def)
  have "\<exists>p. sh_mem_create_pool True 0x08008000 0x1000 510 = Some (Some p) \<and> pool_inv p \<and>
    live_buffers p = {} \<and>
    unat (0x1000 :: u32) \<le> unat (sp_buff_size p) * sp_total_buffs p \<and>
    unat (sp_buff_size p) * sp_total_buffs p < unat (0x1000 :: u32) + unat (sp_buff_size p) \<and>
    (unat (sp_buff_size p) * sp_total_buffs p = unat (0x1000 :: u32) \<longleftrightarrow> 0x1000 mod sp_buff_size p = 0)"
    by (rule sh_mem_create_pool_establishes [of "0x08008000" "0x1000" 510]) (simp_all add: a)
  then show ?thesis by auto
qed


definition pool_example :: sh_mem_pool where
  "pool_example = \<lparr>sp_start_addr = 0x08008000, sp_buff_size = 512, sp_total_buffs = 33,
     sp_used_buffs = 32, sp_bmp_size = 2, sp_bitmap = [- 1, 0]\<rparr>"

lemma alloc_set_pool_example: "alloc_set pool_example = {..<32}"
  by (auto simp: alloc_set_def pool_example_def safe_words_def)

lemma pool_inv_example: "pool_inv pool_example"
  unfolding pool_inv_def alloc_set_pool_example by (auto simp: pool_example_def)


text \<open>
  Property C36.  Because \<^verbatim>\<open>SH_MEM_POOL_LOCATE_BITMAP\<close> steps by 32 bytes over 4-byte words, a pool whose
  reachable bitmap words are full but which still has free buffers makes the next allocation access
  the bitmap outside the allocated control block.
\<close>

theorem sh_mem_get_buffer_bitmap_overrun:
  assumes "pool_inv p" "alloc_set p = {..<32 * safe_words p}" "32 * safe_words p < sp_total_buffs p"
  shows "sh_mem_get_buffer p = None"
proof -
  have "sp_total_buffs p \<le> 32 * sp_bmp_size p" using assms(1) by (auto simp: pool_inv_def)
  then have "safe_words p < sp_bmp_size p" using assms(3) by linarith
  from get_buffer_loop_overrun [OF _ _ this, of 0] assms show ?thesis
    by (simp add: sh_mem_get_buffer_def pool_inv_def)
qed

theorem sh_mem_get_buffer_bitmap_overrun_witness: "sh_mem_get_buffer pool_example = None"
  by (rule sh_mem_get_buffer_bitmap_overrun [OF pool_inv_example])
    (simp_all add: alloc_set_pool_example, simp_all add: pool_example_def safe_words_def)

end
