(* ===== verification/Vring.thy ===== *)
theory Vring
  imports Memory
begin

text \<open>
  The shared ring of \<^verbatim>\<open>include/openamp/virtio_ring.h\<close>: descriptor table, available ring and used
  ring, their placement in shared memory (\<^verbatim>\<open>vring_size\<close>, \<^verbatim>\<open>vring_init\<close>) and the event-index test
  \<^verbatim>\<open>vring_need_event\<close>.

  The three areas are modelled as the fields of one record \<open>vring_mem\<close>; the layout theorem of this
  theory is the reason why they can be: the areas do not overlap and fit into
  \<^verbatim>\<open>vring_size\<close> bytes.
\<close>

section \<open>Constants and structures\<close>

definition VRING_DESC_F_NEXT :: u16 where "VRING_DESC_F_NEXT = 1"
definition VRING_DESC_F_WRITE :: u16 where "VRING_DESC_F_WRITE = 2"
definition VRING_DESC_F_INDIRECT :: u16 where "VRING_DESC_F_INDIRECT = 4"
definition VRING_USED_F_NO_NOTIFY :: u16 where "VRING_USED_F_NO_NOTIFY = 1"
definition VRING_AVAIL_F_NO_INTERRUPT :: u16 where "VRING_AVAIL_F_NO_INTERRUPT = 1"

lemmas vring_flag_defs = VRING_DESC_F_NEXT_def VRING_DESC_F_WRITE_def VRING_DESC_F_INDIRECT_def
  VRING_USED_F_NO_NOTIFY_def VRING_AVAIL_F_NO_INTERRUPT_def

record vring_desc =
  d_addr :: u64
  d_len :: u32
  d_flags :: u16
  d_next :: u16

record vring_used_elem =
  ue_id :: u32
  ue_len :: u32

text \<open>
  The content of the shared ring.  \<open>vr_avail_ring\<close> has one entry more than the ring: the last one is
  the \<^verbatim>\<open>used_event\<close> field (\<^verbatim>\<open>vring_used_event\<close>); \<open>vr_avail_event\<close> is the field behind the used ring.
\<close>

record vring_mem =
  vr_desc :: "vring_desc list"
  vr_avail_flags :: u16
  vr_avail_idx :: u16
  vr_avail_ring :: "u16 list"
  vr_used_flags :: u16
  vr_used_idx :: u16
  vr_used_ring :: "vring_used_elem list"
  vr_avail_event :: u16

record vring =
  vring_num :: u32
  vring_desc_addr :: u32
  vring_avail_addr :: u32
  vring_used_addr :: u32

section \<open>Layout\<close>

text \<open>Sizes in bytes: a descriptor 16, the headers 4, a used element 8.\<close>

definition vring_size :: "u32 \<Rightarrow> u32 \<Rightarrow> u32" where
  "vring_size num align =
     (let sz = num * 16;
          sz = sz + (4 + num * 2 + 2);
          sz = (sz + align - 1) AND NOT (align - 1)
      in sz + (4 + num * 8 + 2))"

definition vring_init :: "u32 \<Rightarrow> u32 \<Rightarrow> u32 \<Rightarrow> vring" where
  "vring_init num p align =
     (let avail = p + num * 16
      in \<lparr>vring_num = num, vring_desc_addr = p, vring_avail_addr = avail,
          vring_used_addr = ((avail + 4 + num * 2) + align - 1) AND NOT (align - 1)\<rparr>)"

definition vring_need_event :: "u16 \<Rightarrow> u16 \<Rightarrow> u16 \<Rightarrow> bool" where
  "vring_need_event event_idx new_idx old \<longleftrightarrow> new_idx - event_idx - 1 < new_idx - old"

section \<open>Rounding up to the alignment\<close>

lemma unat_pow2_32: "k < 32 \<Longrightarrow> unat ((2::u32) ^ k) = 2 ^ k"
proof -
  assume "k < 32"
  then have lt: "(2::nat) ^ k < 2 ^ 32" by (intro power_strict_increasing) simp_all
  have "unat (of_nat m :: u32) = m" if "m < 2 ^ 32" for m
    using that by (simp add: unat_of_nat)
  from this [OF lt] show ?thesis by simp
qed

lemma unat_and_not_mask: "unat (y AND NOT (mask k) :: u32) = unat y div 2 ^ k * 2 ^ k"
proof -
  have sum: "y = (y AND NOT (mask k)) + (y AND mask k)"
  proof -
    have "(y AND NOT (mask k)) + (y AND mask k) = (y AND NOT (mask k)) OR (y AND mask k)"
      by (rule disjunctive_add_eq_or, rule bit_word_eqI) (auto simp: bit_simps)
    also have "\<dots> = y" by (rule bit_word_eqI) (auto simp: bit_simps)
    finally show ?thesis by simp
  qed
  have t: "unat (y AND mask k) = unat y mod 2 ^ k"
    by (simp only: take_bit_eq_mask [symmetric] unsigned_take_bit_eq) (rule take_bit_eq_mod)
  have "y AND NOT (mask k) = y - (y AND mask k)" using sum by (metis add_diff_cancel_right')
  moreover have "y AND mask k \<le> y" using t by (simp add: word_le_nat_alt)
  ultimately have "unat (y AND NOT (mask k)) = unat y - unat y mod 2 ^ k"
    by (simp only: unat_sub t)
  then show ?thesis by (simp add: minus_mod_eq_div_mult)
qed

lemma align_up_word:
  fixes x :: u32
  assumes "k < 32" "unat x + 2 ^ k \<le> 2 ^ 32"
  shows "unat ((x + 2 ^ k - 1) AND NOT (2 ^ k - 1)) = (unat x + 2 ^ k - 1) div 2 ^ k * 2 ^ k"
proof -
  have ge: "(1::u32) \<le> 2 ^ k" using unat_pow2_32 [OF assms(1)] by (simp add: word_le_nat_alt)
  have e: "x + 2 ^ k - 1 = x + (2 ^ k - 1)" by simp
  have "unat (2 ^ k - 1 :: u32) = 2 ^ k - 1"
    using unat_sub [OF ge] unat_pow2_32 [OF assms(1)] by simp
  moreover have "unat x + (2 ^ k - 1) < 2 ^ 32" 
    using assms(2) zero_less_power [of "2::nat" k] by linarith
  ultimately have "unat (x + 2 ^ k - 1) = unat x + (2 ^ k - 1)"
    unfolding e by (subst unat_word_ariths) simp
  moreover have "(2 ^ k - 1 :: u32) = mask k" by (simp add: mask_eq_exp_minus_1)
  ultimately show ?thesis by (simp add: unat_and_not_mask)
qed


lemma align_up_bounds:
  fixes x a :: nat
  assumes "0 < a"
  shows "x \<le> (x + a - 1) div a * a" "(x + a - 1) div a * a < x + a"
proof -
  have r: "(x + a - 1) mod a < a" using assms by simp
  have s: "(x + a - 1) div a * a + (x + a - 1) mod a = x + a - 1" by (rule div_mult_mod_eq)
  from r s assms show "x \<le> (x + a - 1) div a * a" by linarith
  have "(x + a - 1) div a * a \<le> x + a - 1" by (rule div_times_less_eq_dividend)
  then show "(x + a - 1) div a * a < x + a" using assms by linarith
qed

lemma align_up_add:
  fixes x p a :: nat
  assumes "0 < a" "a dvd p"
  shows "(p + x + a - 1) div a * a = p + (x + a - 1) div a * a"
proof -
  from assms obtain m where m: "p = a * m" by (elim dvdE)
  have "p + x + a - 1 = (x + a - 1) + a * m" using assms(1) m by simp
  moreover have "((x + a - 1) + a * m) div a = m + (x + a - 1) div a"
    using assms(1) by (intro div_mult_self2) simp
  ultimately have "(p + x + a - 1) div a = m + (x + a - 1) div a" by (simp only:)
  then show ?thesis by (simp add: m distrib_right)
qed

text \<open>The used ring follows the \<^verbatim>\<open>used_event\<close> field when the alignment is at least 16.\<close>

lemma used_event_gap:
  assumes "4 \<le> k"
  shows "18 * 2 ^ m + 6 \<le> ((18 * 2 ^ m + 4 :: nat) + 2 ^ k - 1) div 2 ^ k * 2 ^ k"
proof -
  define u where "u = ((18 * 2 ^ m + 4 :: nat) + 2 ^ k - 1) div 2 ^ k * 2 ^ k"
  have ge: "18 * 2 ^ m + 4 \<le> u" unfolding u_def by (rule align_up_bounds) simp
  have "(2::nat) ^ 4 dvd 2 ^ k" using assms by (rule le_imp_power_dvd)
  then have "2 ^ 4 dvd u" unfolding u_def by (rule dvd_mult)
  then have d: "16 dvd u" by simp
  have n: "\<not> 16 dvd (18 * 2 ^ m + 4 :: nat)" "\<not> 16 dvd (18 * 2 ^ m + 5 :: nat)"
  proof -
    consider "m = 0" | "m = 1" | "m = 2" | q where "m = q + 3"
    proof -
      have "m = 0 \<or> m = 1 \<or> m = 2 \<or> (\<exists>q. m = q + 3)" by presburger
      then show thesis using that by blast
    qed
    then have "\<not> 16 dvd (18 * 2 ^ m + 4 :: nat) \<and> \<not> 16 dvd (18 * 2 ^ m + 5 :: nat)"
    proof cases
      case (4 q)
      have "(18 * 2 ^ m :: nat) = 16 * (9 * 2 ^ q)" by (simp add: 4 power_add)
      then show ?thesis by presburger
    qed simp_all
    then show "\<not> 16 dvd (18 * 2 ^ m + 4 :: nat)" "\<not> 16 dvd (18 * 2 ^ m + 5 :: nat)" by blast+
  qed
  with d have "u \<noteq> 18 * 2 ^ m + 4" "u \<noteq> 18 * 2 ^ m + 5" by metis+
  with ge have "18 * 2 ^ m + 6 \<le> u" by linarith
  then show ?thesis unfolding u_def .
qed

text \<open>
  Property C34.  For a power-of-two ring and an alignment of at least 16 (a power of two) on an
  aligned start address, the areas computed by \<^verbatim>\<open>vring_init\<close> are placed one after the other
  without overlap (the \<^verbatim>\<open>used_event\<close> field included), the used ring is aligned, and
  everything up to the \<^verbatim>\<open>avail_event\<close> field lies within \<^verbatim>\<open>vring_size\<close> bytes.
\<close>

theorem vring_init_layout:
  fixes p num :: u32
  assumes "m \<le> 15" "num = 2 ^ m" "4 \<le> k" "k \<le> 16" "align = 2 ^ k" "2 ^ k dvd unat p"
    and "unat p + 2 ^ 21 \<le> 2 ^ 32"
  shows "let r = vring_init num p align; n = unat num in
    unat (vring_desc_addr r) = unat p \<and>
    unat (vring_avail_addr r) = unat p + 16 * n \<and>
    unat (vring_avail_addr r) + 4 + 2 * n + 2 \<le> unat (vring_used_addr r) \<and>
    2 ^ k dvd unat (vring_used_addr r) \<and>
    unat (vring_used_addr r) + 4 + 8 * n + 2 \<le> unat p + unat (vring_size num align)"
proof -
  let ?n = "unat num" and ?a = "2 ^ k :: nat"
  have n: "?n = 2 ^ m" using assms(1,2) by (simp add: unat_pow2_32)
  have nle: "?n \<le> 2 ^ 15" unfolding n using assms(1) by (intro power_increasing) simp_all
  have ale: "?a \<le> 2 ^ 16" using assms(4) by (intro power_increasing) simp_all
  have ku: "k < 32" using assms(4) by simp
  have avail: "unat (p + num * 16) = unat p + 16 * ?n"
    using nle assms(7) by (simp add: unat_word_ariths)
  have avail_end: "unat (p + num * 16 + 4 + num * 2) = unat p + (18 * ?n + 4)"
    using nle assms(7) by (simp add: unat_word_ariths)
  define u where "u = (18 * ?n + 4 + ?a - 1) div ?a * ?a"
  have used: "unat (vring_used_addr (vring_init num p align)) = unat p + u"
    using align_up_word [of k "p + num * 16 + 4 + num * 2"] align_up_add [of ?a "unat p" "18 * ?n + 4"]
      avail_end nle ale assms(6,7) ku
    by (simp add: vring_init_def assms(5) u_def)
  have sz1: "unat (num * 16 + (4 + num * 2 + 2)) = 18 * ?n + 6"
    using nle by (simp add: unat_word_ariths)
  define v where "v = (18 * ?n + 6 + ?a - 1) div ?a * ?a"
  have v: "unat ((num * 16 + (4 + num * 2 + 2) + align - 1) AND NOT (align - 1)) = v"
    using align_up_word [of k "num * 16 + (4 + num * 2 + 2)"] sz1 nle ale ku
    by (simp add: assms(5) v_def)
  have vle: "v < 18 * ?n + 6 + ?a" unfolding v_def by (rule align_up_bounds) simp
  have "unat (4 + num * 8 + 2) = 8 * ?n + 6" using nle by (simp add: unat_word_ariths)
  then have size_eq: "unat (vring_size num align) = v + 8 * ?n + 6"
    using v vle nle ale by (simp add: vring_size_def Let_def unat_word_ariths)
  have uv: "u \<le> v" unfolding u_def v_def by (intro mult_le_mono1 div_le_mono) simp
  have gap: "18 * ?n + 6 \<le> u" unfolding u_def n by (rule used_event_gap) (rule assms(3))
  have dv: "?a dvd unat p + u" using assms(6) by (simp add: u_def)
  show ?thesis
    using avail used size_eq uv gap dv by (simp add: vring_init_def Let_def)
qed

theorem vring_init_layout_witness:
  "unat (vring_used_addr (vring_init 256 0x08000000 4096)) + 4 + 8 * 256 + 2
     \<le> 0x08000000 + unat (vring_size 256 4096)"
  using vring_init_layout [of 8 256 12 4096 "0x08000000"] by (simp add: Let_def)

lemma need_event_window:
  "vring_need_event event_idx new_idx old \<longleftrightarrow>
     (\<exists>i < unat (new_idx - old). event_idx = old + of_nat i)"
proof -
  define w where "w = new_idx - old"
  define e where "e = event_idx - old"
  have eq: "new_idx - event_idx - 1 = w - e - 1" by (simp add: w_def e_def)
  have split: "w - e - 1 = w + NOT e" by (simp add: not_eq_complement algebra_simps)
  have "unat (NOT e) = 65535 - unat e"
  proof -
    have "NOT e = - 1 - e" by (simp add: not_eq_complement algebra_simps)
    moreover have "unat (- 1 :: u16) = 65535" by (simp add: unsigned_minus_1_eq_mask mask_eq_exp_minus_1)
    ultimately show ?thesis using unat_sub [of e "- 1"] by simp
  qed
  moreover have bound: "unat e < 65536" "unat w < 65536" using unsigned_less [of e] unsigned_less [of w] by simp_all
  ultimately have main: "w - e - 1 < w \<longleftrightarrow> unat e < unat w"
    unfolding split word_less_nat_alt by (auto simp: unat_word_ariths mod_if)
  have "(\<exists>i < unat w. event_idx = old + of_nat i) \<longleftrightarrow> unat e < unat w"
  proof
    assume "\<exists>i < unat w. event_idx = old + of_nat i"
    then obtain i where i: "i < unat w" "event_idx = old + of_nat i" by blast
    have "i < 65536" using i(1) bound by linarith
    then have "unat e = i" by (simp add: e_def i(2) unat_of_nat)
    with i(1) show "unat e < unat w" by simp
  next
    assume "unat e < unat w"
    then show "\<exists>i < unat w. event_idx = old + of_nat i" by (intro exI [of _ "unat e"]) (simp add: e_def)
  qed
  then show ?thesis using main by (simp add: vring_need_event_def eq flip: w_def)
qed

text \<open>
  \<^verbatim>\<open>vring_need_event\<close> holds exactly when the event index lies in the window of entries
  added since \<open>old\<close>, counted modulo \<open>2^16\<close>.
\<close>

theorem vring_need_event_window:
  "vring_need_event event_idx new_idx old \<longleftrightarrow>
     (\<exists>i < unat (new_idx - old). event_idx = old + of_nat i)"
  by (rule need_event_window)

end
