(* ===== verification/Virtqueue.thy ===== *)
theory Virtqueue
  imports Vring Env
begin

text \<open>
  The virtqueue of \<^verbatim>\<open>lib/virtio/virtqueue.c\<close>.  The private control block is the record
  \<open>virtqueue\<close>; the ring shared with the other core is a \<open>vring_mem\<close> that every operation takes and
  returns.  All operations are parametrised by \<open>dbg\<close>, the value of \<^verbatim>\<open>VQUEUE_DEBUG\<close>: the shipped
  header sets it to \<^verbatim>\<open>false\<close>, which removes the parameter checks, assertions and busy flag.
  A failed assertion hangs (\<open>None\<close>), and so does an access outside a ring array.

  \<open>vatopa\<close> and \<open>patova\<close> are the address translations of the platform.  Buffer lists are the
  (\<^verbatim>\<open>data\<close>, \<^verbatim>\<open>attr\<close>) pairs of the linked list passed by the caller.  The null check of the
  control-block pointer is at the heap lookup of the callers.
\<close>

section \<open>Constants\<close>

definition VQ_ERROR_BASE :: int where "VQ_ERROR_BASE = -3000"
definition ERROR_VRING_FULL :: int where "ERROR_VRING_FULL = VQ_ERROR_BASE - 1"
definition ERROR_NO_MEM :: int where "ERROR_NO_MEM = VQ_ERROR_BASE - 4"
definition ERROR_VRING_ALIGN :: int where "ERROR_VRING_ALIGN = VQ_ERROR_BASE - 6"
definition ERROR_VRING_NO_BUFF :: int where "ERROR_VRING_NO_BUFF = VQ_ERROR_BASE - 7"
definition ERROR_VQUEUE_INVLD_PARAM :: int where "ERROR_VQUEUE_INVLD_PARAM = VQ_ERROR_BASE - 8"
definition VQUEUE_SUCCESS :: int where "VQUEUE_SUCCESS = 0"
definition VQUEUE_DEBUG :: bool where "VQUEUE_DEBUG = False"
definition VQ_RING_DESC_CHAIN_END :: u16 where "VQ_RING_DESC_CHAIN_END = 32768"
definition VIRTQUEUE_FLAG_EVENT_IDX :: u32 where "VIRTQUEUE_FLAG_EVENT_IDX = 2"
definition VIRTQUEUE_MAX_NAME_SZ :: nat where "VIRTQUEUE_MAX_NAME_SZ = 32"

lemmas vq_error_defs = ERROR_VRING_FULL_def ERROR_NO_MEM_def ERROR_VRING_ALIGN_def
  ERROR_VRING_NO_BUFF_def ERROR_VQUEUE_INVLD_PARAM_def VQUEUE_SUCCESS_def VQ_ERROR_BASE_def

section \<open>Control block\<close>

text \<open>The functions the library installs as queue callbacks; \<open>App_vq_fn\<close> is any other.\<close>

datatype vq_fn = Rpmsg_rx_callback | Rpmsg_tx_callback | Hil_vring_notify | App_vq_fn nat

record vq_desc_extra =
  dx_cookie :: u32
  dx_ndescs :: u16

record virtqueue =
  vq_dev :: ptr
  vq_name :: "char list"
  vq_queue_index :: u16
  vq_nentries :: u16
  vq_flags :: u32
  vq_alignment :: u32
  vq_ring_size :: u32
  vq_inuse :: bool
  vq_ring_mem :: u32
  vq_callback :: "vq_fn option"
  vq_notify :: "vq_fn option"
  vq_ring :: vring
  vq_free_cnt :: u16
  vq_queued_cnt :: u16
  vq_desc_head_idx :: u16
  vq_used_cons_idx :: u16
  vq_available_idx :: u16
  vq_descx :: "vq_desc_extra list"

record vring_alloc_info =
  vai_phy_addr :: u32
  vai_align :: u32
  vai_num_descs :: u16

section \<open>The checking macros\<close>

definition VQASSERT :: "bool \<Rightarrow> bool \<Rightarrow> unit option" where
  "VQASSERT dbg e = (if dbg \<and> \<not> e then None else Some ())"

definition VQ_RING_ASSERT_VALID_IDX :: "bool \<Rightarrow> virtqueue \<Rightarrow> u16 \<Rightarrow> unit option" where
  "VQ_RING_ASSERT_VALID_IDX dbg vq idx = VQASSERT dbg (idx < vq_nentries vq)"

definition VQ_RING_ASSERT_CHAIN_TERM :: "bool \<Rightarrow> virtqueue \<Rightarrow> unit option" where
  "VQ_RING_ASSERT_CHAIN_TERM dbg vq = VQASSERT dbg (vq_desc_head_idx vq = VQ_RING_DESC_CHAIN_END)"

definition VQ_PARAM_CHK :: "bool \<Rightarrow> bool \<Rightarrow> int \<Rightarrow> int \<Rightarrow> int" where
  "VQ_PARAM_CHK dbg condition status_err status_var =
     (if dbg \<and> status_var = 0 \<and> condition then status_err else status_var)"

definition VQUEUE_BUSY :: "bool \<Rightarrow> virtqueue \<Rightarrow> virtqueue option" where
  "VQUEUE_BUSY dbg vq =
     (if \<not> dbg then Some vq
      else if \<not> vq_inuse vq then Some (vq\<lparr>vq_inuse := True\<rparr>) else None)"

definition VQUEUE_IDLE :: "bool \<Rightarrow> virtqueue \<Rightarrow> virtqueue" where
  "VQUEUE_IDLE dbg vq = (if dbg then vq\<lparr>vq_inuse := False\<rparr> else vq)"

section \<open>Ring helpers\<close>

text \<open>\<open>vq_ring_init_next size desc\<close> is the loop of \<^verbatim>\<open>vq_ring_init\<close> that links the free chain.\<close>

definition set_next :: "vring_desc list \<Rightarrow> nat \<Rightarrow> u16 \<Rightarrow> vring_desc list option" where
  "set_next desc i n = do { d \<leftarrow> aget desc i; aset desc i (d\<lparr>d_next := n\<rparr>) }"

fun vq_ring_init_loop :: "nat list \<Rightarrow> vring_desc list \<Rightarrow> vring_desc list option" where
  "vq_ring_init_loop [] desc = Some desc"
| "vq_ring_init_loop (i # is) desc = do {
     desc \<leftarrow> set_next desc i (of_nat (i + 1));
     vq_ring_init_loop is desc }"

definition vq_ring_init :: "virtqueue \<Rightarrow> vring_mem \<Rightarrow> (virtqueue \<times> vring_mem) option" where
  "vq_ring_init vq r = do {
     let sz = unat (vq_nentries vq);
     let vq = vq\<lparr>vq_ring := vring_init (ucast (vq_nentries vq)) (vq_ring_mem vq) (vq_alignment vq)\<rparr>;
     desc \<leftarrow> vq_ring_init_loop [0..<sz - 1] (vr_desc r);
     desc \<leftarrow> set_next desc (sz - 1) VQ_RING_DESC_CHAIN_END;
     Some (vq, r\<lparr>vr_desc := desc\<rparr>) }"

definition vq_ring_update_avail :: "virtqueue \<Rightarrow> u16 \<Rightarrow> vring_mem \<Rightarrow> (virtqueue \<times> vring_mem) option" where
  "vq_ring_update_avail vq desc_idx r = do {
     let avail_idx = unat (vr_avail_idx r AND (vq_nentries vq - 1));
     ring \<leftarrow> aset (vr_avail_ring r) avail_idx desc_idx;
     Some (vq\<lparr>vq_queued_cnt := vq_queued_cnt vq + 1\<rparr>,
           r\<lparr>vr_avail_ring := ring, vr_avail_idx := vr_avail_idx r + 1\<rparr>) }"

text \<open>
  \<^verbatim>\<open>vq_ring_add_buffer\<close>: fills one free descriptor per buffer and returns the index of the
  next free one.
\<close>

fun vq_ring_add_buffer_loop ::
  "bool \<Rightarrow> (u32 \<Rightarrow> u32) \<Rightarrow> int \<Rightarrow> int \<Rightarrow> int \<Rightarrow> u16 \<Rightarrow> (u32 \<times> u32) list \<Rightarrow> vring_desc list \<Rightarrow>
     (u16 \<times> vring_desc list) option" where
  "vq_ring_add_buffer_loop dbg vatopa needed readable i idx [] desc = Some (idx, desc)"
| "vq_ring_add_buffer_loop dbg vatopa needed readable i idx ((data, attr) # buffer) desc =
     (if \<not> i < needed then Some (idx, desc)
      else do {
        _ \<leftarrow> VQASSERT dbg (idx \<noteq> VQ_RING_DESC_CHAIN_END);
        dp \<leftarrow> aget desc (unat idx);
        let flags = (if i < needed - 1 then VRING_DESC_F_NEXT else 0);
        let flags = (if i \<ge> readable then flags OR VRING_DESC_F_WRITE else flags);
        desc \<leftarrow> aset desc (unat idx)
          (dp\<lparr>d_addr := ucast (vatopa data), d_len := attr, d_flags := flags\<rparr>);
        vq_ring_add_buffer_loop dbg vatopa needed readable (i + 1) (d_next dp) buffer desc })"

definition vq_ring_add_buffer ::
  "bool \<Rightarrow> (u32 \<Rightarrow> u32) \<Rightarrow> vring_desc list \<Rightarrow> u16 \<Rightarrow> (u32 \<times> u32) list \<Rightarrow> int \<Rightarrow> int \<Rightarrow>
     (u16 \<times> vring_desc list) option" where
  "vq_ring_add_buffer dbg vatopa desc head_idx buffer readable writable =
     vq_ring_add_buffer_loop dbg vatopa (readable + writable) readable 0 head_idx buffer desc"

text \<open>
  The loop of \<^verbatim>\<open>vq_ring_free_chain\<close>: follows the \<^verbatim>\<open>NEXT\<close> flags to the last descriptor of a chain and
  counts \<^verbatim>\<open>ndescs\<close> down; on a cyclic chain it does not return.
\<close>

partial_function (option) vq_chain_end ::
  "bool \<Rightarrow> virtqueue \<Rightarrow> vring_desc list \<Rightarrow> u16 \<Rightarrow> u16 \<Rightarrow> (u16 \<times> u16) option" where
  "vq_chain_end dbg vq desc idx ndescs = do {
     dp \<leftarrow> aget desc (unat idx);
     (if d_flags dp AND VRING_DESC_F_NEXT \<noteq> 0 then do {
        _ \<leftarrow> VQ_RING_ASSERT_VALID_IDX dbg vq (d_next dp);
        vq_chain_end dbg vq desc (d_next dp) (ndescs - 1) }
      else Some (idx, ndescs)) }"

declare vq_chain_end.simps [code]

definition vq_ring_free_chain :: "bool \<Rightarrow> virtqueue \<Rightarrow> u16 \<Rightarrow> vring_mem \<Rightarrow> (virtqueue \<times> vring_mem) option" where
  "vq_ring_free_chain dbg vq desc_idx r = do {
     _ \<leftarrow> VQ_RING_ASSERT_VALID_IDX dbg vq desc_idx;
     dp \<leftarrow> aget (vr_desc r) (unat desc_idx);
     dxp \<leftarrow> aget (vq_descx vq) (unat desc_idx);
     _ \<leftarrow> (if vq_free_cnt vq = 0 then VQ_RING_ASSERT_CHAIN_TERM dbg vq else Some ());
     let vq = vq\<lparr>vq_free_cnt := vq_free_cnt vq + dx_ndescs dxp\<rparr>;
     (last_idx, ndescs) \<leftarrow>
       (if d_flags dp AND VRING_DESC_F_INDIRECT = 0
        then vq_chain_end dbg vq (vr_desc r) desc_idx (dx_ndescs dxp - 1)
        else Some (desc_idx, dx_ndescs dxp - 1));
     descx \<leftarrow> aset (vq_descx vq) (unat desc_idx) (dxp\<lparr>dx_ndescs := ndescs\<rparr>);
     _ \<leftarrow> VQASSERT dbg (ndescs = 0);
     desc \<leftarrow> set_next (vr_desc r) (unat last_idx) (vq_desc_head_idx vq);
     Some (vq\<lparr>vq_descx := descx, vq_desc_head_idx := desc_idx\<rparr>, r\<lparr>vr_desc := desc\<rparr>) }"

definition virtqueue_nused :: "bool \<Rightarrow> virtqueue \<Rightarrow> vring_mem \<Rightarrow> u16 option" where
  "virtqueue_nused dbg vq r = do {
     let nused = vr_used_idx r - vq_used_cons_idx vq;
     _ \<leftarrow> VQASSERT dbg (nused \<le> vq_nentries vq);
     Some nused }"

text \<open>\<^verbatim>\<open>vring_used_event\<close> is \<^verbatim>\<open>avail->ring[num]\<close>, \<^verbatim>\<open>vring_avail_event\<close> the field behind the used ring.\<close>

definition set_used_event :: "virtqueue \<Rightarrow> u16 \<Rightarrow> vring_mem \<Rightarrow> vring_mem option" where
  "set_used_event vq v r = do {
     ring \<leftarrow> aset (vr_avail_ring r) (unat (vring_num (vq_ring vq))) v;
     Some (r\<lparr>vr_avail_ring := ring\<rparr>) }"

definition vq_ring_enable_interrupt :: "bool \<Rightarrow> virtqueue \<Rightarrow> u16 \<Rightarrow> vring_mem \<Rightarrow> (int \<times> vring_mem) option" where
  "vq_ring_enable_interrupt dbg vq ndesc r = do {
     r \<leftarrow> (if vq_flags vq AND VIRTQUEUE_FLAG_EVENT_IDX \<noteq> 0
          then set_used_event vq (vq_used_cons_idx vq + ndesc) r
          else Some (r\<lparr>vr_avail_flags := vr_avail_flags r AND NOT VRING_AVAIL_F_NO_INTERRUPT\<rparr>));
     nused \<leftarrow> virtqueue_nused dbg vq r;
     Some ((if nused > ndesc then 1 else 0), r) }"

definition vq_ring_must_notify_host :: "virtqueue \<Rightarrow> vring_mem \<Rightarrow> bool" where
  "vq_ring_must_notify_host vq r =
     (if vq_flags vq AND VIRTQUEUE_FLAG_EVENT_IDX \<noteq> 0
      then let new_idx = vr_avail_idx r;
               prev_idx = new_idx - vq_queued_cnt vq;
               event_idx = vr_avail_event r
           in vring_need_event event_idx new_idx prev_idx
      else vr_used_flags r AND VRING_USED_F_NO_NOTIFY = 0)"

text \<open>\<open>call\<close> runs the body of the function stored in the control block.\<close>

definition vq_ring_notify_host ::
  "(vq_fn \<Rightarrow> virtqueue \<Rightarrow> 's \<Rightarrow> 's option) \<Rightarrow> virtqueue \<Rightarrow> 's \<Rightarrow> 's option" where
  "vq_ring_notify_host call vq s = (case vq_notify vq of None \<Rightarrow> Some s | Some f \<Rightarrow> call f vq s)"

section \<open>Operations\<close>

definition virtqueue_disable_cb :: "bool \<Rightarrow> virtqueue \<Rightarrow> vring_mem \<Rightarrow> (virtqueue \<times> vring_mem) option" where
  "virtqueue_disable_cb dbg vq r = do {
     vq \<leftarrow> VQUEUE_BUSY dbg vq;
     r \<leftarrow> (if vq_flags vq AND VIRTQUEUE_FLAG_EVENT_IDX \<noteq> 0
          then set_used_event vq (vq_used_cons_idx vq - vq_nentries vq - 1) r
          else Some (r\<lparr>vr_avail_flags := vr_avail_flags r OR VRING_AVAIL_F_NO_INTERRUPT\<rparr>));
     Some (VQUEUE_IDLE dbg vq, r) }"

definition virtqueue_enable_cb :: "bool \<Rightarrow> virtqueue \<Rightarrow> vring_mem \<Rightarrow> (int \<times> vring_mem) option" where
  "virtqueue_enable_cb dbg vq r = vq_ring_enable_interrupt dbg vq 0 r"

text \<open>\<open>vq_zero n\<close> is the zeroed block of \<^verbatim>\<open>env_allocate_memory\<close> and \<^verbatim>\<open>env_memset\<close>.\<close>

definition vq_zero :: "nat \<Rightarrow> virtqueue" where
  "vq_zero n = \<lparr>vq_dev = NULL, vq_name = replicate VIRTQUEUE_MAX_NAME_SZ NUL, vq_queue_index = 0,
     vq_nentries = 0, vq_flags = 0, vq_alignment = 0, vq_ring_size = 0, vq_inuse = False,
     vq_ring_mem = 0, vq_callback = None, vq_notify = None,
     vq_ring = \<lparr>vring_num = 0, vring_desc_addr = 0, vring_avail_addr = 0, vring_used_addr = 0\<rparr>,
     vq_free_cnt = 0, vq_queued_cnt = 0, vq_desc_head_idx = 0, vq_used_cons_idx = 0,
     vq_available_idx = 0, vq_descx = replicate n \<lparr>dx_cookie = 0, dx_ndescs = 0\<rparr>\<rparr>"

text \<open>\<open>ok\<close> is the outcome of the allocation; the queue is returned only on success.\<close>

definition virtqueue_create ::
  "bool \<Rightarrow> bool \<Rightarrow> ptr \<Rightarrow> u16 \<Rightarrow> char list \<Rightarrow> vring_alloc_info \<Rightarrow> vq_fn option \<Rightarrow> vq_fn option \<Rightarrow>
     vring_mem \<Rightarrow> (int \<times> virtqueue option \<times> vring_mem) option" where
  "virtqueue_create dbg ok virt_dev qid name ring callback notify r = do {
     let status = VQUEUE_SUCCESS;
     let status = VQ_PARAM_CHK dbg (vai_num_descs ring = 0) ERROR_VQUEUE_INVLD_PARAM status;
     let status = VQ_PARAM_CHK dbg (vai_num_descs ring AND (vai_num_descs ring - 1) \<noteq> 0)
                    ERROR_VRING_ALIGN status;
     (if status = VQUEUE_SUCCESS then
        (if \<not> ok then Some (ERROR_NO_MEM, None, r)
         else do {
           nm \<leftarrow> env_strncpy name VIRTQUEUE_MAX_NAME_SZ;
           let vq = (vq_zero (unat (vai_num_descs ring)))
             \<lparr>vq_dev := virt_dev, vq_name := nm, vq_queue_index := qid,
              vq_alignment := vai_align ring, vq_nentries := vai_num_descs ring,
              vq_free_cnt := vai_num_descs ring, vq_callback := callback, vq_notify := notify,
              vq_ring_size := vring_size (ucast (vai_num_descs ring)) (vai_align ring),
              vq_ring_mem := vai_phy_addr ring\<rparr>;
           (vq, r) \<leftarrow> vq_ring_init vq r;
           (vq, r) \<leftarrow> virtqueue_disable_cb dbg vq r;
           Some (status, Some vq, r) })
      else Some (status, None, r)) }"

definition virtqueue_add_buffer ::
  "bool \<Rightarrow> (u32 \<Rightarrow> u32) \<Rightarrow> virtqueue \<Rightarrow> (u32 \<times> u32) list \<Rightarrow> int \<Rightarrow> int \<Rightarrow> u32 \<Rightarrow> vring_mem \<Rightarrow>
     (int \<times> virtqueue \<times> vring_mem) option" where
  "virtqueue_add_buffer dbg vatopa vq buffer readable writable cookie r = do {
     let needed = readable + writable;
     let status = VQUEUE_SUCCESS;
     let status = VQ_PARAM_CHK dbg (needed < 1) ERROR_VQUEUE_INVLD_PARAM status;
     let status = VQ_PARAM_CHK dbg (vq_free_cnt vq = 0) ERROR_VRING_FULL status;
     vq \<leftarrow> VQUEUE_BUSY dbg vq;
     (vq, r) \<leftarrow> (if status = VQUEUE_SUCCESS then do {
        _ \<leftarrow> VQASSERT dbg (cookie \<noteq> 0);
        let head_idx = vq_desc_head_idx vq;
        _ \<leftarrow> VQ_RING_ASSERT_VALID_IDX dbg vq head_idx;
        dxp \<leftarrow> aget (vq_descx vq) (unat head_idx);
        _ \<leftarrow> VQASSERT dbg (dx_cookie dxp = 0);
        descx \<leftarrow> aset (vq_descx vq) (unat head_idx)
          (dxp\<lparr>dx_cookie := cookie, dx_ndescs := of_int needed\<rparr>);
        (idx, desc) \<leftarrow> vq_ring_add_buffer dbg vatopa (vr_desc r) head_idx buffer readable writable;
        let vq = vq\<lparr>vq_descx := descx, vq_desc_head_idx := idx,
                    vq_free_cnt := vq_free_cnt vq - of_int needed\<rparr>;
        _ \<leftarrow> (if vq_free_cnt vq = 0 then VQ_RING_ASSERT_CHAIN_TERM dbg vq
              else VQ_RING_ASSERT_VALID_IDX dbg vq idx);
        vq_ring_update_avail vq head_idx (r\<lparr>vr_desc := desc\<rparr>) }
      else Some (vq, r));
     Some (status, VQUEUE_IDLE dbg vq, r) }"

definition virtqueue_add_single_buffer ::
  "bool \<Rightarrow> (u32 \<Rightarrow> u32) \<Rightarrow> virtqueue \<Rightarrow> u32 \<Rightarrow> u32 \<Rightarrow> u32 \<Rightarrow> bool \<Rightarrow> bool \<Rightarrow> vring_mem \<Rightarrow>
     (int \<times> virtqueue \<times> vring_mem) option" where
  "virtqueue_add_single_buffer dbg vatopa vq cookie buffer_addr len writable has_next r = do {
     let status = VQ_PARAM_CHK dbg (vq_free_cnt vq = 0) ERROR_VRING_FULL VQUEUE_SUCCESS;
     vq \<leftarrow> VQUEUE_BUSY dbg vq;
     (vq, r) \<leftarrow> (if status = VQUEUE_SUCCESS then do {
        _ \<leftarrow> VQASSERT dbg (cookie \<noteq> 0);
        let head_idx = vq_desc_head_idx vq;
        dxp \<leftarrow> aget (vq_descx vq) (unat head_idx);
        descx \<leftarrow> aset (vq_descx vq) (unat head_idx) (dxp\<lparr>dx_cookie := cookie, dx_ndescs := 1\<rparr>);
        dp \<leftarrow> aget (vr_desc r) (unat head_idx);
        let flags = (if has_next then VRING_DESC_F_NEXT else 0);
        let flags = (if writable then flags OR VRING_DESC_F_WRITE else flags);
        desc \<leftarrow> aset (vr_desc r) (unat head_idx)
          (dp\<lparr>d_addr := ucast (vatopa buffer_addr), d_len := len, d_flags := flags\<rparr>);
        let idx = d_next dp;
        let vq = vq\<lparr>vq_descx := descx, vq_desc_head_idx := idx, vq_free_cnt := vq_free_cnt vq - 1\<rparr>;
        _ \<leftarrow> (if vq_free_cnt vq = 0 then VQ_RING_ASSERT_CHAIN_TERM dbg vq
              else VQ_RING_ASSERT_VALID_IDX dbg vq idx);
        vq_ring_update_avail vq head_idx (r\<lparr>vr_desc := desc\<rparr>) }
      else Some (vq, r));
     Some (status, VQUEUE_IDLE dbg vq, r) }"

text \<open>The result is the cookie (0 for \<^verbatim>\<open>VQ_NULL\<close>) and, when a buffer was returned, its length.\<close>

definition virtqueue_get_buffer ::
  "bool \<Rightarrow> virtqueue \<Rightarrow> vring_mem \<Rightarrow> (u32 \<times> u32 option \<times> virtqueue \<times> vring_mem) option" where
  "virtqueue_get_buffer dbg vq r =
     (if vq_used_cons_idx vq = vr_used_idx r then Some (0, None, vq, r)
      else do {
        vq \<leftarrow> VQUEUE_BUSY dbg vq;
        let used_idx = vq_used_cons_idx vq AND (vq_nentries vq - 1);
        let vq = vq\<lparr>vq_used_cons_idx := vq_used_cons_idx vq + 1\<rparr>;
        uep \<leftarrow> aget (vr_used_ring r) (unat used_idx);
        let desc_idx = (ucast (ue_id uep) :: u16);
        let len = ue_len uep;
        (vq, r) \<leftarrow> vq_ring_free_chain dbg vq desc_idx r;
        dxp \<leftarrow> aget (vq_descx vq) (unat desc_idx);
        let cookie = dx_cookie dxp;
        descx \<leftarrow> aset (vq_descx vq) (unat desc_idx) (dxp\<lparr>dx_cookie := 0\<rparr>);
        Some (cookie, Some len, VQUEUE_IDLE dbg (vq\<lparr>vq_descx := descx\<rparr>), r) })"

text \<open>
  \<^verbatim>\<open>virtqueue_free\<close> prints a warning for a queue with buffers in flight and then releases the block;
  the result is the block as it is handed to \<^verbatim>\<open>env_free_memory\<close>, and whether it warned.
\<close>

definition virtqueue_free :: "virtqueue \<Rightarrow> bool \<times> virtqueue" where
  "virtqueue_free vq =
     (vq_free_cnt vq \<noteq> vq_nentries vq,
      if vq_ring_mem vq \<noteq> 0 then vq\<lparr>vq_ring_size := 0, vq_ring_mem := 0\<rparr> else vq)"

text \<open>The result is the buffer (0 for \<^verbatim>\<open>VQ_NULL\<close>) with the out-parameters \<^verbatim>\<open>avail_idx\<close> and \<^verbatim>\<open>len\<close>.\<close>

definition virtqueue_get_available_buffer ::
  "bool \<Rightarrow> (u32 \<Rightarrow> u32) \<Rightarrow> virtqueue \<Rightarrow> vring_mem \<Rightarrow> (u32 \<times> (u16 \<times> u32) option \<times> virtqueue) option" where
  "virtqueue_get_available_buffer dbg patova vq r =
     (if vq_available_idx vq = vr_avail_idx r then Some (0, None, vq)
      else do {
        vq \<leftarrow> VQUEUE_BUSY dbg vq;
        let head_idx = vq_available_idx vq AND (vq_nentries vq - 1);
        let vq = vq\<lparr>vq_available_idx := vq_available_idx vq + 1\<rparr>;
        avail_idx \<leftarrow> aget (vr_avail_ring r) (unat head_idx);
        dp \<leftarrow> aget (vr_desc r) (unat avail_idx);
        let buffer = patova (ucast (d_addr dp));
        Some (buffer, Some (avail_idx, d_len dp), VQUEUE_IDLE dbg vq) })"

definition virtqueue_add_consumed_buffer ::
  "bool \<Rightarrow> virtqueue \<Rightarrow> u16 \<Rightarrow> u32 \<Rightarrow> vring_mem \<Rightarrow> (int \<times> virtqueue \<times> vring_mem) option" where
  "virtqueue_add_consumed_buffer dbg vq head_idx len r =
     (if head_idx > vq_nentries vq then Some (ERROR_VRING_NO_BUFF, vq, r)
      else do {
        vq \<leftarrow> VQUEUE_BUSY dbg vq;
        let used_idx = unat (vr_used_idx r AND (vq_nentries vq - 1));
        ring \<leftarrow> aset (vr_used_ring r) used_idx \<lparr>ue_id = ucast head_idx, ue_len = len\<rparr>;
        Some (VQUEUE_SUCCESS, VQUEUE_IDLE dbg vq,
              r\<lparr>vr_used_ring := ring, vr_used_idx := vr_used_idx r + 1\<rparr>) })"

text \<open>The notify function receives the control block while it is still marked busy.\<close>

definition virtqueue_kick ::
  "bool \<Rightarrow> (vq_fn \<Rightarrow> virtqueue \<Rightarrow> 's \<Rightarrow> 's option) \<Rightarrow> virtqueue \<Rightarrow> vring_mem \<Rightarrow> 's \<Rightarrow> (virtqueue \<times> 's) option" where
  "virtqueue_kick dbg call vq r s = do {
     vq \<leftarrow> VQUEUE_BUSY dbg vq;
     s \<leftarrow> (if vq_ring_must_notify_host vq r then vq_ring_notify_host call vq s else Some s);
     Some (VQUEUE_IDLE dbg (vq\<lparr>vq_queued_cnt := 0\<rparr>), s) }"

definition virtqueue_get_desc_size :: "bool \<Rightarrow> virtqueue \<Rightarrow> vring_mem \<Rightarrow> (u32 \<times> virtqueue) option" where
  "virtqueue_get_desc_size dbg vq r =
     (if vq_available_idx vq = vr_avail_idx r then Some (0, vq)
      else do {
        vq \<leftarrow> VQUEUE_BUSY dbg vq;
        let head_idx = vq_available_idx vq AND (vq_nentries vq - 1);
        avail_idx \<leftarrow> aget (vr_avail_ring r) (unat head_idx);
        dp \<leftarrow> aget (vr_desc r) (unat avail_idx);
        Some (d_len dp, VQUEUE_IDLE dbg vq) })"

definition virtqueue_notification ::
  "(vq_fn \<Rightarrow> virtqueue \<Rightarrow> 's \<Rightarrow> 's option) \<Rightarrow> virtqueue \<Rightarrow> 's \<Rightarrow> 's option" where
  "virtqueue_notification call vq s = (case vq_callback vq of None \<Rightarrow> Some s | Some f \<Rightarrow> call f vq s)"

text \<open>The values \<^verbatim>\<open>virtqueue_dump\<close> prints, in order.\<close>

definition virtqueue_dump :: "bool \<Rightarrow> virtqueue \<Rightarrow> vring_mem \<Rightarrow> (char list \<times> u16 list) option" where
  "virtqueue_dump dbg vq r = do {
     nused \<leftarrow> virtqueue_nused dbg vq r;
     Some (vq_name vq,
       [vq_nentries vq, vq_free_cnt vq, nused, vq_queued_cnt vq, vq_desc_head_idx vq,
        vr_avail_idx r, vq_used_cons_idx vq, vr_used_idx r, vr_avail_flags r, vr_used_flags r]) }"

end
