(* ===== verification/VqProtocol.thy ===== *)
theory VqProtocol
  imports Virtqueue "HOL-Library.Multiset"
begin

text \<open>
  The two sides of a virtqueue.  The driver side owns the free descriptors, offers
  chains (\<^verbatim>\<open>virtqueue_add_buffer\<close>) and reclaims them (\<^verbatim>\<open>virtqueue_get_buffer\<close>); the device side
  takes offered chains (\<^verbatim>\<open>virtqueue_get_available_buffer\<close>) and gives them back
  (\<^verbatim>\<open>virtqueue_add_consumed_buffer\<close>).  Both sides have their own control block and share the ring.

  The specification is a machine over lists (\<open>ring_abs\<close>, \<open>abs_step\<close>): the free descriptors, the
  offered chains in order, the chains held by the device, the returned chains in order.  The code
  refines it (\<open>ring_rel\<close>): no operation used within its contract reaches undefined behaviour or a
  failed assertion, in the debug build or in the shipped one, for any ring contents and any
  counter values, wrap-around included.
\<close>

section \<open>Specification\<close>

record token =
  tk_chain :: "u16 list"
  tk_bufs :: "(u32 \<times> u32) list"
  tk_cookie :: u32

record ring_abs =
  ra_free :: "u16 list"
  ra_pend :: "token list"
  ra_taken :: "token list"
  ra_used :: "(token \<times> u32) list"

datatype ring_op =
    Offer "(u32 \<times> u32) list" int int u32
  | Take
  | Give u16 u32
  | Reclaim

datatype ring_out =
    Offered
  | Took u32 "(u16 \<times> u32) option"
  | Given
  | Reclaimed u32 "u32 option"

definition tk_head :: "token \<Rightarrow> u16" where
  "tk_head t = hd (tk_chain t)"

definition tokens :: "ring_abs \<Rightarrow> token list" where
  "tokens A = ra_pend A @ ra_taken A @ map fst (ra_used A)"

text \<open>
  One step of the specification; \<open>None\<close> is a step outside the contract: an empty chain, counts that
  do not match the buffers, more buffers than free descriptors, a null cookie, or the return of a chain
  the device does not hold.
\<close>

fun abs_step :: "(u32 \<Rightarrow> u32) \<Rightarrow> ring_op \<Rightarrow> ring_abs \<Rightarrow> (ring_out \<times> ring_abs) option" where
  "abs_step tr (Offer bufs readable writable cookie) A =
     (if bufs \<noteq> [] \<and> length bufs \<le> length (ra_free A) \<and> readable + writable = int (length bufs) \<and> cookie \<noteq> 0
      then Some (Offered, A\<lparr>ra_free := drop (length bufs) (ra_free A),
             ra_pend := ra_pend A @
               [\<lparr>tk_chain = take (length bufs) (ra_free A), tk_bufs = bufs, tk_cookie = cookie\<rparr>]\<rparr>)
      else None)"
| "abs_step tr Take A =
     (case ra_pend A of
        [] \<Rightarrow> Some (Took 0 None, A)
      | t # ts \<Rightarrow> Some (Took (tr (fst (hd (tk_bufs t)))) (Some (tk_head t, snd (hd (tk_bufs t)))),
                      A\<lparr>ra_pend := ts, ra_taken := ra_taken A @ [t]\<rparr>))"
| "abs_step tr (Give idx len) A =
     (case filter (\<lambda>t. tk_head t = idx) (ra_taken A) of
        [] \<Rightarrow> None
      | t # ts \<Rightarrow> Some (Given, A\<lparr>ra_taken := remove1 t (ra_taken A), ra_used := ra_used A @ [(t, len)]\<rparr>))"
| "abs_step tr Reclaim A =
     (case ra_used A of
        [] \<Rightarrow> Some (Reclaimed 0 None, A)
      | (t, len) # us \<Rightarrow> Some (Reclaimed (tk_cookie t) (Some len),
                             A\<lparr>ra_free := tk_chain t @ ra_free A, ra_used := us\<rparr>))"

section \<open>The code's machine\<close>

record ring_sys =
  rs_drv :: virtqueue
  rs_dev :: virtqueue
  rs_ring :: vring_mem

text \<open>Each step is one call of the library on the control block of its side.\<close>

fun ring_step ::
  "bool \<Rightarrow> (u32 \<Rightarrow> u32) \<Rightarrow> (u32 \<Rightarrow> u32) \<Rightarrow> ring_op \<Rightarrow> ring_sys \<Rightarrow> (ring_out \<times> ring_sys) option" where
  "ring_step dbg vatopa patova (Offer bufs readable writable cookie) s = do {
     (status, vq, r) \<leftarrow> virtqueue_add_buffer dbg vatopa (rs_drv s) bufs readable writable cookie (rs_ring s);
     (if status = VQUEUE_SUCCESS then Some (Offered, s\<lparr>rs_drv := vq, rs_ring := r\<rparr>) else None) }"
| "ring_step dbg vatopa patova Take s = do {
     (b, out, vq) \<leftarrow> virtqueue_get_available_buffer dbg patova (rs_dev s) (rs_ring s);
     Some (Took b out, s\<lparr>rs_dev := vq\<rparr>) }"
| "ring_step dbg vatopa patova (Give idx len) s = do {
     (status, vq, r) \<leftarrow> virtqueue_add_consumed_buffer dbg (rs_dev s) idx len (rs_ring s);
     (if status = VQUEUE_SUCCESS then Some (Given, s\<lparr>rs_dev := vq, rs_ring := r\<rparr>) else None) }"
| "ring_step dbg vatopa patova Reclaim s = do {
     (cookie, out, vq, r) \<leftarrow> virtqueue_get_buffer dbg (rs_drv s) (rs_ring s);
     Some (Reclaimed cookie out, s\<lparr>rs_drv := vq, rs_ring := r\<rparr>) }"

section \<open>The refinement relation\<close>

fun linked :: "vring_desc list \<Rightarrow> u16 \<Rightarrow> u16 list \<Rightarrow> u16 \<Rightarrow> bool" where
  "linked desc a [] e \<longleftrightarrow> a = e"
| "linked desc a (x # xs) e \<longleftrightarrow>
     a = x \<and> unat x < length desc \<and> linked desc (d_next (desc ! unat x)) xs e"

fun busy_chain :: "vring_desc list \<Rightarrow> u16 list \<Rightarrow> bool" where
  "busy_chain desc [] \<longleftrightarrow> False"
| "busy_chain desc [x] \<longleftrightarrow> unat x < length desc \<and> d_flags (desc ! unat x) AND VRING_DESC_F_NEXT = 0 \<and>
     d_flags (desc ! unat x) AND VRING_DESC_F_INDIRECT = 0"
| "busy_chain desc (x # y # ys) \<longleftrightarrow> unat x < length desc \<and>
     d_flags (desc ! unat x) AND VRING_DESC_F_NEXT \<noteq> 0 \<and>
     d_flags (desc ! unat x) AND VRING_DESC_F_INDIRECT = 0 \<and> d_next (desc ! unat x) = y \<and>
     busy_chain desc (y # ys)"

definition chain_content :: "vring_desc list \<Rightarrow> u16 list \<Rightarrow> (u64 \<times> u32) list" where
  "chain_content desc xs = map (\<lambda>x. (d_addr (desc ! unat x), d_len (desc ! unat x))) xs"

definition token_ok :: "(u32 \<Rightarrow> u32) \<Rightarrow> vring_desc list \<Rightarrow> vq_desc_extra list \<Rightarrow> token \<Rightarrow> bool" where
  "token_ok vatopa desc descx t \<longleftrightarrow> busy_chain desc (tk_chain t) \<and>
     chain_content desc (tk_chain t) = map (\<lambda>(a, l). (ucast (vatopa a), l)) (tk_bufs t) \<and>
     descx ! unat (tk_head t) = \<lparr>dx_cookie = tk_cookie t, dx_ndescs = of_nat (length (tk_chain t))\<rparr>"

definition ring_geometry :: "ring_sys \<Rightarrow> bool" where
  "ring_geometry s \<longleftrightarrow> pow2_size (vq_nentries (rs_drv s)) \<and>
     vq_nentries (rs_dev s) = vq_nentries (rs_drv s) \<and>
     length (vr_desc (rs_ring s)) = unat (vq_nentries (rs_drv s)) \<and>
     length (vq_descx (rs_drv s)) = unat (vq_nentries (rs_drv s)) \<and>
     unat (vq_nentries (rs_drv s)) \<le> length (vr_avail_ring (rs_ring s)) \<and>
     length (vr_used_ring (rs_ring s)) = unat (vq_nentries (rs_drv s)) \<and>
     \<not> vq_inuse (rs_drv s) \<and> \<not> vq_inuse (rs_dev s)"

definition ring_free :: "ring_sys \<Rightarrow> ring_abs \<Rightarrow> bool" where
  "ring_free s A \<longleftrightarrow>
     linked (vr_desc (rs_ring s)) (vq_desc_head_idx (rs_drv s)) (ra_free A) VQ_RING_DESC_CHAIN_END \<and>
     unat (vq_free_cnt (rs_drv s)) = length (ra_free A)"

definition ring_owned :: "ring_sys \<Rightarrow> ring_abs \<Rightarrow> bool" where
  "ring_owned s A \<longleftrightarrow>
     distinct (ra_free A @ concat (map tk_chain (tokens A))) \<and>
     length (ra_free A @ concat (map tk_chain (tokens A))) = unat (vq_nentries (rs_drv s))"

definition ring_tokens :: "(u32 \<Rightarrow> u32) \<Rightarrow> ring_sys \<Rightarrow> ring_abs \<Rightarrow> bool" where
  "ring_tokens vatopa s A \<longleftrightarrow>
     (\<forall>t \<in> set (tokens A). token_ok vatopa (vr_desc (rs_ring s)) (vq_descx (rs_drv s)) t) \<and>
     (\<forall>i < unat (vq_nentries (rs_drv s)).
        i \<notin> unat ` tk_head ` set (tokens A) \<longrightarrow> dx_cookie (vq_descx (rs_drv s) ! i) = 0)"

definition ring_avail :: "ring_sys \<Rightarrow> ring_abs \<Rightarrow> bool" where
  "ring_avail s A \<longleftrightarrow>
     vq_available_idx (rs_dev s) + of_nat (length (ra_pend A)) = vr_avail_idx (rs_ring s) \<and>
     (\<forall>i < length (ra_pend A).
        vr_avail_ring (rs_ring s) ! ((unat (vq_available_idx (rs_dev s)) + i) mod unat (vq_nentries (rs_drv s)))
          = tk_head (ra_pend A ! i))"

definition ring_used :: "ring_sys \<Rightarrow> ring_abs \<Rightarrow> bool" where
  "ring_used s A \<longleftrightarrow>
     vq_used_cons_idx (rs_drv s) + of_nat (length (ra_used A)) = vr_used_idx (rs_ring s) \<and>
     (\<forall>i < length (ra_used A).
        vr_used_ring (rs_ring s) ! ((unat (vq_used_cons_idx (rs_drv s)) + i) mod unat (vq_nentries (rs_drv s)))
          = \<lparr>ue_id = ucast (tk_head (fst (ra_used A ! i))), ue_len = snd (ra_used A ! i)\<rparr>)"

definition ring_rel :: "(u32 \<Rightarrow> u32) \<Rightarrow> ring_sys \<Rightarrow> ring_abs \<Rightarrow> bool" where
  "ring_rel vatopa s A \<longleftrightarrow> ring_geometry s \<and> ring_free s A \<and> ring_owned s A \<and>
     ring_tokens vatopa s A \<and> ring_avail s A \<and> ring_used s A"

section \<open>Chains\<close>

lemma linked_bound: "linked desc a xs e \<Longrightarrow> x \<in> set xs \<Longrightarrow> unat x < length desc"
  by (induction desc a xs e rule: linked.induct) auto

lemma busy_chain_bound: "busy_chain desc xs \<Longrightarrow> x \<in> set xs \<Longrightarrow> unat x < length desc"
  by (induction desc xs rule: busy_chain.induct) auto

lemma busy_chain_not_Nil: "busy_chain desc xs \<Longrightarrow> xs \<noteq> []"
  by (cases xs) auto

lemma linked_cong:
  assumes "length desc' = length desc" "\<And>x. x \<in> set xs \<Longrightarrow> d_next (desc' ! unat x) = d_next (desc ! unat x)"
  shows "linked desc a xs e \<Longrightarrow> linked desc' a xs e"
  using assms by (induction desc a xs e rule: linked.induct) auto

lemma busy_chain_cong:
  assumes "length desc' = length desc" "\<And>x. x \<in> set xs \<Longrightarrow> desc' ! unat x = desc ! unat x"
  shows "busy_chain desc xs \<Longrightarrow> busy_chain desc' xs"
  using assms by (induction desc xs rule: busy_chain.induct) auto

lemma chain_content_cong:
  "(\<And>x. x \<in> set xs \<Longrightarrow> desc' ! unat x = desc ! unat x) \<Longrightarrow> chain_content desc' xs = chain_content desc xs"
  by (simp add: chain_content_def)

lemma linked_append:
  "linked desc a xs b \<Longrightarrow> linked desc b ys e \<Longrightarrow> linked desc a (xs @ ys) e"
  by (induction desc a xs b rule: linked.induct) auto

text \<open>The free chain produced by giving a busy chain back: the last descriptor is linked to the old head.\<close>

lemma busy_chain_linked:
  "busy_chain desc xs \<Longrightarrow> distinct xs \<Longrightarrow>
     linked (desc[unat (last xs) := (desc ! unat (last xs))\<lparr>d_next := e\<rparr>]) (hd xs) xs e"
proof (induction desc xs rule: busy_chain.induct)
  case (3 desc x y ys)
  have "last (y # ys) \<in> set (y # ys)" by (rule last_in_set) simp
  with 3(3) have "unat (last (y # ys)) \<noteq> unat x" by (metis distinct.simps(2) word_unat_eq_iff)
  with 3 show ?case by auto
qed auto

lemma vq_chain_end_step:
  "vq_chain_end dbg vq desc idx n = do {
     dp \<leftarrow> aget desc (unat idx);
     (if d_flags dp AND VRING_DESC_F_NEXT \<noteq> 0 then do {
        _ \<leftarrow> VQ_RING_ASSERT_VALID_IDX dbg vq (d_next dp);
        vq_chain_end dbg vq desc (d_next dp) (n - 1) }
      else Some (idx, n)) }"
  by (rule vq_chain_end.simps)

lemma vq_chain_end_busy:
  assumes "length desc = unat (vq_nentries vq)"
  shows "busy_chain desc xs \<Longrightarrow>
    vq_chain_end dbg vq desc (hd xs) n = Some (last xs, n - of_nat (length xs - 1))"
  using assms
proof (induction desc xs arbitrary: n rule: busy_chain.induct)
  case (2 desc x)
  then show ?case by (subst vq_chain_end_step) simp
next
  case (3 desc x y ys)
  from 3(2) have b: "unat y < length desc" using busy_chain_bound by auto
  with 3 show ?case
    by (subst vq_chain_end_step)
      (simp add: VQ_RING_ASSERT_VALID_IDX_def VQASSERT_def word_less_nat_alt algebra_simps)
qed simp


lemma chain_flags:
  "(if b then VRING_DESC_F_NEXT else 0) AND VRING_DESC_F_INDIRECT = 0"
  "((if b then VRING_DESC_F_NEXT else 0) OR VRING_DESC_F_WRITE) AND VRING_DESC_F_INDIRECT = 0"
  "(if b then VRING_DESC_F_NEXT else 0) AND VRING_DESC_F_NEXT = (if b then 1 else 0)"
  "((if b then VRING_DESC_F_NEXT else 0) OR VRING_DESC_F_WRITE) AND VRING_DESC_F_NEXT = (if b then 1 else 0)"
  by (simp_all add: vring_flag_defs)

lemma busy_chain_Cons:
  "busy_chain desc (x # xs) \<longleftrightarrow> unat x < length desc \<and> d_flags (desc ! unat x) AND VRING_DESC_F_INDIRECT = 0 \<and>
     (if xs = [] then d_flags (desc ! unat x) AND VRING_DESC_F_NEXT = 0
      else d_flags (desc ! unat x) AND VRING_DESC_F_NEXT \<noteq> 0 \<and> d_next (desc ! unat x) = hd xs \<and>
           busy_chain desc xs)"
  by (cases xs) auto

lemma linked_hd: "linked desc a xs e \<Longrightarrow> a = hd (xs @ [e])"
  by (cases xs) auto

lemma add_buffer_loop:
  assumes "linked desc idx (xs @ ys) e" "length xs = length bufs" "distinct xs"
    "i + int (length bufs) = needed" "length desc \<le> 32768"
  shows "\<exists>desc'. vq_ring_add_buffer_loop dbg vatopa needed readable i idx bufs desc = Some (hd (ys @ [e]), desc') \<and>
    length desc' = length desc \<and> (\<forall>j < length desc. d_next (desc' ! j) = d_next (desc ! j)) \<and>
    (\<forall>j. j \<notin> unat ` set xs \<longrightarrow> desc' ! j = desc ! j) \<and> (xs \<noteq> [] \<longrightarrow> busy_chain desc' xs) \<and>
    chain_content desc' xs = map (\<lambda>(a, l). (ucast (vatopa a), l)) bufs"
  using assms
proof (induction bufs arbitrary: desc idx xs i)
  case Nil
  then show ?case by (auto dest: linked_hd simp: chain_content_def)
next
  case (Cons b bufs)
  obtain a l where b: "b = (a, l)" by (cases b)
  from Cons.prems(2) obtain x xs' where xs: "xs = x # xs'" by (cases xs) auto
  have x: "idx = x" "unat x < length desc" using Cons.prems(1) by (simp_all add: xs)
  define fl where "fl = (let f = (if i < needed - 1 then VRING_DESC_F_NEXT else 0) in
    if i \<ge> readable then f OR VRING_DESC_F_WRITE else f)"
  define d1 where "d1 = (desc ! unat x)\<lparr>d_addr := ucast (vatopa a), d_len := l, d_flags := fl\<rparr>"
  let ?desc = "desc[unat x := d1]"
  have nx: "d_next (?desc ! j) = d_next (desc ! j)" if "j < length desc" for j
    using that by (cases "j = unat x") (simp_all add: d1_def)
  have lk: "linked ?desc (d_next (desc ! unat x)) (xs' @ ys) e"
  proof (rule linked_cong [of _ desc])
    show lk0: "linked desc (d_next (desc ! unat x)) (xs' @ ys) e" using Cons.prems(1) by (simp add: xs)
    show "d_next (?desc ! unat z) = d_next (desc ! unat z)" if "z \<in> set (xs' @ ys)" for z
      using that linked_bound [OF lk0] nx by simp
  qed simp
  have "length xs' = length bufs" "distinct xs'" "i + 1 + int (length bufs) = needed"
    "length ?desc \<le> 32768" using Cons.prems by (auto simp: xs)
  from Cons.IH [OF lk this] obtain desc' where d:
    "vq_ring_add_buffer_loop dbg vatopa needed readable (i + 1) (d_next (desc ! unat x)) bufs ?desc
       = Some (hd (ys @ [e]), desc')" "length desc' = length desc"
    "\<forall>j < length desc. d_next (desc' ! j) = d_next (?desc ! j)"
    "\<forall>j. j \<notin> unat ` set xs' \<longrightarrow> desc' ! j = ?desc ! j" "xs' \<noteq> [] \<longrightarrow> busy_chain desc' xs'"
    "chain_content desc' xs' = map (\<lambda>(a, l). (ucast (vatopa a), l)) bufs" by auto
  have "unat x \<notin> unat ` set xs'" using Cons.prems(3) by (simp add: xs)
  then have dx: "desc' ! unat x = d1" using d(4) x(2) by simp
  have more: "i < needed - 1 \<longleftrightarrow> xs' \<noteq> []"
    using Cons.prems(2,4) by (cases xs') (auto simp: xs)
  have fl: "fl AND VRING_DESC_F_INDIRECT = 0" "fl AND VRING_DESC_F_NEXT = (if xs' \<noteq> [] then 1 else 0)"
    unfolding fl_def Let_def more by (simp_all only: chain_flags split: if_split) auto
  have nxt: "xs' \<noteq> [] \<Longrightarrow> d_next d1 = hd xs'" using lk by (cases xs') (simp_all add: d1_def)
  have "busy_chain desc' xs"
    using x(2) d(2,5) nxt fl unfolding xs busy_chain_Cons dx by (auto simp: d1_def)
  moreover have "chain_content desc' xs = map (\<lambda>(a, l). (ucast (vatopa a), l)) (b # bufs)"
    using d(6) dx by (simp add: chain_content_def xs b d1_def)
  moreover have "idx \<noteq> VQ_RING_DESC_CHAIN_END"
    using x Cons.prems(5) by (auto simp: VQ_RING_DESC_CHAIN_END_def)
  then have "vq_ring_add_buffer_loop dbg vatopa needed readable i idx (b # bufs) desc = Some (hd (ys @ [e]), desc')"
    using x Cons.prems(4) d(1) by (simp add: b VQASSERT_def d1_def fl_def Let_def)
  moreover have "\<forall>j. j \<notin> unat ` set xs \<longrightarrow> desc' ! j = desc ! j" using d(4) by (simp add: xs)
  moreover have "\<forall>j < length desc. d_next (desc' ! j) = d_next (desc ! j)" using d(3) nx by simp
  ultimately show ?case using d(2) by (auto simp: xs)
qed


section \<open>Consequences of the relation\<close>

lemma length_le_concat: "\<forall>x \<in> set xs. f x \<noteq> [] \<Longrightarrow> length xs \<le> length (concat (map f xs))"
proof (induction xs)
  case (Cons x xs)
  then obtain y ys where "f x = y # ys" by (cases "f x") auto
  with Cons show ?case by simp
qed simp

lemma ring_rel_size:
  assumes "ring_rel vatopa s A"
  shows "pow2_size (vq_nentries (rs_drv s))" "unat (vq_nentries (rs_drv s)) \<le> 32768"
    "0 < unat (vq_nentries (rs_drv s))"
  using assms pow2_size_le pow2_size_pos by (auto simp: ring_rel_def ring_geometry_def)

lemma token_chain_nonempty:
  "ring_rel vatopa s A \<Longrightarrow> t \<in> set (tokens A) \<Longrightarrow> tk_chain t \<noteq> [] \<and> tk_bufs t \<noteq> []"
  by (auto simp: ring_rel_def ring_tokens_def token_ok_def chain_content_def dest: busy_chain_not_Nil)

lemma ring_rel_lengths:
  assumes "ring_rel vatopa s A"
  shows "length (ra_pend A) \<le> unat (vq_nentries (rs_drv s))"
    "length (ra_free A) + length (ra_used A) \<le> unat (vq_nentries (rs_drv s))"
    "length (ra_taken A) + length (ra_used A) \<le> unat (vq_nentries (rs_drv s))"
proof -
  have "length (tokens A) \<le> length (concat (map tk_chain (tokens A)))"
    using token_chain_nonempty [OF assms] by (intro length_le_concat) blast
  moreover have "length (ra_free A) + length (concat (map tk_chain (tokens A))) = unat (vq_nentries (rs_drv s))"
    using assms by (simp add: ring_rel_def ring_owned_def)
  moreover have "length (tokens A) = length (ra_pend A) + length (ra_taken A) + length (ra_used A)"
    by (simp add: tokens_def)
  ultimately show "length (ra_pend A) \<le> unat (vq_nentries (rs_drv s))"
    "length (ra_free A) + length (ra_used A) \<le> unat (vq_nentries (rs_drv s))"
    "length (ra_taken A) + length (ra_used A) \<le> unat (vq_nentries (rs_drv s))" by linarith+
qed

text \<open>A free-running counter differs from its trailing copy exactly when something is in between.\<close>

lemma counter_eq_iff:
  assumes "(c :: u16) + of_nat n = i" "n < 65536"
  shows "c = i \<longleftrightarrow> n = 0"
proof -
  have "c = i \<longleftrightarrow> (of_nat n :: u16) = 0" using assms(1) by auto
  also have "\<dots> \<longleftrightarrow> n = 0" using assms(2) by (auto simp: word_unat_eq_iff unat_of_nat)
  finally show ?thesis .
qed

lemma chain_in_tokens:
  assumes "ring_rel vatopa s A" "t \<in> set (tokens A)" "x \<in> set (tk_chain t)"
  shows "unat x < unat (vq_nentries (rs_drv s))" "x \<notin> set (ra_free A)"
  using assms busy_chain_bound [of "vr_desc (rs_ring s)" "tk_chain t" x]
  by (auto simp: ring_rel_def ring_tokens_def token_ok_def ring_geometry_def ring_owned_def)

lemma tk_head_in_chain: "tk_chain t \<noteq> [] \<Longrightarrow> tk_head t \<in> set (tk_chain t)"
  by (simp add: tk_head_def)

text \<open>Chains of different tokens are disjoint; so a head names its token.\<close>

lemma concat_disjoint:
  assumes "distinct (concat (map f xs))" "x \<in> set xs" "y \<in> set xs" "a \<in> set (f x)" "a \<in> set (f y)"
  shows "x = y"
  using assms by (induction xs) auto

lemma token_by_head:
  assumes "ring_rel vatopa s A" "t \<in> set (tokens A)" "t' \<in> set (tokens A)" "tk_head t = tk_head t'"
  shows "t = t'"
proof (rule concat_disjoint [of tk_chain "tokens A" t t' "tk_head t"])
  show "distinct (concat (map tk_chain (tokens A)))" using assms(1) by (simp add: ring_rel_def ring_owned_def)
  show "tk_head t \<in> set (tk_chain t)" "tk_head t \<in> set (tk_chain t')"
    using token_chain_nonempty [OF assms(1)] assms(2-4) tk_head_in_chain by metis+
qed (use assms in simp_all)

lemma distinct_tokens:
  assumes "ring_rel vatopa s A"
  shows "distinct (tokens A)"
proof -
  have "distinct (concat (map f xs)) \<Longrightarrow> \<forall>x \<in> set xs. f x \<noteq> [] \<Longrightarrow> distinct xs" for f :: "token \<Rightarrow> u16 list" and xs
  proof (induction xs)
    case (Cons x xs)
    then obtain y ys where "f x = y # ys" by (cases "f x") auto
    with Cons show ?case by auto
  qed simp
  then show ?thesis using assms token_chain_nonempty [OF assms] by (auto simp: ring_rel_def ring_owned_def)
qed

text \<open>Ownership only depends on the multiset of descriptors.\<close>

lemma ring_owned_mset:
  assumes "ring_owned s A" "vq_nentries (rs_drv s') = vq_nentries (rs_drv s)"
    "mset (ra_free A' @ concat (map tk_chain (tokens A'))) = mset (ra_free A @ concat (map tk_chain (tokens A)))"
  shows "ring_owned s' A'"
  using assms mset_eq_imp_distinct_iff [OF assms(3)] mset_eq_length [OF assms(3)] by (simp add: ring_owned_def)


section \<open>Simulation of the device side\<close>

lemma VQASSERT_holds [simp]: "e \<Longrightarrow> VQASSERT dbg e = Some ()"
  by (simp add: VQASSERT_def)

lemma vqueue_busy [simp]: "\<not> vq_inuse vq \<Longrightarrow> VQUEUE_BUSY dbg vq = Some (vq\<lparr>vq_inuse := dbg\<rparr>)"
  by (cases vq) (simp add: VQUEUE_BUSY_def)

lemma vqueue_idle [simp]: "vq_inuse vq = dbg \<Longrightarrow> VQUEUE_IDLE dbg vq = vq\<lparr>vq_inuse := False\<rparr>"
  by (cases vq) (simp add: VQUEUE_IDLE_def)

lemma ring_slot_Suc:
  assumes "pow2_size n"
  shows "(unat (a + 1 :: u16) + i) mod unat n = (unat a + Suc i) mod unat n"
proof -
  have "unat (a + 1) mod unat n = (unat a + 1) mod unat n"
    using unat_add_mod_ring [OF assms, of a 1] by simp
  then have "(unat (a + 1) + i) mod unat n = (unat a + 1 + i) mod unat n" by (metis mod_add_left_eq)
  then show ?thesis by simp
qed

lemma ring_tokens_cong:
  "ring_tokens vatopa s A \<Longrightarrow> set (tokens A') = set (tokens A) \<Longrightarrow>
     vr_desc (rs_ring s') = vr_desc (rs_ring s) \<Longrightarrow> rs_drv s' = rs_drv s \<Longrightarrow> ring_tokens vatopa s' A'"
  by (simp add: ring_tokens_def)

lemma mset_concat_map: "mset (concat (map f xs)) = sum_mset (image_mset (mset \<circ> f) (mset xs))"
  by (induction xs) auto

lemma ring_owned_tokens:
  "ring_owned s A \<Longrightarrow> mset (tokens A') = mset (tokens A) \<Longrightarrow> ra_free A' = ra_free A \<Longrightarrow>
     rs_drv s' = rs_drv s \<Longrightarrow> ring_owned s' A'"
  by (erule ring_owned_mset) (simp_all add: mset_concat_map)

lemma take_sim:
  assumes R: "ring_rel vatopa s A" and step: "abs_step (patova \<circ> vatopa) Take A = Some (out, A')"
  shows "\<exists>s'. ring_step dbg vatopa patova Take s = Some (out, s') \<and> ring_rel vatopa s' A'"
proof (cases "ra_pend A")
  case Nil
  then have "vq_available_idx (rs_dev s) = vr_avail_idx (rs_ring s)"
    using R by (simp add: ring_rel_def ring_avail_def)
  then have "ring_step dbg vatopa patova Take s = Some (out, s)"
    using Nil step by (simp add: virtqueue_get_available_buffer_def)
  then show ?thesis using Nil step R by auto
next
  case (Cons t ts)
  let ?v = "rs_dev s" and ?r = "rs_ring s" and ?N = "unat (vq_nentries (rs_drv s))"
  note sz = ring_rel_size [OF R]
  have g: "ring_geometry s" and av: "ring_avail s A" using R by (simp_all add: ring_rel_def)
  have t: "t \<in> set (tokens A)" by (simp add: tokens_def Cons)
  obtain a l bs where b: "tk_bufs t = (a, l) # bs" using token_chain_nonempty [OF R t] by (cases "tk_bufs t") auto
  obtain h hs where h: "tk_chain t = h # hs" using token_chain_nonempty [OF R t] by (cases "tk_chain t") auto
  have c: "d_addr (vr_desc ?r ! unat h) = ucast (vatopa a)" "d_len (vr_desc ?r ! unat h) = l"
    using R t by (auto simp: ring_rel_def ring_tokens_def token_ok_def chain_content_def b h)
  have hb: "unat h < length (vr_desc ?r)" using chain_in_tokens [OF R t, of h] g by (simp add: h ring_geometry_def)
  have ne: "vq_available_idx ?v \<noteq> vr_avail_idx ?r"
    using av counter_eq_iff [of "vq_available_idx ?v" "length (ra_pend A)"] ring_rel_lengths(1) [OF R] sz(2)
    by (simp add: ring_avail_def Cons)
  have slot: "vr_avail_ring ?r ! unat (vq_available_idx ?v AND (vq_nentries ?v - 1)) = h"
    "unat (vq_available_idx ?v AND (vq_nentries ?v - 1)) < length (vr_avail_ring ?r)"
    using av g sz by (auto simp: ring_avail_def ring_geometry_def unat_mask_index Cons tk_head_def h
        intro: order_less_le_trans [OF mod_less_divisor])
  define v' where "v' = ?v\<lparr>vq_available_idx := vq_available_idx ?v + 1, vq_inuse := False\<rparr>"
  have "ring_step dbg vatopa patova Take s = Some (out, s\<lparr>rs_dev := v'\<rparr>)"
    using ne slot hb c step g
    by (simp add: virtqueue_get_available_buffer_def ring_geometry_def v'_def Cons b h tk_head_def)
  moreover have A': "A' = A\<lparr>ra_pend := ts, ra_taken := ra_taken A @ [t]\<rparr>" using step Cons by simp
  have m: "mset (tokens A') = mset (tokens A)" by (simp add: A' tokens_def Cons)
  have "ring_avail (s\<lparr>rs_dev := v'\<rparr>) A'"
    unfolding ring_avail_def
  proof (intro conjI allI impI)
    show "vq_available_idx (rs_dev (s\<lparr>rs_dev := v'\<rparr>)) + of_nat (length (ra_pend A')) =
        vr_avail_idx (rs_ring (s\<lparr>rs_dev := v'\<rparr>))"
      using av by (simp add: ring_avail_def A' Cons v'_def algebra_simps)
    fix i
    assume "i < length (ra_pend A')"
    then have "Suc i < length (ra_pend A)" by (simp add: A' Cons)
    then have "vr_avail_ring ?r ! ((unat (vq_available_idx ?v) + Suc i) mod ?N) = tk_head (ra_pend A ! Suc i)"
      using av unfolding ring_avail_def by blast
    then show "vr_avail_ring (rs_ring (s\<lparr>rs_dev := v'\<rparr>)) ! ((unat (vq_available_idx (rs_dev (s\<lparr>rs_dev := v'\<rparr>))) + i) mod
        unat (vq_nentries (rs_drv (s\<lparr>rs_dev := v'\<rparr>)))) = tk_head (ra_pend A' ! i)"
      by (simp add: A' Cons v'_def ring_slot_Suc [OF sz(1)])
  qed
  then have "ring_rel vatopa (s\<lparr>rs_dev := v'\<rparr>) A'"
    using R ring_owned_tokens [OF _ m, of s "s\<lparr>rs_dev := v'\<rparr>"]
      ring_tokens_cong [OF _ mset_eq_setD [OF m], of vatopa s "s\<lparr>rs_dev := v'\<rparr>"]
    by (simp add: ring_rel_def ring_geometry_def ring_free_def ring_used_def A' v'_def)
  ultimately show ?thesis by blast
qed


lemma give_sim:
  assumes R: "ring_rel vatopa s A" and step: "abs_step (patova \<circ> vatopa) (Give idx len) A = Some (out, A')"
  shows "\<exists>s'. ring_step dbg vatopa patova (Give idx len) s = Some (out, s') \<and> ring_rel vatopa s' A'"
proof -
  let ?v = "rs_dev s" and ?r = "rs_ring s" and ?N = "unat (vq_nentries (rs_drv s))"
  note sz = ring_rel_size [OF R]
  have g: "ring_geometry s" and us: "ring_used s A" using R by (simp_all add: ring_rel_def)
  from step obtain t ts where f: "filter (\<lambda>t. tk_head t = idx) (ra_taken A) = t # ts"
    and A': "A' = A\<lparr>ra_taken := remove1 t (ra_taken A), ra_used := ra_used A @ [(t, len)]\<rparr>" and out: "out = Given"
    by (auto split: list.splits)
  from f have tt: "t \<in> set (ra_taken A)" "tk_head t = idx" using filter_eq_Cons_iff [of _ "ra_taken A" t ts] by auto
  then have t: "t \<in> set (tokens A)" by (simp add: tokens_def)
  have ib: "unat idx < ?N"
    using chain_in_tokens(1) [OF R t] tk_head_in_chain token_chain_nonempty [OF R t] tt(2) by blast
  have lu: "length (ra_used A) < ?N"
    using ring_rel_lengths(3) [OF R] length_pos_if_in_set [OF tt(1)] by linarith
  let ?k = "(unat (vq_used_cons_idx (rs_drv s)) + length (ra_used A)) mod ?N"
  have ui: "vr_used_idx ?r = vq_used_cons_idx (rs_drv s) + of_nat (length (ra_used A))"
    using us by (simp add: ring_used_def)
  have slot: "unat (vr_used_idx ?r AND (vq_nentries ?v - 1)) = ?k"
    using g sz(1) by (simp add: ring_geometry_def unat_mask_index ui unat_add_mod_ring)
  have kb: "?k < length (vr_used_ring ?r)" using g sz(3) by (simp add: ring_geometry_def)
  define r' where "r' = ?r\<lparr>vr_used_ring := (vr_used_ring ?r)[?k := \<lparr>ue_id = ucast idx, ue_len = len\<rparr>],
    vr_used_idx := vr_used_idx ?r + 1\<rparr>"
  define s' where "s' = s\<lparr>rs_dev := ?v\<lparr>vq_inuse := False\<rparr>, rs_ring := r'\<rparr>"
  have le: "\<not> vq_nentries ?v < idx" using ib g by (simp add: word_less_nat_alt ring_geometry_def)
  have "ring_step dbg vatopa patova (Give idx len) s = Some (out, s')"
    using le slot kb g by (simp add: virtqueue_add_consumed_buffer_def ring_geometry_def r'_def s'_def out VQUEUE_SUCCESS_def)
  moreover have m: "mset (tokens A') = mset (tokens A)" using tt(1) by (simp add: A' tokens_def)
  have "ring_used s' A'"
    unfolding ring_used_def
  proof (intro conjI allI impI)
    show "vq_used_cons_idx (rs_drv s') + of_nat (length (ra_used A')) = vr_used_idx (rs_ring s')"
      by (simp add: s'_def r'_def A' ui)
    fix i
    assume i: "i < length (ra_used A')"
    show "vr_used_ring (rs_ring s') ! ((unat (vq_used_cons_idx (rs_drv s')) + i) mod unat (vq_nentries (rs_drv s'))) =
       \<lparr>ue_id = ucast (tk_head (fst (ra_used A' ! i))), ue_len = snd (ra_used A' ! i)\<rparr>"
    proof (cases "i = length (ra_used A)")
      case True
      then show ?thesis using kb by (simp add: s'_def r'_def A' tt(2))
    next
      case False
      with i have i': "i < length (ra_used A)" by (simp add: A')
      have "?k \<noteq> (unat (vq_used_cons_idx (rs_drv s)) + i) mod ?N"
        using ring_slot_less [OF i' lu] by metis
      then show ?thesis using i' us by (simp add: s'_def r'_def A' nth_append ring_used_def)
    qed
  qed
  then have "ring_rel vatopa s' A'"
    using R ring_owned_tokens [OF _ m, of s s'] ring_tokens_cong [OF _ mset_eq_setD [OF m], of vatopa s s']
    by (simp add: ring_rel_def ring_geometry_def ring_free_def ring_avail_def A' s'_def r'_def)
  ultimately show ?thesis by blast
qed


section \<open>Simulation of the driver side\<close>

lemma token_ok_cong:
  assumes "token_ok vatopa desc descx t" "length desc' = length desc"
    "\<And>x. x \<in> set (tk_chain t) \<Longrightarrow> desc' ! unat x = desc ! unat x"
    "descx' ! unat (tk_head t) = descx ! unat (tk_head t)"
  shows "token_ok vatopa desc' descx' t"
  using assms busy_chain_cong [OF assms(2), of "tk_chain t"] chain_content_cong [of "tk_chain t" desc' desc]
  by (auto simp: token_ok_def)

text \<open>What \<^verbatim>\<open>vq_ring_free_chain\<close> does to a chain that is in flight.\<close>

lemma vq_ring_free_chain_busy:
  assumes "length (vr_desc r) = unat (vq_nentries vq)" "length (vq_descx vq) = unat (vq_nentries vq)"
    "busy_chain (vr_desc r) (h # hs)" "dx_ndescs (vq_descx vq ! unat h) = of_nat (length (h # hs))"
    "vq_free_cnt vq = 0 \<Longrightarrow> vq_desc_head_idx vq = VQ_RING_DESC_CHAIN_END"
  shows "vq_ring_free_chain dbg vq h r = Some
    (vq\<lparr>vq_free_cnt := vq_free_cnt vq + of_nat (length (h # hs)),
        vq_descx := (vq_descx vq)[unat h := (vq_descx vq ! unat h)\<lparr>dx_ndescs := 0\<rparr>],
        vq_desc_head_idx := h\<rparr>,
     r\<lparr>vr_desc := (vr_desc r)[unat (last (h # hs)) :=
        (vr_desc r ! unat (last (h # hs)))\<lparr>d_next := vq_desc_head_idx vq\<rparr>]\<rparr>)"
proof -
  have hb: "unat h < unat (vq_nentries vq)" using busy_chain_bound [OF assms(3), of h] assms(1) by simp
  have lb: "unat (last (h # hs)) < length (vr_desc r)" by (rule busy_chain_bound [OF assms(3)]) (rule last_in_set, simp)
  have fl: "d_flags (vr_desc r ! unat h) AND VRING_DESC_F_INDIRECT = 0" using assms(3) by (simp add: busy_chain_Cons)
  let ?vq = "vq\<lparr>vq_free_cnt := vq_free_cnt vq + of_nat (length (h # hs))\<rparr>"
  have e: "vq_chain_end dbg ?vq (vr_desc r) h (of_nat (length (h # hs)) - 1) = Some (last (h # hs), 0)"
    using vq_chain_end_busy [of "vr_desc r" ?vq "h # hs"] assms(1,3) by simp
  have a: "(if vq_free_cnt vq = 0 then VQ_RING_ASSERT_CHAIN_TERM dbg vq else Some ()) = Some ()"
    using assms(5) by (simp add: VQ_RING_ASSERT_CHAIN_TERM_def VQASSERT_def)
  show ?thesis
    unfolding vq_ring_free_chain_def a using hb lb fl e assms(1,2,4)
    by (simp add: VQ_RING_ASSERT_VALID_IDX_def VQASSERT_def word_less_nat_alt set_next_def del: last.simps)
qed

text \<open>The state after the chain \<open>xs\<close> has been reclaimed.\<close>

definition reclaimed_sys :: "ring_sys \<Rightarrow> u16 list \<Rightarrow> ring_sys" where
  "reclaimed_sys s xs = s
     \<lparr>rs_drv := (rs_drv s)\<lparr>vq_used_cons_idx := vq_used_cons_idx (rs_drv s) + 1,
        vq_free_cnt := vq_free_cnt (rs_drv s) + of_nat (length xs),
        vq_descx := (vq_descx (rs_drv s))[unat (hd xs) := \<lparr>dx_cookie = 0, dx_ndescs = 0\<rparr>],
        vq_desc_head_idx := hd xs, vq_inuse := False\<rparr>,
      rs_ring := (rs_ring s)\<lparr>vr_desc := (vr_desc (rs_ring s))[unat (last xs) :=
        (vr_desc (rs_ring s) ! unat (last xs))\<lparr>d_next := vq_desc_head_idx (rs_drv s)\<rparr>]\<rparr>\<rparr>"

lemma reclaim_free:
  assumes R: "ring_rel vatopa s A" and t: "t \<in> set (tokens A)" and f: "ra_free A' = tk_chain t @ ra_free A"
  shows "ring_free (reclaimed_sys s (tk_chain t)) A'"
proof -
  let ?xs = "tk_chain t" and ?r = "rs_ring s" and ?d = "rs_drv s"
  let ?desc = "(vr_desc ?r)[unat (last ?xs) := (vr_desc ?r ! unat (last ?xs))\<lparr>d_next := vq_desc_head_idx ?d\<rparr>]"
  have fr: "ring_free s A" and ow: "ring_owned s A" using R by (simp_all add: ring_rel_def)
  have ne: "?xs \<noteq> []" using token_chain_nonempty [OF R t] by simp
  have bc: "busy_chain (vr_desc ?r) ?xs" using R t by (simp add: ring_rel_def ring_tokens_def token_ok_def)
  have ds: "distinct ?xs" using ow t by (auto simp: ring_owned_def distinct_concat_iff)
  have "linked ?desc (vq_desc_head_idx ?d) (ra_free A) VQ_RING_DESC_CHAIN_END"
  proof (rule linked_cong [of _ "vr_desc ?r"])
    show "linked (vr_desc ?r) (vq_desc_head_idx ?d) (ra_free A) VQ_RING_DESC_CHAIN_END"
      using fr by (simp add: ring_free_def)
    show "d_next (?desc ! unat x) = d_next (vr_desc ?r ! unat x)" if "x \<in> set (ra_free A)" for x
    proof -
      have "last ?xs \<noteq> x" using chain_in_tokens(2) [OF R t, of "last ?xs"] that ne by auto
      then have "unat (last ?xs) \<noteq> unat x" by (simp add: word_unat_eq_iff)
      then show ?thesis by simp
    qed
  qed simp
  then have "linked ?desc (hd ?xs) (?xs @ ra_free A) VQ_RING_DESC_CHAIN_END"
    using busy_chain_linked [OF bc ds] by (intro linked_append)
  moreover have "unat (vq_free_cnt ?d + of_nat (length ?xs)) = length ?xs + length (ra_free A)"
  proof -
    have "length (ra_free A) + length ?xs \<le> unat (vq_nentries ?d)"
    proof -
      from t obtain ys zs where "tokens A = ys @ t # zs" by (auto simp: in_set_conv_decomp)
      then show ?thesis using ow by (simp add: ring_owned_def)
    qed
    then have b: "length (ra_free A) + length ?xs < 65536" using ring_rel_size(2) [OF R] by linarith
    have "unat (of_nat (length ?xs) :: u16) = length ?xs" using b by (simp add: unat_of_nat)
    then show ?thesis using b fr by (simp add: ring_free_def unat_word_ariths)
  qed
  ultimately show ?thesis by (simp add: ring_free_def reclaimed_sys_def f)
qed

lemma reclaim_tokens:
  assumes R: "ring_rel vatopa s A" and t: "t \<in> set (tokens A)" and A': "set (tokens A') = set (tokens A) - {t}"
  shows "ring_tokens vatopa (reclaimed_sys s (tk_chain t)) A'"
proof -
  let ?xs = "tk_chain t"
  have g: "ring_geometry s" and tk: "ring_tokens vatopa s A" and ow: "ring_owned s A"
    using R by (simp_all add: ring_rel_def)
  have ne: "?xs \<noteq> []" using token_chain_nonempty [OF R t] by simp
  have hb: "unat (hd ?xs) < unat (vq_nentries (rs_drv s))"
    using chain_in_tokens(1) [OF R t, of "hd ?xs"] ne by simp
  have "token_ok vatopa (vr_desc (rs_ring (reclaimed_sys s ?xs))) (vq_descx (rs_drv (reclaimed_sys s ?xs))) t'"
    if t': "t' \<in> set (tokens A')" for t'
  proof (rule token_ok_cong [of _ "vr_desc (rs_ring s)" "vq_descx (rs_drv s)"])
    have tA: "t' \<in> set (tokens A)" "t' \<noteq> t" using t' A' by auto
    show "token_ok vatopa (vr_desc (rs_ring s)) (vq_descx (rs_drv s)) t'" using tk tA by (simp add: ring_tokens_def)
    have dis: "x \<notin> set ?xs" if "x \<in> set (tk_chain t')" for x
      using concat_disjoint [of tk_chain "tokens A" t' t x] ow tA t that by (auto simp: ring_owned_def)
    show "vr_desc (rs_ring (reclaimed_sys s ?xs)) ! unat x = vr_desc (rs_ring s) ! unat x"
      if "x \<in> set (tk_chain t')" for x
    proof -
      have "last ?xs \<noteq> x" using dis [OF that] ne by auto
      then have "unat (last ?xs) \<noteq> unat x" by (simp add: word_unat_eq_iff)
      then show ?thesis by (simp add: reclaimed_sys_def)
    qed
    have "hd ?xs \<noteq> tk_head t'"
      using dis [OF tk_head_in_chain] token_chain_nonempty [OF R tA(1)] ne by (metis hd_in_set)
    then have "unat (hd ?xs) \<noteq> unat (tk_head t')" by (simp add: word_unat_eq_iff)
    then show "vq_descx (rs_drv (reclaimed_sys s ?xs)) ! unat (tk_head t') = vq_descx (rs_drv s) ! unat (tk_head t')"
      by (simp add: reclaimed_sys_def)
  qed (simp add: reclaimed_sys_def)
  moreover have "dx_cookie (vq_descx (rs_drv (reclaimed_sys s ?xs)) ! i) = 0"
    if i: "i < unat (vq_nentries (rs_drv s))" "i \<notin> unat ` tk_head ` set (tokens A')" for i
  proof (cases "i = unat (hd ?xs)")
    case True
    then show ?thesis using hb g by (simp add: reclaimed_sys_def ring_geometry_def)
  next
    case False
    then have "i \<notin> unat ` tk_head ` set (tokens A)" using i(2) A' by (auto simp: tk_head_def)
    then show ?thesis using i(1) tk False by (simp add: reclaimed_sys_def ring_tokens_def)
  qed
  ultimately show ?thesis by (simp add: ring_tokens_def reclaimed_sys_def)
qed

lemma reclaim_used:
  assumes R: "ring_rel vatopa s A" and u: "ra_used A = u # us" and A': "ra_used A' = us"
  shows "ring_used (reclaimed_sys s xs) A'"
  unfolding ring_used_def
proof (intro conjI allI impI)
  have us: "ring_used s A" using R by (simp add: ring_rel_def)
  then show "vq_used_cons_idx (rs_drv (reclaimed_sys s xs)) + of_nat (length (ra_used A')) =
      vr_used_idx (rs_ring (reclaimed_sys s xs))"
    by (simp add: ring_used_def reclaimed_sys_def A' u algebra_simps)
  fix i
  assume "i < length (ra_used A')"
  then have "Suc i < length (ra_used A)" by (simp add: A' u)
  then have "vr_used_ring (rs_ring s) ! ((unat (vq_used_cons_idx (rs_drv s)) + Suc i) mod unat (vq_nentries (rs_drv s)))
      = \<lparr>ue_id = ucast (tk_head (fst (ra_used A ! Suc i))), ue_len = snd (ra_used A ! Suc i)\<rparr>"
    using us unfolding ring_used_def by blast
  then show "vr_used_ring (rs_ring (reclaimed_sys s xs)) ! ((unat (vq_used_cons_idx (rs_drv (reclaimed_sys s xs))) + i) mod
        unat (vq_nentries (rs_drv (reclaimed_sys s xs)))) =
      \<lparr>ue_id = ucast (tk_head (fst (ra_used A' ! i))), ue_len = snd (ra_used A' ! i)\<rparr>"
    by (simp add: reclaimed_sys_def A' u ring_slot_Suc [OF ring_rel_size(1) [OF R]])
qed

lemma reclaim_rel:
  assumes R: "ring_rel vatopa s A" and u: "ra_used A = (t, len) # us"
  shows "ring_rel vatopa (reclaimed_sys s (tk_chain t)) (A\<lparr>ra_free := tk_chain t @ ra_free A, ra_used := us\<rparr>)"
proof -
  let ?s = "reclaimed_sys s (tk_chain t)" and ?A = "A\<lparr>ra_free := tk_chain t @ ra_free A, ra_used := us\<rparr>"
  have t: "t \<in> set (tokens A)" by (simp add: tokens_def u)
  have set: "set (tokens ?A) = set (tokens A) - {t}"
    using distinct_tokens [OF R] by (auto simp: tokens_def u)
  have "ring_geometry ?s" using R by (simp add: ring_rel_def ring_geometry_def reclaimed_sys_def)
  moreover have "ring_owned ?s ?A"
    by (rule ring_owned_mset [of s A]) (use R in \<open>simp_all add: ring_rel_def reclaimed_sys_def tokens_def u\<close>)
  moreover have "ring_avail ?s ?A" using R by (simp add: ring_rel_def ring_avail_def reclaimed_sys_def)
  ultimately show ?thesis
    using reclaim_free [OF R t, of ?A] reclaim_tokens [OF R t set] reclaim_used [OF R u, of ?A]
    by (simp add: ring_rel_def)
qed

lemma reclaim_sim:
  assumes R: "ring_rel vatopa s A" and step: "abs_step (patova \<circ> vatopa) Reclaim A = Some (out, A')"
  shows "\<exists>s'. ring_step dbg vatopa patova Reclaim s = Some (out, s') \<and> ring_rel vatopa s' A'"
proof (cases "ra_used A")
  case Nil
  then have "vq_used_cons_idx (rs_drv s) = vr_used_idx (rs_ring s)"
    using R by (simp add: ring_rel_def ring_used_def)
  then have "ring_step dbg vatopa patova Reclaim s = Some (out, s)"
    using Nil step by (simp add: virtqueue_get_buffer_def)
  then show ?thesis using Nil step R by auto
next
  case (Cons u us)
  obtain t len where u: "u = (t, len)" by (cases u)
  let ?d = "rs_drv s" and ?r = "rs_ring s" and ?N = "unat (vq_nentries (rs_drv s))"
  note sz = ring_rel_size [OF R]
  have g: "ring_geometry s" and fr: "ring_free s A" and ow: "ring_owned s A" and tk: "ring_tokens vatopa s A"
    and us: "ring_used s A" using R by (simp_all add: ring_rel_def)
  have t: "t \<in> set (tokens A)" by (simp add: tokens_def Cons u)
  obtain h hs where h: "tk_chain t = h # hs" using token_chain_nonempty [OF R t] by (cases "tk_chain t") auto
  have ok: "token_ok vatopa (vr_desc ?r) (vq_descx ?d) t" using tk t by (simp add: ring_tokens_def)
  have ne: "vq_used_cons_idx ?d \<noteq> vr_used_idx ?r"
    using us counter_eq_iff [of "vq_used_cons_idx ?d" "length (ra_used A)"] ring_rel_lengths(2) [OF R] sz(2)
    by (simp add: ring_used_def Cons)
  let ?k = "unat (vq_used_cons_idx ?d AND (vq_nentries ?d - 1))"
  have k: "?k = unat (vq_used_cons_idx ?d) mod ?N" using sz(1) by (rule unat_mask_index)
  have slot: "vr_used_ring ?r ! ?k = \<lparr>ue_id = ucast h, ue_len = len\<rparr>"
    using us by (auto simp: ring_used_def Cons u k tk_head_def h)
  have kb: "?k < length (vr_used_ring ?r)" using k g sz(3) by (simp add: ring_geometry_def)
  have hb: "unat h < ?N" using chain_in_tokens(1) [OF R t] h by simp
  let ?desc = "(vr_desc ?r)[unat (last (h # hs)) := (vr_desc ?r ! unat (last (h # hs)))\<lparr>d_next := vq_desc_head_idx ?d\<rparr>]"
  have dxp: "vq_descx ?d ! unat h = \<lparr>dx_cookie = tk_cookie t, dx_ndescs = of_nat (length (h # hs))\<rparr>"
    using ok by (simp add: token_ok_def tk_head_def h)
  have bc: "busy_chain (vr_desc ?r) (h # hs)" using ok by (simp add: token_ok_def h)
  have ct: "vq_free_cnt ?d = 0 \<Longrightarrow> vq_desc_head_idx ?d = VQ_RING_DESC_CHAIN_END"
    using fr by (auto simp: ring_free_def)
  have fc: "vq_ring_free_chain dbg (?d\<lparr>vq_inuse := dbg, vq_used_cons_idx := vq_used_cons_idx ?d + 1\<rparr>) h ?r =
    Some (?d\<lparr>vq_inuse := dbg, vq_used_cons_idx := vq_used_cons_idx ?d + 1,
       vq_free_cnt := vq_free_cnt ?d + of_nat (length (h # hs)),
       vq_descx := (vq_descx ?d)[unat h := \<lparr>dx_cookie = tk_cookie t, dx_ndescs = 0\<rparr>],
       vq_desc_head_idx := h\<rparr>, ?r\<lparr>vr_desc := ?desc\<rparr>)"
    using vq_ring_free_chain_busy [of ?r "?d\<lparr>vq_inuse := dbg, vq_used_cons_idx := vq_used_cons_idx ?d + 1\<rparr>" h hs dbg]
      g bc dxp ct by (simp add: ring_geometry_def del: last.simps)
  have "ring_step dbg vatopa patova Reclaim s = Some (out, reclaimed_sys s (tk_chain t))"
    using ne slot kb g fc hb step Cons u
    by (simp add: virtqueue_get_buffer_def ring_geometry_def reclaimed_sys_def h del: last.simps)
  then show ?thesis using reclaim_rel [OF R, of t len us] step Cons u by auto
qed


text \<open>The state after offering a chain: \<open>n\<close> free descriptors move into the chain with content \<open>desc'\<close>.\<close>

definition offered_sys :: "ring_sys \<Rightarrow> u16 list \<Rightarrow> u16 \<Rightarrow> vring_desc list \<Rightarrow> u32 \<Rightarrow> ring_sys" where
  "offered_sys s xs idx desc' cookie = s
     \<lparr>rs_drv := (rs_drv s)\<lparr>vq_descx := (vq_descx (rs_drv s))[unat (hd xs) :=
          \<lparr>dx_cookie = cookie, dx_ndescs = of_nat (length xs)\<rparr>],
        vq_desc_head_idx := idx, vq_free_cnt := vq_free_cnt (rs_drv s) - of_nat (length xs),
        vq_queued_cnt := vq_queued_cnt (rs_drv s) + 1, vq_inuse := False\<rparr>,
      rs_ring := (rs_ring s)\<lparr>vr_desc := desc',
        vr_avail_ring := (vr_avail_ring (rs_ring s))
          [unat (vr_avail_idx (rs_ring s)) mod unat (vq_nentries (rs_drv s)) := hd xs],
        vr_avail_idx := vr_avail_idx (rs_ring s) + 1\<rparr>\<rparr>"

definition fresh_chain :: "(u32 \<Rightarrow> u32) \<Rightarrow> vring_desc list \<Rightarrow> vring_desc list \<Rightarrow> u16 list \<Rightarrow> (u32 \<times> u32) list \<Rightarrow> bool" where
  "fresh_chain vatopa desc desc' xs bufs \<longleftrightarrow> length desc' = length desc \<and>
     (\<forall>j < length desc. d_next (desc' ! j) = d_next (desc ! j)) \<and>
     (\<forall>j. j \<notin> unat ` set xs \<longrightarrow> desc' ! j = desc ! j) \<and> busy_chain desc' xs \<and>
     chain_content desc' xs = map (\<lambda>(a, l). (ucast (vatopa a), l)) bufs"

lemma free_bound: "ring_rel vatopa s A \<Longrightarrow> x \<in> set (ra_free A) \<Longrightarrow> unat x < unat (vq_nentries (rs_drv s))"
  by (auto simp: ring_rel_def ring_free_def ring_geometry_def dest: linked_bound)

lemma offer_tokens:
  assumes R: "ring_rel vatopa s A" and xs: "set xs \<subseteq> set (ra_free A)" "xs \<noteq> []"
    and fc: "fresh_chain vatopa (vr_desc (rs_ring s)) desc' xs bufs"
    and A': "set (tokens A') = insert \<lparr>tk_chain = xs, tk_bufs = bufs, tk_cookie = cookie\<rparr> (set (tokens A))"
  shows "ring_tokens vatopa (offered_sys s xs idx desc' cookie) A'"
proof -
  let ?t = "\<lparr>tk_chain = xs, tk_bufs = bufs, tk_cookie = cookie\<rparr>" and ?s = "offered_sys s xs idx desc' cookie"
  have g: "ring_geometry s" and tk: "ring_tokens vatopa s A" and ow: "ring_owned s A" and fr: "ring_free s A"
    using R by (simp_all add: ring_rel_def)
  have hb: "unat (hd xs) < unat (vq_nentries (rs_drv s))"
    using free_bound [OF R, of "hd xs"] xs hd_in_set by blast
  have hh: "tk_head ?t = hd xs" by (simp add: tk_head_def)
  have "token_ok vatopa (vr_desc (rs_ring ?s)) (vq_descx (rs_drv ?s)) t" if "t \<in> set (tokens A')" for t
  proof (cases "t = ?t")
    case True
    then show ?thesis using fc hb g
      by (simp add: token_ok_def fresh_chain_def offered_sys_def hh ring_geometry_def)
  next
    case False
    with that A' have t: "t \<in> set (tokens A)" by auto
    have dis: "x \<notin> set xs" if "x \<in> set (tk_chain t)" for x using chain_in_tokens(2) [OF R t that] xs by auto
    show ?thesis
    proof (rule token_ok_cong [of _ "vr_desc (rs_ring s)" "vq_descx (rs_drv s)"])
      show "token_ok vatopa (vr_desc (rs_ring s)) (vq_descx (rs_drv s)) t" using tk t by (simp add: ring_tokens_def)
      show "vr_desc (rs_ring ?s) ! unat x = vr_desc (rs_ring s) ! unat x" if "x \<in> set (tk_chain t)" for x
        using dis [OF that] fc by (simp add: offered_sys_def fresh_chain_def)
      have "hd xs \<noteq> tk_head t" using dis [OF tk_head_in_chain] token_chain_nonempty [OF R t] xs(2) by (metis hd_in_set)
      then have "unat (hd xs) \<noteq> unat (tk_head t)" by (simp add: word_unat_eq_iff)
      then show "vq_descx (rs_drv ?s) ! unat (tk_head t) = vq_descx (rs_drv s) ! unat (tk_head t)"
        by (simp add: offered_sys_def)
    qed (use fc in \<open>simp add: offered_sys_def fresh_chain_def\<close>)
  qed
  moreover have "dx_cookie (vq_descx (rs_drv ?s) ! i) = 0"
    if i: "i < unat (vq_nentries (rs_drv s))" "i \<notin> unat ` tk_head ` set (tokens A')" for i
  proof -
    have "i \<noteq> unat (hd xs)" "i \<notin> unat ` tk_head ` set (tokens A)" using i(2) A' hh by auto
    then show ?thesis using i(1) tk by (simp add: offered_sys_def ring_tokens_def)
  qed
  ultimately show ?thesis by (simp add: ring_tokens_def offered_sys_def)
qed

lemma pend_bound:
  assumes R: "ring_rel vatopa s A" and room: "ra_free A \<noteq> []"
  shows "length (ra_pend A) < unat (vq_nentries (rs_drv s))"
proof -
  have "length (tokens A) \<le> length (concat (map tk_chain (tokens A)))"
    using token_chain_nonempty [OF R] by (intro length_le_concat) blast
  moreover have "length (ra_free A) + length (concat (map tk_chain (tokens A))) = unat (vq_nentries (rs_drv s))"
    using R by (simp add: ring_rel_def ring_owned_def)
  ultimately show ?thesis using room by (cases "ra_free A") (auto simp: tokens_def)
qed

lemma offer_avail:
  assumes R: "ring_rel vatopa s A" and room: "ra_free A \<noteq> []"
    and A': "ra_pend A' = ra_pend A @ [\<lparr>tk_chain = xs, tk_bufs = bufs, tk_cookie = cookie\<rparr>]"
  shows "ring_avail (offered_sys s xs idx desc' cookie) A'"
proof -
  let ?r = "rs_ring s" and ?v = "rs_dev s" and ?N = "unat (vq_nentries (rs_drv s))" and ?s = "offered_sys s xs idx desc' cookie"
  note sz = ring_rel_size [OF R]
  have av: "ring_avail s A" and g: "ring_geometry s" using R by (simp_all add: ring_rel_def)
  let ?k = "(unat (vq_available_idx ?v) + length (ra_pend A)) mod ?N"
  have ai: "vr_avail_idx ?r = vq_available_idx ?v + of_nat (length (ra_pend A))" using av by (simp add: ring_avail_def)
  have k: "unat (vr_avail_idx ?r) mod ?N = ?k" by (simp add: ai unat_add_mod_ring [OF sz(1)])
  have lt: "length (ra_pend A) < ?N" by (rule pend_bound [OF R room])
  have kb: "?k < length (vr_avail_ring ?r)"
    using g sz(3) by (auto simp: ring_geometry_def intro: order_less_le_trans [OF mod_less_divisor])
  show ?thesis
    unfolding ring_avail_def
  proof (intro conjI allI impI)
    show "vq_available_idx (rs_dev ?s) + of_nat (length (ra_pend A')) = vr_avail_idx (rs_ring ?s)"
      by (simp add: offered_sys_def A' ai)
    fix i
    assume i: "i < length (ra_pend A')"
    show "vr_avail_ring (rs_ring ?s) ! ((unat (vq_available_idx (rs_dev ?s)) + i) mod unat (vq_nentries (rs_drv ?s))) =
        tk_head (ra_pend A' ! i)"
    proof (cases "i = length (ra_pend A)")
      case True
      then show ?thesis using kb by (simp add: offered_sys_def k A' tk_head_def)
    next
      case False
      with i have i': "i < length (ra_pend A)" by (simp add: A')
      have "?k \<noteq> (unat (vq_available_idx ?v) + i) mod ?N" using ring_slot_less [OF i' lt] by metis
      then show ?thesis using i' av by (simp add: offered_sys_def k A' nth_append ring_avail_def)
    qed
  qed
qed


lemma linked_drop:
  "linked desc a (xs @ ys) e \<Longrightarrow> linked desc (hd (ys @ [e])) ys e"
proof (induction xs arbitrary: a)
  case Nil
  then show ?case using linked_hd by fastforce
qed auto

lemma offer_rel:
  assumes R: "ring_rel vatopa s A" and f: "ra_free A = xs @ ys" and xs: "xs \<noteq> []"
    and fc: "fresh_chain vatopa (vr_desc (rs_ring s)) desc' xs bufs"
    and idx: "idx = hd (ys @ [VQ_RING_DESC_CHAIN_END])"
    and A': "A' = A\<lparr>ra_free := ys, ra_pend := ra_pend A @ [\<lparr>tk_chain = xs, tk_bufs = bufs, tk_cookie = cookie\<rparr>]\<rparr>"
  shows "ring_rel vatopa (offered_sys s xs idx desc' cookie) A'"
proof -
  let ?s = "offered_sys s xs idx desc' cookie"
  have g: "ring_geometry s" and fr: "ring_free s A" using R by (simp_all add: ring_rel_def)
  have "ring_geometry ?s" using g fc by (simp add: ring_geometry_def offered_sys_def fresh_chain_def)
  moreover have "linked (vr_desc (rs_ring s)) idx ys VQ_RING_DESC_CHAIN_END"
    using fr linked_drop by (auto simp: ring_free_def f idx)
  then have "linked desc' idx ys VQ_RING_DESC_CHAIN_END"
    using fc free_bound [OF R] g by (elim linked_cong [rotated 2]) (auto simp: fresh_chain_def f ring_geometry_def)
  then have "ring_free ?s A'"
  proof -
    assume lk: "linked desc' idx ys VQ_RING_DESC_CHAIN_END"
    have n: "unat (vq_free_cnt (rs_drv s)) = length xs + length ys" using fr by (simp add: ring_free_def f)
    then have "length xs < 65536" using unsigned_less [of "vq_free_cnt (rs_drv s)", where 'a = nat] by simp
    then have "unat (of_nat (length xs) :: u16) = length xs" by (simp add: unat_of_nat)
    then have "unat (vq_free_cnt (rs_drv s) - of_nat (length xs)) = length ys"
      using n by (simp add: unat_sub word_le_nat_alt)
    then show ?thesis using lk by (simp add: ring_free_def offered_sys_def A')
  qed
  moreover have "ring_owned ?s A'"
    by (rule ring_owned_mset [of s A]) (use R in \<open>simp_all add: ring_rel_def offered_sys_def tokens_def A' f\<close>)
  moreover have "ring_tokens vatopa ?s A'"
    by (rule offer_tokens [OF R _ xs fc]) (auto simp: A' tokens_def f)
  moreover have "ring_avail ?s A'" by (rule offer_avail [OF R]) (simp_all add: f A' xs)
  moreover have "ring_used ?s A'" using R by (simp add: ring_rel_def ring_used_def offered_sys_def A')
  ultimately show ?thesis by (simp add: ring_rel_def)
qed

lemma offer_step:
  assumes R: "ring_rel vatopa s A"
    and step: "abs_step (patova \<circ> vatopa) (Offer bufs readable writable cookie) A = Some (out, A')"
  shows "\<exists>idx desc'. ring_step dbg vatopa patova (Offer bufs readable writable cookie) s =
      Some (out, offered_sys s (take (length bufs) (ra_free A)) idx desc' cookie) \<and>
    fresh_chain vatopa (vr_desc (rs_ring s)) desc' (take (length bufs) (ra_free A)) bufs \<and>
    ring_rel vatopa (offered_sys s (take (length bufs) (ra_free A)) idx desc' cookie) A'"
proof -
  let ?d = "rs_drv s" and ?r = "rs_ring s" and ?n = "length bufs" and ?N = "unat (vq_nentries (rs_drv s))"
  define xs where "xs = take ?n (ra_free A)"
  define ys where "ys = drop ?n (ra_free A)"
  have f: "ra_free A = xs @ ys" by (simp add: xs_def ys_def)
  have c: "bufs \<noteq> []" "?n \<le> length (ra_free A)" "readable + writable = int ?n" "cookie \<noteq> 0"
    and A': "A' = A\<lparr>ra_free := ys, ra_pend := ra_pend A @ [\<lparr>tk_chain = xs, tk_bufs = bufs, tk_cookie = cookie\<rparr>]\<rparr>"
    and out: "out = Offered" using step by (auto simp: xs_def ys_def split: if_splits)
  have len: "length xs = ?n" using c(2) by (simp add: xs_def)
  have xs: "xs \<noteq> []" using len c(1) by auto
  note sz = ring_rel_size [OF R]
  have g: "ring_geometry s" and fr: "ring_free s A" and ow: "ring_owned s A" and tk: "ring_tokens vatopa s A"
    using R by (simp_all add: ring_rel_def)
  define idx where "idx = hd (ys @ [VQ_RING_DESC_CHAIN_END])"
  have lk: "linked (vr_desc ?r) (vq_desc_head_idx ?d) (xs @ ys) VQ_RING_DESC_CHAIN_END"
    using fr by (simp add: ring_free_def f)
  have head: "vq_desc_head_idx ?d = hd xs" using linked_hd [OF lk] xs by simp
  have ds: "distinct xs" using ow by (simp add: ring_owned_def f)
  have dl: "length (vr_desc ?r) \<le> 32768" using g sz(2) by (simp add: ring_geometry_def)
  from add_buffer_loop [OF lk len ds, of 0 "readable + writable" dbg vatopa readable] c(3) dl xs
  obtain desc' where add: "vq_ring_add_buffer dbg vatopa (vr_desc ?r) (hd xs) bufs readable writable = Some (idx, desc')"
    and fc: "fresh_chain vatopa (vr_desc ?r) desc' xs bufs"
    by (auto simp: vq_ring_add_buffer_def fresh_chain_def idx_def head)
  have hb: "unat (hd xs) < ?N" using free_bound [OF R, of "hd xs"] xs by (simp add: f)
  have hfree: "unat (hd xs) \<notin> unat ` tk_head ` set (tokens A)"
  proof
    assume "unat (hd xs) \<in> unat ` tk_head ` set (tokens A)"
    then obtain t where t: "t \<in> set (tokens A)" "hd xs = tk_head t" by auto
    then have "hd xs \<notin> set (ra_free A)"
      using chain_in_tokens(2) [OF R t(1)] tk_head_in_chain token_chain_nonempty [OF R t(1)] by metis
    then show False using xs by (simp add: f)
  qed
  have ck: "dx_cookie (vq_descx ?d ! unat (hd xs)) = 0" using tk hb hfree by (simp add: ring_tokens_def)
  have ndx: "(vq_descx ?d ! unat (hd xs))\<lparr>dx_cookie := cookie, dx_ndescs := word_of_nat ?n\<rparr> =
      \<lparr>dx_cookie = cookie, dx_ndescs = of_nat (length xs)\<rparr>" by (simp add: len)
  have fcnt: "vq_free_cnt ?d \<noteq> 0" using fr xs by (auto simp: ring_free_def f)
  let ?s = "offered_sys s xs idx desc' cookie"
  have R': "ring_rel vatopa ?s A'" by (rule offer_rel [OF R f xs fc idx_def A'])
  have fin: "if vq_free_cnt ?d = of_nat ?n then idx = VQ_RING_DESC_CHAIN_END else unat idx < unat (vq_nentries ?d)"
  proof -
    have fr': "unat (vq_free_cnt ?d - of_nat ?n) = length ys"
      using R' by (simp add: ring_rel_def ring_free_def offered_sys_def A' len)
    show ?thesis
    proof (cases ys)
      case Nil
      then show ?thesis using fr' by (simp add: idx_def unat_eq_zero)
    next
      case (Cons y ys')
      then have "unat y < ?N" using free_bound [OF R, of y] by (simp add: f)
      then show ?thesis using fr' Cons by (auto simp: idx_def)
    qed
  qed
  have kb: "unat (vr_avail_idx ?r) mod ?N < length (vr_avail_ring ?r)"
    using g sz(3) by (auto simp: ring_geometry_def intro: order_less_le_trans [OF mod_less_divisor])
  have "ring_step dbg vatopa patova (Offer bufs readable writable cookie) s = Some (out, ?s)"
    using g c hb add ck fcnt fin kb sz(1)
    by (simp add: virtqueue_add_buffer_def VQ_PARAM_CHK_def VQUEUE_SUCCESS_def ring_geometry_def head
      VQ_RING_ASSERT_VALID_IDX_def VQ_RING_ASSERT_CHAIN_TERM_def word_less_nat_alt
      vq_ring_update_avail_def unat_mask_index offered_sys_def out ndx len Let_def)
  then show ?thesis using R' fc unfolding xs_def by blast
qed

lemma offer_sim:
  "ring_rel vatopa s A \<Longrightarrow> abs_step (patova \<circ> vatopa) (Offer bufs readable writable cookie) A = Some (out, A') \<Longrightarrow>
     \<exists>s'. ring_step dbg vatopa patova (Offer bufs readable writable cookie) s = Some (out, s') \<and> ring_rel vatopa s' A'"
  using offer_step by blast


section \<open>Runs\<close>

text \<open>A sequence of calls, in the order in which the two sides make them.\<close>

primrec run :: "('op \<Rightarrow> 's \<Rightarrow> ('o \<times> 's) option) \<Rightarrow> 'op list \<Rightarrow> 's \<Rightarrow> ('o list \<times> 's) option" where
  "run step [] s = Some ([], s)"
| "run step (op # ops) s = do {
     (out, s) \<leftarrow> step op s;
     (outs, s) \<leftarrow> run step ops s;
     Some (out # outs, s) }"

text \<open>Functional refinement of a specification that is defined within its contract.\<close>

locale refinement =
  fixes rel :: "'s \<Rightarrow> 'a \<Rightarrow> bool"
    and cstep :: "'op \<Rightarrow> 's \<Rightarrow> ('o \<times> 's) option"
    and astep :: "'op \<Rightarrow> 'a \<Rightarrow> ('o \<times> 'a) option"
  assumes sim: "rel s A \<Longrightarrow> astep op A = Some (out, A') \<Longrightarrow> \<exists>s'. cstep op s = Some (out, s') \<and> rel s' A'"
begin

lemma run_sim:
  "rel s A \<Longrightarrow> run astep ops A = Some (outs, A') \<Longrightarrow> \<exists>s'. run cstep ops s = Some (outs, s') \<and> rel s' A'"
proof (induction ops arbitrary: s A outs)
  case (Cons op ops)
  from Cons.prems(2) obtain o1 A1 os where a: "astep op A = Some (o1, A1)"
    "run astep ops A1 = Some (os, A')" "outs = o1 # os"
    by (auto simp: option_bind_simps)
  from sim [OF Cons.prems(1) a(1)] obtain s1 where s1: "cstep op s = Some (o1, s1)" "rel s1 A1" by blast
  from Cons.IH [OF s1(2) a(2)] s1(1) a(3) show ?case by auto
qed simp

text \<open>An invariant of the specification's runs is an invariant of the code's.\<close>

lemma run_total: "rel s A \<Longrightarrow> run astep ops A \<noteq> None \<Longrightarrow> run cstep ops s \<noteq> None"
  using run_sim by fastforce

end

interpretation vqr: refinement "ring_rel vatopa" "ring_step dbg vatopa patova" "abs_step (patova \<circ> vatopa)"
  for vatopa dbg patova
proof (unfold_locales, goal_cases)
  case (1 s A op out A')
  then show ?case
    by (cases op) (auto dest: take_sim give_sim reclaim_sim offer_sim simp del: abs_step.simps ring_step.simps)
qed

section \<open>What the specification guarantees\<close>

primrec offers :: "(u32 \<Rightarrow> u32) \<Rightarrow> ring_op list \<Rightarrow> (u32 \<times> u32) list" where
  "offers tr [] = []"
| "offers tr (op # ops) = (case op of Offer bufs _ _ _ \<Rightarrow> [(tr (fst (hd bufs)), snd (hd bufs))] | _ \<Rightarrow> []) @ offers tr ops"

primrec offer_cookies :: "ring_op list \<Rightarrow> u32 list" where
  "offer_cookies [] = []"
| "offer_cookies (op # ops) = (case op of Offer _ _ _ c \<Rightarrow> [c] | _ \<Rightarrow> []) @ offer_cookies ops"

primrec gives :: "ring_op list \<Rightarrow> u32 list" where
  "gives [] = []"
| "gives (op # ops) = (case op of Give _ l \<Rightarrow> [l] | _ \<Rightarrow> []) @ gives ops"

primrec takes :: "ring_out list \<Rightarrow> (u32 \<times> u32) list" where
  "takes [] = []"
| "takes (out # outs) = (case out of Took b (Some (_, l)) \<Rightarrow> [(b, l)] | _ \<Rightarrow> []) @ takes outs"

primrec reclaims :: "ring_out list \<Rightarrow> (u32 \<times> u32) list" where
  "reclaims [] = []"
| "reclaims (out # outs) = (case out of Reclaimed c (Some l) \<Rightarrow> [(c, l)] | _ \<Rightarrow> []) @ reclaims outs"

definition first_buf :: "(u32 \<Rightarrow> u32) \<Rightarrow> token \<Rightarrow> u32 \<times> u32" where
  "first_buf tr t = (tr (fst (hd (tk_bufs t))), snd (hd (tk_bufs t)))"

lemma filter_hd_in: "filter P xs = t # ts \<Longrightarrow> t \<in> set xs"
  by (metis filter_is_subset list.set_intros(1) subsetD)

lemma abs_step_fifo:
  "abs_step tr op A = Some (out, A') \<Longrightarrow>
     map (first_buf tr) (ra_pend A) @ offers tr [op] = takes [out] @ map (first_buf tr) (ra_pend A')"
  by (cases op) (auto simp: first_buf_def split: if_splits list.splits)

lemma abs_step_returns:
  "abs_step tr op A = Some (out, A') \<Longrightarrow>
     map snd (ra_used A) @ gives [op] = map snd (reclaims [out]) @ map snd (ra_used A')"
  by (cases op) (auto split: if_splits list.splits)

lemma abs_step_cookies:
  "abs_step tr op A = Some (out, A') \<Longrightarrow>
     mset (map tk_cookie (tokens A)) + mset (offer_cookies [op]) =
       mset (map fst (reclaims [out])) + mset (map tk_cookie (tokens A'))"
proof (cases op)
  case (Give idx len)
  assume "abs_step tr op A = Some (out, A')"
  then obtain t ts where f: "filter (\<lambda>t. tk_head t = idx) (ra_taken A) = t # ts" and out: "out = Given"
    and A': "A' = A\<lparr>ra_taken := remove1 t (ra_taken A), ra_used := ra_used A @ [(t, len)]\<rparr>"
    by (auto simp: Give split: list.splits)
  have "mset (tokens A') = mset (tokens A)" using filter_hd_in [OF f] by (simp add: A' tokens_def)
  then show ?thesis by (simp add: Give out)
qed (auto simp: tokens_def split: if_splits list.splits)

lemma run_acc:
  assumes step: "\<And>op A out A'. st op A = Some (out, A') \<Longrightarrow> f A @ p [op] = q [out] @ f A'"
    and p: "\<And>x xs. p (x # xs) = p [x] @ p xs" "p [] = []" and q: "\<And>x xs. q (x # xs) = q [x] @ q xs" "q [] = []"
  shows "run st ops A = Some (outs, A') \<Longrightarrow> f A @ p ops = q outs @ f A'"
proof (induction ops arbitrary: A outs)
  case Nil
  then show ?case by (simp add: p q)
next
  case (Cons op ops)
  from Cons.prems obtain o1 A1 os where a: "st op A = Some (o1, A1)" "run st ops A1 = Some (os, A')" "outs = o1 # os"
    by (auto simp: option_bind_simps)
  have "f A @ p [op] @ p ops = q [o1] @ f A1 @ p ops" using step [OF a(1)] by (metis append_assoc)
  then show ?case using Cons.IH [OF a(2)] a(3) by (metis append_assoc p(1) q(1))
qed

lemma run_acc_mset:
  assumes step: "\<And>op A out A'. st op A = Some (out, A') \<Longrightarrow> f A + p [op] = q [out] + (f A' :: 'm multiset)"
    and p: "\<And>x xs. p (x # xs) = p [x] + p xs" "p [] = {#}" and q: "\<And>x xs. q (x # xs) = q [x] + q xs" "q [] = {#}"
  shows "run st ops A = Some (outs, A') \<Longrightarrow> f A + p ops = q outs + f A'"
proof (induction ops arbitrary: A outs)
  case Nil
  then show ?case by (simp add: p q)
next
  case (Cons op ops)
  from Cons.prems obtain o1 A1 os where a: "st op A = Some (o1, A1)" "run st ops A1 = Some (os, A')" "outs = o1 # os"
    by (auto simp: option_bind_simps)
  have "f A + p (op # ops) = (f A + p [op]) + p ops" using p(1) [of op ops] by (simp add: add.assoc)
  also have "\<dots> = q [o1] + (f A1 + p ops)" using step [OF a(1)] by (simp add: add.assoc)
  also have "\<dots> = q outs + f A'" using Cons.IH [OF a(2)] a(3) q(1) [of o1 os] by (simp add: add.assoc)
  finally show ?case .
qed

lemma abs_run_fifo:
  "run (abs_step tr) ops A = Some (outs, A') \<Longrightarrow>
     map (first_buf tr) (ra_pend A) @ offers tr ops = takes outs @ map (first_buf tr) (ra_pend A')"
  by (rule run_acc [where f = "\<lambda>A. map (first_buf tr) (ra_pend A)"]) (erule abs_step_fifo, simp_all)

lemma abs_run_returns:
  "run (abs_step tr) ops A = Some (outs, A') \<Longrightarrow>
     map snd (ra_used A) @ gives ops = map snd (reclaims outs) @ map snd (ra_used A')"
  by (rule run_acc [where f = "\<lambda>A. map snd (ra_used A)" and q = "\<lambda>outs. map snd (reclaims outs)"])
    (erule abs_step_returns, simp_all)

lemma abs_run_cookies:
  "run (abs_step tr) ops A = Some (outs, A') \<Longrightarrow>
     mset (map tk_cookie (tokens A)) + mset (offer_cookies ops) =
       mset (map fst (reclaims outs)) + mset (map tk_cookie (tokens A'))"
  by (rule run_acc_mset [where f = "\<lambda>A. mset (map tk_cookie (tokens A))" and p = "\<lambda>ops. mset (offer_cookies ops)"
        and q = "\<lambda>outs. mset (map fst (reclaims outs))"])
    (erule abs_step_cookies, simp_all)

section \<open>Creation\<close>

lemma vq_ring_init_loop_next:
  assumes "m \<le> length desc"
  shows "\<exists>desc'. vq_ring_init_loop [k..<m] desc = Some desc' \<and> length desc' = length desc \<and>
    (\<forall>j < length desc. d_next (desc' ! j) = (if k \<le> j \<and> j < m then of_nat (j + 1) else d_next (desc ! j)))"
  using assms
proof (induction "m - k" arbitrary: k desc)
  case 0
  then show ?case by auto
next
  case (Suc n)
  then have km: "k < m" by simp
  let ?desc = "desc[k := (desc ! k)\<lparr>d_next := of_nat (k + 1)\<rparr>]"
  have "n = m - Suc k" "m \<le> length ?desc" using Suc.hyps(2) Suc.prems by simp_all
  from Suc.hyps(1) [OF this] obtain desc' where d:
    "vq_ring_init_loop [Suc k..<m] ?desc = Some desc'" "length desc' = length ?desc"
    "\<forall>j < length ?desc. d_next (desc' ! j) = (if Suc k \<le> j \<and> j < m then of_nat (j + 1) else d_next (?desc ! j))"
    by blast
  have "vq_ring_init_loop [k..<m] desc = Some desc'"
    using d(1) km Suc.prems by (simp add: upt_conv_Cons set_next_def)
  moreover have "d_next (desc' ! j) = (if k \<le> j \<and> j < m then of_nat (j + 1) else d_next (desc ! j))"
    if "j < length desc" for j using d(3) that km by (cases "j = k") auto
  ultimately show ?case using d(2) by (intro exI [of _ desc']) simp
qed

lemma linked_upt:
  assumes "length desc = n" "n \<le> 32768"
    "\<And>j. j < n \<Longrightarrow> d_next (desc ! j) = (if j + 1 < n then of_nat (j + 1) else e)"
  shows "k < n \<Longrightarrow> linked desc (of_nat k) (map of_nat [k..<n]) e"
proof (induction "n - k" arbitrary: k)
  case (Suc m)
  have "unat (of_nat k :: u16) = k" using Suc.prems assms(2) by (simp add: unat_of_nat)
  then have "d_next (desc ! unat (of_nat k :: u16)) = (if k + 1 < n then of_nat (k + 1) else e)" 
    and b: "unat (of_nat k :: u16) < length desc"
    using assms(1,3) Suc.prems by auto
  moreover have "[k..<n] = k # [Suc k..<n]" using Suc.prems by (simp add: upt_conv_Cons)
  ultimately show ?case
  proof (cases "Suc k < n")
    case True
    then have "linked desc (of_nat (Suc k)) (map of_nat [Suc k..<n]) e" using Suc by (intro Suc.hyps(1)) auto
    then show ?thesis using \<open>[k..<n] = k # [Suc k..<n]\<close> b True
      \<open>d_next (desc ! unat (of_nat k :: u16)) = (if k + 1 < n then of_nat (k + 1) else e)\<close> by simp
  next
    case False
    then show ?thesis using \<open>[k..<n] = k # [Suc k..<n]\<close> b
      \<open>d_next (desc ! unat (of_nat k :: u16)) = (if k + 1 < n then of_nat (k + 1) else e)\<close> by simp
  qed
qed simp


text \<open>A freshly zeroed ring of \<open>n\<close> entries, as \<^verbatim>\<open>env_memset\<close> leaves it before the queues are created.\<close>

definition vring_zero :: "nat \<Rightarrow> vring_mem" where
  "vring_zero n = \<lparr>vr_desc = replicate n \<lparr>d_addr = 0, d_len = 0, d_flags = 0, d_next = 0\<rparr>,
     vr_avail_flags = 0, vr_avail_idx = 0, vr_avail_ring = replicate (n + 1) 0, vr_used_flags = 0,
     vr_used_idx = 0, vr_used_ring = replicate n \<lparr>ue_id = 0, ue_len = 0\<rparr>, vr_avail_event = 0\<rparr>"

definition ring_abs0 :: "nat \<Rightarrow> ring_abs" where
  "ring_abs0 n = \<lparr>ra_free = map of_nat [0..<n], ra_pend = [], ra_taken = [], ra_used = []\<rparr>"

text \<open>The effect of \<^verbatim>\<open>virtqueue_create\<close> on a ring with zero indices: the free chain holds all descriptors.\<close>

lemma virtqueue_create_ring:
  assumes n: "pow2_size (vai_num_descs ring)" and len: "length (vr_desc r) = unat (vai_num_descs ring)"
    and nm: "env_strncpy name VIRTQUEUE_MAX_NAME_SZ = Some nm"
  shows "\<exists>vq desc. virtqueue_create dbg True dev qid name ring cb nt r =
      Some (0, Some vq, r\<lparr>vr_desc := desc, vr_avail_flags := vr_avail_flags r OR VRING_AVAIL_F_NO_INTERRUPT\<rparr>) \<and>
    length desc = length (vr_desc r) \<and>
    linked desc 0 (map of_nat [0..<unat (vai_num_descs ring)]) VQ_RING_DESC_CHAIN_END \<and>
    vq_nentries vq = vai_num_descs ring \<and> vq_free_cnt vq = vai_num_descs ring \<and> \<not> vq_inuse vq \<and>
    vq_desc_head_idx vq = 0 \<and> vq_used_cons_idx vq = 0 \<and> vq_available_idx vq = 0 \<and>
    vq_descx vq = replicate (unat (vai_num_descs ring)) \<lparr>dx_cookie = 0, dx_ndescs = 0\<rparr> \<and>
    vq_name vq = nm \<and> vq_callback vq = cb \<and> vq_notify vq = nt \<and> vq_queue_index vq = qid \<and> vq_dev vq = dev"
proof -
  let ?n = "unat (vai_num_descs ring)"
  have pos: "0 < ?n" "?n \<le> 32768" using pow2_size_pos [OF n] pow2_size_le [OF n] by simp_all
  have nz: "vai_num_descs ring \<noteq> 0" using pos(1) by auto
  have p2: "vai_num_descs ring AND (vai_num_descs ring - 1) = 0"
  proof -
    have "unat (vai_num_descs ring AND (vai_num_descs ring - 1)) = 0" by (simp add: unat_mask_index [OF n])
    then show ?thesis by (simp add: unat_eq_zero)
  qed
  obtain desc1 where d1: "vq_ring_init_loop [0..<?n - 1] (vr_desc r) = Some desc1" "length desc1 = ?n"
    "\<forall>j < ?n. d_next (desc1 ! j) = (if j < ?n - 1 then of_nat (j + 1) else d_next (vr_desc r ! j))"
    using vq_ring_init_loop_next [of "?n - 1" "vr_desc r" 0] len by auto
  define desc where "desc = desc1[?n - 1 := (desc1 ! (?n - 1))\<lparr>d_next := VQ_RING_DESC_CHAIN_END\<rparr>]"
  have dl: "length desc = ?n" by (simp add: desc_def d1(2))
  have nx: "d_next (desc ! j) = (if j + 1 < ?n then of_nat (j + 1) else VQ_RING_DESC_CHAIN_END)" if "j < ?n" for j
  proof (cases "j = ?n - 1")
    case True
    then show ?thesis using d1(2) pos by (simp add: desc_def)
  next
    case False
    then have "j + 1 < ?n" "j < ?n - 1" using that by linarith+
    then show ?thesis using d1(3) that False by (simp add: desc_def)
  qed
  have lk: "linked desc 0 (map of_nat [0..<?n]) VQ_RING_DESC_CHAIN_END"
    using linked_upt [OF dl pos(2) nx, of 0] pos(1) by simp
  have init: "vq_ring_init vq r = Some (vq\<lparr>vq_ring := vring_init (ucast (vq_nentries vq)) (vq_ring_mem vq) (vq_alignment vq)\<rparr>,
      r\<lparr>vr_desc := desc\<rparr>)" if "vq_nentries vq = vai_num_descs ring" for vq
    using that d1 pos by (simp add: vq_ring_init_def set_next_def desc_def Let_def)
  show ?thesis
    using lk dl len nz p2 nm
    by (simp add: virtqueue_create_def VQ_PARAM_CHK_def VQUEUE_SUCCESS_def init virtqueue_disable_cb_def vq_zero_def)
      (rule exI [of _ desc], simp)
qed

lemma ring_create_initial:
  assumes n: "pow2_size n" "vai_num_descs ring = n" "vai_num_descs ring' = n"
    and nm: "env_strncpy name VIRTQUEUE_MAX_NAME_SZ = Some nm" "env_strncpy name' VIRTQUEUE_MAX_NAME_SZ = Some nm'"
  shows "\<exists>d v r1 r2. virtqueue_create dbg True dev qid name ring cb nt (vring_zero (unat n)) = Some (0, Some d, r1) \<and>
    virtqueue_create dbg True dev' qid' name' ring' cb' nt' r1 = Some (0, Some v, r2) \<and>
    ring_rel vatopa \<lparr>rs_drv = d, rs_dev = v, rs_ring = r2\<rparr> (ring_abs0 (unat n))"
proof -
  let ?r = "vring_zero (unat n)" and ?xs = "map of_nat [0..<unat n] :: u16 list"
  have le: "unat n \<le> 32768" by (rule pow2_size_le [OF n(1)])
  from virtqueue_create_ring [of ring ?r, OF _ _ nm(1), where dbg = dbg and dev = dev and qid = qid and cb = cb and nt = nt] n
  obtain d desc1 where d: "virtqueue_create dbg True dev qid name ring cb nt ?r =
      Some (0, Some d, ?r\<lparr>vr_desc := desc1, vr_avail_flags := vr_avail_flags ?r OR VRING_AVAIL_F_NO_INTERRUPT\<rparr>)"
    "length desc1 = unat n" "vq_nentries d = n" "vq_free_cnt d = n" "\<not> vq_inuse d"
    "vq_desc_head_idx d = 0" "vq_used_cons_idx d = 0"
    "vq_descx d = replicate (unat n) \<lparr>dx_cookie = 0, dx_ndescs = 0\<rparr>"
    by (auto simp: vring_zero_def)
  let ?r1 = "?r\<lparr>vr_desc := desc1, vr_avail_flags := vr_avail_flags ?r OR VRING_AVAIL_F_NO_INTERRUPT\<rparr>"
  from virtqueue_create_ring [of ring' ?r1, OF _ _ nm(2), where dbg = dbg and dev = dev' and qid = qid' and cb = cb' and nt = nt'] n d(2)
  obtain v desc2 where v: "virtqueue_create dbg True dev' qid' name' ring' cb' nt' ?r1 =
      Some (0, Some v, ?r1\<lparr>vr_desc := desc2, vr_avail_flags := vr_avail_flags ?r1 OR VRING_AVAIL_F_NO_INTERRUPT\<rparr>)"
    "length desc2 = unat n" "linked desc2 0 ?xs VQ_RING_DESC_CHAIN_END"
    "vq_nentries v = n" "\<not> vq_inuse v" "vq_available_idx v = 0"
    by auto
  have "inj_on (of_nat :: nat \<Rightarrow> u16) {0..<unat n}"
  proof (rule inj_onI)
    fix i j assume ij: "i \<in> {0..<unat n}" "j \<in> {0..<unat n}" "(of_nat i :: u16) = of_nat j"
    have "unat (of_nat i :: u16) = i" "unat (of_nat j :: u16) = j" using ij(1,2) le by (simp_all add: unat_of_nat)
    with ij(3) show "i = j" by metis
  qed
  then have ds: "distinct ?xs" by (simp add: distinct_map)
  let ?s = "\<lparr>rs_drv = d, rs_dev = v, rs_ring = ?r1\<lparr>vr_desc := desc2, vr_avail_flags := vr_avail_flags ?r1 OR VRING_AVAIL_F_NO_INTERRUPT\<rparr>\<rparr>"
  have "ring_geometry ?s" using n(1) d v(2,4,5) by (simp add: ring_geometry_def vring_zero_def)
  moreover have "ring_free ?s (ring_abs0 (unat n))" using v(3) d by (simp add: ring_free_def ring_abs0_def)
  moreover have "ring_owned ?s (ring_abs0 (unat n))" using ds d by (simp add: ring_owned_def ring_abs0_def tokens_def)
  moreover have "ring_tokens vatopa ?s (ring_abs0 (unat n))" using d by (simp add: ring_tokens_def ring_abs0_def tokens_def)
  moreover have "ring_avail ?s (ring_abs0 (unat n))" "ring_used ?s (ring_abs0 (unat n))"
    using d v(6) by (simp_all add: ring_avail_def ring_used_def ring_abs0_def vring_zero_def)
  ultimately show ?thesis using d(1) v(1) by (auto simp: ring_rel_def)
qed


section \<open>Properties\<close>

text \<open>
  Property C5.  The code refines the list machine: from related states, every
  interleaving of calls that respects the contract runs in the code without undefined behaviour or
  failed assertion, returns what the specification returns, and ends in related states.
\<close>

theorem virtqueue_refines_list_machine:
  assumes "ring_rel vatopa s A" "run (abs_step (patova \<circ> vatopa)) ops A = Some (outs, A')"
  shows "\<exists>s'. run (ring_step dbg vatopa patova) ops s = Some (outs, s') \<and> ring_rel vatopa s' A'"
  using assms by (rule vqr.run_sim)

text \<open>
  Two queues created on one zeroed ring whose size is a power of two are
  related to the list machine with all descriptors free and nothing in flight.
\<close>

theorem virtqueue_create_establishes_relation:
  assumes "pow2_size n" "vai_num_descs ring = n" "vai_num_descs ring' = n" "NUL \<notin> set name" "NUL \<notin> set name'"
  shows "\<exists>d v r1 r2.
    virtqueue_create dbg True dev qid (cstring name) ring cb nt (vring_zero (unat n)) = Some (VQUEUE_SUCCESS, Some d, r1) \<and>
    virtqueue_create dbg True dev' qid' (cstring name') ring' cb' nt' r1 = Some (VQUEUE_SUCCESS, Some v, r2) \<and>
    ring_rel vatopa \<lparr>rs_drv = d, rs_dev = v, rs_ring = r2\<rparr> (ring_abs0 (unat n))"
  unfolding VQUEUE_SUCCESS_def
  by (rule ring_create_initial) (use assms in \<open>auto simp: env_strncpy_cstring\<close>)

definition ring_info_example :: vring_alloc_info where
  "ring_info_example = \<lparr>vai_phy_addr = 0x08000000, vai_align = 4096, vai_num_descs = 4\<rparr>"

lemma pow2_size_4: "pow2_size 4"
  unfolding pow2_size_def by (rule exI [of _ 2]) simp

theorem virtqueue_create_establishes_relation_witness:
  "\<exists>d v r1 r2.
    virtqueue_create False True 1 0 (cstring ''tx'') ring_info_example None None (vring_zero (unat (4 :: u16))) = Some (VQUEUE_SUCCESS, Some d, r1) \<and>
    virtqueue_create False True 2 1 (cstring ''rx'') ring_info_example None None r1 = Some (VQUEUE_SUCCESS, Some v, r2) \<and>
    ring_rel (\<lambda>a. a) \<lparr>rs_drv = d, rs_dev = v, rs_ring = r2\<rparr> (ring_abs0 (unat (4 :: u16)))"
  by (rule virtqueue_create_establishes_relation [OF pow2_size_4]) (simp_all add: ring_info_example_def)

text \<open>A small related state and a run of it, for the witnesses.\<close>

definition ring_example :: ring_sys where
  "ring_example = \<lparr>rs_drv = (vq_zero 4)\<lparr>vq_nentries := 4, vq_free_cnt := 4\<rparr>,
     rs_dev = (vq_zero 4)\<lparr>vq_nentries := 4, vq_free_cnt := 4\<rparr>,
     rs_ring = (vring_zero 4)\<lparr>vr_desc := map (\<lambda>n. \<lparr>d_addr = 0, d_len = 0, d_flags = 0, d_next = n\<rparr>)
       [1, 2, 3, VQ_RING_DESC_CHAIN_END]\<rparr>\<rparr>"

lemma ring_rel_example: "ring_rel (\<lambda>a. a) ring_example (ring_abs0 4)"
  by code_simp

definition ops_example :: "ring_op list" where
  "ops_example = [Offer [(0x100, 512)] 0 1 0x100, Offer [(0x300, 16), (0x500, 32)] 1 1 0x300,
     Take, Take, Give 1 7, Give 0 5, Reclaim, Take]"

definition outs_example :: "ring_out list" where
  "outs_example = [Offered, Offered, Took 0x100 (Some (0, 512)), Took 0x300 (Some (1, 16)), Given, Given,
     Reclaimed 0x300 (Some 7), Took 0 None]"

lemma abs_run_example:
  "run (abs_step ((\<lambda>a. a) \<circ> (\<lambda>a. a))) ops_example (ring_abs0 4) = Some (outs_example,
     \<lparr>ra_free = [1, 2, 3], ra_pend = [], ra_taken = [],
      ra_used = [(\<lparr>tk_chain = [0], tk_bufs = [(0x100, 512)], tk_cookie = 0x100\<rparr>, 5)]\<rparr>)"
  by code_simp

theorem virtqueue_refines_list_machine_witness:
  "\<exists>s'. run (ring_step False (\<lambda>a. a) (\<lambda>a. a)) ops_example ring_example = Some (outs_example, s')"
  using virtqueue_refines_list_machine [OF ring_rel_example abs_run_example] by blast

text \<open>
  Property C6.  Order and content: in every run within the contract the device takes exactly
  the offered buffers, in the order of the offers and with their lengths, through the address
  translation; the driver gets the returned lengths in the order of the returns; and every
  cookie handed in is either handed back once or still in flight.
\<close>

theorem virtqueue_fifo_and_conservation:
  assumes "ring_rel vatopa s A" "run (abs_step (patova \<circ> vatopa)) ops A = Some (outs, A')"
  shows "\<exists>outs s'. run (ring_step dbg vatopa patova) ops s = Some (outs, s') \<and>
    map (first_buf (patova \<circ> vatopa)) (ra_pend A) @ offers (patova \<circ> vatopa) ops =
      takes outs @ map (first_buf (patova \<circ> vatopa)) (ra_pend A') \<and>
    map snd (ra_used A) @ gives ops = map snd (reclaims outs) @ map snd (ra_used A') \<and>
    mset (map tk_cookie (tokens A)) + mset (offer_cookies ops) =
      mset (map fst (reclaims outs)) + mset (map tk_cookie (tokens A'))"
  using vqr.run_sim [OF assms, of dbg] abs_run_fifo [OF assms(2)] abs_run_returns [OF assms(2)]
    abs_run_cookies [OF assms(2)] by blast

theorem virtqueue_fifo_and_conservation_witness:
  "\<exists>outs s'. run (ring_step True (\<lambda>a. a) (\<lambda>a. a)) ops_example ring_example = Some (outs, s') \<and>
     takes outs = [(0x100, 512), (0x300, 16)] \<and> map snd (reclaims outs) = [7]"
proof -
  have e: "offers ((\<lambda>a. a) \<circ> (\<lambda>a. a)) ops_example = [(0x100, 512), (0x300, 16)]" "gives ops_example = [7, 5]"
    "ra_pend (ring_abs0 4) = []" "ra_used (ring_abs0 4) = []"
    by code_simp+
  from virtqueue_fifo_and_conservation [OF ring_rel_example abs_run_example, of True]
  obtain outs s' where "run (ring_step True (\<lambda>a. a) (\<lambda>a. a)) ops_example ring_example = Some (outs, s')"
    "[(0x100, 512), (0x300, 16)] = takes outs" "[7, 5] = map snd (reclaims outs) @ [5]"
    unfolding e by auto
  then show ?thesis by (intro exI [of _ outs] exI [of _ s']) auto
qed



end
