(* ===== verification/VqBoundary.thy ===== *)
theory VqBoundary
  imports VqProtocol
begin

text \<open>
  The virtqueue at the edges of its contract: the full ring, the bounds check of
  \<^verbatim>\<open>virtqueue_add_consumed_buffer\<close>, the two ways to add one buffer, the moment at which an offered
  buffer becomes visible, and the notification decision of \<^verbatim>\<open>virtqueue_kick\<close>.
\<close>

lemma full_ring_head:
  assumes "ring_rel vatopa s A" "ra_free A = []"
  shows "vq_desc_head_idx (rs_drv s) = VQ_RING_DESC_CHAIN_END" "vq_free_cnt (rs_drv s) = 0"
    "length (vq_descx (rs_drv s)) \<le> unat VQ_RING_DESC_CHAIN_END" "\<not> vq_inuse (rs_drv s)"
proof -
  show "vq_desc_head_idx (rs_drv s) = VQ_RING_DESC_CHAIN_END" "vq_free_cnt (rs_drv s) = 0"
    using assms by (simp_all add: ring_rel_def ring_free_def unat_eq_zero)
  show "length (vq_descx (rs_drv s)) \<le> unat VQ_RING_DESC_CHAIN_END" "\<not> vq_inuse (rs_drv s)"
    using assms ring_rel_size(2) [OF assms(1)]
    by (simp_all add: ring_rel_def ring_geometry_def VQ_RING_DESC_CHAIN_END_def)
qed

lemma add_buffer_full:
  assumes "ring_rel vatopa s A" "ra_free A = []" "0 < readable + writable"
  shows "virtqueue_add_buffer dbg vatopa (rs_drv s) bufs readable writable cookie (rs_ring s) =
      (if dbg then Some (ERROR_VRING_FULL, rs_drv s, rs_ring s) else None)"
  using full_ring_head [OF assms(1,2)] assms(3)
  by (cases "rs_drv s")
    (simp add: virtqueue_add_buffer_def VQ_PARAM_CHK_def vq_error_defs VQ_RING_ASSERT_VALID_IDX_def VQASSERT_def)

text \<open>
  Property C9.  A buffer added to a full ring: the debug build refuses it with
  \<^verbatim>\<open>ERROR_VRING_FULL\<close> and changes nothing; the shipped build (\<^verbatim>\<open>VQUEUE_DEBUG\<close> false) has no check and
  accesses entry 32768 of the descriptor tables, outside their bounds.
\<close>

theorem virtqueue_add_buffer_full_ring:
  assumes "ring_rel vatopa s A" "ra_free A = []" "0 < readable + writable"
  shows "virtqueue_add_buffer True vatopa (rs_drv s) bufs readable writable cookie (rs_ring s) =
      Some (ERROR_VRING_FULL, rs_drv s, rs_ring s) \<and>
    virtqueue_add_buffer VQUEUE_DEBUG vatopa (rs_drv s) bufs readable writable cookie (rs_ring s) = None"
  by (simp add: add_buffer_full [OF assms] VQUEUE_DEBUG_def)

definition full_ring_example :: ring_sys where
  "full_ring_example = ring_example
     \<lparr>rs_drv := (rs_drv ring_example)\<lparr>vq_nentries := 1, vq_free_cnt := 0, vq_desc_head_idx := VQ_RING_DESC_CHAIN_END,
        vq_descx := [\<lparr>dx_cookie = 0x100, dx_ndescs = 1\<rparr>]\<rparr>,
      rs_dev := (rs_dev ring_example)\<lparr>vq_nentries := 1\<rparr>,
      rs_ring := (rs_ring ring_example)\<lparr>vr_desc := [\<lparr>d_addr = 0x100, d_len = 8, d_flags = 0, d_next = 0\<rparr>],
        vr_avail_idx := 1, vr_used_ring := [\<lparr>ue_id = 0, ue_len = 0\<rparr>]\<rparr>\<rparr>"

definition full_abs_example :: ring_abs where
  "full_abs_example = \<lparr>ra_free = [], ra_pend = [\<lparr>tk_chain = [0], tk_bufs = [(0x100, 8)], tk_cookie = 0x100\<rparr>],
     ra_taken = [], ra_used = []\<rparr>"

lemma full_ring_example_rel: "ring_rel (\<lambda>a. a) full_ring_example full_abs_example"
  by code_simp

theorem virtqueue_add_buffer_full_ring_witness:
  "virtqueue_add_buffer VQUEUE_DEBUG (\<lambda>a. a) (rs_drv full_ring_example) [(0x300, 8)] 1 0 0x300 (rs_ring full_ring_example) = None"
  using virtqueue_add_buffer_full_ring [OF full_ring_example_rel, of 1 0 "[(0x300, 8)]" "0x300"]
  by (simp add: full_abs_example_def)

text \<open>
  The bounds check of \<^verbatim>\<open>virtqueue_add_consumed_buffer\<close> admits
  \<^verbatim>\<open>head_idx == vq_nentries\<close>: the call succeeds, and the next \<^verbatim>\<open>virtqueue_get_buffer\<close> of the driver leaves
  the descriptor table (in the debug build it stops in the assertion).
\<close>

theorem virtqueue_consumed_index_off_by_one:
  assumes "ring_rel vatopa s A" "ra_used A = []"
  shows "\<exists>vq r. virtqueue_add_consumed_buffer dbg (rs_dev s) (vq_nentries (rs_dev s)) len (rs_ring s) =
      Some (VQUEUE_SUCCESS, vq, r) \<and> virtqueue_get_buffer dbg (rs_drv s) r = None"
proof -
  let ?d = "rs_drv s" and ?r = "rs_ring s"
  note sz = ring_rel_size [OF assms(1)]
  have g: "ring_geometry s" using assms(1) by (simp add: ring_rel_def)
  have ui: "vr_used_idx ?r = vq_used_cons_idx ?d" using assms by (simp add: ring_rel_def ring_used_def)
  let ?k = "unat (vq_used_cons_idx ?d) mod unat (vq_nentries ?d)"
  have kb: "?k < length (vr_used_ring ?r)" using g sz(3) by (simp add: ring_geometry_def)
  have slot: "unat (vq_used_cons_idx ?d AND (vq_nentries ?d - 1)) = ?k" by (rule unat_mask_index [OF sz(1)])
  define r' where "r' = ?r\<lparr>vr_used_ring := (vr_used_ring ?r)[?k := \<lparr>ue_id = ucast (vq_nentries ?d), ue_len = len\<rparr>],
    vr_used_idx := vq_used_cons_idx ?d + 1\<rparr>"
  have "virtqueue_add_consumed_buffer dbg (rs_dev s) (vq_nentries (rs_dev s)) len ?r =
      Some (VQUEUE_SUCCESS, (rs_dev s)\<lparr>vq_inuse := False\<rparr>, r')"
    using g kb slot by (simp add: virtqueue_add_consumed_buffer_def ring_geometry_def ui r'_def)
  moreover have "virtqueue_get_buffer dbg ?d r' = None"
    using g kb slot
    by (simp add: virtqueue_get_buffer_def ring_geometry_def r'_def vq_ring_free_chain_def VQ_RING_ASSERT_VALID_IDX_def VQASSERT_def)
  ultimately show ?thesis by blast
qed

theorem virtqueue_consumed_index_off_by_one_witness:
  "\<exists>vq r. virtqueue_add_consumed_buffer False (rs_dev ring_example) (vq_nentries (rs_dev ring_example)) 8 (rs_ring ring_example) =
      Some (VQUEUE_SUCCESS, vq, r) \<and> virtqueue_get_buffer False (rs_drv ring_example) r = None"
  by (rule virtqueue_consumed_index_off_by_one [OF ring_rel_example]) (simp add: ring_abs0_def)

text \<open>
  In the shipped build \<^verbatim>\<open>virtqueue_add_single_buffer\<close> without chaining is
  \<^verbatim>\<open>virtqueue_add_buffer\<close> of a one-element list, on every ring and every control block.
\<close>

theorem virtqueue_add_single_buffer_equiv:
  "virtqueue_add_single_buffer VQUEUE_DEBUG vatopa vq cookie addr len writable False r =
   virtqueue_add_buffer VQUEUE_DEBUG vatopa vq [(addr, len)] (if writable then 0 else 1) (if writable then 1 else 0) cookie r"
  by (cases "unat (vq_desc_head_idx vq) < length (vq_descx vq)";
      cases "unat (vq_desc_head_idx vq) < length (vr_desc r)")
    (simp_all add: VQUEUE_DEBUG_def virtqueue_add_single_buffer_def virtqueue_add_buffer_def VQ_PARAM_CHK_def VQUEUE_SUCCESS_def
      VQASSERT_def VQUEUE_BUSY_def VQ_RING_ASSERT_VALID_IDX_def VQ_RING_ASSERT_CHAIN_TERM_def vq_ring_add_buffer_def
      vq_ring_update_avail_def Let_def)



text \<open>
  \<^verbatim>\<open>virtqueue_kick\<close> calls the notify function of the queue exactly when the peer asks for
  it: without event indices when the peer has not set \<^verbatim>\<open>VRING_USED_F_NO_NOTIFY\<close>; with
  event indices when the peer's event index is one of the entries queued since the last kick.  The
  pending count is reset in every case.
\<close>

theorem virtqueue_kick_notifies_iff_wanted:
  assumes "\<not> vq_inuse vq"
  shows "virtqueue_kick dbg call vq r s =
    map_option (\<lambda>s. (vq\<lparr>vq_queued_cnt := 0\<rparr>, s))
      (if (if vq_flags vq AND VIRTQUEUE_FLAG_EVENT_IDX \<noteq> 0
           then \<exists>i < unat (vq_queued_cnt vq). vr_avail_event r = vr_avail_idx r - vq_queued_cnt vq + of_nat i
           else vr_used_flags r AND VRING_USED_F_NO_NOTIFY = 0) \<and> vq_notify vq \<noteq> None
       then call (the (vq_notify vq)) (vq\<lparr>vq_inuse := dbg\<rparr>) s else Some s)"
proof -
  have n: "vring_need_event (vr_avail_event r) (vr_avail_idx r) (vr_avail_idx r - vq_queued_cnt vq) \<longleftrightarrow>
      (\<exists>i < unat (vq_queued_cnt vq). vr_avail_event r = vr_avail_idx r - vq_queued_cnt vq + of_nat i)"
    by (simp add: need_event_window)
  have i: "VQUEUE_IDLE dbg (vq\<lparr>vq_inuse := dbg, vq_queued_cnt := 0\<rparr>) = vq\<lparr>vq_queued_cnt := 0\<rparr>"
    using assms by (cases vq) (simp add: VQUEUE_IDLE_def)
  show ?thesis
    using assms i
    by (auto simp: virtqueue_kick_def vq_ring_must_notify_host_def n Let_def vq_ring_notify_host_def map_option_case
        split: option.split)
qed

theorem virtqueue_kick_notifies_iff_wanted_witness:
  "virtqueue_kick False (\<lambda>f vq s. Some (Suc s)) ((vq_zero 4)\<lparr>vq_notify := Some Hil_vring_notify\<rparr>) (vring_zero 4) 0 =
     Some ((vq_zero 4)\<lparr>vq_notify := Some Hil_vring_notify, vq_queued_cnt := 0\<rparr>, 1)"
  using virtqueue_kick_notifies_iff_wanted [of "(vq_zero 4)\<lparr>vq_notify := Some Hil_vring_notify\<rparr>" False "\<lambda>f vq s. Some (Suc s)" "vring_zero 4" 0]
  by (simp add: vq_zero_def vring_zero_def)

end
