(* ===== verification/World.thy ===== *)
theory World
  imports VqProtocol LList ShMem
begin

text \<open>
  The state of the messaging stack on one processor.  Every kind of C object that the library
  allocates has its heap; an object that is not in its heap has not been allocated or has been freed, and
  using it is undefined.  Rings live in shared memory and are named by their address, message buffers
  are bytes of the shared memory \<open>w_mem\<close>.

  What is not code of the library is the record \<open>config\<close>: the address translation and
  processor table of the platform, the driver functions behind the ops table, the outcome of each
  call of \<^verbatim>\<open>malloc\<close>, the application's callbacks, and the contents of uninitialised local variables.
\<close>

section \<open>Processors\<close>

record proc_shm =
  shm_start_addr :: u32
  shm_size :: u32
  shm_flags :: u32

record proc_intr =
  in_vect_id :: u32
  in_priority :: u32
  in_trigger_type :: u32
  in_data :: ptr

record proc_vring =
  pv_vq :: ptr
  pv_phy_addr :: u32
  pv_num_descs :: u16
  pv_align :: u32
  pv_intr_info :: proc_intr

record proc_vdev =
  pd_num_vrings :: u32
  pd_dfeatures :: u32
  pd_gfeatures :: u32
  pd_vring_info :: "proc_vring list"

text \<open>A driver function of the platform's ops table, by name.\<close>

datatype hil_fn = A9_fn | A53_fn | Other_fn nat

record hil_platform_ops =
  op_enable_interrupt :: "hil_fn option"
  op_reg_ipi_after_deinit :: "hil_fn option"
  op_notify :: "hil_fn option"
  op_boot_cpu :: "hil_fn option"
  op_shutdown_cpu :: "hil_fn option"

record hil_proc =
  hp_cpu_id :: u32
  hp_sh_buff :: proc_shm
  hp_vdev :: proc_vdev
  hp_num_chnls :: u32
  hp_chnls :: "char list list"
  hp_ops :: hil_platform_ops

section \<open>Messaging objects\<close>

text \<open>Callbacks: functions of the application, by number, or the name service of the library.\<close>

datatype rx_cb = Rpmsg_ns_callback | App_rx_cb nat

record rpmsg_channel =
  ch_name :: "char list"
  ch_src :: u32
  ch_dst :: u32
  ch_rdev :: ptr
  ch_rp_ept :: ptr
  ch_state :: u32

record rpmsg_endpoint =
  ep_rp_chnl :: ptr
  ep_cb :: "rx_cb option"
  ep_addr :: u32
  ep_priv :: ptr

text \<open>\<open>rd_device\<close> and \<open>rd_features\<close> are fields of the embedded \<^verbatim>\<open>struct virtio_device\<close>.\<close>

record remote_device =
  rd_device :: ptr
  rd_features :: u32
  rd_rvq :: ptr
  rd_tvq :: ptr
  rd_proc :: ptr
  rd_rp_channels :: ptr
  rd_rp_endpoints :: ptr
  rd_mem_pool :: ptr
  rd_bitmap :: "u32 list"
  rd_channel_created :: "nat option"
  rd_channel_destroyed :: "nat option"
  rd_default_cb :: "rx_cb option"
  rd_role :: u32
  rd_state :: u32
  rd_support_ns :: bool

section \<open>The state\<close>

text \<open>What the application has seen of its callbacks; only the application's own functions write it.\<close>

datatype app_event = Rx_event nat ptr "u8 list" u32 | Chnl_event nat ptr

record world = env_state +
  w_mem :: memory
  w_nodes :: node_heap
  w_chnls :: "ptr \<rightharpoonup> rpmsg_channel"
  w_epts :: "ptr \<rightharpoonup> rpmsg_endpoint"
  w_rdevs :: "ptr \<rightharpoonup> remote_device"
  w_vqs :: "ptr \<rightharpoonup> virtqueue"
  w_rings :: "u32 \<rightharpoonup> vring_mem"
  w_pools :: "ptr \<rightharpoonup> sh_mem_pool"
  w_procs :: "ptr \<rightharpoonup> hil_proc"
  w_proc_list :: ptr
  w_next :: ptr
  w_allocs :: nat
  w_app :: "app_event list"

record config =
  cf_dbg :: bool
  cf_vatopa :: "u32 \<Rightarrow> u32"
  cf_patova :: "u32 \<Rightarrow> u32"
  cf_alloc_ok :: "nat \<Rightarrow> bool"
  cf_uninit_len :: u32
  cf_uninit_idx :: u16
  cf_proc_info :: "u32 \<Rightarrow> hil_proc option"
  cf_cpu_for_fw :: "char list \<Rightarrow> int"
  cf_enable_interrupt :: "hil_fn \<Rightarrow> ptr \<Rightarrow> nat \<Rightarrow> world \<Rightarrow> world option"
  cf_reg_ipi_after_deinit :: "hil_fn \<Rightarrow> ptr \<Rightarrow> nat \<Rightarrow> world \<Rightarrow> world option"
  cf_notify :: "hil_fn \<Rightarrow> u32 \<Rightarrow> proc_intr \<Rightarrow> world \<Rightarrow> world option"
  cf_boot_cpu :: "hil_fn \<Rightarrow> u32 \<Rightarrow> u32 \<Rightarrow> world \<Rightarrow> (int \<times> world) option"
  cf_shutdown_cpu :: "hil_fn \<Rightarrow> u32 \<Rightarrow> world \<Rightarrow> world option"
  cf_chnl_cb :: "nat \<Rightarrow> ptr \<Rightarrow> world \<Rightarrow> world option"
  cf_rx_cb :: "nat \<Rightarrow> ptr \<Rightarrow> u32 \<Rightarrow> u16 \<Rightarrow> ptr \<Rightarrow> u32 \<Rightarrow> world \<Rightarrow> world option"
  cf_vq_cb :: "nat \<Rightarrow> virtqueue \<Rightarrow> world \<Rightarrow> world option"

section \<open>Allocation\<close>

text \<open>
  \<^verbatim>\<open>env_allocate_memory\<close>: \<open>cf_alloc_ok\<close> says which calls succeed; a successful call returns a pointer
  that has not been used before.
\<close>

definition env_allocate_memory :: "config \<Rightarrow> world \<Rightarrow> ptr \<times> world" where
  "env_allocate_memory cf w =
     (if cf_alloc_ok cf (w_allocs w)
      then (w_next w, w\<lparr>w_next := Suc (w_next w), w_allocs := Suc (w_allocs w)\<rparr>)
      else (NULL, w\<lparr>w_allocs := Suc (w_allocs w)\<rparr>))"

text \<open>Freeing an object of a heap; the address functions of the platform.\<close>

definition env_free_memory :: "ptr \<Rightarrow> (ptr \<rightharpoonup> 'a) \<Rightarrow> (ptr \<rightharpoonup> 'a)" where
  "env_free_memory p h = (if p \<noteq> NULL then h(p := None) else h)"

definition env_map_vatopa :: "config \<Rightarrow> u32 \<Rightarrow> u32" where "env_map_vatopa cf address = cf_vatopa cf address"
definition env_map_patova :: "config \<Rightarrow> u32 \<Rightarrow> u32" where "env_map_patova cf address = cf_patova cf address"

text \<open>The mutexes only touch the interrupt mask.\<close>

lemma mutex_world [simp]:
  "w_mem (env_lock_mutex w) = w_mem w" "w_mem (env_unlock_mutex w) = w_mem w"
  "w_nodes (env_lock_mutex w) = w_nodes w" "w_nodes (env_unlock_mutex w) = w_nodes w"
  "w_chnls (env_lock_mutex w) = w_chnls w" "w_chnls (env_unlock_mutex w) = w_chnls w"
  "w_epts (env_lock_mutex w) = w_epts w" "w_epts (env_unlock_mutex w) = w_epts w"
  "w_rdevs (env_lock_mutex w) = w_rdevs w" "w_rdevs (env_unlock_mutex w) = w_rdevs w"
  "w_vqs (env_lock_mutex w) = w_vqs w" "w_vqs (env_unlock_mutex w) = w_vqs w"
  "w_rings (env_lock_mutex w) = w_rings w" "w_rings (env_unlock_mutex w) = w_rings w"
  "w_pools (env_lock_mutex w) = w_pools w" "w_pools (env_unlock_mutex w) = w_pools w"
  "w_procs (env_lock_mutex w) = w_procs w" "w_procs (env_unlock_mutex w) = w_procs w"
  "w_proc_list (env_lock_mutex w) = w_proc_list w" "w_proc_list (env_unlock_mutex w) = w_proc_list w"
  "w_next (env_lock_mutex w) = w_next w" "w_next (env_unlock_mutex w) = w_next w"
  "w_allocs (env_lock_mutex w) = w_allocs w" "w_allocs (env_unlock_mutex w) = w_allocs w"
  "w_app (env_lock_mutex w) = w_app w" "w_app (env_unlock_mutex w) = w_app w"
  by (simp_all add: mutex_defs Let_def)

definition llist0 :: llist where
  "llist0 = \<lparr>ll_data = NULL, ll_attr = 0, ll_next = NULL, ll_prev = NULL\<rparr>"

section \<open>Queues and pools in the heap\<close>

definition get_vq :: "ptr \<Rightarrow> world \<Rightarrow> (virtqueue \<times> vring_mem) option" where
  "get_vq p w = do { vq \<leftarrow> w_vqs w p; r \<leftarrow> w_rings w (vq_ring_mem vq); Some (vq, r) }"

definition put_vq :: "ptr \<Rightarrow> virtqueue \<Rightarrow> vring_mem \<Rightarrow> world \<Rightarrow> world" where
  "put_vq p vq r w = w\<lparr>w_vqs := (w_vqs w)(p \<mapsto> vq), w_rings := (w_rings w)(vq_ring_mem vq \<mapsto> r)\<rparr>"

text \<open>The queue operations on a queue in the heap, with the null check \<^verbatim>\<open>virtqueue_get_buffer\<close> makes.\<close>

definition w_add_buffer :: "config \<Rightarrow> ptr \<Rightarrow> (u32 \<times> u32) list \<Rightarrow> int \<Rightarrow> int \<Rightarrow> u32 \<Rightarrow> world \<Rightarrow> (int \<times> world) option" where
  "w_add_buffer cf p bufs readable writable cookie w = do {
     (vq, r) \<leftarrow> get_vq p w;
     (status, vq, r) \<leftarrow> virtqueue_add_buffer (cf_dbg cf) (cf_vatopa cf) vq bufs readable writable cookie r;
     Some (status, put_vq p vq r w) }"

definition w_get_buffer :: "config \<Rightarrow> ptr \<Rightarrow> world \<Rightarrow> (u32 \<times> u32 option \<times> world) option" where
  "w_get_buffer cf p w =
     (if p = NULL then Some (0, None, w)
      else do {
        (vq, r) \<leftarrow> get_vq p w;
        (cookie, len, vq, r) \<leftarrow> virtqueue_get_buffer (cf_dbg cf) vq r;
        Some (cookie, len, put_vq p vq r w) })"

definition w_get_available_buffer :: "config \<Rightarrow> ptr \<Rightarrow> world \<Rightarrow> (u32 \<times> (u16 \<times> u32) option \<times> world) option" where
  "w_get_available_buffer cf p w = do {
     (vq, r) \<leftarrow> get_vq p w;
     (b, out, vq) \<leftarrow> virtqueue_get_available_buffer (cf_dbg cf) (cf_patova cf) vq r;
     Some (b, out, put_vq p vq r w) }"

definition w_add_consumed_buffer :: "config \<Rightarrow> ptr \<Rightarrow> u16 \<Rightarrow> u32 \<Rightarrow> world \<Rightarrow> (int \<times> world) option" where
  "w_add_consumed_buffer cf p idx len w = do {
     (vq, r) \<leftarrow> get_vq p w;
     (status, vq, r) \<leftarrow> virtqueue_add_consumed_buffer (cf_dbg cf) vq idx len r;
     Some (status, put_vq p vq r w) }"

definition w_get_desc_size :: "config \<Rightarrow> ptr \<Rightarrow> world \<Rightarrow> (u32 \<times> world) option" where
  "w_get_desc_size cf p w = do {
     (vq, r) \<leftarrow> get_vq p w;
     (len, vq) \<leftarrow> virtqueue_get_desc_size (cf_dbg cf) vq r;
     Some (len, put_vq p vq r w) }"

text \<open>\<^verbatim>\<open>virtqueue_free\<close> with its null check; the block goes back to the allocator.\<close>

definition w_virtqueue_free :: "ptr \<Rightarrow> world \<Rightarrow> world option" where
  "w_virtqueue_free p w =
     (if p = NULL then Some w
      else do { vq \<leftarrow> w_vqs w p; let (warned, vq) = virtqueue_free vq; Some (w\<lparr>w_vqs := (w_vqs w)(p := None)\<rparr>) })"

text \<open>The pool operations as the code has them, with the null checks and the pool mutex.\<close>

definition w_sh_mem_get_buffer :: "ptr \<Rightarrow> world \<Rightarrow> (u32 \<times> world) option" where
  "w_sh_mem_get_buffer p w =
     (if p = NULL then Some (0, w)
      else do {
        let w = env_lock_mutex w;
        pool \<leftarrow> w_pools w p;
        (buff, pool) \<leftarrow> sh_mem_get_buffer pool;
        Some (buff, env_unlock_mutex (w\<lparr>w_pools := (w_pools w)(p \<mapsto> pool)\<rparr>)) })"

definition w_sh_mem_free_buffer :: "u32 \<Rightarrow> ptr \<Rightarrow> world \<Rightarrow> world option" where
  "w_sh_mem_free_buffer buff p w =
     (if p = NULL \<or> buff = 0 then Some w
      else do {
        let w = env_lock_mutex w;
        pool \<leftarrow> w_pools w p;
        pool \<leftarrow> sh_mem_free_buffer buff pool;
        Some (env_unlock_mutex (w\<lparr>w_pools := (w_pools w)(p \<mapsto> pool)\<rparr>)) })"

definition w_sh_mem_create_pool :: "config \<Rightarrow> u32 \<Rightarrow> u32 \<Rightarrow> u32 \<Rightarrow> world \<Rightarrow> (ptr \<times> world) option" where
  "w_sh_mem_create_pool cf start_addr sz buff_size w =
     (if start_addr = 0 \<or> sz = 0 \<or> buff_size = 0 then Some (NULL, w)
      else do {
        let (p, w) = env_allocate_memory cf w;
        pool \<leftarrow> sh_mem_create_pool (p \<noteq> NULL) start_addr sz buff_size;
        (case pool of None \<Rightarrow> Some (NULL, w) | Some pool \<Rightarrow> Some (p, w\<lparr>w_pools := (w_pools w)(p \<mapsto> pool)\<rparr>)) })"

definition sh_mem_delete_pool :: "ptr \<Rightarrow> world \<Rightarrow> world" where
  "sh_mem_delete_pool p w = (if p \<noteq> NULL then w\<lparr>w_pools := (w_pools w)(p := None)\<rparr> else w)"

section \<open>A concrete configuration\<close>

text \<open>
  For the witnesses: identity translation, allocations that succeed, callbacks that record what they were given, and a
  state without objects.
\<close>

definition cfg_example :: config where
  "cfg_example = \<lparr>cf_dbg = False, cf_vatopa = (\<lambda>a. a), cf_patova = (\<lambda>a. a), cf_alloc_ok = (\<lambda>n. True),
     cf_uninit_len = 0, cf_uninit_idx = 0, cf_proc_info = (\<lambda>c. None), cf_cpu_for_fw = (\<lambda>n. 0),
     cf_enable_interrupt = (\<lambda>f p i w. Some w), cf_reg_ipi_after_deinit = (\<lambda>f p i w. Some w),
     cf_notify = (\<lambda>f c i w. Some w), cf_boot_cpu = (\<lambda>f c a w. Some (0, w)),
     cf_shutdown_cpu = (\<lambda>f c w. Some w), cf_chnl_cb = (\<lambda>n c w. Some (w\<lparr>w_app := w_app w @ [Chnl_event n c]\<rparr>)),
     cf_rx_cb = (\<lambda>n chnl data len priv src w.
       Some (w\<lparr>w_app := w_app w @ [Rx_event n chnl (load_bytes (w_mem w) data (unat len)) src]\<rparr>)),
     cf_vq_cb = (\<lambda>n vq w. Some w)\<rparr>"

definition world0 :: world where
  "world0 = \<lparr>isr_table = replicate 4 isr_info0, intr_count = 0, intr_enable_flag = True, cpsr = 0, old_value = 0,
     plat_calls = [], w_mem = (\<lambda>a. 0), w_nodes = Map.empty, w_chnls = Map.empty, w_epts = Map.empty, w_rdevs = Map.empty,
     w_vqs = Map.empty, w_rings = Map.empty, w_pools = Map.empty, w_procs = Map.empty, w_proc_list = NULL,
     w_next = 100, w_allocs = 0, w_app = []\<rparr>"

end
