(* ===== verification/Hil.thy ===== *)
theory Hil
  imports World
begin

text \<open>
  The hardware interface layer \<^verbatim>\<open>lib/common/hil.c\<close> with the firmware table of \<^verbatim>\<open>lib/common/firmware.c\<close> and
  the name tables of \<^verbatim>\<open>lib/virtio/virtio.c\<close>.  The processors known to the layer form a linked list in the
  heap; what the platform's driver does behind the ops table is a parameter.
\<close>

section \<open>Name tables\<close>

definition virtio_ident_table :: "(u16 \<times> string) list" where
  "virtio_ident_table = [(1, ''Network''), (2, ''Block''), (3, ''Console''), (4, ''Entropy''), (5, ''Balloon''),
     (6, ''IOMemory''), (8, ''SCSI''), (9, ''9P Transport'')]"

definition virtio_dev_name :: "u16 \<Rightarrow> string option" where
  "virtio_dev_name devid = map_of virtio_ident_table devid"

definition virtio_common_feature_desc :: "(u32 \<times> string) list" where
  "virtio_common_feature_desc = [(push_bit 24 1, ''NotifyOnEmpty''), (push_bit 28 1, ''RingIndirect''),
     (push_bit 29 1, ''EventIdx''), (push_bit 30 1, ''BadFeature''), (0, [])]"

text \<open>A table ends at the first entry whose value is 0; running past its end is undefined.\<close>

fun feature_in :: "u32 \<Rightarrow> (u32 \<times> string) list \<Rightarrow> string option option" where
  "feature_in val [] = None"
| "feature_in val ((v, s) # ds) = (if v = 0 then Some None else if val = v then Some (Some s) else feature_in val ds)"

fun virtio_feature_name :: "u32 \<Rightarrow> (u32 \<times> string) list option \<Rightarrow> string option option" where
  "virtio_feature_name val None = feature_in val virtio_common_feature_desc"
| "virtio_feature_name val (Some desc) = do {
     r \<leftarrow> feature_in val desc;
     (case r of Some s \<Rightarrow> Some (Some s) | None \<Rightarrow> feature_in val virtio_common_feature_desc) }"

definition virtio_describe :: "(u32 \<times> string) list option \<Rightarrow> unit option" where
  "virtio_describe desc = do { name \<leftarrow> virtio_feature_name 0 desc; Some () }"

section \<open>Firmware table\<close>

record firmware_info =
  fw_name :: "char list"
  fw_start_addr :: u32
  fw_end_addr :: u32

text \<open>The names are arrays of 32 characters; the addresses are symbols of the linked images.\<close>

definition fw_array :: "string \<Rightarrow> char list" where
  "fw_array s = take 32 (s @ replicate 32 NUL)"

definition fw_table :: "u32 \<times> u32 \<Rightarrow> u32 \<times> u32 \<Rightarrow> firmware_info list" where
  "fw_table fw1 fw2 =
     [\<lparr>fw_name = fw_array ''firmware1'', fw_start_addr = fst fw1, fw_end_addr = snd fw1\<rparr>,
      \<lparr>fw_name = fw_array ''firmware2'', fw_start_addr = fst fw2, fw_end_addr = snd fw2\<rparr>]"

text \<open>The result is the status and, on success, the start address and the size.\<close>

fun config_get_firmware :: "firmware_info list \<Rightarrow> char list \<Rightarrow> (int \<times> (u32 \<times> u32) option) option" where
  "config_get_firmware [] name = Some (-1, None)"
| "config_get_firmware (f # fs) name = do {
     c \<leftarrow> env_strncmp (fw_name f) name 32;
     (if c = 0 then Some (0, Some (fw_start_addr f, fw_end_addr f - fw_start_addr f + 1))
      else config_get_firmware fs name) }"

definition hil_get_firmware :: "firmware_info list \<Rightarrow> char list \<Rightarrow> (int \<times> (u32 \<times> u32) option) option" where
  "hil_get_firmware tab name = config_get_firmware tab name"

section \<open>Processors\<close>

definition HIL_RSVD_CPU_ID :: u32 where "HIL_RSVD_CPU_ID = 0xffffffff"
definition SHARED_MEM :: u32 where "SHARED_MEM = 64"
definition UNCACHED :: u32 where "UNCACHED = 1"

definition proc_is :: "u32 \<Rightarrow> world \<Rightarrow> ptr \<Rightarrow> bool option" where
  "proc_is cpu w d = do { p \<leftarrow> w_procs w d; Some (hp_cpu_id p = cpu) }"

definition hil_get_proc :: "u32 \<Rightarrow> world \<Rightarrow> ptr option" where
  "hil_get_proc cpu w = do {
     n \<leftarrow> find_node (w_nodes w) (proc_is cpu w) (w_proc_list w);
     (if n = NULL then Some NULL else do { nd \<leftarrow> w_nodes w n; Some (ll_data nd) }) }"

definition hil_create_proc :: "config \<Rightarrow> u32 \<Rightarrow> world \<Rightarrow> (ptr \<times> world) option" where
  "hil_create_proc cf cpu w = do {
     n \<leftarrow> find_node (w_nodes w) (proc_is cpu w) (w_proc_list w);
     (if n \<noteq> NULL then do { nd \<leftarrow> w_nodes w n; Some (ll_data nd, w) }
      else do {
        let (proc, w) = env_allocate_memory cf w;
        (if proc = NULL then Some (NULL, w)
         else case cf_proc_info cf cpu of
           None \<Rightarrow> Some (NULL, w)
         | Some info \<Rightarrow> do {
             let w = w\<lparr>w_procs := (w_procs w)(proc \<mapsto> info)\<rparr>;
             let w = env_map_memory (shm_start_addr (hp_sh_buff info)) (shm_start_addr (hp_sh_buff info))
                       (shm_size (hp_sh_buff info)) (SHARED_MEM OR UNCACHED) w;
             let (node, w) = env_allocate_memory cf w;
             (if node = NULL then Some (NULL, w\<lparr>w_procs := (w_procs w)(proc := None)\<rparr>)
              else do {
                (nodes, hd0) \<leftarrow> add_to_list ((w_nodes w)(node \<mapsto> llist0\<lparr>ll_data := proc\<rparr>)) (w_proc_list w) node;
                Some (proc, w\<lparr>w_nodes := nodes, w_proc_list := hd0\<rparr>) }) }) }) }"

definition hil_get_cpuforfw :: "config \<Rightarrow> char list \<Rightarrow> int" where
  "hil_get_cpuforfw cf name = cf_cpu_for_fw cf name"

definition hil_delete_proc :: "ptr \<Rightarrow> world \<Rightarrow> world option" where
  "hil_delete_proc proc w =
     (if proc = NULL then Some w
      else do {
        n \<leftarrow> find_node (w_nodes w) (\<lambda>d. Some (d = proc)) (w_proc_list w);
        (if n = NULL then Some w
         else do {
           (nodes, hd0) \<leftarrow> remove_from_list (w_nodes w) (w_proc_list w) n;
           Some (w\<lparr>w_nodes := nodes(n := None), w_proc_list := hd0, w_procs := (w_procs w)(proc := None)\<rparr>) }) })"

definition hil_get_chnl_info :: "ptr \<Rightarrow> world \<Rightarrow> (char list list \<times> u32) option" where
  "hil_get_chnl_info proc w = do { p \<leftarrow> w_procs w proc; Some (hp_chnls p, hp_num_chnls p) }"

definition hil_get_vdev_info :: "ptr \<Rightarrow> world \<Rightarrow> proc_vdev option" where
  "hil_get_vdev_info proc w = do { p \<leftarrow> w_procs w proc; Some (hp_vdev p) }"

definition hil_get_vring_info :: "proc_vdev \<Rightarrow> proc_vring list \<times> u32" where
  "hil_get_vring_info vdev = (pd_vring_info vdev, pd_num_vrings vdev)"

definition hil_get_shm_info :: "ptr \<Rightarrow> world \<Rightarrow> proc_shm option" where
  "hil_get_shm_info proc w = do { p \<leftarrow> w_procs w proc; Some (hp_sh_buff p) }"

text \<open>\<^verbatim>\<open>vq->vq_dev->device\<close>: the virtio device is the first member of the remote device.\<close>

definition vq_proc :: "virtqueue \<Rightarrow> world \<Rightarrow> ptr option" where
  "vq_proc vq w = do { rd \<leftarrow> w_rdevs w (vq_dev vq); Some (rd_device rd) }"

definition hil_enable_vring_notifications :: "config \<Rightarrow> nat \<Rightarrow> ptr \<Rightarrow> world \<Rightarrow> (int \<times> world) option" where
  "hil_enable_vring_notifications cf vring_index p w = do {
     vq \<leftarrow> w_vqs w p;
     proc \<leftarrow> vq_proc vq w;
     pr \<leftarrow> w_procs w proc;
     vr \<leftarrow> aget (pd_vring_info (hp_vdev pr)) vring_index;
     vrs \<leftarrow> aset (pd_vring_info (hp_vdev pr)) vring_index (vr\<lparr>pv_vq := p\<rparr>);
     let w = w\<lparr>w_procs := (w_procs w)(proc \<mapsto> pr\<lparr>hp_vdev := (hp_vdev pr)\<lparr>pd_vring_info := vrs\<rparr>\<rparr>)\<rparr>;
     w \<leftarrow> (case op_enable_interrupt (hp_ops pr) of None \<Rightarrow> Some w
          | Some f \<Rightarrow> cf_enable_interrupt cf f proc vring_index w);
     Some (0, w) }"

definition hil_vring_notify :: "config \<Rightarrow> virtqueue \<Rightarrow> world \<Rightarrow> world option" where
  "hil_vring_notify cf vq w = do {
     proc \<leftarrow> vq_proc vq w;
     pr \<leftarrow> w_procs w proc;
     (case op_notify (hp_ops pr) of
        None \<Rightarrow> Some w
      | Some f \<Rightarrow> do {
          vr \<leftarrow> aget (pd_vring_info (hp_vdev pr)) (unat (vq_queue_index vq));
          cf_notify cf f (hp_cpu_id pr) (pv_intr_info vr) w }) }"

text \<open>The functions a queue can have as its notify function.\<close>

definition call_notify :: "config \<Rightarrow> vq_fn \<Rightarrow> virtqueue \<Rightarrow> world \<Rightarrow> world option" where
  "call_notify cf f vq w = (case f of
      Hil_vring_notify \<Rightarrow> hil_vring_notify cf vq w
    | App_vq_fn n \<Rightarrow> cf_vq_cb cf n vq w
    | _ \<Rightarrow> None)"

definition w_kick :: "config \<Rightarrow> ptr \<Rightarrow> world \<Rightarrow> world option" where
  "w_kick cf p w = do {
     (vq, r) \<leftarrow> get_vq p w;
     (vq, w) \<leftarrow> virtqueue_kick (cf_dbg cf) (call_notify cf) vq r w;
     Some (w\<lparr>w_vqs := (w_vqs w)(p \<mapsto> vq)\<rparr>) }"

definition hil_isr :: "(vq_fn \<Rightarrow> virtqueue \<Rightarrow> world \<Rightarrow> world option) \<Rightarrow> ptr \<Rightarrow> nat \<Rightarrow> world \<Rightarrow> world option" where
  "hil_isr call proc vring_index w = do {
     pr \<leftarrow> w_procs w proc;
     vr \<leftarrow> aget (pd_vring_info (hp_vdev pr)) vring_index;
     vq \<leftarrow> w_vqs w (pv_vq vr);
     virtqueue_notification call vq w }"

definition hil_get_status :: "ptr \<Rightarrow> int" where "hil_get_status proc = 0"
definition hil_set_status :: "ptr \<Rightarrow> int" where "hil_set_status proc = 0"

text \<open>The driver's return value is dropped.\<close>

definition hil_boot_cpu :: "config \<Rightarrow> ptr \<Rightarrow> u32 \<Rightarrow> world \<Rightarrow> (int \<times> world) option" where
  "hil_boot_cpu cf proc start_addr w = do {
     pr \<leftarrow> w_procs w proc;
     (case op_boot_cpu (hp_ops pr) of
        None \<Rightarrow> Some (0, w)
      | Some f \<Rightarrow> do { (r, w) \<leftarrow> cf_boot_cpu cf f (hp_cpu_id pr) start_addr w; Some (0, w) }) }"

definition hil_shutdown_cpu :: "config \<Rightarrow> ptr \<Rightarrow> world \<Rightarrow> world option" where
  "hil_shutdown_cpu cf proc w = do {
     pr \<leftarrow> w_procs w proc;
     (case op_shutdown_cpu (hp_ops pr) of None \<Rightarrow> Some w | Some f \<Rightarrow> cf_shutdown_cpu cf f (hp_cpu_id pr) w) }"

end
