(* ===== verification/RpmsgAddr.thy ===== *)
theory RpmsgAddr
  imports ShMem
begin

text \<open>
  The endpoint address allocator of \<^verbatim>\<open>lib/rpmsg/rpmsg_core.c\<close>: a bitmap of
  \<^verbatim>\<open>RPMSG_ADDR_BMP_SIZE\<close> words, in which bit \<open>a mod 32\<close> of word \<open>a div 32\<close> says that address \<open>a\<close> is in use.
  Addresses are passed as C \<^verbatim>\<open>int\<close>; a negative one indexes outside the bitmap or shifts by a negative
  amount, which is undefined.
\<close>

definition RPMSG_ADDR_BMP_SIZE :: nat where "RPMSG_ADDR_BMP_SIZE = 4"
definition RPMSG_SUCCESS :: int where "RPMSG_SUCCESS = 0"

section \<open>Model\<close>

fun rpmsg_get_address_loop :: "nat list \<Rightarrow> u32 list \<Rightarrow> (int \<times> u32 list) option" where
  "rpmsg_get_address_loop [] bitmap = Some (-1, bitmap)"
| "rpmsg_get_address_loop (i # is) bitmap = do {
     wd \<leftarrow> aget bitmap i;
     let tmp32 = unat (get_first_zero_bit wd);
     (if tmp32 < 32 then do {
        bitmap \<leftarrow> aset bitmap i (wd OR push_bit tmp32 1);
        Some (int (tmp32 + i * 32), bitmap) }
      else rpmsg_get_address_loop is bitmap) }"

definition rpmsg_get_address :: "u32 list \<Rightarrow> nat \<Rightarrow> (int \<times> u32 list) option" where
  "rpmsg_get_address bitmap sz = rpmsg_get_address_loop [0..<sz] bitmap"

definition rpmsg_release_address :: "u32 list \<Rightarrow> nat \<Rightarrow> int \<Rightarrow> (int \<times> u32 list) option" where
  "rpmsg_release_address bitmap sz addr =
     (if addr \<ge> int sz * 32 then Some (-1, bitmap)
      else if addr < 0 then None
      else do {
        let i = nat addr div 32;
        let j = nat addr mod 32;
        wd \<leftarrow> aget bitmap i;
        bitmap \<leftarrow> aset bitmap i (wd AND NOT (push_bit j 1));
        Some (RPMSG_SUCCESS, bitmap) })"

definition rpmsg_is_address_set :: "u32 list \<Rightarrow> nat \<Rightarrow> int \<Rightarrow> int option" where
  "rpmsg_is_address_set bitmap sz addr =
     (if addr \<ge> int sz * 32 then Some (-1)
      else if addr < 0 then None
      else do {
        let i = nat addr div 32;
        let j = nat addr mod 32;
        wd \<leftarrow> aget bitmap i;
        Some (sint (wd AND push_bit j 1)) })"

definition rpmsg_set_address :: "u32 list \<Rightarrow> nat \<Rightarrow> int \<Rightarrow> (int \<times> u32 list) option" where
  "rpmsg_set_address bitmap sz addr =
     (if addr \<ge> int sz * 32 then Some (-1, bitmap)
      else if addr < 0 then None
      else do {
        let i = nat addr div 32;
        let j = nat addr mod 32;
        wd \<leftarrow> aget bitmap i;
        bitmap \<leftarrow> aset bitmap i (wd OR push_bit j 1);
        Some (RPMSG_SUCCESS, bitmap) })"

section \<open>The bitmap as a set of addresses\<close>

definition addr_set :: "u32 list \<Rightarrow> nat set" where
  "addr_set bitmap = {a. a div 32 < length bitmap \<and> bit (bitmap ! (a div 32)) (a mod 32)}"

lemma addr_set_bounded: "addr_set bitmap \<subseteq> {..<32 * length bitmap}"
  by (auto simp: addr_set_def)

lemma finite_addr_set [simp]: "finite (addr_set bitmap)"
  using addr_set_bounded finite_subset by blast

lemma addr_set_upd:
  assumes "a div 32 < length bitmap"
    and "\<And>n. n < 32 \<Longrightarrow> bit wd n \<longleftrightarrow> (if n = a mod 32 then b else bit (bitmap ! (a div 32)) n)"
  shows "addr_set (bitmap[a div 32 := wd]) = (if b then insert a (addr_set bitmap) else addr_set bitmap - {a})"
proof -
  have "x \<in> addr_set (bitmap[a div 32 := wd]) \<longleftrightarrow> (if x = a then b else x \<in> addr_set bitmap)" for x
  proof (cases "x div 32 = a div 32")
    case True
    have "x = a \<longleftrightarrow> x mod 32 = a mod 32" using True same_index_iff by blast
    then show ?thesis using True assms(1) assms(2) [of "x mod 32"] by (simp add: addr_set_def)
  next
    case False
    then show ?thesis by (auto simp: addr_set_def)
  qed
  then show ?thesis by (intro set_eqI) (simp split: if_split)
qed

lemma set_address_addr_set:
  assumes "a < 32 * length bitmap"
  shows "rpmsg_set_address bitmap (length bitmap) (int a) =
    Some (RPMSG_SUCCESS, bitmap[a div 32 := bitmap ! (a div 32) OR push_bit (a mod 32) 1])"
    and "addr_set (bitmap[a div 32 := bitmap ! (a div 32) OR push_bit (a mod 32) 1]) = insert a (addr_set bitmap)"
proof -
  have d: "a div 32 < length bitmap" using assms by (simp add: div_less_iff_less_mult mult.commute)
  show "rpmsg_set_address bitmap (length bitmap) (int a) =
    Some (RPMSG_SUCCESS, bitmap[a div 32 := bitmap ! (a div 32) OR push_bit (a mod 32) 1])"
    using assms d by (simp add: rpmsg_set_address_def Let_def)
  show "addr_set (bitmap[a div 32 := bitmap ! (a div 32) OR push_bit (a mod 32) 1]) = insert a (addr_set bitmap)"
    using addr_set_upd [OF d, of "bitmap ! (a div 32) OR push_bit (a mod 32) 1" True] by (simp add: bit_simps)
qed

lemma release_address_addr_set:
  assumes "a < 32 * length bitmap"
  shows "rpmsg_release_address bitmap (length bitmap) (int a) =
    Some (RPMSG_SUCCESS, bitmap[a div 32 := bitmap ! (a div 32) AND NOT (push_bit (a mod 32) 1)])"
    and "addr_set (bitmap[a div 32 := bitmap ! (a div 32) AND NOT (push_bit (a mod 32) 1)]) = addr_set bitmap - {a}"
proof -
  have d: "a div 32 < length bitmap" using assms by (simp add: div_less_iff_less_mult mult.commute)
  show "rpmsg_release_address bitmap (length bitmap) (int a) =
    Some (RPMSG_SUCCESS, bitmap[a div 32 := bitmap ! (a div 32) AND NOT (push_bit (a mod 32) 1)])"
    using assms d by (simp add: rpmsg_release_address_def Let_def)
  show "addr_set (bitmap[a div 32 := bitmap ! (a div 32) AND NOT (push_bit (a mod 32) 1)]) = addr_set bitmap - {a}"
    using addr_set_upd [OF d, of "bitmap ! (a div 32) AND NOT (push_bit (a mod 32) 1)" False]
    by (auto simp: bit_simps)
qed

lemma is_address_set_iff:
  assumes "a < 32 * length bitmap"
  shows "\<exists>v. rpmsg_is_address_set bitmap (length bitmap) (int a) = Some v \<and> (v \<noteq> 0 \<longleftrightarrow> a \<in> addr_set bitmap)"
proof -
  have d: "a div 32 < length bitmap" using assms by (simp add: div_less_iff_less_mult mult.commute)
  show ?thesis using assms d
    by (simp add: rpmsg_is_address_set_def addr_set_def Let_def signed_eq_0_iff and_exp_eq_0_iff_not_bit)
qed

lemma get_address_loop_found:
  assumes "a \<notin> addr_set bitmap" "a div 32 < length bitmap" "\<forall>b < a. b \<in> addr_set bitmap"
  shows "k \<le> a div 32 \<Longrightarrow> rpmsg_get_address_loop [k..<length bitmap] bitmap =
    Some (int a, bitmap[a div 32 := bitmap ! (a div 32) OR push_bit (a mod 32) 1])"
proof (induction "a div 32 - k" arbitrary: k)
  case 0
  then have k: "k = a div 32" by simp
  have z: "unat (get_first_zero_bit (bitmap ! k)) = a mod 32"
  proof (rule first_zero_bit_found)
    show "\<not> bit (bitmap ! k) (a mod 32)" using assms(1,2) by (simp add: addr_set_def k)
    show "bit (bitmap ! k) j" if "j < a mod 32" for j
    proof -
      from that have "32 * k + j < a" and j: "j < 32"
        by (simp_all add: k) (metis add_less_cancel_left mult_div_mod_eq)
      then have "32 * k + j \<in> addr_set bitmap" using assms(3) by blast
      with j show ?thesis by (simp add: addr_set_def)
    qed
  qed simp
  have "[k..<length bitmap] = k # [Suc k..<length bitmap]" using assms(2) by (simp add: k upt_conv_Cons)
  then show ?case using z assms(2) by (simp add: k)
next
  case (Suc n)
  then have k: "k < a div 32" by simp
  have "bitmap ! k = - 1"
  proof (rule all_bits_set)
    fix b :: nat
    assume b: "b < 32"
    from k b have "32 * k + b < a" by linarith
    then have "32 * k + b \<in> addr_set bitmap" using assms(3) by blast
    with b show "bit (bitmap ! k) b" by (simp add: addr_set_def)
  qed
  moreover have "[k..<length bitmap] = k # [Suc k..<length bitmap]" using k assms(2) by (simp add: upt_conv_Cons)
  ultimately show ?case using Suc k assms(2) by (simp add: first_zero_bit_full)
qed

lemma get_address_loop_full:
  assumes "\<forall>b < 32 * length bitmap. b \<in> addr_set bitmap"
  shows "k \<le> length bitmap \<Longrightarrow> rpmsg_get_address_loop [k..<length bitmap] bitmap = Some (-1, bitmap)"
proof (induction "length bitmap - k" arbitrary: k)
  case (Suc n)
  then have k: "k < length bitmap" by simp
  have "bitmap ! k = - 1"
  proof (rule all_bits_set)
    fix b :: nat
    assume b: "b < 32"
    from k b have "32 * k + b \<in> addr_set bitmap" using assms by auto
    with b show "bit (bitmap ! k) b" by (simp add: addr_set_def)
  qed
  moreover have "[k..<length bitmap] = k # [Suc k..<length bitmap]" using k by (simp add: upt_conv_Cons)
  ultimately show ?case using Suc k by (simp add: first_zero_bit_full)
qed simp

lemma get_address_cases:
  "(\<exists>a bitmap'. rpmsg_get_address bitmap (length bitmap) = Some (int a, bitmap') \<and> a \<notin> addr_set bitmap \<and>
      a < 32 * length bitmap \<and> addr_set bitmap' = insert a (addr_set bitmap) \<and> length bitmap' = length bitmap) \<or>
   (addr_set bitmap = {..<32 * length bitmap} \<and> rpmsg_get_address bitmap (length bitmap) = Some (-1, bitmap))"
proof (cases "\<forall>b < 32 * length bitmap. b \<in> addr_set bitmap")
  case True
  then show ?thesis using get_address_loop_full [OF True, of 0] addr_set_bounded [of bitmap]
    by (auto simp: rpmsg_get_address_def)
next
  case False
  define a where "a = (LEAST b. b \<notin> addr_set bitmap)"
  have a: "a \<notin> addr_set bitmap" "a < 32 * length bitmap" "\<forall>b < a. b \<in> addr_set bitmap"
  proof -
    from False obtain c where c: "c < 32 * length bitmap" "c \<notin> addr_set bitmap" by blast
    show "a \<notin> addr_set bitmap" unfolding a_def by (rule LeastI [of _ c]) (rule c(2))
    show "a < 32 * length bitmap" using c Least_le [of "\<lambda>b. b \<notin> addr_set bitmap" c] by (simp add: a_def)
    show "\<forall>b < a. b \<in> addr_set bitmap" unfolding a_def using not_less_Least by blast
  qed
  have "a div 32 < length bitmap" using a(2) by (simp add: div_less_iff_less_mult mult.commute)
  then have "rpmsg_get_address bitmap (length bitmap) =
      Some (int a, bitmap[a div 32 := bitmap ! (a div 32) OR push_bit (a mod 32) 1])"
    using get_address_loop_found [OF a(1) _ a(3), of 0] by (simp add: rpmsg_get_address_def)
  then show ?thesis using a set_address_addr_set(2) [OF a(2)]
    by (intro disjI1 exI [of _ a] exI [of _ "bitmap[a div 32 := bitmap ! (a div 32) OR push_bit (a mod 32) 1]"]) simp
qed

text \<open>
  Property C33.  The address functions implement a set of addresses below \<open>32 * n\<close>:
  \<^verbatim>\<open>rpmsg_get_address\<close> returns an unused address and marks it, or -1 exactly when all are
  used; set, test and release of an address in range insert, look up and delete that address only; an
  address beyond the bitmap is reported as used and never marked.
\<close>

theorem rpmsg_address_set_semantics:
  assumes "length bitmap = n"
  shows "(if addr_set bitmap = {..<32 * n} then rpmsg_get_address bitmap n = Some (-1, bitmap)
      else \<exists>a bitmap'. rpmsg_get_address bitmap n = Some (int a, bitmap') \<and> a \<notin> addr_set bitmap \<and> a < 32 * n \<and>
        addr_set bitmap' = insert a (addr_set bitmap)) \<and>
    (\<forall>a < 32 * n.
      (\<exists>v. rpmsg_is_address_set bitmap n (int a) = Some v \<and> (v \<noteq> 0 \<longleftrightarrow> a \<in> addr_set bitmap)) \<and>
      (\<exists>b. rpmsg_set_address bitmap n (int a) = Some (RPMSG_SUCCESS, b) \<and> addr_set b = insert a (addr_set bitmap)) \<and>
      (\<exists>b. rpmsg_release_address bitmap n (int a) = Some (RPMSG_SUCCESS, b) \<and> addr_set b = addr_set bitmap - {a})) \<and>
    (\<forall>a \<ge> 32 * n. rpmsg_is_address_set bitmap n (int a) = Some (-1) \<and>
      rpmsg_set_address bitmap n (int a) = Some (-1, bitmap) \<and> rpmsg_release_address bitmap n (int a) = Some (-1, bitmap))"
proof (intro conjI allI impI)
  show "if addr_set bitmap = {..<32 * n} then rpmsg_get_address bitmap n = Some (-1, bitmap)
      else \<exists>a bitmap'. rpmsg_get_address bitmap n = Some (int a, bitmap') \<and> a \<notin> addr_set bitmap \<and> a < 32 * n \<and>
        addr_set bitmap' = insert a (addr_set bitmap)"
    using get_address_cases [of bitmap] assms by auto
next
  fix a assume a: "a < 32 * n"
  show "\<exists>v. rpmsg_is_address_set bitmap n (int a) = Some v \<and> (v \<noteq> 0 \<longleftrightarrow> a \<in> addr_set bitmap)"
    using is_address_set_iff [of a bitmap] a assms by simp
  show "\<exists>b. rpmsg_set_address bitmap n (int a) = Some (RPMSG_SUCCESS, b) \<and> addr_set b = insert a (addr_set bitmap)"
    using set_address_addr_set [of a bitmap] a assms by auto
  show "\<exists>b. rpmsg_release_address bitmap n (int a) = Some (RPMSG_SUCCESS, b) \<and> addr_set b = addr_set bitmap - {a}"
    using release_address_addr_set [of a bitmap] a assms by auto
qed (simp_all add: rpmsg_is_address_set_def rpmsg_set_address_def rpmsg_release_address_def)

theorem rpmsg_address_set_semantics_witness:
  "\<exists>v. rpmsg_is_address_set [1, 0, 0, 0] 4 53 = Some v \<and> (v \<noteq> 0 \<longleftrightarrow> 53 \<in> addr_set [1, 0, 0, 0])"
proof -
  have "\<forall>a < 32 * 4. (\<exists>v. rpmsg_is_address_set [1, 0, 0, 0] 4 (int a) = Some v \<and> (v \<noteq> 0 \<longleftrightarrow> a \<in> addr_set [1, 0, 0, 0]))"
    using rpmsg_address_set_semantics [of "[1, 0, 0, 0]" 4] by simp
  from this [rule_format, of 53] show ?thesis by simp
qed

end
