(* ===== verification/Rpmsg.thy ===== *)
theory Rpmsg
  imports Hil RpmsgAddr
begin

text \<open>
  The messaging layer: \<^verbatim>\<open>lib/rpmsg/rpmsg_core.c\<close>, \<^verbatim>\<open>lib/rpmsg/remote_device.c\<close>, \<^verbatim>\<open>lib/rpmsg/rpmsg.c\<close> and the
  send functions of \<^verbatim>\<open>include/openamp/rpmsg.h\<close>, as functions on the state \<open>world\<close>.  The
  internal functions whose names start with an underscore in the source have the prefix \<open>core_\<close>.

  A role is the role of the other side: with \<^verbatim>\<open>RPMSG_REMOTE\<close> this processor is the master, owns the
  buffer pool and is the driver side of both queues; with \<^verbatim>\<open>RPMSG_MASTER\<close> it is the device side.
  Message layout (packed, little endian): header with source at 0, destination at 4,
  length at 12 and 16 bytes in all; name-service payload with the name at 0, address at 32, flags at 36.
\<close>

section \<open>Constants\<close>

definition RPMSG_REMOTE :: u32 where "RPMSG_REMOTE = 0"
definition RPMSG_MASTER :: u32 where "RPMSG_MASTER = 1"
definition RPMSG_CHNL_STATE_IDLE :: u32 where "RPMSG_CHNL_STATE_IDLE = 0"
definition RPMSG_CHNL_STATE_NS :: u32 where "RPMSG_CHNL_STATE_NS = 1"
definition RPMSG_CHNL_STATE_ACTIVE :: u32 where "RPMSG_CHNL_STATE_ACTIVE = 2"
definition RPMSG_DEV_STATE_ACTIVE :: u32 where "RPMSG_DEV_STATE_ACTIVE = 1"
definition RPMSG_TICK_COUNT :: nat where "RPMSG_TICK_COUNT = 15000"
definition RPMSG_TICKS_PER_INTERVAL :: nat where "RPMSG_TICKS_PER_INTERVAL = 10"
definition RPMSG_BUFFER_SIZE :: u32 where "RPMSG_BUFFER_SIZE = 512"
definition RPMSG_MAX_VQ_PER_RDEV :: u32 where "RPMSG_MAX_VQ_PER_RDEV = 2"
definition RPMSG_NS_EPT_ADDR :: u32 where "RPMSG_NS_EPT_ADDR = 0x35"
definition RPMSG_ADDR_ANY :: u32 where "RPMSG_ADDR_ANY = 0xFFFFFFFF"
definition RPMSG_NAME_SIZE :: nat where "RPMSG_NAME_SIZE = 32"
definition VIRTIO_RPMSG_F_NS :: nat where "VIRTIO_RPMSG_F_NS = 0"
definition RPMSG_NS_CREATE :: u32 where "RPMSG_NS_CREATE = 0"
definition RPMSG_NS_DESTROY :: u32 where "RPMSG_NS_DESTROY = 1"
definition RPMSG_HDR_SIZE :: u32 where "RPMSG_HDR_SIZE = 16"
definition RPMSG_NS_MSG_SIZE :: u16 where "RPMSG_NS_MSG_SIZE = 40"

definition RPMSG_ERRORS_BASE :: int where "RPMSG_ERRORS_BASE = -3000"
definition RPMSG_ERR_NO_MEM :: int where "RPMSG_ERR_NO_MEM = RPMSG_ERRORS_BASE - 1"
definition RPMSG_ERR_NO_BUFF :: int where "RPMSG_ERR_NO_BUFF = RPMSG_ERRORS_BASE - 2"
definition RPMSG_ERR_MAX_VQ :: int where "RPMSG_ERR_MAX_VQ = RPMSG_ERRORS_BASE - 3"
definition RPMSG_ERR_PARAM :: int where "RPMSG_ERR_PARAM = RPMSG_ERRORS_BASE - 4"
definition RPMSG_ERR_DEV_STATE :: int where "RPMSG_ERR_DEV_STATE = RPMSG_ERRORS_BASE - 5"
definition RPMSG_ERR_BUFF_SIZE :: int where "RPMSG_ERR_BUFF_SIZE = RPMSG_ERRORS_BASE - 6"
definition RPMSG_ERR_DEV_ID :: int where "RPMSG_ERR_DEV_ID = RPMSG_ERRORS_BASE - 7"
definition RPMSG_ERR_DEV_ADDR :: int where "RPMSG_ERR_DEV_ADDR = RPMSG_ERRORS_BASE - 8"

lemmas rpmsg_err_defs = RPMSG_SUCCESS_def RPMSG_ERRORS_BASE_def RPMSG_ERR_NO_MEM_def RPMSG_ERR_NO_BUFF_def
  RPMSG_ERR_MAX_VQ_def RPMSG_ERR_PARAM_def RPMSG_ERR_DEV_STATE_def RPMSG_ERR_BUFF_SIZE_def RPMSG_ERR_DEV_ID_def
  RPMSG_ERR_DEV_ADDR_def

lemmas rpmsg_const_defs = RPMSG_REMOTE_def RPMSG_MASTER_def RPMSG_CHNL_STATE_IDLE_def RPMSG_CHNL_STATE_NS_def
  RPMSG_CHNL_STATE_ACTIVE_def RPMSG_DEV_STATE_ACTIVE_def

definition RPMSG_LOCATE_DATA :: "u32 \<Rightarrow> u32" where
  "RPMSG_LOCATE_DATA p = p + RPMSG_HDR_SIZE"

definition chnl_zero :: rpmsg_channel where
  "chnl_zero = \<lparr>ch_name = replicate RPMSG_NAME_SIZE NUL, ch_src = 0, ch_dst = 0, ch_rdev = NULL,
     ch_rp_ept = NULL, ch_state = 0\<rparr>"

definition ept_zero :: rpmsg_endpoint where
  "ept_zero = \<lparr>ep_rp_chnl = NULL, ep_cb = None, ep_addr = 0, ep_priv = NULL\<rparr>"

definition rdev_zero :: remote_device where
  "rdev_zero = \<lparr>rd_device = NULL, rd_features = 0, rd_rvq = NULL, rd_tvq = NULL, rd_proc = NULL,
     rd_rp_channels = NULL, rd_rp_endpoints = NULL, rd_mem_pool = NULL,
     rd_bitmap = replicate RPMSG_ADDR_BMP_SIZE 0, rd_channel_created = None, rd_channel_destroyed = None,
     rd_default_cb = None, rd_role = 0, rd_state = 0, rd_support_ns = False\<rparr>"

text \<open>A call through a channel-callback pointer that may be \<^verbatim>\<open>NULL\<close>.\<close>

definition call_chnl_cb :: "config \<Rightarrow> nat option \<Rightarrow> ptr \<Rightarrow> world \<Rightarrow> world option" where
  "call_chnl_cb cf cb chnl w = (case cb of None \<Rightarrow> Some w | Some n \<Rightarrow> cf_chnl_cb cf n chnl w)"

section \<open>Lookup\<close>

definition chnl_name_is :: "char list \<Rightarrow> world \<Rightarrow> ptr \<Rightarrow> bool option" where
  "chnl_name_is name w d = do {
     ch \<leftarrow> w_chnls w d;
     c \<leftarrow> env_strncmp (ch_name ch) name RPMSG_NAME_SIZE;
     Some (c = 0) }"

definition rpmsg_rdev_get_chnl_node_from_id :: "ptr \<Rightarrow> char list \<Rightarrow> world \<Rightarrow> (ptr \<times> world) option" where
  "rpmsg_rdev_get_chnl_node_from_id rdev name w = do {
     rd \<leftarrow> w_rdevs w rdev;
     let w = env_lock_mutex w;
     n \<leftarrow> find_node (w_nodes w) (chnl_name_is name w) (rd_rp_channels rd);
     Some (n, env_unlock_mutex w) }"

definition chnl_addr_is :: "u32 \<Rightarrow> world \<Rightarrow> ptr \<Rightarrow> bool option" where
  "chnl_addr_is addr w d = do { ch \<leftarrow> w_chnls w d; Some (ch_src ch = addr \<or> ch_dst ch = addr) }"

definition rpmsg_rdev_get_chnl_from_addr :: "ptr \<Rightarrow> u32 \<Rightarrow> world \<Rightarrow> (ptr \<times> world) option" where
  "rpmsg_rdev_get_chnl_from_addr rdev addr w = do {
     rd \<leftarrow> w_rdevs w rdev;
     let w = env_lock_mutex w;
     n \<leftarrow> find_node (w_nodes w) (chnl_addr_is addr w) (rd_rp_channels rd);
     Some (n, env_unlock_mutex w) }"

definition ept_addr_is :: "u32 \<Rightarrow> world \<Rightarrow> ptr \<Rightarrow> bool option" where
  "ept_addr_is addr w d = do { ep \<leftarrow> w_epts w d; Some (ep_addr ep = addr) }"

definition rpmsg_rdev_get_endpoint_from_addr :: "ptr \<Rightarrow> u32 \<Rightarrow> world \<Rightarrow> (ptr \<times> world) option" where
  "rpmsg_rdev_get_endpoint_from_addr rdev addr w = do {
     rd \<leftarrow> w_rdevs w rdev;
     let w = env_lock_mutex w;
     n \<leftarrow> find_node (w_nodes w) (ept_addr_is addr w) (rd_rp_endpoints rd);
     Some (n, env_unlock_mutex w) }"

section \<open>Channels and endpoints\<close>

definition core_rpmsg_create_channel ::
  "config \<Rightarrow> ptr \<Rightarrow> char list \<Rightarrow> u32 \<Rightarrow> u32 \<Rightarrow> world \<Rightarrow> (ptr \<times> world) option" where
  "core_rpmsg_create_channel cf rdev name src dst w = do {
     let (chnl, w) = env_allocate_memory cf w;
     (if chnl = NULL then Some (NULL, w)
      else do {
        nm \<leftarrow> env_strncpy name RPMSG_NAME_SIZE;
        let w = w\<lparr>w_chnls := (w_chnls w)(chnl \<mapsto> chnl_zero\<lparr>ch_name := nm, ch_src := src, ch_dst := dst, ch_rdev := rdev\<rparr>)\<rparr>;
        let (node, w) = env_allocate_memory cf w;
        (if node = NULL then Some (NULL, w\<lparr>w_chnls := (w_chnls w)(chnl := None)\<rparr>)
         else do {
           let w = env_lock_mutex w;
           rd \<leftarrow> w_rdevs w rdev;
           (nodes, hd0) \<leftarrow> add_to_list ((w_nodes w)(node \<mapsto> llist0\<lparr>ll_data := chnl\<rparr>)) (rd_rp_channels rd) node;
           let w = w\<lparr>w_nodes := nodes, w_rdevs := (w_rdevs w)(rdev \<mapsto> rd\<lparr>rd_rp_channels := hd0\<rparr>)\<rparr>;
           Some (chnl, env_unlock_mutex w) }) }) }"

definition core_rpmsg_delete_channel :: "ptr \<Rightarrow> world \<Rightarrow> world option" where
  "core_rpmsg_delete_channel chnl w =
     (if chnl = NULL then Some w
      else do {
        ch \<leftarrow> w_chnls w chnl;
        (node, w) \<leftarrow> rpmsg_rdev_get_chnl_node_from_id (ch_rdev ch) (ch_name ch) w;
        w \<leftarrow> (if node = NULL then Some w
             else do {
               let w = env_lock_mutex w;
               rd \<leftarrow> w_rdevs w (ch_rdev ch);
               (nodes, hd0) \<leftarrow> remove_from_list (w_nodes w) (rd_rp_channels rd) node;
               let w = w\<lparr>w_nodes := nodes, w_rdevs := (w_rdevs w)(ch_rdev ch \<mapsto> rd\<lparr>rd_rp_channels := hd0\<rparr>)\<rparr>;
               let w = env_unlock_mutex w;
               Some (w\<lparr>w_nodes := (w_nodes w)(node := None)\<rparr>) });
        Some (w\<lparr>w_chnls := (w_chnls w)(chnl := None)\<rparr>) })"

text \<open>The choice of the address in \<^verbatim>\<open>_create_endpoint\<close>: status, address and new bitmap.\<close>

definition choose_address :: "u32 list \<Rightarrow> u32 \<Rightarrow> (int \<times> u32 \<times> u32 list) option" where
  "choose_address bitmap addr =
     (if addr \<noteq> RPMSG_ADDR_ANY then do {
        v \<leftarrow> rpmsg_is_address_set bitmap RPMSG_ADDR_BMP_SIZE (sint addr);
        (if v = 0 then do {
           (s, bitmap) \<leftarrow> rpmsg_set_address bitmap RPMSG_ADDR_BMP_SIZE (sint addr);
           Some (RPMSG_SUCCESS, addr, bitmap) }
         else Some (RPMSG_ERR_DEV_ADDR, addr, bitmap)) }
      else do {
        (a, bitmap) \<leftarrow> rpmsg_get_address bitmap RPMSG_ADDR_BMP_SIZE;
        let addr = (of_int a :: u32);
        Some (if sint addr < 0 then RPMSG_ERR_DEV_ADDR else RPMSG_SUCCESS, addr, bitmap) })"

definition core_create_endpoint ::
  "config \<Rightarrow> ptr \<Rightarrow> rx_cb option \<Rightarrow> ptr \<Rightarrow> u32 \<Rightarrow> world \<Rightarrow> (ptr \<times> world) option" where
  "core_create_endpoint cf rdev cb priv addr w = do {
     let (ept, w) = env_allocate_memory cf w;
     (if ept = NULL then Some (NULL, w)
      else do {
        let w = w\<lparr>w_epts := (w_epts w)(ept \<mapsto> ept_zero)\<rparr>;
        let (node, w) = env_allocate_memory cf w;
        (if node = NULL then Some (NULL, w\<lparr>w_epts := (w_epts w)(ept := None)\<rparr>)
         else do {
           let w = env_lock_mutex w;
           rd \<leftarrow> w_rdevs w rdev;
           (status, addr, bitmap) \<leftarrow> choose_address (rd_bitmap rd) addr;
           let rd = rd\<lparr>rd_bitmap := bitmap\<rparr>;
           (if status \<noteq> RPMSG_SUCCESS
            then Some (NULL, env_unlock_mutex (w\<lparr>w_epts := (w_epts w)(ept := None), w_rdevs := (w_rdevs w)(rdev \<mapsto> rd)\<rparr>))
            else do {
              let w = w\<lparr>w_epts := (w_epts w)(ept \<mapsto> ept_zero\<lparr>ep_addr := addr, ep_cb := cb, ep_priv := priv\<rparr>)\<rparr>;
              (nodes, hd0) \<leftarrow> add_to_list ((w_nodes w)(node \<mapsto> llist0\<lparr>ll_data := ept\<rparr>)) (rd_rp_endpoints rd) node;
              let w = w\<lparr>w_nodes := nodes, w_rdevs := (w_rdevs w)(rdev \<mapsto> rd\<lparr>rd_rp_endpoints := hd0\<rparr>)\<rparr>;
              Some (ept, env_unlock_mutex w) }) }) }) }"

definition core_destroy_endpoint :: "ptr \<Rightarrow> ptr \<Rightarrow> world \<Rightarrow> world option" where
  "core_destroy_endpoint rdev ept w = do {
     ep \<leftarrow> w_epts w ept;
     (node, w) \<leftarrow> rpmsg_rdev_get_endpoint_from_addr rdev (ep_addr ep) w;
     w \<leftarrow> (if node = NULL then Some w
          else do {
            let w = env_lock_mutex w;
            rd \<leftarrow> w_rdevs w rdev;
            (s, bitmap) \<leftarrow> rpmsg_release_address (rd_bitmap rd) RPMSG_ADDR_BMP_SIZE (sint (ep_addr ep));
            (nodes, hd0) \<leftarrow> remove_from_list (w_nodes w) (rd_rp_endpoints rd) node;
            let w = w\<lparr>w_nodes := nodes, w_rdevs := (w_rdevs w)(rdev \<mapsto> rd\<lparr>rd_bitmap := bitmap, rd_rp_endpoints := hd0\<rparr>)\<rparr>;
            let w = env_unlock_mutex w;
            Some (w\<lparr>w_nodes := (w_nodes w)(node := None)\<rparr>) });
     Some (w\<lparr>w_epts := (w_epts w)(ept := None)\<rparr>) }"

definition rpmsg_create_ept ::
  "config \<Rightarrow> ptr \<Rightarrow> rx_cb option \<Rightarrow> ptr \<Rightarrow> u32 \<Rightarrow> world \<Rightarrow> (ptr \<times> world) option" where
  "rpmsg_create_ept cf chnl cb priv addr w =
     (if chnl = NULL \<or> cb = None then Some (NULL, w)
      else do {
        ch \<leftarrow> w_chnls w chnl;
        (ept, w) \<leftarrow> core_create_endpoint cf (ch_rdev ch) cb priv addr w;
        (if ept = NULL then Some (NULL, w)
         else do {
           ep \<leftarrow> w_epts w ept;
           Some (ept, w\<lparr>w_epts := (w_epts w)(ept \<mapsto> ep\<lparr>ep_rp_chnl := chnl\<rparr>)\<rparr>) }) })"

definition rpmsg_destroy_ept :: "ptr \<Rightarrow> world \<Rightarrow> world option" where
  "rpmsg_destroy_ept ept w =
     (if ept = NULL then Some w
      else do {
        ep \<leftarrow> w_epts w ept;
        ch \<leftarrow> w_chnls w (ep_rp_chnl ep);
        core_destroy_endpoint (ch_rdev ch) ept w })"

section \<open>Buffers\<close>

definition rpmsg_enqueue_buffer :: "config \<Rightarrow> ptr \<Rightarrow> u32 \<Rightarrow> u32 \<Rightarrow> u16 \<Rightarrow> world \<Rightarrow> (int \<times> world) option" where
  "rpmsg_enqueue_buffer cf rdev buffer len idx w = do {
     rd \<leftarrow> w_rdevs w rdev;
     (if rd_role rd = RPMSG_REMOTE then w_add_buffer cf (rd_tvq rd) [(buffer, len)] 0 1 buffer w
      else w_add_consumed_buffer cf (rd_tvq rd) idx len w) }"

definition rpmsg_return_buffer :: "config \<Rightarrow> ptr \<Rightarrow> u32 \<Rightarrow> u32 \<Rightarrow> u16 \<Rightarrow> world \<Rightarrow> world option" where
  "rpmsg_return_buffer cf rdev buffer len idx w = do {
     rd \<leftarrow> w_rdevs w rdev;
     (s, w) \<leftarrow> (if rd_role rd = RPMSG_REMOTE then w_add_buffer cf (rd_rvq rd) [(buffer, len)] 0 1 buffer w
               else w_add_consumed_buffer cf (rd_rvq rd) idx len w);
     Some w }"

text \<open>\<open>len\<close> and \<open>idx\<close> are the current contents of the caller's variables; they change only when a buffer is found.\<close>

definition rpmsg_get_tx_buffer ::
  "config \<Rightarrow> ptr \<Rightarrow> u32 \<Rightarrow> u16 \<Rightarrow> world \<Rightarrow> (u32 \<times> u32 \<times> u16 \<times> world) option" where
  "rpmsg_get_tx_buffer cf rdev len idx w = do {
     rd \<leftarrow> w_rdevs w rdev;
     (if rd_role rd = RPMSG_REMOTE then do {
        (data, l, w) \<leftarrow> w_get_buffer cf (rd_tvq rd) w;
        (if data = 0 then do {
           (data, w) \<leftarrow> w_sh_mem_get_buffer (rd_mem_pool rd) w;
           Some (cf_vatopa cf data, RPMSG_BUFFER_SIZE, idx, w) }
         else Some (cf_vatopa cf data, (case l of None \<Rightarrow> len | Some l \<Rightarrow> l), idx, w)) }
      else do {
        (data, out, w) \<leftarrow> w_get_available_buffer cf (rd_tvq rd) w;
        (case out of
           None \<Rightarrow> Some (cf_vatopa cf data, len, idx, w)
         | Some (i, l) \<Rightarrow> Some (cf_vatopa cf data, l, i, w)) }) }"

definition rpmsg_get_rx_buffer ::
  "config \<Rightarrow> ptr \<Rightarrow> u32 \<Rightarrow> u16 \<Rightarrow> world \<Rightarrow> (u32 \<times> u32 \<times> u16 \<times> world) option" where
  "rpmsg_get_rx_buffer cf rdev len idx w = do {
     rd \<leftarrow> w_rdevs w rdev;
     (if rd_role rd = RPMSG_REMOTE then do {
        (data, l, w) \<leftarrow> w_get_buffer cf (rd_rvq rd) w;
        Some (cf_vatopa cf data, (case l of None \<Rightarrow> len | Some l \<Rightarrow> l), idx, w) }
      else do {
        (data, out, w) \<leftarrow> w_get_available_buffer cf (rd_rvq rd) w;
        (case out of
           None \<Rightarrow> Some (cf_vatopa cf data, len, idx, w)
         | Some (i, l) \<Rightarrow> Some (cf_vatopa cf data, l, i, w)) }) }"

definition rpmsg_free_buffer :: "ptr \<Rightarrow> u32 \<Rightarrow> world \<Rightarrow> world option" where
  "rpmsg_free_buffer rdev buffer w = do {
     rd \<leftarrow> w_rdevs w rdev;
     (if rd_role rd = RPMSG_REMOTE then w_sh_mem_free_buffer buffer (rd_mem_pool rd) w else Some w) }"

section \<open>Name service announcements\<close>

definition char_byte :: "char \<Rightarrow> u8" where
  "char_byte c = of_char c"

definition byte_char :: "u8 \<Rightarrow> char" where
  "byte_char b = char_of (unat b)"

text \<open>The stores that fill the announcement into the buffer at \<open>hdr\<close>; the source field keeps its old content.\<close>

definition put_ns_msg :: "u32 \<Rightarrow> char list \<Rightarrow> u32 \<Rightarrow> u32 \<Rightarrow> memory \<Rightarrow> memory" where
  "put_ns_msg hdr name addr flags m =
     (let m = store32 m (hdr + 4) RPMSG_NS_EPT_ADDR;
          m = store16 m (hdr + 12) RPMSG_NS_MSG_SIZE;
          ns = RPMSG_LOCATE_DATA hdr;
          m = store_bytes m ns (map char_byte name);
          m = store32 m (ns + 36) flags
      in store32 m (ns + 32) addr)"

definition rpmsg_send_ns_message :: "config \<Rightarrow> ptr \<Rightarrow> ptr \<Rightarrow> u32 \<Rightarrow> world \<Rightarrow> world option" where
  "rpmsg_send_ns_message cf rdev chnl flags w = do {
     let w = env_lock_mutex w;
     (hdr, len, idx, w) \<leftarrow> rpmsg_get_tx_buffer cf rdev (cf_uninit_len cf) (cf_uninit_idx cf) w;
     (if hdr = 0 then Some w
      else do {
        ch \<leftarrow> w_chnls w chnl;
        nm \<leftarrow> env_strncpy (ch_name ch) RPMSG_NAME_SIZE;
        let w = w\<lparr>w_mem := put_ns_msg hdr nm (ch_src ch) flags (w_mem w)\<rparr>;
        (s, w) \<leftarrow> rpmsg_enqueue_buffer cf rdev hdr len idx w;
        rd \<leftarrow> w_rdevs w rdev;
        w \<leftarrow> w_kick cf (rd_tvq rd) w;
        Some (env_unlock_mutex w) }) }"

end
