(* ===== verification/RpmsgApi.thy ===== *)
theory RpmsgApi
  imports Rpmsg
begin

text \<open>
  The messaging layer, second part: sending (\<^verbatim>\<open>lib/rpmsg/rpmsg.c\<close>), the queue callbacks and the name service of
  \<^verbatim>\<open>lib/rpmsg/rpmsg_core.c\<close>, and initialisation and shutdown of a remote device
  (\<^verbatim>\<open>lib/rpmsg/remote_device.c\<close>).  The receive loop, the walk over the channels and the shutdown loop are
  \<open>partial_function\<close>s: not returning is \<open>None\<close>.  The wait loop of the send function ends after 150 turns.
\<close>

section \<open>Sending\<close>

text \<open>
  The wait loop of \<^verbatim>\<open>rpmsg_send_offchannel_raw\<close>; \<^verbatim>\<open>env_sleep_msec\<close> does nothing in this environment.  The
  time limit is tested after the buffer has been asked for, whether or not one was found.
\<close>

function rpmsg_wait_buffer ::
  "config \<Rightarrow> ptr \<Rightarrow> nat \<Rightarrow> u32 \<Rightarrow> u32 \<Rightarrow> u16 \<Rightarrow> world \<Rightarrow> (int \<times> u32 \<times> u32 \<times> u16 \<times> world) option" where
  "rpmsg_wait_buffer cf rdev tick_count buffer len idx w =
     (if buffer \<noteq> 0 then Some (RPMSG_SUCCESS, buffer, len, idx, w)
      else do {
        let w = env_lock_mutex w;
        (buffer, len, idx, w) \<leftarrow> rpmsg_get_tx_buffer cf rdev len idx w;
        let w = env_unlock_mutex w;
        (if tick_count + RPMSG_TICKS_PER_INTERVAL \<ge> RPMSG_TICK_COUNT div RPMSG_TICKS_PER_INTERVAL
         then Some (RPMSG_ERR_NO_BUFF, buffer, len, idx, w)
         else rpmsg_wait_buffer cf rdev (tick_count + RPMSG_TICKS_PER_INTERVAL) buffer len idx w) })"
  by pat_completeness auto

termination
  by (relation "measure (\<lambda>(cf, rdev, tick_count, buffer, len, idx, w). 1500 - tick_count)")
    (auto simp: RPMSG_TICKS_PER_INTERVAL_def RPMSG_TICK_COUNT_def)

text \<open>The message that is written into a buffer.\<close>

definition put_msg :: "u32 \<Rightarrow> u32 \<Rightarrow> u32 \<Rightarrow> u8 list \<Rightarrow> u16 \<Rightarrow> memory \<Rightarrow> memory" where
  "put_msg hdr src dst payload len m =
     (let m = store32 m (hdr + 4) dst;
          m = store32 m hdr src;
          m = store16 m (hdr + 12) len
      in store_bytes m (RPMSG_LOCATE_DATA hdr) payload)"

definition rpmsg_send_offchannel_raw ::
  "config \<Rightarrow> ptr \<Rightarrow> u32 \<Rightarrow> u32 \<Rightarrow> u32 \<Rightarrow> int \<Rightarrow> bool \<Rightarrow> world \<Rightarrow> (int \<times> world) option" where
  "rpmsg_send_offchannel_raw cf chnl src dst data sz wait w =
     (if chnl = NULL then Some (RPMSG_ERR_PARAM, w)
      else do {
        ch \<leftarrow> w_chnls w chnl;
        let rdev = ch_rdev ch;
        rd \<leftarrow> w_rdevs w rdev;
        (if ch_state ch \<noteq> RPMSG_CHNL_STATE_ACTIVE \<or> rd_state rd \<noteq> RPMSG_DEV_STATE_ACTIVE
         then Some (RPMSG_ERR_DEV_STATE, w)
         else do {
           let w = env_lock_mutex w;
           (buffer, len, idx, w) \<leftarrow> rpmsg_get_tx_buffer cf rdev (cf_uninit_len cf) (cf_uninit_idx cf) w;
           let w = env_unlock_mutex w;
           (status, buffer, w) \<leftarrow>
             (if buffer = 0 \<and> \<not> wait then Some (RPMSG_ERR_NO_MEM, buffer, w)
              else do {
                (status, buffer, len, idx, w) \<leftarrow> rpmsg_wait_buffer cf rdev 0 buffer len idx w;
                (if status \<noteq> RPMSG_SUCCESS then Some (status, buffer, w)
                 else if (of_int sz :: u32) > len - RPMSG_HDR_SIZE then Some (RPMSG_ERR_BUFF_SIZE, buffer, w)
                 else do {
                   let payload = load_bytes (put_msg buffer src dst [] (of_int sz) (w_mem w)) data (unat (of_int sz :: u32));
                   let w = w\<lparr>w_mem := put_msg buffer src dst payload (of_int sz) (w_mem w)\<rparr>;
                   let w = env_lock_mutex w;
                   (status, w) \<leftarrow> rpmsg_enqueue_buffer cf rdev buffer len idx w;
                   w \<leftarrow> (if status = RPMSG_SUCCESS
                        then do { rd \<leftarrow> w_rdevs w rdev; w_kick cf (rd_tvq rd) w }
                        else Some w);
                   Some (status, buffer, env_unlock_mutex w) }) });
           w \<leftarrow> (if status \<noteq> RPMSG_SUCCESS then rpmsg_free_buffer rdev buffer w else Some w);
           Some (status, w) }) })"

definition rpmsg_sendto :: "config \<Rightarrow> ptr \<Rightarrow> u32 \<Rightarrow> int \<Rightarrow> u32 \<Rightarrow> world \<Rightarrow> (int \<times> world) option" where
  "rpmsg_sendto cf rpdev data len dst w =
     (if rpdev = NULL \<or> data = 0 then Some (RPMSG_ERR_PARAM, w)
      else do { ch \<leftarrow> w_chnls w rpdev; rpmsg_send_offchannel_raw cf rpdev (ch_src ch) dst data len True w })"

definition rpmsg_send :: "config \<Rightarrow> ptr \<Rightarrow> u32 \<Rightarrow> int \<Rightarrow> world \<Rightarrow> (int \<times> world) option" where
  "rpmsg_send cf rpdev data len w =
     (if rpdev = NULL \<or> data = 0 then Some (RPMSG_ERR_PARAM, w)
      else do { ch \<leftarrow> w_chnls w rpdev; rpmsg_send_offchannel_raw cf rpdev (ch_src ch) (ch_dst ch) data len True w })"

definition rpmsg_send_offchannel :: "config \<Rightarrow> ptr \<Rightarrow> u32 \<Rightarrow> u32 \<Rightarrow> u32 \<Rightarrow> int \<Rightarrow> world \<Rightarrow> (int \<times> world) option" where
  "rpmsg_send_offchannel cf rpdev src dst data len w =
     (if rpdev = NULL \<or> data = 0 then Some (RPMSG_ERR_PARAM, w)
      else rpmsg_send_offchannel_raw cf rpdev src dst data len True w)"

definition rpmsg_trysend :: "config \<Rightarrow> ptr \<Rightarrow> u32 \<Rightarrow> int \<Rightarrow> world \<Rightarrow> (int \<times> world) option" where
  "rpmsg_trysend cf rpdev data len w =
     (if rpdev = NULL \<or> data = 0 then Some (RPMSG_ERR_PARAM, w)
      else do { ch \<leftarrow> w_chnls w rpdev; rpmsg_send_offchannel_raw cf rpdev (ch_src ch) (ch_dst ch) data len False w })"

definition rpmsg_trysendto :: "config \<Rightarrow> ptr \<Rightarrow> u32 \<Rightarrow> int \<Rightarrow> u32 \<Rightarrow> world \<Rightarrow> (int \<times> world) option" where
  "rpmsg_trysendto cf rpdev data len dst w =
     (if rpdev = NULL \<or> data = 0 then Some (RPMSG_ERR_PARAM, w)
      else do { ch \<leftarrow> w_chnls w rpdev; rpmsg_send_offchannel_raw cf rpdev (ch_src ch) dst data len False w })"

definition rpmsg_trysend_offchannel :: "config \<Rightarrow> ptr \<Rightarrow> u32 \<Rightarrow> u32 \<Rightarrow> u32 \<Rightarrow> int \<Rightarrow> world \<Rightarrow> (int \<times> world) option" where
  "rpmsg_trysend_offchannel cf rpdev src dst data len w =
     (if rpdev = NULL \<or> data = 0 then Some (RPMSG_ERR_PARAM, w)
      else rpmsg_send_offchannel_raw cf rpdev src dst data len False w)"

definition rpmsg_get_buffer_size :: "config \<Rightarrow> ptr \<Rightarrow> world \<Rightarrow> (int \<times> world) option" where
  "rpmsg_get_buffer_size cf chnl w =
     (if chnl = NULL then Some (RPMSG_ERR_PARAM, w)
      else do {
        ch \<leftarrow> w_chnls w chnl;
        rd \<leftarrow> w_rdevs w (ch_rdev ch);
        (if ch_state ch \<noteq> RPMSG_CHNL_STATE_ACTIVE \<or> rd_state rd \<noteq> RPMSG_DEV_STATE_ACTIVE
         then Some (RPMSG_ERR_DEV_STATE, w)
         else do {
           let w = env_lock_mutex w;
           (length, w) \<leftarrow> (if rd_role rd = RPMSG_REMOTE then Some (sint (RPMSG_BUFFER_SIZE - RPMSG_HDR_SIZE), w)
                          else do { (l, w) \<leftarrow> w_get_desc_size cf (rd_tvq rd) w; Some (sint (l - RPMSG_HDR_SIZE), w) });
           Some (length, env_unlock_mutex w) }) })"

section \<open>Dynamic channels\<close>

definition rpmsg_create_channel :: "config \<Rightarrow> ptr \<Rightarrow> char list option \<Rightarrow> world \<Rightarrow> (ptr \<times> world) option" where
  "rpmsg_create_channel cf rdev name w = (case name of None \<Rightarrow> Some (NULL, w) | Some name \<Rightarrow>
     (if rdev = NULL then Some (NULL, w)
      else do {
        (chnl, w) \<leftarrow> core_rpmsg_create_channel cf rdev name RPMSG_NS_EPT_ADDR RPMSG_NS_EPT_ADDR w;
        (if chnl = NULL then Some (NULL, w)
         else do {
           rd \<leftarrow> w_rdevs w rdev;
           (ept, w) \<leftarrow> rpmsg_create_ept cf chnl (rd_default_cb rd) rdev RPMSG_ADDR_ANY w;
           (if ept = NULL then do { w \<leftarrow> core_rpmsg_delete_channel chnl w; Some (NULL, w) }
            else do {
              ch \<leftarrow> w_chnls w chnl;
              ep \<leftarrow> w_epts w ept;
              let w = w\<lparr>w_chnls := (w_chnls w)(chnl \<mapsto> ch\<lparr>ch_rp_ept := ept, ch_src := ep_addr ep, ch_state := RPMSG_CHNL_STATE_NS\<rparr>)\<rparr>;
              rd \<leftarrow> w_rdevs w rdev;
              w \<leftarrow> call_chnl_cb cf (rd_channel_created rd) chnl w;
              w \<leftarrow> rpmsg_send_ns_message cf rdev chnl RPMSG_NS_CREATE w;
              Some (chnl, w) }) }) }))"

definition rpmsg_delete_channel :: "config \<Rightarrow> ptr \<Rightarrow> world \<Rightarrow> world option" where
  "rpmsg_delete_channel cf chnl w =
     (if chnl = NULL then Some w
      else do {
        ch \<leftarrow> w_chnls w chnl;
        let rdev = ch_rdev ch;
        w \<leftarrow> (if ch_state ch > RPMSG_CHNL_STATE_IDLE then rpmsg_send_ns_message cf rdev chnl RPMSG_NS_DESTROY w else Some w);
        rd \<leftarrow> w_rdevs w rdev;
        w \<leftarrow> call_chnl_cb cf (rd_channel_destroyed rd) chnl w;
        ch \<leftarrow> w_chnls w chnl;
        w \<leftarrow> rpmsg_destroy_ept (ch_rp_ept ch) w;
        core_rpmsg_delete_channel chnl w })"

section \<open>Callbacks of the queues\<close>

text \<open>\<^verbatim>\<open>rpmsg_ns_callback\<close>; \<open>data\<close> is the payload in shared memory and \<open>priv\<close> the remote device.\<close>

definition rpmsg_ns_callback :: "config \<Rightarrow> u32 \<Rightarrow> u16 \<Rightarrow> ptr \<Rightarrow> world \<Rightarrow> world option" where
  "rpmsg_ns_callback cf data len priv w = do {
     let rdev = priv;
     let w = w\<lparr>w_mem := (w_mem w)(data + of_int (int (unat len) - 1) := 0)\<rparr>;
     let name = map byte_char (load_bytes (w_mem w) data RPMSG_NAME_SIZE);
     (if load32 (w_mem w) (data + 36) AND RPMSG_NS_DESTROY \<noteq> 0
      then do {
        (node, w) \<leftarrow> rpmsg_rdev_get_chnl_node_from_id rdev name w;
        (if node = NULL then Some w
         else do {
           nd \<leftarrow> w_nodes w node;
           let chnl = ll_data nd;
           rd \<leftarrow> w_rdevs w rdev;
           w \<leftarrow> call_chnl_cb cf (rd_channel_destroyed rd) chnl w;
           ch \<leftarrow> w_chnls w chnl;
           w \<leftarrow> rpmsg_destroy_ept (ch_rp_ept ch) w;
           core_rpmsg_delete_channel chnl w }) }
      else do {
        (chnl, w) \<leftarrow> core_rpmsg_create_channel cf rdev name 0 (load32 (w_mem w) (data + 32)) w;
        (if chnl = NULL then Some w
         else do {
           ch \<leftarrow> w_chnls w chnl;
           let w = w\<lparr>w_chnls := (w_chnls w)(chnl \<mapsto> ch\<lparr>ch_state := RPMSG_CHNL_STATE_ACTIVE\<rparr>)\<rparr>;
           rd \<leftarrow> w_rdevs w rdev;
           (ept, w) \<leftarrow> rpmsg_create_ept cf chnl (rd_default_cb rd) rdev RPMSG_ADDR_ANY w;
           ch \<leftarrow> w_chnls w chnl;
           let w = w\<lparr>w_chnls := (w_chnls w)(chnl \<mapsto> ch\<lparr>ch_rp_ept := ept\<rparr>)\<rparr>;
           (if ept = NULL then Some w
            else do {
              ep \<leftarrow> w_epts w ept;
              ch \<leftarrow> w_chnls w chnl;
              let w = w\<lparr>w_chnls := (w_chnls w)(chnl \<mapsto> ch\<lparr>ch_src := ep_addr ep\<rparr>)\<rparr>;
              (s, w) \<leftarrow> rpmsg_send cf chnl data (int (unat len)) w;
              rd \<leftarrow> w_rdevs w rdev;
              call_chnl_cb cf (rd_channel_created rd) chnl w }) }) }) }"

text \<open>A call through the callback pointer of an endpoint.\<close>

definition call_rx_cb :: "config \<Rightarrow> rx_cb option \<Rightarrow> ptr \<Rightarrow> u32 \<Rightarrow> u16 \<Rightarrow> ptr \<Rightarrow> u32 \<Rightarrow> world \<Rightarrow> world option" where
  "call_rx_cb cf cb chnl data len priv src w = (case cb of
      None \<Rightarrow> None
    | Some Rpmsg_ns_callback \<Rightarrow> rpmsg_ns_callback cf data len priv w
    | Some (App_rx_cb n) \<Rightarrow> cf_rx_cb cf n chnl data len priv src w)"

text \<open>\<^verbatim>\<open>(rp_chnl) && (rp_chnl->state == RPMSG_CHNL_STATE_NS)\<close>.\<close>

definition chnl_in_ns :: "ptr \<Rightarrow> world \<Rightarrow> bool option" where
  "chnl_in_ns chnl w =
     (if chnl = NULL then Some False
      else do { ch \<leftarrow> w_chnls w chnl; Some (ch_state ch = RPMSG_CHNL_STATE_NS) })"

text \<open>Delivery of one message whose header is at \<open>hdr\<close> to the endpoint at list node \<open>node\<close>.\<close>

definition rpmsg_deliver :: "config \<Rightarrow> ptr \<Rightarrow> ptr \<Rightarrow> u32 \<Rightarrow> world \<Rightarrow> world option" where
  "rpmsg_deliver cf rdev node hdr w = do {
     nd \<leftarrow> w_nodes w node;
     ep \<leftarrow> w_epts w (ll_data nd);
     ns \<leftarrow> chnl_in_ns (ep_rp_chnl ep) w;
     (if ns then do {
        ch \<leftarrow> w_chnls w (ep_rp_chnl ep);
        let w = w\<lparr>w_chnls := (w_chnls w)(ep_rp_chnl ep \<mapsto>
              ch\<lparr>ch_dst := load32 (w_mem w) hdr, ch_state := RPMSG_CHNL_STATE_ACTIVE\<rparr>)\<rparr>;
        rd \<leftarrow> w_rdevs w rdev;
        call_chnl_cb cf (rd_channel_created rd) (ep_rp_chnl ep) w }
      else call_rx_cb cf (ep_cb ep) (ep_rp_chnl ep) (RPMSG_LOCATE_DATA hdr) (load16 (w_mem w) (hdr + 12))
             (ep_priv ep) (load32 (w_mem w) hdr) w) }"

partial_function (option) rpmsg_rx_loop :: "config \<Rightarrow> ptr \<Rightarrow> u32 \<Rightarrow> u32 \<Rightarrow> u16 \<Rightarrow> world \<Rightarrow> world option" where
  "rpmsg_rx_loop cf rdev hdr len idx w =
     (if hdr = 0 then Some w
      else do {
        (node, w) \<leftarrow> rpmsg_rdev_get_endpoint_from_addr rdev (load32 (w_mem w) (hdr + 4)) w;
        (if node = NULL then Some w
         else do {
           w \<leftarrow> rpmsg_deliver cf rdev node hdr w;
           w \<leftarrow> rpmsg_return_buffer cf rdev hdr len idx (env_lock_mutex w);
           (hdr, len, idx, w) \<leftarrow> rpmsg_get_rx_buffer cf rdev len idx w;
           rpmsg_rx_loop cf rdev hdr len idx (env_unlock_mutex w) }) })"

declare rpmsg_rx_loop.simps [code]

text \<open>The first notification of the master for an idle channel starts the announcement instead.\<close>

definition rpmsg_rx_callback :: "config \<Rightarrow> virtqueue \<Rightarrow> world \<Rightarrow> world option" where
  "rpmsg_rx_callback cf vq w = do {
     let rdev = vq_dev vq;
     rd \<leftarrow> w_rdevs w rdev;
     idle \<leftarrow> (if rd_rp_channels rd \<noteq> NULL \<and> rd_role rd = RPMSG_MASTER then do {
                nd \<leftarrow> w_nodes w (rd_rp_channels rd);
                ch \<leftarrow> w_chnls w (ll_data nd);
                Some (if ch_state ch = RPMSG_CHNL_STATE_IDLE then Some (ll_data nd, ch) else None) }
              else Some None);
     (case idle of
        Some (chnl, ch) \<Rightarrow>
          (if rd_support_ns rd
           then rpmsg_send_ns_message cf rdev chnl RPMSG_NS_CREATE
                  (w\<lparr>w_chnls := (w_chnls w)(chnl \<mapsto> ch\<lparr>ch_state := RPMSG_CHNL_STATE_NS\<rparr>)\<rparr>)
           else Some (w\<lparr>w_chnls := (w_chnls w)(chnl \<mapsto> ch\<lparr>ch_state := RPMSG_CHNL_STATE_ACTIVE\<rparr>)\<rparr>))
      | None \<Rightarrow> do {
          (hdr, len, idx, w) \<leftarrow> rpmsg_get_rx_buffer cf rdev (cf_uninit_len cf) (cf_uninit_idx cf) (env_lock_mutex w);
          rpmsg_rx_loop cf rdev hdr len idx (env_unlock_mutex w) }) }"

partial_function (option) rpmsg_tx_loop :: "config \<Rightarrow> ptr \<Rightarrow> ptr \<Rightarrow> world \<Rightarrow> world option" where
  "rpmsg_tx_loop cf rdev node w =
     (if node = NULL then Some w
      else do {
        nd \<leftarrow> w_nodes w node;
        ch \<leftarrow> w_chnls w (ll_data nd);
        rd \<leftarrow> w_rdevs w rdev;
        w \<leftarrow> (if ch_state ch = RPMSG_CHNL_STATE_IDLE
             then (if rd_support_ns rd
                   then rpmsg_send_ns_message cf rdev (ll_data nd) RPMSG_NS_CREATE
                          (w\<lparr>w_chnls := (w_chnls w)(ll_data nd \<mapsto> ch\<lparr>ch_state := RPMSG_CHNL_STATE_NS\<rparr>)\<rparr>)
                   else Some (w\<lparr>w_chnls := (w_chnls w)(ll_data nd \<mapsto> ch\<lparr>ch_state := RPMSG_CHNL_STATE_ACTIVE\<rparr>)\<rparr>))
             else Some w);
        nd \<leftarrow> w_nodes w node;
        rpmsg_tx_loop cf rdev (ll_next nd) w })"

declare rpmsg_tx_loop.simps [code]

definition rpmsg_tx_callback :: "config \<Rightarrow> virtqueue \<Rightarrow> world \<Rightarrow> world option" where
  "rpmsg_tx_callback cf vq w = do {
     let rdev = vq_dev vq;
     rd \<leftarrow> w_rdevs w rdev;
     (if rd_role rd = RPMSG_MASTER then rpmsg_tx_loop cf rdev (rd_rp_channels rd) w else Some w) }"

text \<open>The functions a queue can have as its callback, and the interrupt entry.\<close>

definition call_vq_cb :: "config \<Rightarrow> vq_fn \<Rightarrow> virtqueue \<Rightarrow> world \<Rightarrow> world option" where
  "call_vq_cb cf f vq w = (case f of
      Rpmsg_rx_callback \<Rightarrow> rpmsg_rx_callback cf vq w
    | Rpmsg_tx_callback \<Rightarrow> rpmsg_tx_callback cf vq w
    | Hil_vring_notify \<Rightarrow> hil_vring_notify cf vq w
    | App_vq_fn n \<Rightarrow> cf_vq_cb cf n vq w)"

definition platform_isr :: "config \<Rightarrow> ptr \<Rightarrow> nat \<Rightarrow> world \<Rightarrow> world option" where
  "platform_isr cf proc vring_index w = hil_isr (call_vq_cb cf) proc vring_index w"

end
