(* ===== verification/RpmsgInit.thy ===== *)
theory RpmsgInit
  imports RpmsgApi
begin

text \<open>
  Creation, start and shutdown of a remote device: \<^verbatim>\<open>lib/rpmsg/remote_device.c\<close>,
  \<^verbatim>\<open>rpmsg_start_ipc\<close> and \<^verbatim>\<open>rpmsg_init\<close> / \<^verbatim>\<open>rpmsg_deinit\<close>.
\<close>

section \<open>The virtio device interface\<close>

definition rpmsg_rdev_get_status :: "ptr \<Rightarrow> u8" where "rpmsg_rdev_get_status dev = 0"

definition rpmsg_rdev_set_status :: "ptr \<Rightarrow> u8 \<Rightarrow> world \<Rightarrow> world" where "rpmsg_rdev_set_status dev status w = w"

definition rpmsg_rdev_get_feature :: "ptr \<Rightarrow> world \<Rightarrow> u32 option" where
  "rpmsg_rdev_get_feature dev w = do { rd \<leftarrow> w_rdevs w dev; Some (rd_features rd) }"

definition rpmsg_rdev_set_feature :: "ptr \<Rightarrow> u32 \<Rightarrow> world \<Rightarrow> world option" where
  "rpmsg_rdev_set_feature dev feature w = do {
     rd \<leftarrow> w_rdevs w dev;
     Some (w\<lparr>w_rdevs := (w_rdevs w)(dev \<mapsto> rd\<lparr>rd_features := rd_features rd OR feature\<rparr>)\<rparr>) }"

definition rpmsg_rdev_negotiate_feature :: "ptr \<Rightarrow> u32 \<Rightarrow> u32" where "rpmsg_rdev_negotiate_feature dev features = 0"

definition rpmsg_rdev_read_config :: "ptr \<Rightarrow> u32 \<Rightarrow> u32 \<Rightarrow> int \<Rightarrow> world \<Rightarrow> world" where
  "rpmsg_rdev_read_config dev offset dst len w = w"

definition rpmsg_rdev_write_config :: "ptr \<Rightarrow> u32 \<Rightarrow> u32 \<Rightarrow> int \<Rightarrow> world \<Rightarrow> world" where
  "rpmsg_rdev_write_config dev offset src len w = w"

definition rpmsg_rdev_reset :: "ptr \<Rightarrow> world \<Rightarrow> world" where "rpmsg_rdev_reset dev w = w"

section \<open>Queues of the device\<close>

definition INIT_VRING_ALLOC_INFO :: "proc_vring \<Rightarrow> vring_alloc_info" where
  "INIT_VRING_ALLOC_INFO hw = \<lparr>vai_phy_addr = pv_phy_addr hw, vai_align = pv_align hw, vai_num_descs = pv_num_descs hw\<rparr>"

text \<open>The loop that creates a queue per ring; the result is the status and the queues created so far.\<close>

fun rdev_create_vqs ::
  "config \<Rightarrow> ptr \<Rightarrow> nat list \<Rightarrow> char list list \<Rightarrow> vq_fn list \<Rightarrow> proc_vring list \<Rightarrow> ptr list \<Rightarrow> world \<Rightarrow>
     (int \<times> ptr list \<times> world) option" where
  "rdev_create_vqs cf rdev [] names callbacks vrings vqs w = Some (RPMSG_SUCCESS, vqs, w)"
| "rdev_create_vqs cf rdev (idx # idxs) names callbacks vrings vqs w = do {
     rd \<leftarrow> w_rdevs w rdev;
     hw \<leftarrow> aget vrings idx;
     let ring_info = INIT_VRING_ALLOC_INFO hw;
     let w = (if rd_role rd = RPMSG_REMOTE
              then w\<lparr>w_rings := (w_rings w)(vai_phy_addr ring_info \<mapsto> vring_zero (unat (pv_num_descs hw)))\<rparr> else w);
     name \<leftarrow> aget names idx;
     callback \<leftarrow> aget callbacks idx;
     r \<leftarrow> w_rings w (vai_phy_addr ring_info);
     let (p, w) = env_allocate_memory cf w;
     (status, vq, r) \<leftarrow> virtqueue_create (cf_dbg cf) (p \<noteq> NULL) rdev (of_nat idx) name ring_info
         (Some callback) (Some Hil_vring_notify) r;
     (case vq of
        None \<Rightarrow> Some (status, vqs, w)
      | Some vq \<Rightarrow> rdev_create_vqs cf rdev idxs names callbacks vrings (vqs @ [p]) (put_vq p vq r w)) }"

text \<open>The loop that offers receive buffers from the pool.\<close>

fun rdev_fill_rx :: "config \<Rightarrow> remote_device \<Rightarrow> nat list \<Rightarrow> world \<Rightarrow> (int \<times> world) option" where
  "rdev_fill_rx cf rd [] w = Some (RPMSG_SUCCESS, w)"
| "rdev_fill_rx cf rd (idx # idxs) w = do {
     (buffer, w) \<leftarrow> w_sh_mem_get_buffer (rd_mem_pool rd) w;
     (if buffer = 0 then Some (RPMSG_ERR_NO_BUFF, w)
      else do {
        let w = w\<lparr>w_mem := store_bytes (w_mem w) buffer (replicate (unat RPMSG_BUFFER_SIZE) 0)\<rparr>;
        (status, w) \<leftarrow> w_add_buffer cf (rd_rvq rd) [(buffer, RPMSG_BUFFER_SIZE)] 0 1 buffer w;
        (if status \<noteq> RPMSG_SUCCESS then Some (status, w) else rdev_fill_rx cf rd idxs w) }) }"

definition rpmsg_rdev_create_virtqueues ::
  "config \<Rightarrow> ptr \<Rightarrow> u32 \<Rightarrow> char list list \<Rightarrow> vq_fn list \<Rightarrow> world \<Rightarrow> (int \<times> world) option" where
  "rpmsg_rdev_create_virtqueues cf rdev nvqs names callbacks w = do {
     rd \<leftarrow> w_rdevs w rdev;
     vdev \<leftarrow> hil_get_vdev_info (rd_proc rd) w;
     let (vring_table, num_vrings) = hil_get_vring_info vdev;
     (if sint num_vrings > sint nvqs then Some (RPMSG_ERR_MAX_VQ, w)
      else do {
        (status, vqs, w) \<leftarrow> rdev_create_vqs cf rdev [0..<nat (sint num_vrings)] names callbacks vring_table [] w;
        (if status \<noteq> RPMSG_SUCCESS then Some (status, w)
         else do {
           rd \<leftarrow> w_rdevs w rdev;
           v0 \<leftarrow> aget vqs 0;
           v1 \<leftarrow> aget vqs 1;
           let rd = (if rd_role rd = RPMSG_MASTER then rd\<lparr>rd_tvq := v0, rd_rvq := v1\<rparr> else rd\<lparr>rd_tvq := v1, rd_rvq := v0\<rparr>);
           let w = w\<lparr>w_rdevs := (w_rdevs w)(rdev \<mapsto> rd)\<rparr>;
           (if rd_role rd = RPMSG_REMOTE then do {
              vq \<leftarrow> w_vqs w (rd_rvq rd);
              pool \<leftarrow> w_pools w (rd_mem_pool rd);
              rdev_fill_rx cf rd [0..<min (unat (vq_nentries vq)) (sp_total_buffs pool div 2)] w }
            else Some (RPMSG_SUCCESS, w)) }) }) }"

section \<open>Starting communication\<close>

definition rpmsg_rdev_notify :: "config \<Rightarrow> ptr \<Rightarrow> world \<Rightarrow> (int \<times> world) option" where
  "rpmsg_rdev_notify cf rdev w = do {
     rd \<leftarrow> w_rdevs w rdev;
     (status, w) \<leftarrow> (if rd_role rd = RPMSG_REMOTE
        then (if hil_get_status (rd_proc rd) = 0
              then do { w \<leftarrow> w_kick cf (rd_rvq rd) w; Some (hil_get_status (rd_proc rd), w) }
              else Some (hil_get_status (rd_proc rd), w))
        else Some (hil_set_status (rd_proc rd), w));
     (if status = RPMSG_SUCCESS
      then do {
        rd \<leftarrow> w_rdevs w rdev;
        Some (status, w\<lparr>w_rdevs := (w_rdevs w)(rdev \<mapsto> rd\<lparr>rd_state := RPMSG_DEV_STATE_ACTIVE\<rparr>)\<rparr>) }
      else Some (status, w)) }"

definition rpmsg_start_ipc :: "config \<Rightarrow> ptr \<Rightarrow> world \<Rightarrow> (int \<times> world) option" where
  "rpmsg_start_ipc cf rdev w = do {
     rd \<leftarrow> w_rdevs w rdev;
     let (vq_names, callback) =
       (if rd_role rd = RPMSG_MASTER
        then ([cstring ''tx_vq'', cstring ''rx_vq''], [Rpmsg_tx_callback, Rpmsg_rx_callback])
        else ([cstring ''rx_vq'', cstring ''tx_vq''], [Rpmsg_rx_callback, Rpmsg_tx_callback]));
     (status, w) \<leftarrow> rpmsg_rdev_create_virtqueues cf rdev RPMSG_MAX_VQ_PER_RDEV vq_names callback w;
     (if status \<noteq> RPMSG_SUCCESS then Some (status, w)
      else do {
        dev_features \<leftarrow> rpmsg_rdev_get_feature rdev w;
        (ok, w) \<leftarrow> (if dev_features AND push_bit VIRTIO_RPMSG_F_NS 1 \<noteq> 0
           then do {
             rd \<leftarrow> w_rdevs w rdev;
             let w = w\<lparr>w_rdevs := (w_rdevs w)(rdev \<mapsto> rd\<lparr>rd_support_ns := True\<rparr>)\<rparr>;
             (ns_ept, w) \<leftarrow> core_create_endpoint cf rdev (Some Rpmsg_ns_callback) rdev RPMSG_NS_EPT_ADDR w;
             Some (ns_ept \<noteq> NULL, w) }
           else Some (True, w));
        (if \<not> ok then Some (RPMSG_ERR_NO_MEM, w)
         else do {
           rd \<leftarrow> w_rdevs w rdev;
           let vqs = (if rd_role rd = RPMSG_MASTER then [rd_tvq rd, rd_rvq rd] else [rd_rvq rd, rd_tvq rd]);
           (status, w) \<leftarrow> hil_enable_vring_notifications cf 0 (vqs ! 0) w;
           (if status \<noteq> RPMSG_SUCCESS then Some (status, w)
            else do {
              (status, w) \<leftarrow> hil_enable_vring_notifications cf 1 (vqs ! 1) w;
              (if status \<noteq> RPMSG_SUCCESS then Some (status, w) else rpmsg_rdev_notify cf rdev w) }) }) }) }"

section \<open>Creating the device\<close>

fun rdev_init_channels_loop ::
  "config \<Rightarrow> ptr \<Rightarrow> char list list \<Rightarrow> nat list \<Rightarrow> world \<Rightarrow> (int \<times> world) option" where
  "rdev_init_channels_loop cf rdev names [] w = Some (RPMSG_SUCCESS, w)"
| "rdev_init_channels_loop cf rdev names (idx # idxs) w = do {
     name \<leftarrow> aget names idx;
     (chnl, w) \<leftarrow> core_rpmsg_create_channel cf rdev name 0 RPMSG_NS_EPT_ADDR w;
     (if chnl = NULL then Some (RPMSG_ERR_NO_MEM, w)
      else do {
        rd \<leftarrow> w_rdevs w rdev;
        (ept, w) \<leftarrow> rpmsg_create_ept cf chnl (rd_default_cb rd) rdev RPMSG_ADDR_ANY w;
        ch \<leftarrow> w_chnls w chnl;
        let w = w\<lparr>w_chnls := (w_chnls w)(chnl \<mapsto> ch\<lparr>ch_rp_ept := ept\<rparr>)\<rparr>;
        (if ept = NULL then Some (RPMSG_ERR_NO_MEM, w)
         else do {
           ep \<leftarrow> w_epts w ept;
           ch \<leftarrow> w_chnls w chnl;
           let w = w\<lparr>w_chnls := (w_chnls w)(chnl \<mapsto> ch\<lparr>ch_src := ep_addr ep\<rparr>)\<rparr>;
           rdev_init_channels_loop cf rdev names idxs w }) }) }"

definition rpmsg_rdev_init_channels :: "config \<Rightarrow> ptr \<Rightarrow> world \<Rightarrow> (int \<times> world) option" where
  "rpmsg_rdev_init_channels cf rdev w = do {
     rd \<leftarrow> w_rdevs w rdev;
     (if rd_role rd = RPMSG_MASTER then do {
        (chnl_info, num_chnls) \<leftarrow> hil_get_chnl_info (rd_proc rd) w;
        rdev_init_channels_loop cf rdev chnl_info [0..<nat (sint num_chnls)] w }
      else Some (RPMSG_SUCCESS, w)) }"

text \<open>The result holds the new device only when the status is success: \<^verbatim>\<open>*rdev\<close> is written last.\<close>

definition rpmsg_rdev_init ::
  "config \<Rightarrow> u32 \<Rightarrow> u32 \<Rightarrow> nat option \<Rightarrow> nat option \<Rightarrow> rx_cb option \<Rightarrow> world \<Rightarrow> (int \<times> ptr option \<times> world) option" where
  "rpmsg_rdev_init cf dev_id role channel_created channel_destroyed default_cb w = do {
     (proc, w) \<leftarrow> hil_create_proc cf dev_id w;
     (if proc = NULL then Some (RPMSG_ERR_DEV_ID, None, w)
      else do {
        let (rdev, w) = env_allocate_memory cf w;
        (if rdev = NULL then Some (RPMSG_ERR_NO_MEM, None, w)
         else do {
           let rd = rdev_zero\<lparr>rd_proc := proc, rd_role := role, rd_channel_created := channel_created,
                 rd_channel_destroyed := channel_destroyed, rd_default_cb := default_cb,
                 rd_bitmap := (rd_bitmap rdev_zero)[0 := 1], rd_device := proc\<rparr>;
           let w = w\<lparr>w_rdevs := (w_rdevs w)(rdev \<mapsto> rd)\<rparr>;
           pr \<leftarrow> w_procs w proc;
           w \<leftarrow> rpmsg_rdev_set_feature rdev (pd_dfeatures (hp_vdev pr)) w;
           (ok, w) \<leftarrow> (if role = RPMSG_REMOTE then do {
                shm \<leftarrow> hil_get_shm_info proc w;
                (pool, w) \<leftarrow> w_sh_mem_create_pool cf (shm_start_addr shm) (shm_size shm) RPMSG_BUFFER_SIZE w;
                rd \<leftarrow> w_rdevs w rdev;
                Some (pool \<noteq> NULL, w\<lparr>w_rdevs := (w_rdevs w)(rdev \<mapsto> rd\<lparr>rd_mem_pool := pool\<rparr>)\<rparr>) }
              else Some (True, w));
           (if \<not> ok then Some (RPMSG_ERR_NO_MEM, None, w)
            else do {
              (status, w) \<leftarrow> rpmsg_rdev_init_channels cf rdev w;
              (if status \<noteq> RPMSG_SUCCESS then Some (status, None, w) else Some (RPMSG_SUCCESS, Some rdev, w)) }) }) }) }"

section \<open>Shutdown\<close>

partial_function (option) rdev_deinit_loop :: "config \<Rightarrow> ptr \<Rightarrow> ptr \<Rightarrow> world \<Rightarrow> world option" where
  "rdev_deinit_loop cf rdev node w =
     (if node = NULL then Some w
      else do {
        nd \<leftarrow> w_nodes w node;
        let chnl = ll_data nd;
        rd \<leftarrow> w_rdevs w rdev;
        w \<leftarrow> call_chnl_cb cf (rd_channel_destroyed rd) chnl w;
        rd \<leftarrow> w_rdevs w rdev;
        w \<leftarrow> (if rd_support_ns rd \<and> rd_role rd = RPMSG_MASTER
             then rpmsg_send_ns_message cf rdev chnl RPMSG_NS_DESTROY w else Some w);
        ch \<leftarrow> w_chnls w chnl;
        w \<leftarrow> rpmsg_destroy_ept (ch_rp_ept ch) w;
        w \<leftarrow> core_rpmsg_delete_channel chnl w;
        rdev_deinit_loop cf rdev (ll_next nd) w })"

declare rdev_deinit_loop.simps [code]

definition rpmsg_rdev_deinit :: "config \<Rightarrow> ptr \<Rightarrow> world \<Rightarrow> world option" where
  "rpmsg_rdev_deinit cf rdev w = do {
     rd \<leftarrow> w_rdevs w rdev;
     w \<leftarrow> rdev_deinit_loop cf rdev (rd_rp_channels rd) w;
     (node, w) \<leftarrow> rpmsg_rdev_get_endpoint_from_addr rdev RPMSG_NS_EPT_ADDR w;
     w \<leftarrow> (if node = NULL then Some w
          else do { nd \<leftarrow> w_nodes w node; core_destroy_endpoint rdev (ll_data nd) w });
     rd \<leftarrow> w_rdevs w rdev;
     w \<leftarrow> w_virtqueue_free (rd_rvq rd) w;
     w \<leftarrow> w_virtqueue_free (rd_tvq rd) w;
     let w = sh_mem_delete_pool (rd_mem_pool rd) w;
     w \<leftarrow> hil_delete_proc (rd_proc rd) w;
     Some (w\<lparr>w_rdevs := (w_rdevs w)(rdev := None)\<rparr>) }"

definition rpmsg_deinit :: "config \<Rightarrow> ptr \<Rightarrow> world \<Rightarrow> world option" where
  "rpmsg_deinit cf rdev w =
     (if rdev = NULL then Some w
      else do { w \<leftarrow> rpmsg_rdev_deinit cf rdev w; Some (snd (env_deinit w)) })"

text \<open>\<open>rdev0\<close> is the content of the caller's variable before the call.\<close>

definition rpmsg_init ::
  "config \<Rightarrow> u32 \<Rightarrow> ptr \<Rightarrow> nat option \<Rightarrow> nat option \<Rightarrow> rx_cb option \<Rightarrow> u32 \<Rightarrow> world \<Rightarrow> (int \<times> ptr \<times> world) option" where
  "rpmsg_init cf dev_id rdev0 channel_created channel_destroyed default_cb role w = do {
     let (status, w) = env_init w;
     (status, rdev, w) \<leftarrow> (if status = RPMSG_SUCCESS then do {
          (status, r, w) \<leftarrow> rpmsg_rdev_init cf dev_id role channel_created channel_destroyed default_cb w;
          let rdev = (case r of None \<Rightarrow> rdev0 | Some p \<Rightarrow> p);
          (if status = RPMSG_SUCCESS then do { (status, w) \<leftarrow> rpmsg_start_ipc cf rdev w; Some (status, rdev, w) }
           else Some (status, rdev, w)) }
        else Some (status, rdev0, w));
     w \<leftarrow> (if status \<noteq> RPMSG_SUCCESS then rpmsg_deinit cf rdev w else Some w);
     Some (status, rdev, w) }"

end
