(* ===== verification/VqFrame.thy ===== *)
theory VqFrame
  imports VqBoundary
begin

text \<open>
  What the queue operations leave alone in a control block: the device it belongs to, its place and its
  functions.  The layers above rely on it when they kick a queue after using it.
\<close>

text \<open>What a queue operation keeps of a control block: the device, the place and the functions of the queue.\<close>

definition vq_ident :: "virtqueue \<Rightarrow> ptr \<times> u16 \<times> u32 \<times> vq_fn option \<times> vq_fn option \<times> u32" where
  "vq_ident vq = (vq_dev vq, vq_queue_index vq, vq_ring_mem vq, vq_notify vq, vq_callback vq, vq_flags vq)"

lemma VQUEUE_BUSY_Some: "VQUEUE_BUSY dbg vq = Some vq' \<longleftrightarrow> \<not> (dbg \<and> vq_inuse vq) \<and> vq' = vq\<lparr>vq_inuse := dbg \<or> vq_inuse vq\<rparr>"
  by (cases vq) (auto simp: VQUEUE_BUSY_def)

lemma vq_ident_upd [simp]:
  "vq_ident (vq\<lparr>vq_queued_cnt := a\<rparr>) = vq_ident vq" "vq_ident (vq\<lparr>vq_descx := b\<rparr>) = vq_ident vq"
  "vq_ident (vq\<lparr>vq_desc_head_idx := c\<rparr>) = vq_ident vq" "vq_ident (vq\<lparr>vq_free_cnt := e\<rparr>) = vq_ident vq"
  "vq_ident (vq\<lparr>vq_used_cons_idx := c\<rparr>) = vq_ident vq" "vq_ident (vq\<lparr>vq_inuse := f\<rparr>) = vq_ident vq"
  "vq_ident (VQUEUE_IDLE dbg vq) = vq_ident vq" "vq_ident (vq\<lparr>vq_available_idx := c\<rparr>) = vq_ident vq"
  by (simp_all add: vq_ident_def VQUEUE_IDLE_def)

lemma update_avail_ident: "vq_ring_update_avail vq i r = Some (vq', r') \<Longrightarrow> vq_ident vq' = vq_ident vq"
  by (auto simp: vq_ring_update_avail_def option_bind_simps Let_def)

lemma free_chain_ident: "vq_ring_free_chain dbg vq i r = Some (vq', r') \<Longrightarrow> vq_ident vq' = vq_ident vq"
  by (auto simp: vq_ring_free_chain_def option_bind_simps Let_def)

lemma add_buffer_ident:
  assumes "virtqueue_add_buffer dbg va vq bufs rd wr ck r = Some (st, vq', r')"
  shows "vq_ident vq' = vq_ident vq"
proof (cases "VQ_PARAM_CHK dbg (vq_free_cnt vq = 0) ERROR_VRING_FULL
    (VQ_PARAM_CHK dbg (rd + wr < 1) ERROR_VQUEUE_INVLD_PARAM VQUEUE_SUCCESS) = VQUEUE_SUCCESS")
  case True
  with assms show ?thesis
    by (simp add: virtqueue_add_buffer_def option_bind_simps Let_def VQUEUE_BUSY_Some)
      (auto dest!: update_avail_ident)
next
  case False
  with assms show ?thesis by (auto simp: virtqueue_add_buffer_def option_bind_simps Let_def VQUEUE_BUSY_Some)
qed

lemma get_buffer_ident:
  assumes "virtqueue_get_buffer dbg vq r = Some (ck, len, vq', r')"
  shows "vq_ident vq' = vq_ident vq"
proof (cases "vq_used_cons_idx vq = vr_used_idx r")
  case False
  with assms show ?thesis
    by (simp add: virtqueue_get_buffer_def option_bind_simps Let_def VQUEUE_BUSY_Some)
      (auto dest!: free_chain_ident)
qed (use assms in \<open>simp add: virtqueue_get_buffer_def\<close>)

lemma get_available_ident:
  "virtqueue_get_available_buffer dbg pv vq r = Some (b, out, vq') \<Longrightarrow> vq_ident vq' = vq_ident vq"
  by (auto simp: virtqueue_get_available_buffer_def option_bind_simps Let_def VQUEUE_BUSY_Some split: if_splits)

lemma add_consumed_ident:
  "virtqueue_add_consumed_buffer dbg vq i len r = Some (st, vq', r') \<Longrightarrow> vq_ident vq' = vq_ident vq"
  by (auto simp: virtqueue_add_consumed_buffer_def option_bind_simps Let_def VQUEUE_BUSY_Some split: if_splits)

lemma ring_rel_queued [simp]:
  "ring_rel va \<lparr>rs_drv = vq\<lparr>vq_queued_cnt := n\<rparr>, rs_dev = d, rs_ring = r\<rparr> A \<longleftrightarrow>
   ring_rel va \<lparr>rs_drv = vq, rs_dev = d, rs_ring = r\<rparr> A"
  "ring_rel va \<lparr>rs_drv = vq, rs_dev = d\<lparr>vq_queued_cnt := n\<rparr>, rs_ring = r\<rparr> A \<longleftrightarrow>
   ring_rel va \<lparr>rs_drv = vq, rs_dev = d, rs_ring = r\<rparr> A"
  by (simp_all add: ring_rel_def ring_geometry_def ring_free_def ring_owned_def ring_tokens_def ring_avail_def ring_used_def)

end
