(* ===== verification/RpmsgRx.thy ===== *)
theory RpmsgRx
  imports RpmsgInit VqFrame
begin

text \<open>
  Correctness of receiving on the device side: the receive callback hands every pending message
  to the endpoint it is addressed to, in order and with its payload, returns every buffer to the sender, and
  ends.
\<close>

section \<open>Frame facts\<close>

lemma put_vq_frame [simp]:
  "w_mem (put_vq p vq r w) = w_mem w" "w_nodes (put_vq p vq r w) = w_nodes w"
  "w_chnls (put_vq p vq r w) = w_chnls w" "w_epts (put_vq p vq r w) = w_epts w"
  "w_rdevs (put_vq p vq r w) = w_rdevs w" "w_pools (put_vq p vq r w) = w_pools w"
  "w_procs (put_vq p vq r w) = w_procs w" "w_app (put_vq p vq r w) = w_app w"
  "w_next (put_vq p vq r w) = w_next w" "w_allocs (put_vq p vq r w) = w_allocs w"
  by (simp_all add: put_vq_def)

lemma get_put_vq [simp]: "get_vq p (put_vq p vq r w) = Some (vq, r)"
  by (simp add: get_vq_def put_vq_def)

lemma get_vq_lock [simp]: "get_vq p (env_lock_mutex w) = get_vq p w" "get_vq p (env_unlock_mutex w) = get_vq p w"
  by (simp_all add: get_vq_def)

text \<open>The parts of the state the receive path only reads.\<close>

definition same_objects :: "world \<Rightarrow> world \<Rightarrow> bool" where
  "same_objects w w' \<longleftrightarrow> w_mem w' = w_mem w \<and> w_nodes w' = w_nodes w \<and> w_chnls w' = w_chnls w \<and>
     w_epts w' = w_epts w \<and> w_rdevs w' = w_rdevs w"

lemma ept_addr_is_cong: "w_epts w' = w_epts w \<Longrightarrow> ept_addr_is a w' = ept_addr_is a w"
  by (simp add: ept_addr_is_def fun_eq_iff)

section \<open>The device side of a queue in the heap\<close>

lemma w_take_pending:
  assumes "get_vq p w = Some (vq, r)" "ring_rel va \<lparr>rs_drv = d, rs_dev = vq, rs_ring = r\<rparr> A" "ra_pend A = t # ts"
  shows "\<exists>vq'. w_get_available_buffer cf p w =
      Some (cf_patova cf (va (fst (hd (tk_bufs t)))), Some (tk_head t, snd (hd (tk_bufs t))), put_vq p vq' r w) \<and>
    vq_ident vq' = vq_ident vq \<and>
    ring_rel va \<lparr>rs_drv = d, rs_dev = vq', rs_ring = r\<rparr> (A\<lparr>ra_pend := ts, ra_taken := ra_taken A @ [t]\<rparr>)"
proof -
  have "abs_step (cf_patova cf \<circ> va) Take A =
      Some (Took (cf_patova cf (va (fst (hd (tk_bufs t))))) (Some (tk_head t, snd (hd (tk_bufs t)))),
        A\<lparr>ra_pend := ts, ra_taken := ra_taken A @ [t]\<rparr>)" using assms(3) by simp
  from take_sim [OF assms(2) this, of "cf_dbg cf"] obtain s' where s:
    "ring_step (cf_dbg cf) va (cf_patova cf) Take \<lparr>rs_drv = d, rs_dev = vq, rs_ring = r\<rparr> =
      Some (Took (cf_patova cf (va (fst (hd (tk_bufs t))))) (Some (tk_head t, snd (hd (tk_bufs t)))), s')"
    "ring_rel va s' (A\<lparr>ra_pend := ts, ra_taken := ra_taken A @ [t]\<rparr>)" by blast
  from s(1) obtain vq' where g: "virtqueue_get_available_buffer (cf_dbg cf) (cf_patova cf) vq r =
      Some (cf_patova cf (va (fst (hd (tk_bufs t)))), Some (tk_head t, snd (hd (tk_bufs t))), vq')"
    and s': "s' = \<lparr>rs_drv = d, rs_dev = vq', rs_ring = r\<rparr>"
    by (auto simp: option_bind_simps)
  show ?thesis using assms(1) g s(2) s' get_available_ident [OF g] by (auto simp: w_get_available_buffer_def)
qed

lemma w_take_empty:
  assumes "get_vq p w = Some (vq, r)" "ring_rel va \<lparr>rs_drv = d, rs_dev = vq, rs_ring = r\<rparr> A" "ra_pend A = []"
  shows "w_get_available_buffer cf p w = Some (0, None, put_vq p vq r w)"
proof -
  have "vq_available_idx vq = vr_avail_idx r" using assms(2,3) by (simp add: ring_rel_def ring_avail_def)
  then show ?thesis using assms(1) by (simp add: w_get_available_buffer_def virtqueue_get_available_buffer_def)
qed

lemma w_give_taken:
  assumes "get_vq p w = Some (vq, r)" "ring_rel va \<lparr>rs_drv = d, rs_dev = vq, rs_ring = r\<rparr> A"
    "ra_taken A = ys @ [t]"
  shows "\<exists>vq' r'. w_add_consumed_buffer cf p (tk_head t) len w = Some (VQUEUE_SUCCESS, put_vq p vq' r' w) \<and>
    vq_ident vq' = vq_ident vq \<and>
    ring_rel va \<lparr>rs_drv = d, rs_dev = vq', rs_ring = r'\<rparr> (A\<lparr>ra_taken := ys, ra_used := ra_used A @ [(t, len)]\<rparr>)"
proof -
  have t: "t \<in> set (tokens A)" by (simp add: tokens_def assms(3))
  have ny: "t \<notin> set ys" using distinct_tokens [OF assms(2)] by (auto simp: tokens_def assms(3))
  have f: "filter (\<lambda>x. tk_head x = tk_head t) (ra_taken A) = [t]"
  proof -
    have "tk_head x \<noteq> tk_head t" if "x \<in> set ys" for x
      using token_by_head [OF assms(2) _ t, of x] that ny by (auto simp: tokens_def assms(3))
    then have "filter (\<lambda>x. tk_head x = tk_head t) ys = []" by (simp add: filter_empty_conv)
    then show ?thesis by (simp add: assms(3))
  qed
  have "abs_step (cf_patova cf \<circ> va) (Give (tk_head t) len) A =
      Some (Given, A\<lparr>ra_taken := ys, ra_used := ra_used A @ [(t, len)]\<rparr>)"
    using f ny by (simp add: assms(3) remove1_append)
  from give_sim [OF assms(2) this, of "cf_dbg cf"] obtain s' where s:
    "ring_step (cf_dbg cf) va (cf_patova cf) (Give (tk_head t) len) \<lparr>rs_drv = d, rs_dev = vq, rs_ring = r\<rparr> = Some (Given, s')"
    "ring_rel va s' (A\<lparr>ra_taken := ys, ra_used := ra_used A @ [(t, len)]\<rparr>)" by blast
  from s(1) obtain vq' r' where g: "virtqueue_add_consumed_buffer (cf_dbg cf) vq (tk_head t) len r = Some (VQUEUE_SUCCESS, vq', r')"
    and s': "s' = \<lparr>rs_drv = d, rs_dev = vq', rs_ring = r'\<rparr>"
    by (auto simp: option_bind_simps split: if_splits)
  show ?thesis using assms(1) g s(2) s' add_consumed_ident [OF g] by (auto simp: w_add_consumed_buffer_def)
qed

section \<open>Delivery of one message\<close>

text \<open>An application whose receive callback records the payload and changes nothing else.\<close>

definition recording_app :: "config \<Rightarrow> bool" where
  "recording_app cf \<longleftrightarrow> (\<forall>n chnl data len priv src w. cf_rx_cb cf n chnl data len priv src w =
     Some (w\<lparr>w_app := w_app w @ [Rx_event n chnl (load_bytes (w_mem w) data (unat len)) src]\<rparr>))"

fun app_cb :: "rx_cb option \<Rightarrow> nat option" where
  "app_cb (Some (App_rx_cb n)) = Some n"
| "app_cb _ = None"

lemma app_cb_eq: "app_cb cb = Some n \<longleftrightarrow> cb = Some (App_rx_cb n)"
  by (cases cb rule: app_cb.cases) auto

text \<open>The application endpoint behind an address: its callback and its channel.\<close>

definition rx_target :: "world \<Rightarrow> ptr \<Rightarrow> u32 \<Rightarrow> (nat \<times> ptr) option" where
  "rx_target w rdev addr = do {
     rd \<leftarrow> w_rdevs w rdev;
     node \<leftarrow> find_node (w_nodes w) (ept_addr_is addr w) (rd_rp_endpoints rd);
     (if node = NULL then None
      else do {
        nd \<leftarrow> w_nodes w node;
        ep \<leftarrow> w_epts w (ll_data nd);
        ns \<leftarrow> chnl_in_ns (ep_rp_chnl ep) w;
        n \<leftarrow> app_cb (ep_cb ep);
        (if ns then None else Some (n, ep_rp_chnl ep)) }) }"

definition msg_event :: "world \<Rightarrow> ptr \<Rightarrow> u32 \<Rightarrow> app_event" where
  "msg_event w rdev hdr =
     (let (n, chnl) = the (rx_target w rdev (load32 (w_mem w) (hdr + 4)))
      in Rx_event n chnl (load_bytes (w_mem w) (RPMSG_LOCATE_DATA hdr) (unat (load16 (w_mem w) (hdr + 12)))) (load32 (w_mem w) hdr))"

lemma chnl_in_ns_cong: "w_chnls w' = w_chnls w \<Longrightarrow> chnl_in_ns c w' = chnl_in_ns c w"
  by (cases "c = NULL") (simp_all add: chnl_in_ns_def)

lemma rx_target_cong:
  assumes "same_objects w w'"
  shows "rx_target w' rdev addr = rx_target w rdev addr"
proof -
  have e: "w_nodes w' = w_nodes w" "w_epts w' = w_epts w" "w_rdevs w' = w_rdevs w" "w_chnls w' = w_chnls w"
    using assms by (simp_all add: same_objects_def)
  show ?thesis unfolding rx_target_def e ept_addr_is_cong [OF e(2)] chnl_in_ns_cong [OF e(4)] ..
qed

lemma msg_event_cong: "same_objects w w' \<Longrightarrow> msg_event w' rdev hdr = msg_event w rdev hdr"
  using rx_target_cong [of w w' rdev] by (simp add: msg_event_def same_objects_def)

lemma same_objects_trans: "same_objects w1 w2 \<Longrightarrow> same_objects w2 w3 \<Longrightarrow> same_objects w1 w3"
  by (simp add: same_objects_def)

lemma deliver_message:
  assumes "rx_target w rdev (load32 (w_mem w) (hdr + 4)) = Some (n, chnl)" "recording_app cf"
  shows "\<exists>node w1. rpmsg_rdev_get_endpoint_from_addr rdev (load32 (w_mem w) (hdr + 4)) w = Some (node, w1) \<and> node \<noteq> NULL \<and>
    w1 = env_unlock_mutex (env_lock_mutex w) \<and>
    rpmsg_deliver cf rdev node hdr w1 = Some (w1\<lparr>w_app := w_app w @ [msg_event w rdev hdr]\<rparr>)"
proof -
  let ?a = "load32 (w_mem w) (hdr + 4)" and ?w1 = "env_unlock_mutex (env_lock_mutex w)"
  from assms(1) obtain rd node nd ep where r: "w_rdevs w rdev = Some rd"
    "find_node (w_nodes w) (ept_addr_is ?a w) (rd_rp_endpoints rd) = Some node" "node \<noteq> NULL"
    "w_nodes w node = Some nd" "w_epts w (ll_data nd) = Some ep" "ep_cb ep = Some (App_rx_cb n)" "chnl = ep_rp_chnl ep"
    "chnl_in_ns (ep_rp_chnl ep) w = Some False"
    by (auto simp: rx_target_def option_bind_simps app_cb_eq split: if_splits)
  have ns: "chnl_in_ns (ep_rp_chnl ep) ?w1 = Some False" using r(8) chnl_in_ns_cong [of ?w1 w] by simp
  have l: "ept_addr_is ?a (env_lock_mutex w) = ept_addr_is ?a w" by (rule ept_addr_is_cong) simp
  have "rpmsg_rdev_get_endpoint_from_addr rdev ?a w = Some (node, ?w1)"
    using r by (simp add: rpmsg_rdev_get_endpoint_from_addr_def l Let_def)
  moreover have "rpmsg_deliver cf rdev node hdr ?w1 = Some (?w1\<lparr>w_app := w_app w @ [msg_event w rdev hdr]\<rparr>)"
    using r ns assms by (simp add: rpmsg_deliver_def call_rx_cb_def recording_app_def msg_event_def)
  ultimately show ?thesis using r(3) by blast
qed

section \<open>The receive loop\<close>

text \<open>Where the receiver finds the message of a chain offered under the address map \<open>va\<close>.\<close>

definition msg_hdr :: "config \<Rightarrow> (u32 \<Rightarrow> u32) \<Rightarrow> token \<Rightarrow> u32" where
  "msg_hdr cf va t = cf_vatopa cf (cf_patova cf (va (fst (hd (tk_bufs t)))))"

definition rx_ready :: "config \<Rightarrow> (u32 \<Rightarrow> u32) \<Rightarrow> world \<Rightarrow> ptr \<Rightarrow> token \<Rightarrow> bool" where
  "rx_ready cf va w rdev t \<longleftrightarrow> msg_hdr cf va t \<noteq> 0 \<and> rx_target w rdev (load32 (w_mem w) (msg_hdr cf va t + 4)) \<noteq> None"

definition tk_len :: "token \<Rightarrow> u32" where
  "tk_len t = snd (hd (tk_bufs t))"

lemma rx_ready_cong: "same_objects w w' \<Longrightarrow> rx_ready cf va w' rdev t = rx_ready cf va w rdev t"
  using rx_target_cong [of w w' rdev] by (simp add: rx_ready_def same_objects_def)

lemma get_rx_pending:
  assumes "w_rdevs w rdev = Some rd" "rd_role rd \<noteq> RPMSG_REMOTE" "get_vq (rd_rvq rd) w = Some (vq, r)"
    "ring_rel va \<lparr>rs_drv = d, rs_dev = vq, rs_ring = r\<rparr> A" "ra_pend A = t # ts"
  shows "\<exists>vq'. rpmsg_get_rx_buffer cf rdev len idx w = Some (msg_hdr cf va t, tk_len t, tk_head t, put_vq (rd_rvq rd) vq' r w) \<and>
    ring_rel va \<lparr>rs_drv = d, rs_dev = vq', rs_ring = r\<rparr> (A\<lparr>ra_pend := ts, ra_taken := ra_taken A @ [t]\<rparr>)"
  using w_take_pending [OF assms(3-5), of cf] assms(1,2)
  by (auto simp: rpmsg_get_rx_buffer_def msg_hdr_def tk_len_def)

lemma get_rx_empty:
  assumes "w_rdevs w rdev = Some rd" "rd_role rd \<noteq> RPMSG_REMOTE" "get_vq (rd_rvq rd) w = Some (vq, r)"
    "ring_rel va \<lparr>rs_drv = d, rs_dev = vq, rs_ring = r\<rparr> A" "ra_pend A = []"
  shows "rpmsg_get_rx_buffer cf rdev len idx w = Some (cf_vatopa cf 0, len, idx, put_vq (rd_rvq rd) vq r w)"
  using w_take_empty [OF assms(3-5), of cf] assms(1,2) by (simp add: rpmsg_get_rx_buffer_def)

text \<open>
  The loop ends on an empty queue when the translation of the null pointer is null, or when the
  bytes at the translated address name no endpoint.  (The translation of Zynq-7000 maps 0 to
  \<open>0x08000000\<close>, so there the second case is what ends the loop.)
\<close>

definition rx_stops :: "config \<Rightarrow> world \<Rightarrow> ptr \<Rightarrow> bool" where
  "rx_stops cf w rdev \<longleftrightarrow> cf_vatopa cf 0 = 0 \<or>
     (case w_rdevs w rdev of None \<Rightarrow> False
      | Some rd \<Rightarrow> find_node (w_nodes w) (ept_addr_is (load32 (w_mem w) (cf_vatopa cf 0 + 4)) w) (rd_rp_endpoints rd) = Some NULL)"

lemma rx_stops_cong:
  assumes "same_objects w w'"
  shows "rx_stops cf w' rdev = rx_stops cf w rdev"
proof -
  have e: "w_nodes w' = w_nodes w" "w_epts w' = w_epts w" "w_rdevs w' = w_rdevs w" "w_mem w' = w_mem w"
    using assms by (simp_all add: same_objects_def)
  show ?thesis unfolding rx_stops_def e ept_addr_is_cong [OF e(2)] ..
qed

lemma rx_loop_stops:
  assumes "rx_stops cf w rdev"
  shows "\<exists>w'. rpmsg_rx_loop cf rdev (cf_vatopa cf 0) len idx w = Some w' \<and> same_objects w w' \<and> w_app w' = w_app w \<and>
    (\<forall>p. get_vq p w' = get_vq p w)"
proof (cases "cf_vatopa cf 0 = 0")
  case True
  then show ?thesis by (subst rpmsg_rx_loop.simps) (simp add: same_objects_def)
next
  case False
  let ?a = "load32 (w_mem w) (cf_vatopa cf 0 + 4)"
  from False assms obtain rd where rd: "w_rdevs w rdev = Some rd"
    "find_node (w_nodes w) (ept_addr_is ?a w) (rd_rp_endpoints rd) = Some NULL"
    by (auto simp: rx_stops_def split: option.splits)
  have "ept_addr_is ?a (env_lock_mutex w) = ept_addr_is ?a w" by (rule ept_addr_is_cong) simp
  then have "rpmsg_rdev_get_endpoint_from_addr rdev ?a w = Some (NULL, env_unlock_mutex (env_lock_mutex w))"
    using rd by (simp add: rpmsg_rdev_get_endpoint_from_addr_def Let_def)
  then show ?thesis using False by (subst rpmsg_rx_loop.simps) (simp add: same_objects_def)
qed

text \<open>One turn of the loop: the message is delivered and its buffer given back.\<close>

lemma rx_iteration:
  assumes "recording_app cf" "w_rdevs w rdev = Some rd" "rd_role rd \<noteq> RPMSG_REMOTE"
    "get_vq (rd_rvq rd) w = Some (vq, r)" "ring_rel va \<lparr>rs_drv = d, rs_dev = vq, rs_ring = r\<rparr> A"
    "ra_taken A = ys @ [t]" "rx_ready cf va w rdev t"
  shows "\<exists>w' vq' r'. rpmsg_rx_loop cf rdev (msg_hdr cf va t) (tk_len t) (tk_head t) w =
      do { (hdr, len, idx, w) \<leftarrow> rpmsg_get_rx_buffer cf rdev (tk_len t) (tk_head t) w';
           rpmsg_rx_loop cf rdev hdr len idx (env_unlock_mutex w) } \<and>
    w_app w' = w_app w @ [msg_event w rdev (msg_hdr cf va t)] \<and> same_objects w w' \<and>
    get_vq (rd_rvq rd) w' = Some (vq', r') \<and>
    ring_rel va \<lparr>rs_drv = d, rs_dev = vq', rs_ring = r'\<rparr> (A\<lparr>ra_taken := ys, ra_used := ra_used A @ [(t, tk_len t)]\<rparr>)"
proof -
  from assms(7) obtain n chnl where hz: "msg_hdr cf va t \<noteq> 0"
    and tg: "rx_target w rdev (load32 (w_mem w) (msg_hdr cf va t + 4)) = Some (n, chnl)" by (auto simp: rx_ready_def)
  let ?w1 = "env_unlock_mutex (env_lock_mutex w)"
  from deliver_message [OF tg assms(1)] obtain node where ep:
    "rpmsg_rdev_get_endpoint_from_addr rdev (load32 (w_mem w) (msg_hdr cf va t + 4)) w = Some (node, ?w1)" "node \<noteq> NULL"
    and dl: "rpmsg_deliver cf rdev node (msg_hdr cf va t) ?w1 =
      Some (?w1\<lparr>w_app := w_app w @ [msg_event w rdev (msg_hdr cf va t)]\<rparr>)" by blast
  let ?w2 = "env_lock_mutex (?w1\<lparr>w_app := w_app w @ [msg_event w rdev (msg_hdr cf va t)]\<rparr>)"
  have g2: "get_vq (rd_rvq rd) ?w2 = Some (vq, r)" using assms(4) by (simp add: get_vq_def)
  from w_give_taken [OF g2 assms(5,6), of cf "tk_len t"] obtain vq' r' where gv:
    "w_add_consumed_buffer cf (rd_rvq rd) (tk_head t) (tk_len t) ?w2 = Some (VQUEUE_SUCCESS, put_vq (rd_rvq rd) vq' r' ?w2)"
    "ring_rel va \<lparr>rs_drv = d, rs_dev = vq', rs_ring = r'\<rparr> (A\<lparr>ra_taken := ys, ra_used := ra_used A @ [(t, tk_len t)]\<rparr>)" by blast
  let ?w3 = "put_vq (rd_rvq rd) vq' r' ?w2"
  have "rpmsg_return_buffer cf rdev (msg_hdr cf va t) (tk_len t) (tk_head t) ?w2 = Some ?w3"
    using gv(1) assms(2,3) by (simp add: rpmsg_return_buffer_def)
  then have "rpmsg_rx_loop cf rdev (msg_hdr cf va t) (tk_len t) (tk_head t) w =
      do { (hdr, len, idx, w) \<leftarrow> rpmsg_get_rx_buffer cf rdev (tk_len t) (tk_head t) ?w3;
           rpmsg_rx_loop cf rdev hdr len idx (env_unlock_mutex w) }"
    using hz ep dl by (subst rpmsg_rx_loop.simps) simp
  then show ?thesis using gv(2)
    by (intro exI [of _ ?w3] exI [of _ vq'] exI [of _ r']) (simp add: same_objects_def)
qed

lemma rx_loop_delivers:
  assumes "recording_app cf" "rx_stops cf w rdev" "w_rdevs w rdev = Some rd" "rd_role rd \<noteq> RPMSG_REMOTE"
    "get_vq (rd_rvq rd) w = Some (vq, r)" "ring_rel va \<lparr>rs_drv = d, rs_dev = vq, rs_ring = r\<rparr> A"
    "ra_taken A = ys @ [t]" "ra_pend A = ts" "\<forall>x \<in> set (t # ts). rx_ready cf va w rdev x"
  shows "\<exists>w' vq' r'. rpmsg_rx_loop cf rdev (msg_hdr cf va t) (tk_len t) (tk_head t) w = Some w' \<and>
    w_app w' = w_app w @ map (\<lambda>x. msg_event w rdev (msg_hdr cf va x)) (t # ts) \<and> same_objects w w' \<and>
    get_vq (rd_rvq rd) w' = Some (vq', r') \<and>
    ring_rel va \<lparr>rs_drv = d, rs_dev = vq', rs_ring = r'\<rparr>
      (A\<lparr>ra_pend := [], ra_taken := ys, ra_used := ra_used A @ map (\<lambda>x. (x, tk_len x)) (t # ts)\<rparr>)"
  using assms
proof (induction ts arbitrary: w vq r A t)
  case Nil
  from rx_iteration [OF Nil.prems(1,3-7)] Nil.prems(9) obtain w1 vq' r' where it:
    "rpmsg_rx_loop cf rdev (msg_hdr cf va t) (tk_len t) (tk_head t) w =
      do { (hdr, len, idx, w) \<leftarrow> rpmsg_get_rx_buffer cf rdev (tk_len t) (tk_head t) w1;
           rpmsg_rx_loop cf rdev hdr len idx (env_unlock_mutex w) }"
    "w_app w1 = w_app w @ [msg_event w rdev (msg_hdr cf va t)]" "same_objects w w1"
    "get_vq (rd_rvq rd) w1 = Some (vq', r')"
    "ring_rel va \<lparr>rs_drv = d, rs_dev = vq', rs_ring = r'\<rparr> (A\<lparr>ra_taken := ys, ra_used := ra_used A @ [(t, tk_len t)]\<rparr>)" by auto
  have rd: "w_rdevs w1 rdev = Some rd" using it(3) Nil.prems(3) by (simp add: same_objects_def)
  let ?w2 = "env_unlock_mutex (put_vq (rd_rvq rd) vq' r' w1)"
  have so: "same_objects w ?w2" using it(3) by (simp add: same_objects_def)
  from rx_loop_stops [of cf ?w2 rdev "tk_len t" "tk_head t"] Nil.prems(2) rx_stops_cong [OF so]
  obtain w3 where w3: "rpmsg_rx_loop cf rdev (cf_vatopa cf 0) (tk_len t) (tk_head t) ?w2 = Some w3" "same_objects ?w2 w3"
    "w_app w3 = w_app ?w2" "\<forall>p. get_vq p w3 = get_vq p ?w2" by blast
  have "rpmsg_rx_loop cf rdev (msg_hdr cf va t) (tk_len t) (tk_head t) w = Some w3"
    using it(1) get_rx_empty [OF rd Nil.prems(4) it(4,5)] Nil.prems(8) w3(1) by simp
  moreover have "A\<lparr>ra_pend := [], ra_taken := ys, ra_used := us\<rparr> = A\<lparr>ra_taken := ys, ra_used := us\<rparr>" for us
    using Nil.prems(8) by (cases A) simp
  ultimately show ?case using it(2,5) w3(3,4) same_objects_trans [OF so w3(2)]
    by (intro exI [of _ w3] exI [of _ vq'] exI [of _ r']) simp
next
  case (Cons t' ts)
  from rx_iteration [OF Cons.prems(1,3-7)] Cons.prems(9) obtain w1 vq' r' where it:
    "rpmsg_rx_loop cf rdev (msg_hdr cf va t) (tk_len t) (tk_head t) w =
      do { (hdr, len, idx, w) \<leftarrow> rpmsg_get_rx_buffer cf rdev (tk_len t) (tk_head t) w1;
           rpmsg_rx_loop cf rdev hdr len idx (env_unlock_mutex w) }"
    "w_app w1 = w_app w @ [msg_event w rdev (msg_hdr cf va t)]" "same_objects w w1"
    "get_vq (rd_rvq rd) w1 = Some (vq', r')"
    "ring_rel va \<lparr>rs_drv = d, rs_dev = vq', rs_ring = r'\<rparr> (A\<lparr>ra_taken := ys, ra_used := ra_used A @ [(t, tk_len t)]\<rparr>)" by auto
  have rd: "w_rdevs w1 rdev = Some rd" using it(3) Cons.prems(3) by (simp add: same_objects_def)
  from get_rx_pending [OF rd Cons.prems(4) it(4,5), of t' ts cf "tk_len t" "tk_head t"] Cons.prems(8)
  obtain vq'' where gr: "rpmsg_get_rx_buffer cf rdev (tk_len t) (tk_head t) w1 =
      Some (msg_hdr cf va t', tk_len t', tk_head t', put_vq (rd_rvq rd) vq'' r' w1)"
    and R: "ring_rel va \<lparr>rs_drv = d, rs_dev = vq'', rs_ring = r'\<rparr>
      (A\<lparr>ra_used := ra_used A @ [(t, tk_len t)], ra_pend := ts, ra_taken := ys @ [t']\<rparr>)" by auto
  let ?w2 = "env_unlock_mutex (put_vq (rd_rvq rd) vq'' r' w1)"
  have so: "same_objects w ?w2" using it(3) by (simp add: same_objects_def)
  have "\<forall>x \<in> set (t' # ts). rx_ready cf va ?w2 rdev x" using Cons.prems(9) rx_ready_cong [OF so] by simp
  moreover have "rx_stops cf ?w2 rdev" using Cons.prems(2) rx_stops_cong [OF so] by simp
  ultimately obtain w' v2 r2 where ih: "rpmsg_rx_loop cf rdev (msg_hdr cf va t') (tk_len t') (tk_head t') ?w2 = Some w'"
    "w_app w' = w_app ?w2 @ map (\<lambda>x. msg_event ?w2 rdev (msg_hdr cf va x)) (t' # ts)" "same_objects ?w2 w'"
    "get_vq (rd_rvq rd) w' = Some (v2, r2)"
    "ring_rel va \<lparr>rs_drv = d, rs_dev = v2, rs_ring = r2\<rparr> (A\<lparr>ra_pend := [], ra_taken := ys, ra_used :=
       ra_used A @ map (\<lambda>x. (x, tk_len x)) (t # t' # ts)\<rparr>)"
    using Cons.IH [OF Cons.prems(1) _ _ Cons.prems(4) _ R, of ?w2 t'] rd by auto
  have "w_app w' = w_app w @ map (\<lambda>x. msg_event w rdev (msg_hdr cf va x)) (t # t' # ts)"
    using ih(2) it(2) by (simp add: msg_event_cong [OF so])
  then show ?case using it(1) gr ih(1,4,5) same_objects_trans [OF so ih(3)]
    by (intro exI [of _ w'] exI [of _ v2] exI [of _ r2]) simp
qed


section \<open>The receive callback\<close>

text \<open>The first channel is past the idle state, or there is no channel: the callback processes messages.\<close>

definition rx_active :: "remote_device \<Rightarrow> world \<Rightarrow> bool" where
  "rx_active rd w \<longleftrightarrow> rd_rp_channels rd = NULL \<or>
     (case w_nodes w (rd_rp_channels rd) of None \<Rightarrow> False
      | Some nd \<Rightarrow> (case w_chnls w (ll_data nd) of None \<Rightarrow> False | Some ch \<Rightarrow> ch_state ch \<noteq> RPMSG_CHNL_STATE_IDLE))"

lemma rx_callback_messages:
  assumes "w_rdevs w (vq_dev vq0) = Some rd" "rx_active rd w"
  shows "rpmsg_rx_callback cf vq0 w = do {
    (hdr, len, idx, w) \<leftarrow> rpmsg_get_rx_buffer cf (vq_dev vq0) (cf_uninit_len cf) (cf_uninit_idx cf) (env_lock_mutex w);
    rpmsg_rx_loop cf (vq_dev vq0) hdr len idx (env_unlock_mutex w) }"
  using assms by (cases "rd_rp_channels rd = NULL") (auto simp: rpmsg_rx_callback_def rx_active_def Let_def split: option.splits)

lemma device_receives:
  assumes "recording_app cf" "rx_stops cf w (vq_dev vq0)" "w_rdevs w (vq_dev vq0) = Some rd" "rd_role rd \<noteq> RPMSG_REMOTE"
    "rx_active rd w" "get_vq (rd_rvq rd) w = Some (vq, r)"
    "ring_rel va \<lparr>rs_drv = d, rs_dev = vq, rs_ring = r\<rparr> A" "\<forall>x \<in> set (ra_pend A). rx_ready cf va w (vq_dev vq0) x"
  shows "\<exists>w' vq' r'. rpmsg_rx_callback cf vq0 w = Some w' \<and>
    w_app w' = w_app w @ map (\<lambda>x. msg_event w (vq_dev vq0) (msg_hdr cf va x)) (ra_pend A) \<and> same_objects w w' \<and>
    get_vq (rd_rvq rd) w' = Some (vq', r') \<and>
    ring_rel va \<lparr>rs_drv = d, rs_dev = vq', rs_ring = r'\<rparr>
      (A\<lparr>ra_pend := [], ra_used := ra_used A @ map (\<lambda>x. (x, tk_len x)) (ra_pend A)\<rparr>)"
proof -
  let ?rdev = "vq_dev vq0" and ?wl = "env_lock_mutex w"
  have rdl: "w_rdevs ?wl ?rdev = Some rd" "get_vq (rd_rvq rd) ?wl = Some (vq, r)" using assms(3,6) by simp_all
  show ?thesis
  proof (cases "ra_pend A")
    case Nil
    let ?w2 = "env_unlock_mutex (put_vq (rd_rvq rd) vq r ?wl)"
    have so: "same_objects w ?w2" by (simp add: same_objects_def)
    from rx_loop_stops [of cf ?w2 ?rdev "cf_uninit_len cf" "cf_uninit_idx cf"] assms(2) rx_stops_cong [OF so]
    obtain w3 where w3: "rpmsg_rx_loop cf ?rdev (cf_vatopa cf 0) (cf_uninit_len cf) (cf_uninit_idx cf) ?w2 = Some w3"
      "same_objects ?w2 w3" "w_app w3 = w_app ?w2" "\<forall>p. get_vq p w3 = get_vq p ?w2" by blast
    have "rpmsg_rx_callback cf vq0 w = Some w3"
      using rx_callback_messages [OF assms(3,5)] get_rx_empty [OF rdl(1) assms(4) rdl(2) assms(7) Nil] w3(1) by simp
    moreover have "ring_rel va \<lparr>rs_drv = d, rs_dev = vq, rs_ring = r\<rparr> (A\<lparr>ra_pend := []\<rparr>)"
      using assms(7) Nil by (cases A) simp
    ultimately show ?thesis using Nil w3(3,4) same_objects_trans [OF so w3(2)]
      by (intro exI [of _ w3] exI [of _ vq] exI [of _ r]) simp
  next
    case (Cons t ts)
    from get_rx_pending [OF rdl(1) assms(4) rdl(2) assms(7) Cons, of cf "cf_uninit_len cf" "cf_uninit_idx cf"]
    obtain vq1 where g: "rpmsg_get_rx_buffer cf ?rdev (cf_uninit_len cf) (cf_uninit_idx cf) ?wl =
        Some (msg_hdr cf va t, tk_len t, tk_head t, put_vq (rd_rvq rd) vq1 r ?wl)"
      and R: "ring_rel va \<lparr>rs_drv = d, rs_dev = vq1, rs_ring = r\<rparr> (A\<lparr>ra_pend := ts, ra_taken := ra_taken A @ [t]\<rparr>)" by blast
    let ?w2 = "env_unlock_mutex (put_vq (rd_rvq rd) vq1 r ?wl)"
    have so: "same_objects w ?w2" by (simp add: same_objects_def)
    have "\<forall>x \<in> set (t # ts). rx_ready cf va ?w2 ?rdev x" using assms(8) Cons rx_ready_cong [OF so] by simp
    moreover have "rx_stops cf ?w2 ?rdev" using assms(2) rx_stops_cong [OF so] by simp
    ultimately obtain w' v2 r2 where l: "rpmsg_rx_loop cf ?rdev (msg_hdr cf va t) (tk_len t) (tk_head t) ?w2 = Some w'"
      "w_app w' = w_app ?w2 @ map (\<lambda>x. msg_event ?w2 ?rdev (msg_hdr cf va x)) (t # ts)" "same_objects ?w2 w'"
      "get_vq (rd_rvq rd) w' = Some (v2, r2)"
      "ring_rel va \<lparr>rs_drv = d, rs_dev = v2, rs_ring = r2\<rparr>
        (A\<lparr>ra_pend := [], ra_taken := ra_taken A, ra_used := ra_used A @ map (\<lambda>x. (x, tk_len x)) (t # ts)\<rparr>)"
      using rx_loop_delivers [OF assms(1) _ _ assms(4) _ R, of ?w2 ?rdev "ra_taken A" t ts] assms(3) by auto
    have eq: "A\<lparr>ra_pend := [], ra_taken := ra_taken A, ra_used := us\<rparr> = A\<lparr>ra_pend := [], ra_used := us\<rparr>" for us
      by (cases A) simp
    show ?thesis
      using rx_callback_messages [OF assms(3,5)] g l(1,2,4) l(5) [unfolded eq] same_objects_trans [OF so l(3)] Cons
      by (intro exI [of _ w'] exI [of _ v2] exI [of _ r2]) (simp add: msg_event_cong [OF so])
  qed
qed

text \<open>
  Property C10.  Receiving on the device side: called with any number of pending messages whose
  destinations are application endpoints, the receive callback terminates, the application gets every message
  once, in the order of the ring, with the payload and source address in the buffer, and every
  buffer is back on the used ring with its original length.
\<close>

theorem rpmsg_rx_callback_delivers_all:
  assumes "recording_app cf" "rx_stops cf w (vq_dev vq0)" "w_rdevs w (vq_dev vq0) = Some rd" "rd_role rd \<noteq> RPMSG_REMOTE"
    "rx_active rd w" "get_vq (rd_rvq rd) w = Some (vq, r)"
    "ring_rel va \<lparr>rs_drv = d, rs_dev = vq, rs_ring = r\<rparr> A" "\<forall>x \<in> set (ra_pend A). rx_ready cf va w (vq_dev vq0) x"
  shows "\<exists>w' vq' r'. rpmsg_rx_callback cf vq0 w = Some w' \<and>
    w_app w' = w_app w @ map (\<lambda>x. msg_event w (vq_dev vq0) (msg_hdr cf va x)) (ra_pend A) \<and> same_objects w w' \<and>
    get_vq (rd_rvq rd) w' = Some (vq', r') \<and>
    ring_rel va \<lparr>rs_drv = d, rs_dev = vq', rs_ring = r'\<rparr>
      (A\<lparr>ra_pend := [], ra_used := ra_used A @ map (\<lambda>x. (x, tk_len x)) (ra_pend A)\<rparr>)"
  by (rule device_receives [OF assms])

subsection \<open>Example\<close>

lemma cfg_example_recording: "recording_app cfg_example"
  by (simp add: recording_app_def cfg_example_def)

text \<open>One message for endpoint 7, pending on the receive queue of a device whose peer is the master.\<close>

definition rx_drv_example :: virtqueue where
  "rx_drv_example = (rs_drv ring_example)\<lparr>vq_free_cnt := 3, vq_desc_head_idx := 1,
     vq_descx := (vq_descx (rs_drv ring_example))[0 := \<lparr>dx_cookie = 0x100, dx_ndescs = 1\<rparr>]\<rparr>"

definition rx_dev_example :: virtqueue where
  "rx_dev_example = (rs_dev ring_example)\<lparr>vq_dev := 1, vq_ring_mem := 0x8000, vq_callback := Some Rpmsg_rx_callback\<rparr>"

definition rx_ring_example :: vring_mem where
  "rx_ring_example = (rs_ring ring_example)\<lparr>vr_desc := (vr_desc (rs_ring ring_example))
     [0 := \<lparr>d_addr = 0x100, d_len = 512, d_flags = 2, d_next = 1\<rparr>], vr_avail_idx := 1\<rparr>"

definition rx_abs_example :: ring_abs where
  "rx_abs_example = \<lparr>ra_free = [1, 2, 3], ra_pend = [\<lparr>tk_chain = [0], tk_bufs = [(0x100, 512)], tk_cookie = 0x100\<rparr>],
     ra_taken = [], ra_used = []\<rparr>"

definition rx_rdev_example :: remote_device where
  "rx_rdev_example = rdev_zero\<lparr>rd_role := RPMSG_MASTER, rd_rvq := 2, rd_rp_endpoints := 3, rd_state := RPMSG_DEV_STATE_ACTIVE\<rparr>"

definition rx_world_example :: world where
  "rx_world_example = world0
     \<lparr>w_mem := put_msg 0x100 9 7 [1, 2, 3] 3 (\<lambda>a. 0),
      w_nodes := [3 \<mapsto> llist0\<lparr>ll_data := 4\<rparr>],
      w_epts := [4 \<mapsto> ept_zero\<lparr>ep_addr := 7, ep_cb := Some (App_rx_cb 5)\<rparr>],
      w_rdevs := [1 \<mapsto> rx_rdev_example], w_vqs := [2 \<mapsto> rx_dev_example], w_rings := [0x8000 \<mapsto> rx_ring_example]\<rparr>"

lemma rx_rel_example: "ring_rel (\<lambda>a. a) \<lparr>rs_drv = rx_drv_example, rs_dev = rx_dev_example, rs_ring = rx_ring_example\<rparr> rx_abs_example"
  by code_simp

lemma rx_ready_example: "\<forall>x \<in> set (ra_pend rx_abs_example). rx_ready cfg_example (\<lambda>a. a) rx_world_example 1 x"
  by code_simp

lemma rx_event_example:
  "map (\<lambda>x. msg_event rx_world_example 1 (msg_hdr cfg_example (\<lambda>a. a) x)) (ra_pend rx_abs_example) = [Rx_event 5 0 [1, 2, 3] 9]"
  by code_simp

theorem rpmsg_rx_callback_delivers_all_witness:
  "\<exists>w'. rpmsg_rx_callback cfg_example rx_dev_example rx_world_example = Some w' \<and> w_app w' = [Rx_event 5 0 [1, 2, 3] 9]"
proof -
  have "vq_dev rx_dev_example = 1" by (simp add: rx_dev_example_def)
  moreover have "w_rdevs rx_world_example 1 = Some rx_rdev_example" "w_app rx_world_example = []"
    "rx_stops cfg_example rx_world_example 1" "rd_role rx_rdev_example \<noteq> RPMSG_REMOTE" "rx_active rx_rdev_example rx_world_example"
    "get_vq (rd_rvq rx_rdev_example) rx_world_example = Some (rx_dev_example, rx_ring_example)"
    by (simp_all add: rx_world_example_def world0_def cfg_example_def rx_rdev_example_def rdev_zero_def rpmsg_const_defs
        rx_active_def get_vq_def rx_dev_example_def rx_stops_def)
  ultimately show ?thesis
    using rpmsg_rx_callback_delivers_all [OF cfg_example_recording, of rx_world_example rx_dev_example rx_rdev_example
        rx_dev_example rx_ring_example "\<lambda>a. a" rx_drv_example rx_abs_example]
      rx_rel_example rx_ready_example rx_event_example by auto
qed

end
