(* ===== verification/RpmsgTx.thy ===== *)
theory RpmsgTx
  imports RpmsgRx
begin

text \<open>
  Correctness of sending: the layout of a message in memory, the effect of a send of the master (the driver
  side of its queues) on the shared memory, the ring and the buffer pool, and every way in which a
  send fails.
\<close>

section \<open>The layout of a message\<close>

lemma msg_offsets:
  "hdr + 4 = hdr + of_nat 4" "hdr + 8 = hdr + of_nat 8" "hdr + 12 = hdr + of_nat 12" "hdr + 14 = hdr + of_nat 14"
  "hdr = hdr + of_nat 0" "RPMSG_LOCATE_DATA hdr = hdr + of_nat 16" for hdr :: u32
  by (simp_all add: RPMSG_LOCATE_DATA_def RPMSG_HDR_SIZE_def)

lemma msg_fields_disjoint:
  fixes hdr :: u32
  assumes "n + 16 \<le> 2 ^ 32"
  shows "range32 hdr 4 \<inter> range32 (hdr + 4) 4 = {}" "range32 hdr 4 \<inter> range32 (hdr + 12) 2 = {}"
    "range32 (hdr + 4) 4 \<inter> range32 hdr 4 = {}" "range32 (hdr + 4) 4 \<inter> range32 (hdr + 12) 2 = {}"
    "range32 hdr 4 \<inter> range32 (RPMSG_LOCATE_DATA hdr) n = {}" "range32 (hdr + 4) 4 \<inter> range32 (RPMSG_LOCATE_DATA hdr) n = {}"
    "range32 (hdr + 12) 2 \<inter> range32 (RPMSG_LOCATE_DATA hdr) n = {}"
  using range32_disjoint [of 0 4 4 4 hdr] range32_disjoint [of 0 4 12 2 hdr] range32_disjoint [of 4 4 12 2 hdr]
    range32_disjoint [of 0 4 16 n hdr] range32_disjoint [of 4 4 16 n hdr] range32_disjoint [of 12 2 16 n hdr] assms
  by (simp_all add: RPMSG_LOCATE_DATA_def RPMSG_HDR_SIZE_def Int_commute)

lemma put_msg_fields:
  assumes "length payload + 16 \<le> 2 ^ 32"
  shows "load32 (put_msg hdr src dst payload len m) hdr = src"
    "load32 (put_msg hdr src dst payload len m) (hdr + 4) = dst"
    "load16 (put_msg hdr src dst payload len m) (hdr + 12) = len"
    "load_bytes (put_msg hdr src dst payload len m) (RPMSG_LOCATE_DATA hdr) (length payload) = payload"
  using msg_fields_disjoint [OF assms, of hdr] assms
  by (simp_all add: put_msg_def mem_disj mem_simps)

lemma put_msg_outside:
  assumes "b \<notin> range32 hdr 8" "b \<notin> range32 (hdr + 12) 2" "b \<notin> range32 (RPMSG_LOCATE_DATA hdr) (length payload)"
  shows "put_msg hdr src dst payload len m b = m b"
proof -
  have "b \<notin> range32 hdr 4" "b \<notin> range32 (hdr + 4) 4"
    using assms(1) range32_subset [of 0 4 8 hdr] range32_subset [of 4 4 8 hdr] by auto
  then show ?thesis using assms(2,3) by (simp add: put_msg_def mem_simps)
qed

text \<open>
  Message round trip: what the sender writes into a buffer is what a receiver reads at the
  same address (source, destination, length and payload), and no other byte of the shared memory changes;
  the reserved and flags fields of the header keep their old content.
\<close>

theorem rpmsg_message_roundtrip:
  assumes "length payload + 16 \<le> 2 ^ 32"
  shows "load32 (put_msg hdr src dst payload len m) hdr = src \<and>
    load32 (put_msg hdr src dst payload len m) (hdr + 4) = dst \<and>
    load16 (put_msg hdr src dst payload len m) (hdr + 12) = len \<and>
    load_bytes (put_msg hdr src dst payload len m) (RPMSG_LOCATE_DATA hdr) (length payload) = payload \<and>
    (\<forall>b. b \<notin> range32 hdr 8 \<union> range32 (hdr + 12) 2 \<union> range32 (RPMSG_LOCATE_DATA hdr) (length payload) \<longrightarrow>
       put_msg hdr src dst payload len m b = m b)"
  by (simp add: put_msg_fields [OF assms] put_msg_outside)

theorem rpmsg_message_roundtrip_witness:
  "load_bytes (put_msg 0x8000 9 7 [1, 2, 3] 3 (\<lambda>a. 0)) (RPMSG_LOCATE_DATA 0x8000) 3 = [1, 2, 3] \<and>
   load32 (put_msg 0x8000 9 7 [1, 2, 3] 3 (\<lambda>a. 0)) 0x8000 = 9"
  using rpmsg_message_roundtrip [of "[1, 2, 3]" "0x8000" 9 7 3 "\<lambda>a. 0"] by (simp add: numeral_3_eq_3)

section \<open>The driver side of a queue in the heap\<close>

lemma w_offer:
  assumes "get_vq p w = Some (vq, r)" "ring_rel (cf_vatopa cf) \<lparr>rs_drv = vq, rs_dev = d, rs_ring = r\<rparr> A"
    "ra_free A = x # xs" "b \<noteq> 0"
  shows "\<exists>vq' r'. w_add_buffer cf p [(b, len)] 0 1 b w = Some (VQUEUE_SUCCESS, put_vq p vq' r' w) \<and>
    vq_ident vq' = vq_ident vq \<and>
    ring_rel (cf_vatopa cf) \<lparr>rs_drv = vq', rs_dev = d, rs_ring = r'\<rparr>
      (A\<lparr>ra_free := xs, ra_pend := ra_pend A @ [\<lparr>tk_chain = [x], tk_bufs = [(b, len)], tk_cookie = b\<rparr>]\<rparr>)"
proof -
  let ?A = "A\<lparr>ra_free := xs, ra_pend := ra_pend A @ [\<lparr>tk_chain = [x], tk_bufs = [(b, len)], tk_cookie = b\<rparr>]\<rparr>"
  have "abs_step (cf_patova cf \<circ> cf_vatopa cf) (Offer [(b, len)] 0 1 b) A = Some (Offered, ?A)"
    using assms(3,4) by simp
  from offer_sim [OF assms(2) this, of "cf_dbg cf"] obtain s' where s:
    "ring_step (cf_dbg cf) (cf_vatopa cf) (cf_patova cf) (Offer [(b, len)] 0 1 b) \<lparr>rs_drv = vq, rs_dev = d, rs_ring = r\<rparr> = Some (Offered, s')"
    "ring_rel (cf_vatopa cf) s' ?A" by blast
  from s(1) obtain vq' r' where g: "virtqueue_add_buffer (cf_dbg cf) (cf_vatopa cf) vq [(b, len)] 0 1 b r = Some (VQUEUE_SUCCESS, vq', r')"
    and s': "s' = \<lparr>rs_drv = vq', rs_dev = d, rs_ring = r'\<rparr>"
    by (auto simp: option_bind_simps split: if_splits)
  show ?thesis using assms(1) g s(2) s' add_buffer_ident [OF g] by (auto simp: w_add_buffer_def)
qed

lemma w_reclaim:
  assumes "get_vq p w = Some (vq, r)" "ring_rel va \<lparr>rs_drv = vq, rs_dev = d, rs_ring = r\<rparr> A"
    "ra_used A = (t, len) # us" "p \<noteq> NULL"
  shows "\<exists>vq' r'. w_get_buffer cf p w = Some (tk_cookie t, Some len, put_vq p vq' r' w) \<and> vq_ident vq' = vq_ident vq \<and>
    ring_rel va \<lparr>rs_drv = vq', rs_dev = d, rs_ring = r'\<rparr> (A\<lparr>ra_free := tk_chain t @ ra_free A, ra_used := us\<rparr>)"
proof -
  let ?A = "A\<lparr>ra_free := tk_chain t @ ra_free A, ra_used := us\<rparr>"
  have "abs_step (cf_patova cf \<circ> va) Reclaim A = Some (Reclaimed (tk_cookie t) (Some len), ?A)" using assms(3) by simp
  from reclaim_sim [OF assms(2) this, of "cf_dbg cf"] obtain s' where s:
    "ring_step (cf_dbg cf) va (cf_patova cf) Reclaim \<lparr>rs_drv = vq, rs_dev = d, rs_ring = r\<rparr> =
      Some (Reclaimed (tk_cookie t) (Some len), s')" "ring_rel va s' ?A" by blast
  from s(1) obtain vq' r' where g: "virtqueue_get_buffer (cf_dbg cf) vq r = Some (tk_cookie t, Some len, vq', r')"
    and s': "s' = \<lparr>rs_drv = vq', rs_dev = d, rs_ring = r'\<rparr>"
    by (auto simp: option_bind_simps)
  show ?thesis using assms(1,4) g s(2) s' get_buffer_ident [OF g] by (auto simp: w_get_buffer_def)
qed

lemma w_reclaim_empty:
  assumes "get_vq p w = Some (vq, r)" "ring_rel va \<lparr>rs_drv = vq, rs_dev = d, rs_ring = r\<rparr> A" "ra_used A = []" "p \<noteq> NULL"
  shows "w_get_buffer cf p w = Some (0, None, put_vq p vq r w)"
proof -
  have "vq_used_cons_idx vq = vr_used_idx r" using assms(2,3) by (simp add: ring_rel_def ring_used_def)
  then show ?thesis using assms(1,4) by (simp add: w_get_buffer_def virtqueue_get_buffer_def)
qed

section \<open>Notifying the other side\<close>

text \<open>
  The platform's notify function raises an interrupt on the other processor and touches nothing of the
  state here; the queue is wired to the processor's record.
\<close>

definition quiet_notify :: "config \<Rightarrow> bool" where
  "quiet_notify cf \<longleftrightarrow> (\<forall>f c i w. cf_notify cf f c i w = Some w)"

definition notify_wired :: "world \<Rightarrow> virtqueue \<Rightarrow> bool" where
  "notify_wired w vq \<longleftrightarrow> vq_notify vq = Some Hil_vring_notify \<and>
     (case w_rdevs w (vq_dev vq) of None \<Rightarrow> False
      | Some rd \<Rightarrow> (case w_procs w (rd_device rd) of None \<Rightarrow> False
          | Some pr \<Rightarrow> unat (vq_queue_index vq) < length (pd_vring_info (hp_vdev pr))))"

lemma notify_wired_cong:
  "vq_ident vq' = vq_ident vq \<Longrightarrow> w_rdevs w' = w_rdevs w \<Longrightarrow> w_procs w' = w_procs w \<Longrightarrow>
     notify_wired w' vq' = notify_wired w vq"
  by (auto simp: notify_wired_def vq_ident_def split: option.splits)

lemma w_kick_quiet:
  assumes "get_vq p w = Some (vq, r)" "\<not> vq_inuse vq" "quiet_notify cf" "notify_wired w vq"
  shows "w_kick cf p w = Some (w\<lparr>w_vqs := (w_vqs w)(p \<mapsto> vq\<lparr>vq_queued_cnt := 0\<rparr>)\<rparr>)"
proof -
  from assms(4) obtain rd pr where d: "vq_notify vq = Some Hil_vring_notify" "w_rdevs w (vq_dev vq) = Some rd"
    "w_procs w (rd_device rd) = Some pr" "unat (vq_queue_index vq) < length (pd_vring_info (hp_vdev pr))"
    by (auto simp: notify_wired_def split: option.splits)
  have n: "vq_ring_notify_host (call_notify cf) (vq\<lparr>vq_inuse := i\<rparr>) w = Some w" for i
    using d assms(3)
    by (simp add: vq_ring_notify_host_def call_notify_def hil_vring_notify_def vq_proc_def quiet_notify_def aget_def split: option.splits)
  have e: "vq\<lparr>vq_queued_cnt := 0, vq_inuse := False\<rparr> = vq\<lparr>vq_queued_cnt := 0\<rparr>" using assms(2) by (cases vq) simp
  show ?thesis using assms(1,2) n by (simp add: w_kick_def virtqueue_kick_def) (simp only: e)
qed

section \<open>The buffer of a message\<close>

text \<open>
  The buffer the master sends next: a buffer the remote has given back, with the length it had on the
  used ring, or else a new one of the pool.  The last component is the state of the ring afterwards.
\<close>

definition tx_source :: "config \<Rightarrow> remote_device \<Rightarrow> world \<Rightarrow> ring_abs \<Rightarrow> (u32 \<times> u32 \<times> ring_abs) option" where
  "tx_source cf rd w A = (case ra_used A of
      (t, len) # us \<Rightarrow> Some (tk_cookie t, len, A\<lparr>ra_free := tk_chain t @ ra_free A, ra_used := us\<rparr>)
    | [] \<Rightarrow> do {
        pool \<leftarrow> w_pools w (rd_mem_pool rd);
        (b, pool') \<leftarrow> sh_mem_get_buffer pool;
        Some (b, RPMSG_BUFFER_SIZE, A) })"

text \<open>What the sending functions leave alone.\<close>

definition tx_frame :: "world \<Rightarrow> world \<Rightarrow> bool" where
  "tx_frame w w' \<longleftrightarrow> w_nodes w' = w_nodes w \<and> w_chnls w' = w_chnls w \<and> w_epts w' = w_epts w \<and>
     w_rdevs w' = w_rdevs w \<and> w_procs w' = w_procs w \<and> w_app w' = w_app w \<and> w_next w' = w_next w \<and> w_allocs w' = w_allocs w"

lemma tx_frame_trans: "tx_frame w1 w2 \<Longrightarrow> tx_frame w2 w3 \<Longrightarrow> tx_frame w1 w3"
  by (simp add: tx_frame_def)

text \<open>Of the queues, only the one at \<open>p\<close> with its ring at \<open>a\<close> changes.\<close>

definition only_vq :: "ptr \<Rightarrow> u32 \<Rightarrow> world \<Rightarrow> world \<Rightarrow> bool" where
  "only_vq p a w w' \<longleftrightarrow> (\<forall>q. q \<noteq> p \<longrightarrow> w_vqs w' q = w_vqs w q) \<and> (\<forall>b. b \<noteq> a \<longrightarrow> w_rings w' b = w_rings w b)"

lemma only_vq_trans: "only_vq p a w1 w2 \<Longrightarrow> only_vq p a w2 w3 \<Longrightarrow> only_vq p a w1 w3"
  by (simp add: only_vq_def)

lemma only_vq_get: "only_vq p a w w' \<Longrightarrow> q \<noteq> p \<Longrightarrow> get_vq q w = Some (vq, r) \<Longrightarrow> vq_ring_mem vq \<noteq> a \<Longrightarrow> get_vq q w' = Some (vq, r)"
  by (auto simp: only_vq_def get_vq_def option_bind_simps)

lemma pool_get_frame:
  assumes "w_pools w p = Some pool" "sh_mem_get_buffer pool = Some (b, pool')" "p \<noteq> NULL"
  shows "\<exists>w'. w_sh_mem_get_buffer p w = Some (b, w') \<and> tx_frame w w' \<and> w_mem w' = w_mem w \<and>
    w_pools w' = (w_pools w)(p \<mapsto> pool') \<and> (\<forall>q. get_vq q w' = get_vq q w) \<and> w_vqs w' = w_vqs w \<and> w_rings w' = w_rings w"
  using assms by (simp add: w_sh_mem_get_buffer_def tx_frame_def Let_def get_vq_def)

lemma get_tx_source:
  assumes "w_rdevs w rdev = Some rd" "rd_role rd = RPMSG_REMOTE" "rd_tvq rd \<noteq> NULL" "rd_mem_pool rd \<noteq> NULL"
    "get_vq (rd_tvq rd) w = Some (vq, r)" "ring_rel va \<lparr>rs_drv = vq, rs_dev = d, rs_ring = r\<rparr> A"
    "tx_source cf rd w A = Some (b, len, A')" "b \<noteq> 0"
  shows "\<exists>w' vq' r'. rpmsg_get_tx_buffer cf rdev l i w = Some (cf_vatopa cf b, len, i, w') \<and> tx_frame w w' \<and>
    w_mem w' = w_mem w \<and> get_vq (rd_tvq rd) w' = Some (vq', r') \<and> vq_ident vq' = vq_ident vq \<and>
    ring_rel va \<lparr>rs_drv = vq', rs_dev = d, rs_ring = r'\<rparr> A' \<and> only_vq (rd_tvq rd) (vq_ring_mem vq) w w'"
proof (cases "ra_used A")
  case Nil
  then obtain pool pool' where p: "w_pools w (rd_mem_pool rd) = Some pool" "sh_mem_get_buffer pool = Some (b, pool')"
    and o: "len = RPMSG_BUFFER_SIZE" "A' = A" using assms(7) by (auto simp: tx_source_def option_bind_simps)
  let ?w1 = "put_vq (rd_tvq rd) vq r w"
  have p1: "w_pools ?w1 (rd_mem_pool rd) = Some pool" using p(1) by simp
  from pool_get_frame [OF p1 p(2) assms(4)] obtain w' where w':
    "w_sh_mem_get_buffer (rd_mem_pool rd) ?w1 = Some (b, w')" "tx_frame ?w1 w'" "w_mem w' = w_mem ?w1"
    "\<forall>q. get_vq q w' = get_vq q ?w1" "w_vqs w' = w_vqs ?w1" "w_rings w' = w_rings ?w1" by blast
  have "rpmsg_get_tx_buffer cf rdev l i w = Some (cf_vatopa cf b, len, i, w')"
    using assms(1,2) w_reclaim_empty [OF assms(5,6) Nil assms(3), of cf] w'(1) o by (simp add: rpmsg_get_tx_buffer_def)
  moreover have "only_vq (rd_tvq rd) (vq_ring_mem vq) w w'" using w'(5,6) by (simp add: only_vq_def put_vq_def)
  ultimately show ?thesis using w'(2-4) o assms(6) by (intro exI [of _ w'] exI [of _ vq] exI [of _ r]) (simp add: tx_frame_def)
next
  case (Cons u us)
  obtain t n where u: "u = (t, n)" by (cases u)
  have o: "b = tk_cookie t" "len = n" "A' = A\<lparr>ra_free := tk_chain t @ ra_free A, ra_used := us\<rparr>"
    using assms(7) Cons u by (simp_all add: tx_source_def)
  from w_reclaim [OF assms(5,6), of t n us cf] Cons u assms(3) obtain vq' r' where g:
    "w_get_buffer cf (rd_tvq rd) w = Some (b, Some len, put_vq (rd_tvq rd) vq' r' w)" "vq_ident vq' = vq_ident vq"
    "ring_rel va \<lparr>rs_drv = vq', rs_dev = d, rs_ring = r'\<rparr> A'" using o by auto
  moreover have "only_vq (rd_tvq rd) (vq_ring_mem vq) w (put_vq (rd_tvq rd) vq' r' w)" using g(2) by (simp add: only_vq_def put_vq_def vq_ident_def)
  ultimately show ?thesis using assms(1,2,8)
    by (intro exI [of _ "put_vq (rd_tvq rd) vq' r' w"] exI [of _ vq'] exI [of _ r'])
      (simp add: rpmsg_get_tx_buffer_def tx_frame_def)
qed

section \<open>A successful send of the master\<close>

definition send_active :: "ptr \<Rightarrow> rpmsg_channel \<Rightarrow> remote_device \<Rightarrow> world \<Rightarrow> bool" where
  "send_active chnl ch rd w \<longleftrightarrow> chnl \<noteq> NULL \<and> w_chnls w chnl = Some ch \<and> ch_state ch = RPMSG_CHNL_STATE_ACTIVE \<and>
     w_rdevs w (ch_rdev ch) = Some rd \<and> rd_state rd = RPMSG_DEV_STATE_ACTIVE"

lemma size_fits:
  assumes "0 \<le> sz" "sz + 16 \<le> int (unat (len :: u32))"
  shows "unat (of_int sz :: u32) = nat sz" "\<not> (of_int sz :: u32) > len - RPMSG_HDR_SIZE"
proof -
  have b: "sz < 2 ^ 32" using assms(2) unsigned_less [of len, where 'a = int] by simp
  then show u: "unat (of_int sz :: u32) = nat sz"
    using assms(1) by (simp add: unat_eq_nat_uint uint_word_of_int)
  have l: "16 \<le> unat len" using assms by linarith
  then have "unat (len - RPMSG_HDR_SIZE) = unat len - 16"
    by (simp add: RPMSG_HDR_SIZE_def unat_sub word_le_nat_alt)
  then show "\<not> (of_int sz :: u32) > len - RPMSG_HDR_SIZE" using u assms l unfolding word_less_nat_alt by linarith
qed

lemma payload_before_header:
  assumes "range32 data n \<inter> range32 hdr 16 = {}"
  shows "load_bytes (put_msg hdr src dst [] len m) data n = load_bytes m data n"
proof (rule load_bytes_cong)
  fix b
  assume "b \<in> range32 data n"
  then have "b \<notin> range32 hdr 16" using assms by blast
  then have "b \<notin> range32 hdr 8" "b \<notin> range32 (hdr + 12) 2"
    using range32_subset [of 0 8 16 hdr] range32_subset [of 12 2 16 hdr] by auto
  then show "put_msg hdr src dst [] len m b = m b" by (simp add: put_msg_outside)
qed

text \<open>The second half of a send, once a buffer has been found: fill it, offer it, notify.\<close>

lemma offer_and_kick:
  assumes "get_vq p w = Some (vq, r)" "ring_rel (cf_vatopa cf) \<lparr>rs_drv = vq, rs_dev = d, rs_ring = r\<rparr> A"
    "ra_free A = x # xs" "h \<noteq> 0" "quiet_notify cf" "notify_wired w vq"
  shows "\<exists>w1 w2 vq' r'. w_add_buffer cf p [(h, len)] 0 1 h w = Some (VQUEUE_SUCCESS, w1) \<and> w_kick cf p w1 = Some w2 \<and>
    tx_frame w w1 \<and> tx_frame w w2 \<and> w_mem w2 = w_mem w \<and> get_vq p w2 = Some (vq', r') \<and> vq_ident vq' = vq_ident vq \<and>
    ring_rel (cf_vatopa cf) \<lparr>rs_drv = vq', rs_dev = d, rs_ring = r'\<rparr>
      (A\<lparr>ra_free := xs, ra_pend := ra_pend A @ [\<lparr>tk_chain = [x], tk_bufs = [(h, len)], tk_cookie = h\<rparr>]\<rparr>) \<and> only_vq p (vq_ring_mem vq) w w2"
proof -
  from w_offer [OF assms(1-4), of len] obtain vq1 r1 where o:
    "w_add_buffer cf p [(h, len)] 0 1 h w = Some (VQUEUE_SUCCESS, put_vq p vq1 r1 w)" "vq_ident vq1 = vq_ident vq"
    "ring_rel (cf_vatopa cf) \<lparr>rs_drv = vq1, rs_dev = d, rs_ring = r1\<rparr>
      (A\<lparr>ra_free := xs, ra_pend := ra_pend A @ [\<lparr>tk_chain = [x], tk_bufs = [(h, len)], tk_cookie = h\<rparr>]\<rparr>)" by blast
  let ?w1 = "put_vq p vq1 r1 w" and ?vq2 = "vq1\<lparr>vq_queued_cnt := 0\<rparr>"
  let ?w2 = "?w1\<lparr>w_vqs := (w_vqs ?w1)(p \<mapsto> ?vq2)\<rparr>"
  have idle: "\<not> vq_inuse vq1" using o(3) by (simp add: ring_rel_def ring_geometry_def)
  have "notify_wired ?w1 vq1" using assms(6) notify_wired_cong [OF o(2), of ?w1 w] by simp
  from w_kick_quiet [OF _ idle assms(5) this, of p r1] have k: "w_kick cf p ?w1 = Some ?w2" by simp
  have "get_vq p ?w2 = Some (?vq2, r1)" by (simp add: get_vq_def put_vq_def)
  moreover have "only_vq p (vq_ring_mem vq) w ?w2" using o(2) by (simp add: only_vq_def put_vq_def vq_ident_def)
  ultimately show ?thesis using o k
    by (intro exI [of _ ?w1] exI [of _ ?w2] exI [of _ ?vq2] exI [of _ r1]) (simp add: tx_frame_def)
qed

lemma master_send:
  assumes "send_active chnl ch rd w" "rd_role rd = RPMSG_REMOTE" "rd_tvq rd \<noteq> NULL" "rd_mem_pool rd \<noteq> NULL"
    "get_vq (rd_tvq rd) w = Some (vq, r)" "ring_rel (cf_vatopa cf) \<lparr>rs_drv = vq, rs_dev = d, rs_ring = r\<rparr> A"
    "tx_source cf rd w A = Some (b, len, A')" "b \<noteq> 0" "cf_vatopa cf b \<noteq> 0" "ra_free A' = x # xs"
    "quiet_notify cf" "notify_wired w vq" "0 \<le> sz" "sz + 16 \<le> int (unat len)"
    "range32 data (nat sz) \<inter> range32 (cf_vatopa cf b) 16 = {}"
  shows "\<exists>w' vq' r'. rpmsg_send_offchannel_raw cf chnl src dst data sz wait w = Some (RPMSG_SUCCESS, w') \<and>
    w_mem w' = put_msg (cf_vatopa cf b) src dst (load_bytes (w_mem w) data (nat sz)) (of_int sz) (w_mem w) \<and>
    tx_frame w w' \<and> get_vq (rd_tvq rd) w' = Some (vq', r') \<and> vq_ident vq' = vq_ident vq \<and>
    ring_rel (cf_vatopa cf) \<lparr>rs_drv = vq', rs_dev = d, rs_ring = r'\<rparr> (A'\<lparr>ra_free := xs,
      ra_pend := ra_pend A' @ [\<lparr>tk_chain = [x], tk_bufs = [(cf_vatopa cf b, len)], tk_cookie = cf_vatopa cf b\<rparr>]\<rparr>) \<and>
    only_vq (rd_tvq rd) (vq_ring_mem vq) w w'"
proof -
  let ?h = "cf_vatopa cf b" and ?rdev = "ch_rdev ch" and ?n = "of_int sz :: u32"
  have rdl: "w_rdevs (env_lock_mutex w) ?rdev = Some rd" "get_vq (rd_tvq rd) (env_lock_mutex w) = Some (vq, r)"
    "tx_source cf rd (env_lock_mutex w) A = Some (b, len, A')"
    using assms(1,5,7) by (simp_all add: send_active_def tx_source_def split: list.splits prod.splits)
  from get_tx_source [OF rdl(1) assms(2-4) rdl(2) assms(6) rdl(3) assms(8), of "cf_uninit_len cf" "cf_uninit_idx cf"]
  obtain w1 vq1 r1 where g: "rpmsg_get_tx_buffer cf ?rdev (cf_uninit_len cf) (cf_uninit_idx cf) (env_lock_mutex w) =
      Some (?h, len, cf_uninit_idx cf, w1)" "tx_frame (env_lock_mutex w) w1" "w_mem w1 = w_mem w"
    "get_vq (rd_tvq rd) w1 = Some (vq1, r1)" "vq_ident vq1 = vq_ident vq"
    "ring_rel (cf_vatopa cf) \<lparr>rs_drv = vq1, rs_dev = d, rs_ring = r1\<rparr> A'" "only_vq (rd_tvq rd) (vq_ring_mem vq) w w1" by (auto simp: only_vq_def)
  define w2 where "w2 = env_lock_mutex ((env_unlock_mutex w1)\<lparr>w_mem :=
      put_msg ?h src dst (load_bytes (w_mem w) data (nat sz)) (of_int sz) (w_mem w)\<rparr>)"
  have f2: "tx_frame w w2" using g(2) by (simp add: w2_def tx_frame_def)
  have g2: "get_vq (rd_tvq rd) w2 = Some (vq1, r1)" using g(4) by (simp add: w2_def get_vq_def)
  have "notify_wired w2 vq1" using assms(12) notify_wired_cong [OF g(5), of w2 w] f2 by (simp add: tx_frame_def)
  from offer_and_kick [OF g2 g(6) assms(10,9,11) this, of len] obtain w3 w4 vq' r' where k:
    "w_add_buffer cf (rd_tvq rd) [(?h, len)] 0 1 ?h w2 = Some (VQUEUE_SUCCESS, w3)" "w_kick cf (rd_tvq rd) w3 = Some w4"
    "tx_frame w2 w3" "tx_frame w2 w4" "w_mem w4 = w_mem w2" "get_vq (rd_tvq rd) w4 = Some (vq', r')" "vq_ident vq' = vq_ident vq1"
    "ring_rel (cf_vatopa cf) \<lparr>rs_drv = vq', rs_dev = d, rs_ring = r'\<rparr> (A'\<lparr>ra_free := xs,
      ra_pend := ra_pend A' @ [\<lparr>tk_chain = [x], tk_bufs = [(?h, len)], tk_cookie = ?h\<rparr>]\<rparr>)" "only_vq (rd_tvq rd) (vq_ring_mem vq1) w2 w4" by blast
  have only: "only_vq (rd_tvq rd) (vq_ring_mem vq) w (env_unlock_mutex w4)"
    using g(5,7) k(9) by (simp add: only_vq_def vq_ident_def w2_def)
  have rd2: "w_rdevs w1 ?rdev = Some rd" "w_rdevs w3 ?rdev = Some rd"
    using g(2) f2 k(3) assms(1) by (simp_all add: tx_frame_def send_active_def)
  have p: "load_bytes (put_msg ?h src dst [] (of_int sz) (w_mem w)) data (unat ?n) = load_bytes (w_mem w) data (nat sz)"
    using payload_before_header [OF assms(15)] size_fits(1) [OF assms(13,14)] by simp
  have "rpmsg_send_offchannel_raw cf chnl src dst data sz wait w = Some (RPMSG_SUCCESS, env_unlock_mutex w4)"
    using assms(1,2,9) g(1,3) p k(1,2) rd2 size_fits(2) [OF assms(13,14)]
    by (simp add: rpmsg_send_offchannel_raw_def send_active_def rpmsg_wait_buffer.simps rpmsg_enqueue_buffer_def
        VQUEUE_SUCCESS_def RPMSG_SUCCESS_def Let_def w2_def [symmetric])
  then show ?thesis using only k(4-8) f2 g(5) tx_frame_trans [OF f2 k(4)]
    by (intro exI [of _ "env_unlock_mutex w4"] exI [of _ vq'] exI [of _ r']) (simp add: w2_def tx_frame_def)
qed

text \<open>
  Property C16.  Sending on the master side: with an active channel, a free buffer that fits and a free
  descriptor, the send returns success; the message is in the buffer, at the address the buffer has for the
  other side, the rest of the shared memory is as before, and the buffer is the last one of the
  ring's offered buffers.  A buffer the remote has given back is used before a new one of the pool.
\<close>

theorem rpmsg_send_offers_message:
  assumes "send_active chnl ch rd w" "rd_role rd = RPMSG_REMOTE" "rd_tvq rd \<noteq> NULL" "rd_mem_pool rd \<noteq> NULL"
    "get_vq (rd_tvq rd) w = Some (vq, r)" "ring_rel (cf_vatopa cf) \<lparr>rs_drv = vq, rs_dev = d, rs_ring = r\<rparr> A"
    "tx_source cf rd w A = Some (b, len, A')" "b \<noteq> 0" "cf_vatopa cf b \<noteq> 0" "ra_free A' = x # xs"
    "quiet_notify cf" "notify_wired w vq" "0 \<le> sz" "sz + 16 \<le> int (unat len)"
    "range32 data (nat sz) \<inter> range32 (cf_vatopa cf b) 16 = {}"
  shows "\<exists>w' vq' r'. rpmsg_send_offchannel_raw cf chnl src dst data sz wait w = Some (RPMSG_SUCCESS, w') \<and>
    w_mem w' = put_msg (cf_vatopa cf b) src dst (load_bytes (w_mem w) data (nat sz)) (of_int sz) (w_mem w) \<and>
    tx_frame w w' \<and> get_vq (rd_tvq rd) w' = Some (vq', r') \<and> vq_ident vq' = vq_ident vq \<and>
    ring_rel (cf_vatopa cf) \<lparr>rs_drv = vq', rs_dev = d, rs_ring = r'\<rparr> (A'\<lparr>ra_free := xs,
      ra_pend := ra_pend A' @ [\<lparr>tk_chain = [x], tk_bufs = [(cf_vatopa cf b, len)], tk_cookie = cf_vatopa cf b\<rparr>]\<rparr>)"
  using master_send [OF assms] by blast

section \<open>A successful send of the remote\<close>

lemma get_tx_pending:
  assumes "w_rdevs w rdev = Some rd" "rd_role rd \<noteq> RPMSG_REMOTE" "get_vq (rd_tvq rd) w = Some (vq, r)"
    "ring_rel va \<lparr>rs_drv = d, rs_dev = vq, rs_ring = r\<rparr> A" "ra_pend A = t # ts"
  shows "\<exists>vq'. rpmsg_get_tx_buffer cf rdev len idx w = Some (msg_hdr cf va t, tk_len t, tk_head t, put_vq (rd_tvq rd) vq' r w) \<and>
    vq_ident vq' = vq_ident vq \<and>
    ring_rel va \<lparr>rs_drv = d, rs_dev = vq', rs_ring = r\<rparr> (A\<lparr>ra_pend := ts, ra_taken := ra_taken A @ [t]\<rparr>)"
  using w_take_pending [OF assms(3-5), of cf] assms(1,2)
  by (auto simp: rpmsg_get_tx_buffer_def msg_hdr_def tk_len_def)

lemma give_and_kick:
  assumes "get_vq p w = Some (vq, r)" "ring_rel va \<lparr>rs_drv = d, rs_dev = vq, rs_ring = r\<rparr> A"
    "ra_taken A = ys @ [t]" "quiet_notify cf" "notify_wired w vq"
  shows "\<exists>w1 w2 vq' r'. w_add_consumed_buffer cf p (tk_head t) len w = Some (VQUEUE_SUCCESS, w1) \<and> w_kick cf p w1 = Some w2 \<and>
    tx_frame w w1 \<and> tx_frame w w2 \<and> w_mem w2 = w_mem w \<and> get_vq p w2 = Some (vq', r') \<and> vq_ident vq' = vq_ident vq \<and>
    ring_rel va \<lparr>rs_drv = d, rs_dev = vq', rs_ring = r'\<rparr> (A\<lparr>ra_taken := ys, ra_used := ra_used A @ [(t, len)]\<rparr>) \<and>
    only_vq p (vq_ring_mem vq) w w2"
proof -
  from w_give_taken [OF assms(1-3), of cf len] obtain vq1 r1 where o:
    "w_add_consumed_buffer cf p (tk_head t) len w = Some (VQUEUE_SUCCESS, put_vq p vq1 r1 w)" "vq_ident vq1 = vq_ident vq"
    "ring_rel va \<lparr>rs_drv = d, rs_dev = vq1, rs_ring = r1\<rparr> (A\<lparr>ra_taken := ys, ra_used := ra_used A @ [(t, len)]\<rparr>)" by blast
  let ?w1 = "put_vq p vq1 r1 w" and ?vq2 = "vq1\<lparr>vq_queued_cnt := 0\<rparr>"
  let ?w2 = "?w1\<lparr>w_vqs := (w_vqs ?w1)(p \<mapsto> ?vq2)\<rparr>"
  have idle: "\<not> vq_inuse vq1" using o(3) by (simp add: ring_rel_def ring_geometry_def)
  have "notify_wired ?w1 vq1" using assms(5) notify_wired_cong [OF o(2), of ?w1 w] by simp
  from w_kick_quiet [OF _ idle assms(4) this, of p r1] have k: "w_kick cf p ?w1 = Some ?w2" by simp
  have "get_vq p ?w2 = Some (?vq2, r1)" by (simp add: get_vq_def put_vq_def)
  moreover have "only_vq p (vq_ring_mem vq) w ?w2" using o(2) by (simp add: only_vq_def put_vq_def vq_ident_def)
  ultimately show ?thesis using o k
    by (intro exI [of _ ?w1] exI [of _ ?w2] exI [of _ ?vq2] exI [of _ r1]) (simp add: tx_frame_def)
qed

lemma remote_send:
  assumes "send_active chnl ch rd w" "rd_role rd \<noteq> RPMSG_REMOTE" "get_vq (rd_tvq rd) w = Some (vq, r)"
    "ring_rel va \<lparr>rs_drv = d, rs_dev = vq, rs_ring = r\<rparr> A" "ra_pend A = t # ts" "msg_hdr cf va t \<noteq> 0"
    "quiet_notify cf" "notify_wired w vq" "0 \<le> sz" "sz + 16 \<le> int (unat (tk_len t))"
    "range32 data (nat sz) \<inter> range32 (msg_hdr cf va t) 16 = {}"
  shows "\<exists>w' vq' r'. rpmsg_send_offchannel_raw cf chnl src dst data sz wait w = Some (RPMSG_SUCCESS, w') \<and>
    w_mem w' = put_msg (msg_hdr cf va t) src dst (load_bytes (w_mem w) data (nat sz)) (of_int sz) (w_mem w) \<and>
    tx_frame w w' \<and> get_vq (rd_tvq rd) w' = Some (vq', r') \<and> vq_ident vq' = vq_ident vq \<and>
    ring_rel va \<lparr>rs_drv = d, rs_dev = vq', rs_ring = r'\<rparr>
      (A\<lparr>ra_pend := ts, ra_used := ra_used A @ [(t, tk_len t)]\<rparr>)"
proof -
  let ?h = "msg_hdr cf va t" and ?rdev = "ch_rdev ch" and ?n = "of_int sz :: u32"
  have rdl: "w_rdevs (env_lock_mutex w) ?rdev = Some rd" "get_vq (rd_tvq rd) (env_lock_mutex w) = Some (vq, r)"
    using assms(1,3) by (simp_all add: send_active_def)
  from get_tx_pending [OF rdl(1) assms(2) rdl(2) assms(4,5), of cf "cf_uninit_len cf" "cf_uninit_idx cf"]
  obtain vq1 where g: "rpmsg_get_tx_buffer cf ?rdev (cf_uninit_len cf) (cf_uninit_idx cf) (env_lock_mutex w) =
      Some (?h, tk_len t, tk_head t, put_vq (rd_tvq rd) vq1 r (env_lock_mutex w))" "vq_ident vq1 = vq_ident vq"
    "ring_rel va \<lparr>rs_drv = d, rs_dev = vq1, rs_ring = r\<rparr> (A\<lparr>ra_pend := ts, ra_taken := ra_taken A @ [t]\<rparr>)" by blast
  let ?w1 = "put_vq (rd_tvq rd) vq1 r (env_lock_mutex w)"
  define w2 where "w2 = env_lock_mutex ((env_unlock_mutex ?w1)\<lparr>w_mem :=
      put_msg ?h src dst (load_bytes (w_mem w) data (nat sz)) (of_int sz) (w_mem w)\<rparr>)"
  have f2: "tx_frame w w2" by (simp add: w2_def tx_frame_def)
  have g2: "get_vq (rd_tvq rd) w2 = Some (vq1, r)" by (simp add: w2_def get_vq_def put_vq_def)
  have "notify_wired w2 vq1" using assms(8) notify_wired_cong [OF g(2), of w2 w] f2 by (simp add: tx_frame_def)
  from give_and_kick [OF g2 g(3) _ assms(7) this, of "ra_taken A" t "tk_len t"] obtain w3 w4 vq' r' where k:
    "w_add_consumed_buffer cf (rd_tvq rd) (tk_head t) (tk_len t) w2 = Some (VQUEUE_SUCCESS, w3)" "w_kick cf (rd_tvq rd) w3 = Some w4"
    "tx_frame w2 w3" "tx_frame w2 w4" "w_mem w4 = w_mem w2" "get_vq (rd_tvq rd) w4 = Some (vq', r')" "vq_ident vq' = vq_ident vq1"
    "ring_rel va \<lparr>rs_drv = d, rs_dev = vq', rs_ring = r'\<rparr>
      (A\<lparr>ra_pend := ts, ra_taken := ra_taken A, ra_used := ra_used A @ [(t, tk_len t)]\<rparr>)" by auto
  have rd2: "w_rdevs ?w1 ?rdev = Some rd" "w_rdevs w3 ?rdev = Some rd"
    using f2 k(3) assms(1) by (simp_all add: tx_frame_def send_active_def)
  have p: "load_bytes (put_msg ?h src dst [] (of_int sz) (w_mem w)) data (unat ?n) = load_bytes (w_mem w) data (nat sz)"
    using payload_before_header [OF assms(11)] size_fits(1) [OF assms(9,10)] by simp
  have "rpmsg_send_offchannel_raw cf chnl src dst data sz wait w = Some (RPMSG_SUCCESS, env_unlock_mutex w4)"
    using assms(1,2,6) g(1) p k(1,2) rd2 size_fits(2) [OF assms(9,10)]
    by (simp add: rpmsg_send_offchannel_raw_def send_active_def rpmsg_wait_buffer.simps rpmsg_enqueue_buffer_def
        VQUEUE_SUCCESS_def RPMSG_SUCCESS_def Let_def w2_def [symmetric])
  moreover have "A\<lparr>ra_pend := ts, ra_taken := ra_taken A, ra_used := us\<rparr> = A\<lparr>ra_pend := ts, ra_used := us\<rparr>" for us
    by (cases A) simp
  ultimately show ?thesis using k(4-8) f2 g(2) tx_frame_trans [OF f2 k(4)]
    by (intro exI [of _ "env_unlock_mutex w4"] exI [of _ vq'] exI [of _ r']) (simp add: w2_def tx_frame_def)
qed

text \<open>
  Property C17.  Sending on the remote side: the message goes into the first buffer the master has offered on
  the transmit ring, and that buffer, with its original length, is the last one of the returned buffers; the
  send succeeds and changes nothing else of the shared memory.
\<close>

theorem rpmsg_send_returns_filled_buffer:
  assumes "send_active chnl ch rd w" "rd_role rd \<noteq> RPMSG_REMOTE" "get_vq (rd_tvq rd) w = Some (vq, r)"
    "ring_rel va \<lparr>rs_drv = d, rs_dev = vq, rs_ring = r\<rparr> A" "ra_pend A = t # ts" "msg_hdr cf va t \<noteq> 0"
    "quiet_notify cf" "notify_wired w vq" "0 \<le> sz" "sz + 16 \<le> int (unat (tk_len t))"
    "range32 data (nat sz) \<inter> range32 (msg_hdr cf va t) 16 = {}"
  shows "\<exists>w' vq' r'. rpmsg_send_offchannel_raw cf chnl src dst data sz wait w = Some (RPMSG_SUCCESS, w') \<and>
    w_mem w' = put_msg (msg_hdr cf va t) src dst (load_bytes (w_mem w) data (nat sz)) (of_int sz) (w_mem w) \<and>
    tx_frame w w' \<and> get_vq (rd_tvq rd) w' = Some (vq', r') \<and> vq_ident vq' = vq_ident vq \<and>
    ring_rel va \<lparr>rs_drv = d, rs_dev = vq', rs_ring = r'\<rparr>
      (A\<lparr>ra_pend := ts, ra_used := ra_used A @ [(t, tk_len t)]\<rparr>)"
  by (rule remote_send [OF assms])

subsection \<open>Example\<close>

text \<open>A master with an empty transmit ring of four descriptors and a pool of eight buffers.\<close>

definition tx_vq_example :: virtqueue where
  "tx_vq_example = (rs_drv ring_example)\<lparr>vq_dev := 1, vq_ring_mem := 0x8000, vq_notify := Some Hil_vring_notify\<rparr>"

definition tx_pool_example :: sh_mem_pool where
  "tx_pool_example = \<lparr>sp_start_addr = 0x10000, sp_buff_size = 512, sp_total_buffs = 8, sp_used_buffs = 0,
     sp_bmp_size = 1, sp_bitmap = [0]\<rparr>"

definition tx_rdev_example :: remote_device where
  "tx_rdev_example = rdev_zero\<lparr>rd_device := 6, rd_proc := 6, rd_role := RPMSG_REMOTE, rd_tvq := 2, rd_mem_pool := 7,
     rd_state := RPMSG_DEV_STATE_ACTIVE\<rparr>"

definition tx_chnl_example :: rpmsg_channel where
  "tx_chnl_example = chnl_zero\<lparr>ch_src := 9, ch_dst := 7, ch_rdev := 1, ch_state := RPMSG_CHNL_STATE_ACTIVE\<rparr>"

definition proc_intr0 :: proc_intr where
  "proc_intr0 = \<lparr>in_vect_id = 15, in_priority = 0, in_trigger_type = 0, in_data = NULL\<rparr>"

definition tx_proc_example :: hil_proc where
  "tx_proc_example = \<lparr>hp_cpu_id = 1, hp_sh_buff = \<lparr>shm_start_addr = 0x10000, shm_size = 0x1000, shm_flags = 0\<rparr>,
     hp_vdev = \<lparr>pd_num_vrings = 1, pd_dfeatures = 1, pd_gfeatures = 0, pd_vring_info =
       [\<lparr>pv_vq = 2, pv_phy_addr = 0x8000, pv_num_descs = 4, pv_align = 4096, pv_intr_info = proc_intr0\<rparr>]\<rparr>,
     hp_num_chnls = 0, hp_chnls = [], hp_ops = \<lparr>op_enable_interrupt = None, op_reg_ipi_after_deinit = None,
       op_notify = Some A9_fn, op_boot_cpu = None, op_shutdown_cpu = None\<rparr>\<rparr>"

definition tx_world_example :: world where
  "tx_world_example = world0
     \<lparr>w_mem := (\<lambda>a. 0)(0x500 := 42, 0x501 := 43),
      w_chnls := [5 \<mapsto> tx_chnl_example], w_rdevs := [1 \<mapsto> tx_rdev_example], w_vqs := [2 \<mapsto> tx_vq_example],
      w_rings := [0x8000 \<mapsto> rs_ring ring_example], w_pools := [7 \<mapsto> tx_pool_example], w_procs := [6 \<mapsto> tx_proc_example]\<rparr>"

lemma tx_rel_example:
  "ring_rel (cf_vatopa cfg_example) \<lparr>rs_drv = tx_vq_example, rs_dev = rs_dev ring_example, rs_ring = rs_ring ring_example\<rparr> (ring_abs0 4)"
  by code_simp

lemma tx_source_example: "tx_source cfg_example tx_rdev_example tx_world_example (ring_abs0 4) = Some (0x10000, 512, ring_abs0 4)"
  by code_simp

lemma tx_hyps_example:
  "send_active 5 tx_chnl_example tx_rdev_example tx_world_example" "rd_role tx_rdev_example = RPMSG_REMOTE"
  "rd_tvq tx_rdev_example \<noteq> NULL" "rd_mem_pool tx_rdev_example \<noteq> NULL"
  "get_vq (rd_tvq tx_rdev_example) tx_world_example = Some (tx_vq_example, rs_ring ring_example)"
  "cf_vatopa cfg_example 0x10000 \<noteq> 0" "quiet_notify cfg_example"
  by (simp_all add: send_active_def tx_world_example_def world0_def tx_chnl_example_def tx_rdev_example_def rdev_zero_def
      chnl_zero_def rpmsg_const_defs get_vq_def tx_vq_example_def cfg_example_def quiet_notify_def)

lemma tx_wired_example: "notify_wired tx_world_example tx_vq_example"
  by code_simp

theorem rpmsg_send_offers_message_witness:
  "\<exists>w'. rpmsg_send_offchannel_raw cfg_example 5 9 7 0x500 2 False tx_world_example = Some (RPMSG_SUCCESS, w') \<and>
     w_mem w' = put_msg 0x10000 9 7 [42, 43] 2 (w_mem tx_world_example)"
proof -
  have d: "range32 0x500 (nat 2) \<inter> range32 (cf_vatopa cfg_example 0x10000) 16 = {}"
    using range32_disjoint [of 0 2 64256 16 "0x500"] by (simp add: cfg_example_def)
  have f: "ra_free (ring_abs0 4) = 0 # [1, 2, 3]" by code_simp
  have p: "load_bytes (w_mem tx_world_example) 0x500 (nat 2) = [42, 43]"
    by (simp add: tx_world_example_def numeral_eq_Suc)
  have v: "cf_vatopa cfg_example 0x10000 = 0x10000" by (simp add: cfg_example_def)
  show ?thesis
    using rpmsg_send_offers_message [OF tx_hyps_example(1-5) tx_rel_example tx_source_example _ tx_hyps_example(6) f
        tx_hyps_example(7) tx_wired_example, of 2 "0x500" 9 7 False] d p v by auto
qed

text \<open>A remote whose master has offered the buffer at \<open>0x100\<close>.\<close>

definition rtx_rdev_example :: remote_device where
  "rtx_rdev_example = tx_rdev_example\<lparr>rd_role := RPMSG_MASTER, rd_mem_pool := NULL\<rparr>"

definition rtx_vq_example :: virtqueue where
  "rtx_vq_example = rx_dev_example\<lparr>vq_notify := Some Hil_vring_notify\<rparr>"

definition rtx_world_example :: world where
  "rtx_world_example = tx_world_example
     \<lparr>w_rdevs := [1 \<mapsto> rtx_rdev_example], w_vqs := [2 \<mapsto> rtx_vq_example], w_rings := [0x8000 \<mapsto> rx_ring_example]\<rparr>"

lemma rtx_rel_example:
  "ring_rel (\<lambda>a. a) \<lparr>rs_drv = rx_drv_example, rs_dev = rtx_vq_example, rs_ring = rx_ring_example\<rparr> rx_abs_example"
  by code_simp

lemma rtx_wired_example: "notify_wired rtx_world_example rtx_vq_example"
  by code_simp

theorem rpmsg_send_returns_filled_buffer_witness:
  "\<exists>w'. rpmsg_send_offchannel_raw cfg_example 5 9 7 0x500 2 True rtx_world_example = Some (RPMSG_SUCCESS, w') \<and>
     w_mem w' = put_msg 0x100 9 7 [42, 43] 2 (w_mem rtx_world_example)"
proof -
  let ?t = "\<lparr>tk_chain = [0], tk_bufs = [(0x100, 512)], tk_cookie = 0x100\<rparr> :: token"
  have h: "msg_hdr cfg_example (\<lambda>a. a) ?t = 0x100" "tk_len ?t = 512" by (simp_all add: msg_hdr_def cfg_example_def tk_len_def)
  have d: "range32 0x500 (nat 2) \<inter> range32 (msg_hdr cfg_example (\<lambda>a. a) ?t) 16 = {}"
    using range32_disjoint [of 0 16 1024 2 "0x100"] by (simp add: h Int_commute)
  have p: "load_bytes (w_mem rtx_world_example) 0x500 (nat 2) = [42, 43]"
    by (simp add: rtx_world_example_def tx_world_example_def numeral_eq_Suc)
  have a: "send_active 5 tx_chnl_example rtx_rdev_example rtx_world_example"
    "rd_role rtx_rdev_example \<noteq> RPMSG_REMOTE" "get_vq (rd_tvq rtx_rdev_example) rtx_world_example = Some (rtx_vq_example, rx_ring_example)"
    "ra_pend rx_abs_example = [?t]"
    by (simp_all add: send_active_def rtx_world_example_def tx_world_example_def world0_def tx_chnl_example_def rtx_rdev_example_def
        tx_rdev_example_def rdev_zero_def chnl_zero_def rpmsg_const_defs get_vq_def rtx_vq_example_def rx_dev_example_def rx_abs_example_def)
  show ?thesis
    using rpmsg_send_returns_filled_buffer [OF a(1-3) rtx_rel_example a(4) _ tx_hyps_example(7) rtx_wired_example, of 2 "0x500" 9 7 True] d p h by auto
qed

end
