(* ===== verification/RpmsgErr.thy ===== *)
theory RpmsgErr
  imports RpmsgTx
begin

text \<open>
  The failing branches of the messaging layer: no buffer, a message that does not fit, a full ring behind a
  pool that still has buffers, a message for an address nobody listens on.
\<close>

section \<open>No buffer\<close>

declare rpmsg_wait_buffer.simps [simp del]

text \<open>Polling for a buffer changes nothing but the interrupt bookkeeping.\<close>

definition poll_same :: "world \<Rightarrow> world \<Rightarrow> bool" where
  "poll_same w w' \<longleftrightarrow> tx_frame w w' \<and> w_mem w' = w_mem w \<and> w_pools w' = w_pools w \<and> (\<forall>q. get_vq q w' = get_vq q w)"

lemma poll_same_trans: "poll_same w1 w2 \<Longrightarrow> poll_same w2 w3 \<Longrightarrow> poll_same w1 w3"
  by (simp add: poll_same_def tx_frame_def)

lemma poll_same_lock [simp]: "poll_same w (env_lock_mutex w)" "poll_same w (env_unlock_mutex w)"
  by (simp_all add: poll_same_def tx_frame_def)

lemma put_vq_same: "get_vq p w = Some (vq, r) \<Longrightarrow> put_vq p vq r w = w"
  by (simp add: get_vq_def put_vq_def option_bind_simps fun_upd_idem)

text \<open>Nothing to send with: the remote has returned no buffer and the pool is exhausted.\<close>

definition tx_exhausted :: "config \<Rightarrow> remote_device \<Rightarrow> world \<Rightarrow> bool" where
  "tx_exhausted cf rd w \<longleftrightarrow> rd_role rd = RPMSG_REMOTE \<and> rd_tvq rd \<noteq> NULL \<and> cf_vatopa cf 0 = 0 \<and>
     (case get_vq (rd_tvq rd) w of None \<Rightarrow> False | Some (vq, r) \<Rightarrow> vq_used_cons_idx vq = vr_used_idx r) \<and>
     (rd_mem_pool rd = NULL \<or> (case w_pools w (rd_mem_pool rd) of None \<Rightarrow> False
       | Some pool \<Rightarrow> int (sp_total_buffs pool) \<le> sp_used_buffs pool))"

lemma tx_exhausted_cong: "poll_same w w' \<Longrightarrow> tx_exhausted cf rd w' = tx_exhausted cf rd w"
  by (simp add: tx_exhausted_def poll_same_def)

lemma get_tx_exhausted:
  assumes "w_rdevs w rdev = Some rd" "tx_exhausted cf rd w"
  shows "\<exists>w'. rpmsg_get_tx_buffer cf rdev len idx w = Some (0, RPMSG_BUFFER_SIZE, idx, w') \<and> poll_same w w'"
proof -
  from assms(2) obtain vq r where g: "get_vq (rd_tvq rd) w = Some (vq, r)" "vq_used_cons_idx vq = vr_used_idx r"
    and x: "rd_role rd = RPMSG_REMOTE" "rd_tvq rd \<noteq> NULL" "cf_vatopa cf 0 = 0"
    by (auto simp: tx_exhausted_def split: option.splits)
  let ?w1 = "put_vq (rd_tvq rd) vq r w"
  have s1: "poll_same w ?w1" using put_vq_same [OF g(1)] by (simp add: poll_same_def tx_frame_def)
  have gb: "w_get_buffer cf (rd_tvq rd) w = Some (0, None, ?w1)"
    using g x(2) by (simp add: w_get_buffer_def virtqueue_get_buffer_def)
  have "\<exists>w'. w_sh_mem_get_buffer (rd_mem_pool rd) ?w1 = Some (0, w') \<and> poll_same ?w1 w'"
  proof (cases "rd_mem_pool rd = NULL")
    case True
    then show ?thesis by (simp add: w_sh_mem_get_buffer_def poll_same_def tx_frame_def)
  next
    case False
    with assms(2) obtain pool where "w_pools w (rd_mem_pool rd) = Some pool" "int (sp_total_buffs pool) \<le> sp_used_buffs pool"
      by (auto simp: tx_exhausted_def split: option.splits)
    then show ?thesis using False
      by (simp add: w_sh_mem_get_buffer_def sh_mem_get_buffer_def Let_def poll_same_def tx_frame_def fun_upd_idem get_vq_def)
  qed
  then show ?thesis using assms(1) x gb poll_same_trans [OF s1] by (auto simp: rpmsg_get_tx_buffer_def)
qed

lemma wait_exhausted:
  assumes "w_rdevs w rdev = Some rd" "tx_exhausted cf rd w"
  shows "\<exists>len' idx' w'. rpmsg_wait_buffer cf rdev tick 0 len idx w = Some (RPMSG_ERR_NO_BUFF, 0, len', idx', w') \<and> poll_same w w'"
  using assms
proof (induction "1500 - tick" arbitrary: tick len idx w rule: less_induct)
  case less
  let ?wl = "env_lock_mutex w"
  have "w_rdevs ?wl rdev = Some rd" "tx_exhausted cf rd ?wl"
    using less.prems tx_exhausted_cong [OF poll_same_lock(1)] by simp_all
  from get_tx_exhausted [OF this, of len idx] obtain w1 where
    g: "rpmsg_get_tx_buffer cf rdev len idx ?wl = Some (0, RPMSG_BUFFER_SIZE, idx, w1)" "poll_same ?wl w1" by blast
  let ?w2 = "env_unlock_mutex w1"
  have s: "poll_same w ?w2" using g(2) poll_same_trans poll_same_lock by blast
  show ?case
  proof (cases "tick + 10 \<ge> 1500")
    case True
    then show ?thesis using g(1) s
      by (subst rpmsg_wait_buffer.simps) (simp add: RPMSG_TICKS_PER_INTERVAL_def RPMSG_TICK_COUNT_def)
  next
    case False
    have p: "w_rdevs ?w2 rdev = Some rd" "tx_exhausted cf rd ?w2"
      using less.prems s tx_exhausted_cong [OF s] by (simp_all add: poll_same_def tx_frame_def)
    have "1500 - (tick + 10) < 1500 - tick" using False by simp
    from less.hyps [OF this p, of RPMSG_BUFFER_SIZE idx] obtain l i w' where "rpmsg_wait_buffer cf rdev (tick + 10) 0 RPMSG_BUFFER_SIZE idx ?w2 = Some (RPMSG_ERR_NO_BUFF, 0, l, i, w')"
      "poll_same ?w2 w'" by auto
    then show ?thesis using g(1) False poll_same_trans [OF s]
      by (subst rpmsg_wait_buffer.simps) (simp add: RPMSG_TICKS_PER_INTERVAL_def RPMSG_TICK_COUNT_def)
  qed
qed


definition exhausted_world_example :: world where
  "exhausted_world_example = tx_world_example\<lparr>w_pools := [7 \<mapsto> tx_pool_example\<lparr>sp_used_buffs := 8, sp_bitmap := [255]\<rparr>]\<rparr>"


section \<open>A full ring\<close>

text \<open>
  The master checks for a free buffer but not for a free descriptor: with every descriptor of
  the transmit ring in flight and a buffer left in the pool, a send of the shipped build leaves the descriptor
  tables (undefined behaviour) instead of failing.
\<close>

theorem rpmsg_send_full_ring:
  assumes "send_active chnl ch rd w" "rd_role rd = RPMSG_REMOTE" "rd_tvq rd \<noteq> NULL" "rd_mem_pool rd \<noteq> NULL"
    "get_vq (rd_tvq rd) w = Some (vq, r)" "ring_rel (cf_vatopa cf) \<lparr>rs_drv = vq, rs_dev = d, rs_ring = r\<rparr> A"
    "ra_used A = []" "ra_free A = []" "tx_source cf rd w A = Some (b, len, A')" "b \<noteq> 0" "cf_vatopa cf b \<noteq> 0"
    "0 \<le> sz" "sz + 16 \<le> int (unat len)" "cf_dbg cf = VQUEUE_DEBUG"
  shows "rpmsg_send_offchannel_raw cf chnl src dst data sz wait w = None"
proof -
  let ?h = "cf_vatopa cf b" and ?rdev = "ch_rdev ch"
  have rdl: "w_rdevs (env_lock_mutex w) ?rdev = Some rd" "get_vq (rd_tvq rd) (env_lock_mutex w) = Some (vq, r)"
    "tx_source cf rd (env_lock_mutex w) A = Some (b, len, A')"
    using assms(1,5,9) by (simp_all add: send_active_def tx_source_def split: list.splits prod.splits)
  from get_tx_source [OF rdl(1) assms(2-4) rdl(2) assms(6) rdl(3) assms(10), of "cf_uninit_len cf" "cf_uninit_idx cf"]
  obtain w1 vq1 r1 where g: "rpmsg_get_tx_buffer cf ?rdev (cf_uninit_len cf) (cf_uninit_idx cf) (env_lock_mutex w) =
      Some (?h, len, cf_uninit_idx cf, w1)" "tx_frame (env_lock_mutex w) w1"
    "get_vq (rd_tvq rd) w1 = Some (vq1, r1)" "ring_rel (cf_vatopa cf) \<lparr>rs_drv = vq1, rs_dev = d, rs_ring = r1\<rparr> A'" by auto
  have A': "ra_free A' = []" using assms(7-9) by (auto simp: tx_source_def option_bind_simps)
  have rd1: "w_rdevs w1 ?rdev = Some rd" using g(2) rdl(1) by (simp add: tx_frame_def)
  have ab: "w_add_buffer cf (rd_tvq rd) [(?h, len)] 0 1 ?h (env_lock_mutex ((env_unlock_mutex w1)\<lparr>w_mem := m\<rparr>)) = None" for m
    using g(3) add_buffer_full [OF g(4) A', of 0 1 "cf_dbg cf" "[(?h, len)]" ?h] assms(14)
    by (simp add: w_add_buffer_def get_vq_def option_bind_simps VQUEUE_DEBUG_def)
  show ?thesis using assms(1,2,11) g(1) rd1 ab size_fits(2) [OF assms(12,13)]
    by (simp add: rpmsg_send_offchannel_raw_def send_active_def rpmsg_wait_buffer.simps rpmsg_enqueue_buffer_def Let_def)
qed

definition full_vq_example :: virtqueue where
  "full_vq_example = (rs_drv full_ring_example)\<lparr>vq_dev := 1, vq_ring_mem := 0x8000, vq_notify := Some Hil_vring_notify\<rparr>"

definition full_world_example :: world where
  "full_world_example = tx_world_example\<lparr>w_vqs := [2 \<mapsto> full_vq_example], w_rings := [0x8000 \<mapsto> rs_ring full_ring_example]\<rparr>"

theorem rpmsg_send_full_ring_witness:
  "rpmsg_send_offchannel_raw cfg_example 5 9 7 0x500 2 False full_world_example = None"
proof -
  have r: "ring_rel (cf_vatopa cfg_example)
      \<lparr>rs_drv = full_vq_example, rs_dev = rs_dev full_ring_example, rs_ring = rs_ring full_ring_example\<rparr> full_abs_example"
    by code_simp
  have s: "tx_source cfg_example tx_rdev_example full_world_example full_abs_example = Some (0x10000, 512, full_abs_example)"
    by code_simp
  have a: "send_active 5 tx_chnl_example tx_rdev_example full_world_example"
    "get_vq (rd_tvq tx_rdev_example) full_world_example = Some (full_vq_example, rs_ring full_ring_example)"
    "ra_used full_abs_example = []" "ra_free full_abs_example = []"
    using tx_hyps_example(1)
    by (simp_all add: full_world_example_def send_active_def get_vq_def tx_rdev_example_def full_vq_example_def full_abs_example_def)
  show ?thesis
    by (rule rpmsg_send_full_ring [OF a(1) tx_hyps_example(2-4) a(2) r a(3,4) s])
      (simp_all add: cfg_example_def VQUEUE_DEBUG_def)
qed

section \<open>Messages that are not delivered\<close>



end
