(* ===== verification/RpmsgRxMaster.thy ===== *)
theory RpmsgRxMaster
  imports RpmsgTx
begin

text \<open>
  Correctness of receiving on the master side, the driver side of its queues: messages arrive as buffers
  the remote has filled and returned; each is delivered and its buffer offered again.
\<close>

text \<open>The ring after the master has taken every returned buffer and offered it again.\<close>

fun drain :: "config \<Rightarrow> (token \<times> u32) list \<Rightarrow> ring_abs \<Rightarrow> ring_abs" where
  "drain cf [] A = A"
| "drain cf ((t, len) # us) A = drain cf us (A\<lparr>ra_free := tl (tk_chain t) @ ra_free A, ra_used := us,
     ra_pend := ra_pend A @ [\<lparr>tk_chain = [hd (tk_chain t)], tk_bufs = [(cf_vatopa cf (tk_cookie t), len)],
       tk_cookie = cf_vatopa cf (tk_cookie t)\<rparr>]\<rparr>)"

definition mrx_ready :: "config \<Rightarrow> world \<Rightarrow> ptr \<Rightarrow> token \<Rightarrow> bool" where
  "mrx_ready cf w rdev t \<longleftrightarrow> tk_cookie t \<noteq> 0 \<and> cf_vatopa cf (tk_cookie t) \<noteq> 0 \<and>
     rx_target w rdev (load32 (w_mem w) (cf_vatopa cf (tk_cookie t) + 4)) \<noteq> None"

lemma mrx_ready_cong: "same_objects w w' \<Longrightarrow> mrx_ready cf w' rdev t = mrx_ready cf w rdev t"
  using rx_target_cong [of w w' rdev] by (simp add: mrx_ready_def same_objects_def)

lemma get_rx_returned:
  assumes "w_rdevs w rdev = Some rd" "rd_role rd = RPMSG_REMOTE" "rd_rvq rd \<noteq> NULL" "get_vq (rd_rvq rd) w = Some (vq, r)"
    "ring_rel va \<lparr>rs_drv = vq, rs_dev = d, rs_ring = r\<rparr> A" "ra_used A = (t, n) # us"
  shows "\<exists>vq' r'. rpmsg_get_rx_buffer cf rdev len idx w = Some (cf_vatopa cf (tk_cookie t), n, idx, put_vq (rd_rvq rd) vq' r' w) \<and>
    ring_rel va \<lparr>rs_drv = vq', rs_dev = d, rs_ring = r'\<rparr> (A\<lparr>ra_free := tk_chain t @ ra_free A, ra_used := us\<rparr>)"
proof -
  from w_reclaim [OF assms(4-6,3), of cf] obtain vq' r' where "w_get_buffer cf (rd_rvq rd) w =
      Some (tk_cookie t, Some n, put_vq (rd_rvq rd) vq' r' w)"
    "ring_rel va \<lparr>rs_drv = vq', rs_dev = d, rs_ring = r'\<rparr> (A\<lparr>ra_free := tk_chain t @ ra_free A, ra_used := us\<rparr>)" by blast
  then show ?thesis using assms(1,2) by (intro exI [of _ vq'] exI [of _ r']) (simp add: rpmsg_get_rx_buffer_def)
qed

lemma get_rx_none:
  assumes "w_rdevs w rdev = Some rd" "rd_role rd = RPMSG_REMOTE" "rd_rvq rd \<noteq> NULL" "get_vq (rd_rvq rd) w = Some (vq, r)"
    "ring_rel va \<lparr>rs_drv = vq, rs_dev = d, rs_ring = r\<rparr> A" "ra_used A = []"
  shows "rpmsg_get_rx_buffer cf rdev len idx w = Some (cf_vatopa cf 0, len, idx, put_vq (rd_rvq rd) vq r w)"
  using w_reclaim_empty [OF assms(4-6,3), of cf] assms(1,2) by (simp add: rpmsg_get_rx_buffer_def)

lemma mrx_iteration:
  assumes "recording_app cf" "w_rdevs w rdev = Some rd" "rd_role rd = RPMSG_REMOTE"
    "get_vq (rd_rvq rd) w = Some (vq, r)" "ring_rel (cf_vatopa cf) \<lparr>rs_drv = vq, rs_dev = d, rs_ring = r\<rparr> A"
    "ra_free A = x # xs" "h \<noteq> 0" "rx_target w rdev (load32 (w_mem w) (h + 4)) \<noteq> None"
  shows "\<exists>w' vq' r'. rpmsg_rx_loop cf rdev h len idx w =
      do { (hdr, len, idx, w) \<leftarrow> rpmsg_get_rx_buffer cf rdev len idx w';
           rpmsg_rx_loop cf rdev hdr len idx (env_unlock_mutex w) } \<and>
    w_app w' = w_app w @ [msg_event w rdev h] \<and> same_objects w w' \<and> get_vq (rd_rvq rd) w' = Some (vq', r') \<and>
    ring_rel (cf_vatopa cf) \<lparr>rs_drv = vq', rs_dev = d, rs_ring = r'\<rparr>
      (A\<lparr>ra_free := xs, ra_pend := ra_pend A @ [\<lparr>tk_chain = [x], tk_bufs = [(h, len)], tk_cookie = h\<rparr>]\<rparr>)"
proof -
  from assms(8) obtain n chnl where tg: "rx_target w rdev (load32 (w_mem w) (h + 4)) = Some (n, chnl)" by auto
  let ?w1 = "env_unlock_mutex (env_lock_mutex w)"
  from deliver_message [OF tg assms(1)] obtain node where ep:
    "rpmsg_rdev_get_endpoint_from_addr rdev (load32 (w_mem w) (h + 4)) w = Some (node, ?w1)" "node \<noteq> NULL"
    and dl: "rpmsg_deliver cf rdev node h ?w1 = Some (?w1\<lparr>w_app := w_app w @ [msg_event w rdev h]\<rparr>)" by blast
  let ?w2 = "env_lock_mutex (?w1\<lparr>w_app := w_app w @ [msg_event w rdev h]\<rparr>)"
  have g2: "get_vq (rd_rvq rd) ?w2 = Some (vq, r)" using assms(4) by (simp add: get_vq_def)
  from w_offer [OF g2 assms(5-7), of len] obtain vq' r' where gv:
    "w_add_buffer cf (rd_rvq rd) [(h, len)] 0 1 h ?w2 = Some (VQUEUE_SUCCESS, put_vq (rd_rvq rd) vq' r' ?w2)"
    "ring_rel (cf_vatopa cf) \<lparr>rs_drv = vq', rs_dev = d, rs_ring = r'\<rparr>
      (A\<lparr>ra_free := xs, ra_pend := ra_pend A @ [\<lparr>tk_chain = [x], tk_bufs = [(h, len)], tk_cookie = h\<rparr>]\<rparr>)" by blast
  let ?w3 = "put_vq (rd_rvq rd) vq' r' ?w2"
  have "rpmsg_return_buffer cf rdev h len idx ?w2 = Some ?w3"
    using gv(1) assms(2,3) by (simp add: rpmsg_return_buffer_def)
  then have "rpmsg_rx_loop cf rdev h len idx w =
      do { (hdr, len, idx, w) \<leftarrow> rpmsg_get_rx_buffer cf rdev len idx ?w3;
           rpmsg_rx_loop cf rdev hdr len idx (env_unlock_mutex w) }"
    using assms(7) ep dl by (subst rpmsg_rx_loop.simps) simp
  then show ?thesis using gv(2)
    by (intro exI [of _ ?w3] exI [of _ vq'] exI [of _ r']) (simp add: same_objects_def)
qed

text \<open>The messages behind a list of returned buffers.\<close>

definition mrx_events :: "config \<Rightarrow> world \<Rightarrow> ptr \<Rightarrow> (token \<times> u32) list \<Rightarrow> app_event list" where
  "mrx_events cf w rdev us = map (\<lambda>(t, len). msg_event w rdev (cf_vatopa cf (tk_cookie t))) us"

lemma mrx_events_cong: "same_objects w w' \<Longrightarrow> mrx_events cf w' rdev us = mrx_events cf w rdev us"
  by (simp add: mrx_events_def msg_event_cong)

lemma mrx_get_and_loop:
  assumes "recording_app cf" "rx_stops cf w rdev" "w_rdevs w rdev = Some rd" "rd_role rd = RPMSG_REMOTE" "rd_rvq rd \<noteq> NULL"
    "get_vq (rd_rvq rd) w = Some (vq, r)" "ring_rel (cf_vatopa cf) \<lparr>rs_drv = vq, rs_dev = d, rs_ring = r\<rparr> A"
    "\<forall>u \<in> set (ra_used A). mrx_ready cf w rdev (fst u)"
  shows "\<exists>w' vq' r'. do { (hdr, len, idx, w) \<leftarrow> rpmsg_get_rx_buffer cf rdev len idx w;
      rpmsg_rx_loop cf rdev hdr len idx (env_unlock_mutex w) } = Some w' \<and>
    w_app w' = w_app w @ mrx_events cf w rdev (ra_used A) \<and> same_objects w w' \<and>
    get_vq (rd_rvq rd) w' = Some (vq', r') \<and>
    ring_rel (cf_vatopa cf) \<lparr>rs_drv = vq', rs_dev = d, rs_ring = r'\<rparr> (drain cf (ra_used A) A)"
  using assms(2,3,6,7,8)
proof (induction "ra_used A" arbitrary: w vq r A len idx)
  case Nil
  let ?w2 = "env_unlock_mutex (put_vq (rd_rvq rd) vq r w)"
  have so: "same_objects w ?w2" by (simp add: same_objects_def)
  from rx_loop_stops [of cf ?w2 rdev len idx] Nil.prems(1) rx_stops_cong [OF so]
  obtain w3 where w3: "rpmsg_rx_loop cf rdev (cf_vatopa cf 0) len idx ?w2 = Some w3"
    "same_objects ?w2 w3" "w_app w3 = w_app ?w2" "\<forall>p. get_vq p w3 = get_vq p ?w2" by blast
  show ?case using get_rx_none [OF Nil.prems(2) assms(4,5) Nil.prems(3,4) Nil.hyps [symmetric], of cf len idx] w3(1,3,4)
      same_objects_trans [OF so w3(2)] Nil.prems(4) Nil.hyps [symmetric]
    by (intro exI [of _ w3] exI [of _ vq] exI [of _ r]) (simp add: mrx_events_def)
next
  case (Cons u us)
  obtain t n where u: "u = (t, n)" by (cases u)
  have used: "ra_used A = (t, n) # us" using Cons.hyps(2) u by simp
  let ?h = "cf_vatopa cf (tk_cookie t)"
  define A1 where "A1 = A\<lparr>ra_free := tk_chain t @ ra_free A, ra_used := us\<rparr>"
  define A2 where "A2 = A1\<lparr>ra_free := tl (tk_chain t) @ ra_free A,
     ra_pend := ra_pend A1 @ [\<lparr>tk_chain = [hd (tk_chain t)], tk_bufs = [(?h, n)], tk_cookie = ?h\<rparr>]\<rparr>"
  from get_rx_returned [OF Cons.prems(2) assms(4,5) Cons.prems(3,4) used, of cf len idx] obtain vq1 r1 where g:
    "rpmsg_get_rx_buffer cf rdev len idx w = Some (?h, n, idx, put_vq (rd_rvq rd) vq1 r1 w)"
    "ring_rel (cf_vatopa cf) \<lparr>rs_drv = vq1, rs_dev = d, rs_ring = r1\<rparr> A1" unfolding A1_def by blast
  let ?w1 = "env_unlock_mutex (put_vq (rd_rvq rd) vq1 r1 w)"
  have so: "same_objects w ?w1" by (simp add: same_objects_def)
  have "t \<in> set (tokens A)" by (simp add: tokens_def used)
  then have ne: "tk_chain t \<noteq> []" using token_chain_nonempty [OF Cons.prems(4)] by blast
  have r1: "w_rdevs ?w1 rdev = Some rd" "get_vq (rd_rvq rd) ?w1 = Some (vq1, r1)" using Cons.prems(2) by simp_all
  have fr: "ra_free A1 = hd (tk_chain t) # tl (tk_chain t) @ ra_free A" using ne by (simp add: A1_def)
  have "A2 = A\<lparr>ra_free := tl (tk_chain t) @ ra_free A, ra_used := us,
     ra_pend := ra_pend A @ [\<lparr>tk_chain = [hd (tk_chain t)], tk_bufs = [(?h, n)], tk_cookie = ?h\<rparr>]\<rparr>"
    by (cases A) (simp add: A2_def A1_def)
  then have A2: "ra_used A2 = us" "drain cf (ra_used A) A = drain cf us A2" by (simp_all add: used)
  have rdy: "mrx_ready cf ?w1 rdev t" using Cons.prems(5) used mrx_ready_cong [OF so] by simp
  from mrx_iteration [OF assms(1) r1(1) assms(4) r1(2) g(2) fr, of ?h n idx] rdy obtain w2 vq2 r2 where it:
    "rpmsg_rx_loop cf rdev ?h n idx ?w1 = do { (hdr, len, idx, w) \<leftarrow> rpmsg_get_rx_buffer cf rdev n idx w2;
           rpmsg_rx_loop cf rdev hdr len idx (env_unlock_mutex w) }"
    "w_app w2 = w_app ?w1 @ [msg_event ?w1 rdev ?h]" "same_objects ?w1 w2" "get_vq (rd_rvq rd) w2 = Some (vq2, r2)"
    "ring_rel (cf_vatopa cf) \<lparr>rs_drv = vq2, rs_dev = d, rs_ring = r2\<rparr> A2"
    unfolding mrx_ready_def A2_def [symmetric] by blast
  have so2: "same_objects w w2" using same_objects_trans [OF so it(3)] .
  have pre: "rx_stops cf w2 rdev" "w_rdevs w2 rdev = Some rd" "\<forall>u \<in> set us. mrx_ready cf w2 rdev (fst u)"
    using Cons.prems(1,2,5) used rx_stops_cong [OF so2] mrx_ready_cong [OF so2] so2 by (simp_all add: same_objects_def)
  from Cons.hyps(1) [OF A2(1) [symmetric] pre(1,2) it(4,5), of n idx] pre(3) obtain w' vq' r' where ih:
    "do { (hdr, len, idx, w) \<leftarrow> rpmsg_get_rx_buffer cf rdev n idx w2;
      rpmsg_rx_loop cf rdev hdr len idx (env_unlock_mutex w) } = Some w'"
    "w_app w' = w_app w2 @ mrx_events cf w2 rdev us" "same_objects w2 w'" "get_vq (rd_rvq rd) w' = Some (vq', r')"
    "ring_rel (cf_vatopa cf) \<lparr>rs_drv = vq', rs_dev = d, rs_ring = r'\<rparr> (drain cf (ra_used A) A)" unfolding A2 by blast
  have "w_app w' = w_app w @ mrx_events cf w rdev (ra_used A)"
    using ih(2) it(2) mrx_events_cong [OF so2] msg_event_cong [OF so] by (simp add: used mrx_events_def)
  then show ?case using g(1) it(1) ih(1,4,5) same_objects_trans [OF so2 ih(3)]
    by (intro exI [of _ w'] exI [of _ vq'] exI [of _ r']) simp
qed

text \<open>
  Property C11.  Receiving on the master side: the receive callback returns, the application gets every
  message the remote has sent, once and in order, and every buffer is offered to the remote again.
\<close>

theorem rpmsg_rx_callback_master_delivers_all:
  assumes "recording_app cf" "rx_stops cf w (vq_dev vq0)" "w_rdevs w (vq_dev vq0) = Some rd" "rd_role rd = RPMSG_REMOTE"
    "rd_rvq rd \<noteq> NULL" "get_vq (rd_rvq rd) w = Some (vq, r)"
    "ring_rel (cf_vatopa cf) \<lparr>rs_drv = vq, rs_dev = d, rs_ring = r\<rparr> A" "\<forall>u \<in> set (ra_used A). mrx_ready cf w (vq_dev vq0) (fst u)"
  shows "\<exists>w' vq' r'. rpmsg_rx_callback cf vq0 w = Some w' \<and>
    w_app w' = w_app w @ mrx_events cf w (vq_dev vq0) (ra_used A) \<and> same_objects w w' \<and>
    get_vq (rd_rvq rd) w' = Some (vq', r') \<and>
    ring_rel (cf_vatopa cf) \<lparr>rs_drv = vq', rs_dev = d, rs_ring = r'\<rparr> (drain cf (ra_used A) A)"
proof -
  let ?wl = "env_lock_mutex w"
  have so: "same_objects w ?wl" by (simp add: same_objects_def)
  have pre: "rx_stops cf ?wl (vq_dev vq0)" "w_rdevs ?wl (vq_dev vq0) = Some rd" "get_vq (rd_rvq rd) ?wl = Some (vq, r)"
    "\<forall>u \<in> set (ra_used A). mrx_ready cf ?wl (vq_dev vq0) (fst u)"
    using assms rx_stops_cong [OF so] mrx_ready_cong [OF so] by simp_all
  have "rpmsg_rx_callback cf vq0 w = do {
    (hdr, len, idx, w) \<leftarrow> rpmsg_get_rx_buffer cf (vq_dev vq0) (cf_uninit_len cf) (cf_uninit_idx cf) ?wl;
    rpmsg_rx_loop cf (vq_dev vq0) hdr len idx (env_unlock_mutex w) }"
    using assms(3,4) by (simp add: rpmsg_rx_callback_def Let_def RPMSG_REMOTE_def RPMSG_MASTER_def)
  then show ?thesis
    using mrx_get_and_loop [OF assms(1) pre(1,2) assms(4,5) pre(3) assms(7) pre(4), of "cf_uninit_len cf" "cf_uninit_idx cf"]
      mrx_events_cong [OF so] so by (auto simp: same_objects_def)
qed

subsection \<open>Example\<close>

text \<open>The remote has filled and returned the first buffer of the master's receive ring.\<close>

definition mrx_vq_example :: virtqueue where
  "mrx_vq_example = rx_drv_example\<lparr>vq_dev := 1, vq_ring_mem := 0x8000, vq_callback := Some Rpmsg_rx_callback\<rparr>"

definition mrx_dev_example :: virtqueue where
  "mrx_dev_example = (rs_dev ring_example)\<lparr>vq_available_idx := 1\<rparr>"

definition mrx_ring_example :: vring_mem where
  "mrx_ring_example = rx_ring_example\<lparr>vr_used_ring := (vr_used_ring rx_ring_example)[0 := \<lparr>ue_id = 0, ue_len = 512\<rparr>], vr_used_idx := 1\<rparr>"

definition mrx_abs_example :: ring_abs where
  "mrx_abs_example = \<lparr>ra_free = [1, 2, 3], ra_pend = [], ra_taken = [],
     ra_used = [(\<lparr>tk_chain = [0], tk_bufs = [(0x100, 512)], tk_cookie = 0x100\<rparr>, 512)]\<rparr>"

definition mrx_world_example :: world where
  "mrx_world_example = rx_world_example\<lparr>w_rdevs := [1 \<mapsto> rx_rdev_example\<lparr>rd_role := RPMSG_REMOTE\<rparr>],
     w_vqs := [2 \<mapsto> mrx_vq_example], w_rings := [0x8000 \<mapsto> mrx_ring_example]\<rparr>"

lemma mrx_rel_example:
  "ring_rel (cf_vatopa cfg_example) \<lparr>rs_drv = mrx_vq_example, rs_dev = mrx_dev_example, rs_ring = mrx_ring_example\<rparr> mrx_abs_example"
  by code_simp

lemma mrx_ready_example: "\<forall>u \<in> set (ra_used mrx_abs_example). mrx_ready cfg_example mrx_world_example 1 (fst u)"
  by code_simp

lemma mrx_events_example: "mrx_events cfg_example mrx_world_example 1 (ra_used mrx_abs_example) = [Rx_event 5 0 [1, 2, 3] 9]"
  by code_simp

theorem rpmsg_rx_callback_master_delivers_all_witness:
  "\<exists>w'. rpmsg_rx_callback cfg_example mrx_vq_example mrx_world_example = Some w' \<and> w_app w' = [Rx_event 5 0 [1, 2, 3] 9]"
proof -
  let ?rd = "rx_rdev_example\<lparr>rd_role := RPMSG_REMOTE\<rparr>"
  have "vq_dev mrx_vq_example = 1" by (simp add: mrx_vq_example_def)
  moreover have "w_rdevs mrx_world_example 1 = Some ?rd" "w_app mrx_world_example = []" "rd_rvq ?rd \<noteq> NULL"
    "rx_stops cfg_example mrx_world_example 1" "get_vq (rd_rvq ?rd) mrx_world_example = Some (mrx_vq_example, mrx_ring_example)"
    by (simp_all add: mrx_world_example_def rx_world_example_def world0_def cfg_example_def rx_rdev_example_def rdev_zero_def
        get_vq_def mrx_vq_example_def rx_stops_def)
  ultimately show ?thesis
    using rpmsg_rx_callback_master_delivers_all [OF cfg_example_recording, of mrx_world_example mrx_vq_example ?rd
        mrx_vq_example mrx_ring_example mrx_dev_example mrx_abs_example]
      mrx_rel_example mrx_ready_example mrx_events_example by auto
qed

end
