(* ===== verification/Platform.thy ===== *)
theory Platform
  imports Hil
begin

text \<open>
  The ports of the library: \<^verbatim>\<open>lib/system/generic/machine/zynq7/machine_system.c\<close>,
  \<^verbatim>\<open>lib/system/generic/machine/zynqmp_r5/machine_system.c\<close> and the drivers
  \<^verbatim>\<open>lib/remoteproc/drivers/zynq_remoteproc_a9.c\<close> and \<^verbatim>\<open>zynqmp_remoteproc_a53.c\<close>.  Device registers
  are a map from addresses to words together with the order of the writes; the trampoline the A9 driver
  copies is assembly code, so its bytes are a parameter.
\<close>

section \<open>Address translation\<close>

definition z7_vatopa :: "u32 \<Rightarrow> u32" where
  "z7_vatopa addr = (addr AND NOT (push_bit 20 0x0fff)) OR push_bit 24 0x08"

definition z7_patova :: "u32 \<Rightarrow> u32" where
  "z7_patova addr = addr"

definition r5_vatopa :: "u32 \<Rightarrow> u32" where
  "r5_vatopa addr = addr"

definition r5_patova :: "u32 \<Rightarrow> u32" where
  "r5_patova addr = addr"

text \<open>
  What the messaging layer relies on: a buffer has one place.  The sender writes the message to the
  translated address of its buffer and puts the translation of that address into the descriptor; what the
  receiver computes from the descriptor is where the message was written.
\<close>

locale shared_addressing =
  fixes snd_vatopa rcv_vatopa rcv_patova :: "u32 \<Rightarrow> u32"
  assumes same_place: "rcv_vatopa (rcv_patova (snd_vatopa (snd_vatopa a))) = snd_vatopa a"
begin

lemma translated_idem: "h = snd_vatopa b \<Longrightarrow> rcv_vatopa (rcv_patova (snd_vatopa h)) = h"
  using same_place by simp

lemma place_determined: "snd_vatopa (snd_vatopa a) = snd_vatopa (snd_vatopa b) \<Longrightarrow> snd_vatopa a = snd_vatopa b"
  using same_place by metis

end

lemma z7_vatopa_bit: "bit (z7_vatopa a) n \<longleftrightarrow> n < 32 \<and> (n = 27 \<or> n < 20 \<and> bit a n)"
proof -
  have "(push_bit 24 8 :: u32) = 2 ^ 27" by simp
  then have "bit (push_bit 24 8 :: u32) n \<longleftrightarrow> n = 27" by (simp only: bit_exp_iff) auto
  moreover have "bit (push_bit 20 0x0fff :: u32) n \<longleftrightarrow> 20 \<le> n \<and> n < 32"
  proof -
    have "(push_bit 20 0x0fff :: u32) = push_bit 20 (mask 12)" by (simp add: mask_eq_exp_minus_1)
    then show ?thesis by (simp only: bit_push_bit_iff bit_mask_iff) auto
  qed
  ultimately show ?thesis by (auto simp: z7_vatopa_def bit_simps)
qed

lemma z7_vatopa_idem: "z7_vatopa (z7_vatopa a) = z7_vatopa a"
  by (rule bit_word_eqI) (auto simp: z7_vatopa_bit)

interpretation z7: shared_addressing z7_vatopa z7_vatopa z7_patova
  by unfold_locales (simp add: z7_patova_def z7_vatopa_idem)

interpretation r5: shared_addressing r5_vatopa r5_vatopa r5_patova
  by unfold_locales (simp add: r5_vatopa_def r5_patova_def)

text \<open>
  Address translation of Zynq-7000: it keeps the low 20 bits only, so two addresses have the
  same translation exactly when they agree modulo 1 MiB (the shared memory of the boards is 2 MiB), and the
  null pointer becomes \<open>0x08000000\<close>: a queue that has no buffer looks as if it had one.
\<close>

theorem platform_vatopa_window:
  "(z7_vatopa a = z7_vatopa b \<longleftrightarrow> take_bit 20 a = take_bit 20 b) \<and> z7_vatopa 0 = 0x08000000 \<and> z7_vatopa a \<noteq> 0"
proof (intro conjI)
  show "z7_vatopa a = z7_vatopa b \<longleftrightarrow> take_bit 20 a = take_bit 20 b"
  proof
    assume e: "z7_vatopa a = z7_vatopa b"
    have "bit a n = bit b n" if "n < 20" for n
      using z7_vatopa_bit [of a n] z7_vatopa_bit [of b n] e that by auto
    then show "take_bit 20 a = take_bit 20 b" by (intro bit_word_eqI) (auto simp: bit_simps)
  next
    assume e: "take_bit 20 a = take_bit 20 b"
    have "bit a n = bit b n" if "n < 20" for n
      using bit_take_bit_iff [of 20 a n] bit_take_bit_iff [of 20 b n] e that by simp
    then show "z7_vatopa a = z7_vatopa b" by (intro bit_word_eqI) (auto simp: z7_vatopa_bit)
  qed
  show "z7_vatopa 0 = 0x08000000" by (simp add: z7_vatopa_def)
  show "z7_vatopa a \<noteq> 0" using z7_vatopa_bit [of a 27] by auto
qed

section \<open>Device registers\<close>

record hw =
  hw_mem :: memory
  hw_regs :: "u32 \<Rightarrow> u32"
  hw_log :: "(u32 \<times> u32) list"

definition MEM_WRITE32 :: "u32 \<Rightarrow> u32 \<Rightarrow> hw \<Rightarrow> hw" where
  "MEM_WRITE32 addr v h = h\<lparr>hw_regs := (hw_regs h)(addr := v), hw_log := hw_log h @ [(addr, v)]\<rparr>"

definition MEM_READ32 :: "u32 \<Rightarrow> hw \<Rightarrow> u32" where
  "MEM_READ32 addr h = hw_regs h addr"

section \<open>The interrupt controller of Zynq-7000\<close>

definition INT_GIC_DIST_BASE :: u32 where "INT_GIC_DIST_BASE = 0xF8F01000"
definition INT_GIC_DIST_ENABLE_SET :: u32 where "INT_GIC_DIST_ENABLE_SET = 0x100"
definition INT_GIC_DIST_ENABLE_CLEAR :: u32 where "INT_GIC_DIST_ENABLE_CLEAR = 0x180"
definition INT_GIC_DIST_PRI :: u32 where "INT_GIC_DIST_PRI = 0x400"
definition INT_GIC_DIST_TARGET :: u32 where "INT_GIC_DIST_TARGET = 0x800"

lemmas gic_defs = INT_GIC_DIST_BASE_def INT_GIC_DIST_ENABLE_SET_def INT_GIC_DIST_ENABLE_CLEAR_def INT_GIC_DIST_PRI_def
  INT_GIC_DIST_TARGET_def

text \<open>\<open>cpu\<close> is what \<^verbatim>\<open>get_cpu_id_arm\<close> reads from the multiprocessor affinity register, already masked.\<close>

definition z7_interrupt_enable :: "nat \<Rightarrow> u32 \<Rightarrow> u32 \<Rightarrow> u32 \<Rightarrow> hw \<Rightarrow> u32 \<times> hw" where
  "z7_interrupt_enable cpu vector_id polarity priority h =
     (let bit_shift = unat (vector_id mod 4 * 8);
          targ_cpu = push_bit bit_shift (push_bit cpu 1);
          reg_offset = vector_id div 4 * 4;
          temp32 = MEM_READ32 (INT_GIC_DIST_BASE + INT_GIC_DIST_PRI + reg_offset) h OR push_bit (bit_shift + 4) priority;
          h = MEM_WRITE32 (INT_GIC_DIST_BASE + INT_GIC_DIST_PRI + reg_offset) temp32 h;
          temp32 = MEM_READ32 (INT_GIC_DIST_BASE + INT_GIC_DIST_TARGET + reg_offset) h OR targ_cpu;
          h = MEM_WRITE32 (INT_GIC_DIST_BASE + INT_GIC_DIST_TARGET + reg_offset) temp32 h;
          reg_offset = vector_id div 32 * 4;
          temp32 = push_bit (unat (vector_id - reg_offset * 0x08)) 1
      in (vector_id, MEM_WRITE32 (INT_GIC_DIST_BASE + INT_GIC_DIST_ENABLE_SET + reg_offset) temp32 h))"

definition z7_interrupt_disable :: "nat \<Rightarrow> u32 \<Rightarrow> hw \<Rightarrow> u32 \<times> hw" where
  "z7_interrupt_disable cpu vector_id h =
     (let reg_offset = vector_id div 32 * 4;
          h = MEM_WRITE32 (INT_GIC_DIST_BASE + INT_GIC_DIST_ENABLE_CLEAR + reg_offset)
                (push_bit (unat (vector_id - reg_offset * 0x08)) 1) h;
          reg_offset = vector_id div 4 * 4;
          bit_shift = unat (vector_id mod 4 * 8);
          targ_cpu = push_bit bit_shift (push_bit cpu 1);
          temp32 = MEM_READ32 (INT_GIC_DIST_BASE + INT_GIC_DIST_TARGET + reg_offset) h AND NOT targ_cpu
      in (vector_id, MEM_WRITE32 (INT_GIC_DIST_BASE + INT_GIC_DIST_TARGET + reg_offset) temp32 h))"

section \<open>The A9 driver\<close>

definition ESAL_DP_SLCR_BASE :: u32 where "ESAL_DP_SLCR_BASE = 0xF8000000"
definition GIC_DIST_BASE :: u32 where "GIC_DIST_BASE = 0xF8F00000 + 0x00001000"
definition GIC_DIST_SOFTINT :: u32 where "GIC_DIST_SOFTINT = 0xF00"
definition GIC_SFI_TRIG_CPU_MASK :: u32 where "GIC_SFI_TRIG_CPU_MASK = 0x00FF0000"
definition GIC_SFI_TRIG_INTID_MASK :: u32 where "GIC_SFI_TRIG_INTID_MASK = 0x0000000F"
definition GIC_CPU_ID_BASE :: nat where "GIC_CPU_ID_BASE = 16"
definition A9_CPU_SLCR_RESET_CTRL :: u32 where "A9_CPU_SLCR_RESET_CTRL = 0x244"
definition A9_CPU_SLCR_CLK_STOP :: u32 where "A9_CPU_SLCR_CLK_STOP = push_bit 4 1"
definition A9_CPU_SLCR_RST :: u32 where "A9_CPU_SLCR_RST = push_bit 0 1"

definition unlock_slcr :: "hw \<Rightarrow> hw" where "unlock_slcr h = MEM_WRITE32 (ESAL_DP_SLCR_BASE + 0x08) 0xDF0DDF0D h"
definition lock_slcr :: "hw \<Rightarrow> hw" where "lock_slcr h = MEM_WRITE32 (ESAL_DP_SLCR_BASE + 0x04) 0x767B767B h"

definition a9_notify :: "nat \<Rightarrow> proc_intr \<Rightarrow> hw \<Rightarrow> hw" where
  "a9_notify cpu intr_info h =
     MEM_WRITE32 (GIC_DIST_BASE + GIC_DIST_SOFTINT)
       ((push_bit (GIC_CPU_ID_BASE + cpu) 1 OR in_vect_id intr_info) AND (GIC_SFI_TRIG_CPU_MASK OR GIC_SFI_TRIG_INTID_MASK)) h"

text \<open>
  \<open>tramp\<close> are the bytes of the trampoline up to the word reserved for the jump target and \<open>tramp_end\<close> the byte
  at the label \<^verbatim>\<open>zynq_trampoline_end\<close>: the size check subtracts the bytes at the two labels, not
  their addresses.
\<close>

definition a9_boot_cpu :: "u8 list \<Rightarrow> u8 \<Rightarrow> nat \<Rightarrow> u32 \<Rightarrow> hw \<Rightarrow> int \<times> hw" where
  "a9_boot_cpu tramp tramp_end cpu load_addr h =
     (if load_addr \<noteq> 0 \<and> (load_addr < ucast tramp_end - ucast (hd tramp) \<or> load_addr AND 3 \<noteq> 0) then (-1, h)
      else
        let h = (if load_addr \<noteq> 0
                 then h\<lparr>hw_mem := store32 (store_bytes (hw_mem h) 0 tramp) (of_nat (length tramp)) load_addr\<rparr> else h);
            h = unlock_slcr h;
            reg = MEM_READ32 (ESAL_DP_SLCR_BASE + A9_CPU_SLCR_RESET_CTRL) h AND NOT (push_bit cpu A9_CPU_SLCR_CLK_STOP);
            h = MEM_WRITE32 (ESAL_DP_SLCR_BASE + A9_CPU_SLCR_RESET_CTRL) reg h;
            reg = reg AND NOT (push_bit cpu A9_CPU_SLCR_RST);
            h = MEM_WRITE32 (ESAL_DP_SLCR_BASE + A9_CPU_SLCR_RESET_CTRL) reg h
        in (0, lock_slcr h))"

definition a9_shutdown_cpu :: "nat \<Rightarrow> hw \<Rightarrow> hw" where
  "a9_shutdown_cpu cpu h =
     (let h = unlock_slcr h;
          reg = MEM_READ32 (ESAL_DP_SLCR_BASE + A9_CPU_SLCR_RESET_CTRL) h OR push_bit cpu (A9_CPU_SLCR_CLK_STOP OR A9_CPU_SLCR_RST);
          h = MEM_WRITE32 (ESAL_DP_SLCR_BASE + A9_CPU_SLCR_RESET_CTRL) reg h
      in lock_slcr h)"

definition a9_enable_interrupt :: "ptr \<Rightarrow> proc_intr \<Rightarrow> 'a env_state_scheme \<Rightarrow> int \<times> 'a env_state_scheme" where
  "a9_enable_interrupt vring_hw intr s =
     (0, env_enable_interrupt (in_vect_id intr) (in_priority intr) (in_trigger_type intr)
           (env_register_isr (in_vect_id intr) vring_hw (Some Platform_isr) s))"

section \<open>The A53 driver\<close>

record ipi_info =
  ipi_base_addr :: u32
  ipi_chn_mask :: u32

definition IPI_TRIG_OFFSET :: u32 where "IPI_TRIG_OFFSET = 0"
definition IPI_ISR_OFFSET :: u32 where "IPI_ISR_OFFSET = 0x10"
definition IPI_IER_OFFSET :: u32 where "IPI_IER_OFFSET = 0x18"

text \<open>\<open>isr\<close> stands for \<^verbatim>\<open>platform_isr\<close> on the rest of the state \<open>'s\<close>; cache maintenance does not change what is modelled.\<close>

definition a53_ipi_handler :: "('s \<Rightarrow> 's option) \<Rightarrow> ipi_info \<Rightarrow> hw \<Rightarrow> 's \<Rightarrow> (hw \<times> 's) option" where
  "a53_ipi_handler isr info h s =
     (if MEM_READ32 (ipi_base_addr info + IPI_ISR_OFFSET) h AND ipi_chn_mask info \<noteq> 0
      then do { s \<leftarrow> isr s; Some (MEM_WRITE32 (ipi_base_addr info + IPI_ISR_OFFSET) (ipi_chn_mask info) h, s) }
      else Some (h, s))"

definition a53_ipi_handler_deinit :: "ipi_info \<Rightarrow> hw \<Rightarrow> hw" where
  "a53_ipi_handler_deinit info h =
     (if MEM_READ32 (ipi_base_addr info + IPI_ISR_OFFSET) h AND ipi_chn_mask info \<noteq> 0
      then MEM_WRITE32 (ipi_base_addr info + IPI_ISR_OFFSET) (ipi_chn_mask info) h else h)"

definition a53_name :: "char list" where "a53_name = cstring ''remoteproc_a53''"

definition a53_enable_interrupt ::
  "ptr \<Rightarrow> proc_intr \<Rightarrow> ipi_info \<Rightarrow> hw \<Rightarrow> 'a env_state_scheme \<Rightarrow> int \<times> hw \<times> 'a env_state_scheme" where
  "a53_enable_interrupt vring_hw intr info h s =
     (if in_vect_id intr = 0xFFFFFFFF then (0, h, s)
      else
        let s = env_register_isr_shared (in_vect_id intr) vring_hw (Some Ipi_handler) (Some a53_name) True s;
            s = env_enable_interrupt (in_vect_id intr) (in_priority intr) (in_trigger_type intr) s
        in (0, MEM_WRITE32 (ipi_base_addr info + IPI_IER_OFFSET) (ipi_chn_mask info) h, s))"

text \<open>The result also has the new content of the static variable \<^verbatim>\<open>saved_ipi_info\<close>, at address \<open>saved\<close>.\<close>

definition a53_reg_ipi_after_deinit ::
  "ptr \<Rightarrow> proc_intr \<Rightarrow> ipi_info \<Rightarrow> ipi_info \<Rightarrow> 'a env_state_scheme \<Rightarrow> (ipi_info \<times> 'a env_state_scheme) option" where
  "a53_reg_ipi_after_deinit saved intr info saved_info s =
     (if in_vect_id intr = 0xFFFFFFFF then Some (saved_info, s)
      else do {
        s \<leftarrow> env_update_isr (in_vect_id intr) saved (Some Ipi_handler_deinit) (Some a53_name) True s;
        Some (info, s) })"

definition a53_notify :: "ipi_info option \<Rightarrow> hw \<Rightarrow> hw" where
  "a53_notify info h = (case info of None \<Rightarrow> h
     | Some info \<Rightarrow> MEM_WRITE32 (ipi_base_addr info + IPI_TRIG_OFFSET) (ipi_chn_mask info) h)"

definition a53_boot_cpu :: "u32 \<Rightarrow> u32 \<Rightarrow> int" where "a53_boot_cpu cpu load_addr = -1"

definition a53_shutdown_cpu :: "u32 \<Rightarrow> hw \<Rightarrow> hw" where "a53_shutdown_cpu cpu h = h"

text \<open>The table of processors is data of the application.\<close>

fun platform_get_processor_info :: "hil_proc list \<Rightarrow> u32 \<Rightarrow> hil_proc option" where
  "platform_get_processor_info [] cpu = None"
| "platform_get_processor_info (p # ps) cpu =
     (if cpu = HIL_RSVD_CPU_ID \<or> hp_cpu_id p = cpu then Some p else platform_get_processor_info ps cpu)"

definition platform_get_processor_for_fw :: "char list \<Rightarrow> int" where
  "platform_get_processor_for_fw name = 1"

section \<open>Memory attributes\<close>

definition WB_CACHE :: u32 where "WB_CACHE = push_bit 1 1"
definition WT_CACHE :: u32 where "WT_CACHE = push_bit 2 1"
definition MEM_MAPPED :: u32 where "MEM_MAPPED = push_bit 4 1"

datatype cache_type = NOCACHE | WRITEBACK | WRITETHROUGH

text \<open>The arguments of the call of \<^verbatim>\<open>arm_ar_map_mem_region\<close>: whether the region is memory, and its cache type.\<close>

definition z7_map_attrs :: "u32 \<Rightarrow> bool \<times> cache_type" where
  "z7_map_attrs flags =
     (flags AND push_bit 4 0x0f = MEM_MAPPED,
      if flags AND 0x0f = WB_CACHE then WRITEBACK else if flags AND 0x0f = WT_CACHE then WRITETHROUGH else NOCACHE)"

datatype mpu_attr = DEVICE_SHARED | NORM_SHARED_NCACHE | NORM_SHARED_WB_WA | NORM_SHARED_WT_NWA
  | NORM_NSHARED_NCACHE | NORM_NSHARED_WB_WA | NORM_NSHARED_WT_NWA

definition r5_map_attrs :: "u32 \<Rightarrow> mpu_attr" where
  "r5_map_attrs flags =
     (if flags AND SHARED_MEM \<noteq> 0
      then (if flags AND WB_CACHE \<noteq> 0 then NORM_SHARED_WB_WA
            else if flags AND WT_CACHE \<noteq> 0 then NORM_SHARED_WT_NWA else NORM_SHARED_NCACHE)
      else if flags AND MEM_MAPPED \<noteq> 0
      then (if flags AND WB_CACHE \<noteq> 0 then NORM_NSHARED_WB_WA
            else if flags AND WT_CACHE \<noteq> 0 then NORM_NSHARED_WT_NWA else NORM_NSHARED_NCACHE)
      else DEVICE_SHARED)"

section \<open>Correctness of the register code\<close>

lemma regs_write [simp]: "hw_regs (MEM_WRITE32 a v h) = (hw_regs h)(a := v)"
  "hw_log (MEM_WRITE32 a v h) = hw_log h @ [(a, v)]" "hw_mem (MEM_WRITE32 a v h) = hw_mem h"
  by (simp_all add: MEM_WRITE32_def)

lemma shifted_bit: "bit (push_bit i (push_bit j 1) :: u32) n \<longleftrightarrow> n = i + j \<and> n < 32"
  by (auto simp: bit_simps)

definition reset_ctrl :: u32 where
  "reset_ctrl = ESAL_DP_SLCR_BASE + A9_CPU_SLCR_RESET_CTRL"

lemma slcr_addresses:
  "reset_ctrl \<noteq> ESAL_DP_SLCR_BASE + 8" "reset_ctrl \<noteq> ESAL_DP_SLCR_BASE + 4"
  "ESAL_DP_SLCR_BASE + A9_CPU_SLCR_RESET_CTRL = reset_ctrl"
  by (simp_all add: reset_ctrl_def ESAL_DP_SLCR_BASE_def A9_CPU_SLCR_RESET_CTRL_def)

lemma a9_shutdown_regs:
  "hw_regs (a9_shutdown_cpu cpu h) reset_ctrl = hw_regs h reset_ctrl OR push_bit cpu (A9_CPU_SLCR_CLK_STOP OR A9_CPU_SLCR_RST)"
  "map fst (hw_log (a9_shutdown_cpu cpu h)) =
     map fst (hw_log h) @ [ESAL_DP_SLCR_BASE + 8, reset_ctrl, ESAL_DP_SLCR_BASE + 4]"
  by (simp_all add: a9_shutdown_cpu_def unlock_slcr_def lock_slcr_def Let_def MEM_READ32_def slcr_addresses)

definition a9_loadable :: "u8 list \<Rightarrow> u8 \<Rightarrow> u32 \<Rightarrow> bool" where
  "a9_loadable tramp tramp_end load_addr \<longleftrightarrow>
     load_addr = 0 \<or> ucast tramp_end - ucast (hd tramp) \<le> load_addr \<and> load_addr AND 3 = 0"

lemma a9_boot_result:
  assumes "a9_loadable tramp tramp_end load_addr"
  shows "fst (a9_boot_cpu tramp tramp_end cpu load_addr h) = 0"
    "hw_regs (snd (a9_boot_cpu tramp tramp_end cpu load_addr h)) reset_ctrl =
       hw_regs h reset_ctrl AND NOT (push_bit cpu A9_CPU_SLCR_CLK_STOP) AND NOT (push_bit cpu A9_CPU_SLCR_RST)"
    "map fst (hw_log (snd (a9_boot_cpu tramp tramp_end cpu load_addr h))) =
       map fst (hw_log h) @ [ESAL_DP_SLCR_BASE + 8, reset_ctrl, reset_ctrl, ESAL_DP_SLCR_BASE + 4]"
    "hw_mem (snd (a9_boot_cpu tramp tramp_end cpu load_addr h)) =
       (if load_addr = 0 then hw_mem h else store32 (store_bytes (hw_mem h) 0 tramp) (of_nat (length tramp)) load_addr)"
  using assms by (auto simp: a9_boot_cpu_def a9_loadable_def unlock_slcr_def lock_slcr_def Let_def MEM_READ32_def slcr_addresses
      and.assoc)

lemma reset_bits:
  assumes "cpu < 4"
  shows "bit (push_bit cpu A9_CPU_SLCR_CLK_STOP) n \<longleftrightarrow> n = cpu + 4" "bit (push_bit cpu A9_CPU_SLCR_RST) n \<longleftrightarrow> n = cpu"
    "bit (push_bit cpu (A9_CPU_SLCR_CLK_STOP OR A9_CPU_SLCR_RST)) n \<longleftrightarrow> n = cpu \<or> n = cpu + 4"
  using assms shifted_bit [of cpu 4 n] shifted_bit [of cpu 0 n]
  by (auto simp: A9_CPU_SLCR_CLK_STOP_def A9_CPU_SLCR_RST_def push_bit_or bit_or_iff simp del: push_bit_numeral push_bit_of_1)


definition hw_example :: hw where
  "hw_example = \<lparr>hw_mem = (\<lambda>a. 0), hw_regs = (\<lambda>a. 0), hw_log = []\<rparr>"


end
