(* ===== verification/EndToEnd.thy ===== *)
theory EndToEnd
  imports RpmsgRxMaster RpmsgErr Platform
begin

text \<open>
  A message from one processor to the other: the state of the sender, the state of the receiver, and between
  them the shared memory with the ring.
\<close>

section \<open>Shared state\<close>

text \<open>The receiver's state when it sees the memory and the ring the sender has left.\<close>

definition share :: "memory \<Rightarrow> u32 \<Rightarrow> vring_mem \<Rightarrow> world \<Rightarrow> world" where
  "share m a r w = w\<lparr>w_mem := m, w_rings := (w_rings w)(a \<mapsto> r)\<rparr>"

definition same_platform :: "config \<Rightarrow> config \<Rightarrow> bool" where
  "same_platform cs cr \<longleftrightarrow>
     cf_vatopa cs = z7_vatopa \<and> cf_vatopa cr = z7_vatopa \<and> cf_patova cr = z7_patova \<or>
     cf_vatopa cs = r5_vatopa \<and> cf_vatopa cr = r5_vatopa \<and> cf_patova cr = r5_patova"

lemma same_platform_place:
  "same_platform cs cr \<Longrightarrow> cf_vatopa cr (cf_patova cr (cf_vatopa cs (cf_vatopa cs b))) = cf_vatopa cs b"
  using z7.same_place r5.same_place by (auto simp: same_platform_def)

lemma share_frame [simp]:
  "w_mem (share m a r w) = m" "w_nodes (share m a r w) = w_nodes w" "w_chnls (share m a r w) = w_chnls w"
  "w_epts (share m a r w) = w_epts w" "w_rdevs (share m a r w) = w_rdevs w" "w_vqs (share m a r w) = w_vqs w"
  "w_app (share m a r w) = w_app w"
  by (simp_all add: share_def)

lemma get_vq_share: "w_vqs w p = Some vq \<Longrightarrow> vq_ring_mem vq = a \<Longrightarrow> get_vq p (share m a r w) = Some (vq, r)"
  by (simp add: get_vq_def share_def)

lemma rx_target_share: "rx_target (share m a r w) rdev addr = rx_target w rdev addr"
proof -
  have e: "ept_addr_is addr (share m a r w) = ept_addr_is addr w" by (rule ept_addr_is_cong) simp
  have n: "chnl_in_ns c (share m a r w) = chnl_in_ns c w" for c by (rule chnl_in_ns_cong) simp
  show ?thesis unfolding rx_target_def share_frame e n ..
qed

lemma rx_active_share: "rx_active rd (share m a r w) = rx_active rd w"
  unfolding rx_active_def share_frame ..

lemma rx_stops_share: "rx_stops cf (share m a r w) rdev = rx_stops cf (w\<lparr>w_mem := m\<rparr>) rdev"
proof -
  have "ept_addr_is addr (share m a r w) = ept_addr_is addr (w\<lparr>w_mem := m\<rparr>)" for addr by (rule ept_addr_is_cong) simp
  then show ?thesis by (simp add: rx_stops_def split: option.splits)
qed

text \<open>The event of a message that has just been written.\<close>

lemma msg_event_sent:
  assumes "rx_target w rdev dst = Some (n, chnl)" "w_mem w = put_msg h src dst payload len m"
    "length payload + 16 \<le> 2 ^ 32" "length payload = unat len"
  shows "msg_event w rdev h = Rx_event n chnl payload src"
  using put_msg_fields [OF assms(3), of h src dst len m] assms by (simp add: msg_event_def)

section \<open>From the master to the remote\<close>

text \<open>
  Property C1.  A message the master sends reaches the endpoint it is addressed to: the send returns success, and
  the receive callback of the remote, run on the memory and ring the master has left, hands the application
  exactly this message, with its payload and source address, on both platforms.
\<close>

theorem rpmsg_message_reaches_endpoint:
  assumes "send_active chnl ch rd w" "rd_role rd = RPMSG_REMOTE" "rd_tvq rd \<noteq> NULL" "rd_mem_pool rd \<noteq> NULL"
    "get_vq (rd_tvq rd) w = Some (vq, r)" "ring_rel (cf_vatopa cs) \<lparr>rs_drv = vq, rs_dev = dv, rs_ring = r\<rparr> A" "ra_pend A = []"
    "tx_source cs rd w A = Some (b, len, A')" "b \<noteq> 0" "cf_vatopa cs b \<noteq> 0" "ra_free A' = x # xs"
    "quiet_notify cs" "notify_wired w vq" "0 \<le> sz" "sz < 65536" "sz + 16 \<le> int (unat len)"
    "range32 data (nat sz) \<inter> range32 (cf_vatopa cs b) 16 = {}"
    "same_platform cs cr" "recording_app cr" "w_rdevs v rdev = Some rdr" "rd_role rdr \<noteq> RPMSG_REMOTE" "rx_active rdr v"
    "w_vqs v (rd_rvq rdr) = Some dv" "vq_dev dv = rdev" "rx_target v rdev dst = Some (n, rchnl)"
    "rx_stops cr (v\<lparr>w_mem := put_msg (cf_vatopa cs b) src dst (load_bytes (w_mem w) data (nat sz)) (of_int sz) (w_mem w)\<rparr>) rdev"
  shows "\<exists>w' vq' r' v'. rpmsg_send_offchannel_raw cs chnl src dst data sz wait w = Some (RPMSG_SUCCESS, w') \<and>
    get_vq (rd_tvq rd) w' = Some (vq', r') \<and>
    rpmsg_rx_callback cr dv (share (w_mem w') (vq_ring_mem dv) r' v) = Some v' \<and>
    w_app v' = w_app v @ [Rx_event n rchnl (load_bytes (w_mem w) data (nat sz)) src]"
proof -
  let ?h = "cf_vatopa cs b" and ?p = "load_bytes (w_mem w) data (nat sz)"
  let ?t = "\<lparr>tk_chain = [x], tk_bufs = [(?h, len)], tk_cookie = ?h\<rparr> :: token"
  have A': "ra_pend A' = []" using assms(7,8) by (auto simp: tx_source_def option_bind_simps split: list.splits)
  obtain w' vq' r' where s: "rpmsg_send_offchannel_raw cs chnl src dst data sz wait w = Some (RPMSG_SUCCESS, w')"
    "w_mem w' = put_msg ?h src dst ?p (of_int sz) (w_mem w)" "get_vq (rd_tvq rd) w' = Some (vq', r')"
    "ring_rel (cf_vatopa cs) \<lparr>rs_drv = vq', rs_dev = dv, rs_ring = r'\<rparr> (A'\<lparr>ra_free := xs, ra_pend := [?t]\<rparr>)"
    using master_send [OF assms(1-6,8-14,16,17), of src dst wait] A' by auto
  let ?v = "share (w_mem w') (vq_ring_mem dv) r' v"
  have st: "rx_stops cr ?v rdev" using assms(26) by (simp add: rx_stops_share s(2))
  have h: "msg_hdr cr (cf_vatopa cs) ?t = ?h" using same_platform_place [OF assms(18)] by (simp add: msg_hdr_def)
  have len: "length ?p = unat (of_int sz :: u16)" "length ?p + 16 \<le> 2 ^ 32"
    using assms(14,15) by (simp_all add: unat_eq_nat_uint uint_word_of_int)
  have tg: "rx_target ?v rdev dst = Some (n, rchnl)" using assms(25) by (simp add: rx_target_share)
  have ev: "msg_event ?v rdev ?h = Rx_event n rchnl ?p src" using msg_event_sent [OF tg _ len(2,1)] s(2) by simp
  have "load32 (w_mem ?v) (?h + 4) = dst" using put_msg_fields(2) [OF len(2)] by (simp add: s(2))
  then have rdy: "\<forall>y \<in> set (ra_pend (A'\<lparr>ra_free := xs, ra_pend := [?t]\<rparr>)). rx_ready cr (cf_vatopa cs) ?v (vq_dev dv) y"
    using tg assms(10,24) by (simp add: rx_ready_def h)
  obtain v' where "rpmsg_rx_callback cr dv ?v = Some v'" "w_app v' = w_app v @ [msg_event ?v rdev ?h]"
    using device_receives [OF assms(19) _ _ assms(21) _ _ s(4) rdy] assms(20,22,23,24) st get_vq_share [OF assms(23) refl]
    by (auto simp: rx_active_share h)
  then show ?thesis using s(1,3) ev by auto
qed

subsection \<open>Example\<close>

lemma same_platform_example: "same_platform cfg_example cfg_example"
  by (simp add: same_platform_def cfg_example_def fun_eq_iff r5_vatopa_def r5_patova_def)

lemma e2e_rel_example:
  "ring_rel (cf_vatopa cfg_example) \<lparr>rs_drv = tx_vq_example, rs_dev = rx_dev_example, rs_ring = rs_ring ring_example\<rparr> (ring_abs0 4)"
  by code_simp

lemma e2e_target_example: "rx_target rx_world_example 1 7 = Some (5, 0)"
  by code_simp

theorem rpmsg_message_reaches_endpoint_witness:
  "\<exists>w' vq' r' v'. rpmsg_send_offchannel_raw cfg_example 5 9 7 0x500 2 True tx_world_example = Some (RPMSG_SUCCESS, w') \<and>
    get_vq 2 w' = Some (vq', r') \<and>
    rpmsg_rx_callback cfg_example rx_dev_example (share (w_mem w') 0x8000 r' rx_world_example) = Some v' \<and>
    w_app v' = [Rx_event 5 0 [42, 43] 9]"
proof -
  have d: "range32 0x500 (nat 2) \<inter> range32 (cf_vatopa cfg_example 0x10000) 16 = {}"
    using range32_disjoint [of 0 2 64256 16 "0x500"] by (simp add: cfg_example_def)
  have f: "ra_free (ring_abs0 4) = 0 # [1, 2, 3]" "ra_pend (ring_abs0 4) = []" by code_simp+
  have p: "load_bytes (w_mem tx_world_example) 0x500 (nat 2) = [42, 43]"
    by (simp add: tx_world_example_def numeral_eq_Suc)
  have v: "w_rdevs rx_world_example 1 = Some rx_rdev_example" "rd_role rx_rdev_example \<noteq> RPMSG_REMOTE"
    "rx_active rx_rdev_example rx_world_example" "w_vqs rx_world_example (rd_rvq rx_rdev_example) = Some rx_dev_example"
    "vq_dev rx_dev_example = 1" "w_app rx_world_example = []" "vq_ring_mem rx_dev_example = 0x8000" "rd_tvq tx_rdev_example = 2"
    "\<forall>m. rx_stops cfg_example (rx_world_example\<lparr>w_mem := m\<rparr>) 1"
    by (simp_all add: rx_world_example_def world0_def cfg_example_def rx_rdev_example_def rdev_zero_def rpmsg_const_defs
        rx_active_def rx_dev_example_def rx_stops_def tx_rdev_example_def)
  show ?thesis
    using rpmsg_message_reaches_endpoint [OF tx_hyps_example(1-5) e2e_rel_example f(2) tx_source_example _ tx_hyps_example(6) f(1)
        tx_hyps_example(7) tx_wired_example _ _ _ _ same_platform_example cfg_example_recording v(1-5) e2e_target_example, of 2 "0x500" 9 True]
      d p v by auto
qed

end
