(* ===== verification/RscTable.thy ===== *)
theory RscTable
  imports Hil
begin

text \<open>
  The resource table parser \<^verbatim>\<open>lib/remoteproc/rsc_table_parser.c\<close> over the packed structures of
  \<^verbatim>\<open>openamp/remoteproc.h\<close>.  A table is a block of bytes of the processor's memory; the
  handlers overlay the structures on it, so every field is a little-endian load.  The theory also has the
  encoding of a table, for which the parser is shown to do exactly what the entries say.
\<close>

section \<open>Constants and structures\<close>

definition RPROC_SUCCESS :: int where "RPROC_SUCCESS = 0"
definition RPROC_MASTER :: int where "RPROC_MASTER = 1"
definition RPROC_REMOTE :: int where "RPROC_REMOTE = 0"
definition RPROC_ERR_CPU_ID :: int where "RPROC_ERR_CPU_ID = -4001"
definition RPROC_ERR_NO_RSC_TABLE :: int where "RPROC_ERR_NO_RSC_TABLE = -4002"
definition RPROC_ERR_NO_MEM :: int where "RPROC_ERR_NO_MEM = -4003"
definition RPROC_ERR_RSC_TAB_TRUNC :: int where "RPROC_ERR_RSC_TAB_TRUNC = -4004"
definition RPROC_ERR_RSC_TAB_VER :: int where "RPROC_ERR_RSC_TAB_VER = -4005"
definition RPROC_ERR_RSC_TAB_RSVD :: int where "RPROC_ERR_RSC_TAB_RSVD = -4006"
definition RPROC_ERR_RSC_TAB_VDEV_NRINGS :: int where "RPROC_ERR_RSC_TAB_VDEV_NRINGS = -4007"
definition RPROC_ERR_RSC_TAB_NP :: int where "RPROC_ERR_RSC_TAB_NP = -4008"
definition RPROC_ERR_RSC_TAB_NS :: int where "RPROC_ERR_RSC_TAB_NS = -4009"
definition RPROC_ERR_INVLD_FW :: int where "RPROC_ERR_INVLD_FW = -4010"
definition RPROC_ERR_LOADER :: int where "RPROC_ERR_LOADER = -4011"
definition RPROC_ERR_PARAM :: int where "RPROC_ERR_PARAM = -4012"
definition RPROC_ERR_PTR :: u32 where "RPROC_ERR_PTR = 0xDEADBEAF"

lemmas rproc_const_defs = RPROC_SUCCESS_def RPROC_MASTER_def RPROC_REMOTE_def RPROC_ERR_CPU_ID_def
  RPROC_ERR_NO_RSC_TABLE_def RPROC_ERR_NO_MEM_def RPROC_ERR_RSC_TAB_TRUNC_def RPROC_ERR_RSC_TAB_VER_def
  RPROC_ERR_RSC_TAB_RSVD_def RPROC_ERR_RSC_TAB_VDEV_NRINGS_def RPROC_ERR_RSC_TAB_NP_def
  RPROC_ERR_RSC_TAB_NS_def RPROC_ERR_INVLD_FW_def RPROC_ERR_LOADER_def RPROC_ERR_PARAM_def

definition RSC_TAB_SUPPORTED_VERSION :: u32 where "RSC_TAB_SUPPORTED_VERSION = 1"
definition RSC_TAB_MAX_VRINGS :: nat where "RSC_TAB_MAX_VRINGS = 2"

record remote_proc =
  rp_proc :: ptr
  rp_rdev :: ptr
  rp_loader :: ptr
  rp_channel_created :: "nat option"
  rp_channel_destroyed :: "nat option"
  rp_default_cb :: "rx_cb option"
  rp_role :: int

record resource_table =
  rt_ver :: u32
  rt_num :: u32
  rt_reserved0 :: u32
  rt_reserved1 :: u32

record fw_rsc_carveout =
  cv_type :: u32
  cv_da :: u32
  cv_pa :: u32
  cv_len :: u32
  cv_flags :: u32
  cv_reserved :: u32
  cv_name :: "u8 list"

record fw_rsc_vdev_vring =
  vv_da :: u32
  vv_align :: u32
  vv_num :: u32
  vv_notifyid :: u32
  vv_reserved :: u32

record fw_rsc_vdev =
  vd_type :: u32
  vd_id :: u32
  vd_notifyid :: u32
  vd_dfeatures :: u32
  vd_gfeatures :: u32
  vd_config_len :: u32
  vd_status :: u8
  vd_num_of_vrings :: u8
  vd_reserved0 :: u8
  vd_reserved1 :: u8

text \<open>The structures at an address of the memory; they are packed, so the offsets are the sums of the sizes.\<close>

definition resource_table_at :: "memory \<Rightarrow> u32 \<Rightarrow> resource_table" where
  "resource_table_at m a = \<lparr>rt_ver = load32 m a, rt_num = load32 m (a + 4), rt_reserved0 = load32 m (a + 8),
     rt_reserved1 = load32 m (a + 12)\<rparr>"

definition rsc_table_offset :: "memory \<Rightarrow> u32 \<Rightarrow> nat \<Rightarrow> u32" where
  "rsc_table_offset m a idx = load32 m (a + 16 + of_nat (4 * idx))"

definition fw_rsc_carveout_at :: "memory \<Rightarrow> u32 \<Rightarrow> fw_rsc_carveout" where
  "fw_rsc_carveout_at m a = \<lparr>cv_type = load32 m a, cv_da = load32 m (a + 4), cv_pa = load32 m (a + 8),
     cv_len = load32 m (a + 12), cv_flags = load32 m (a + 16), cv_reserved = load32 m (a + 20),
     cv_name = load_bytes m (a + 24) 32\<rparr>"

definition fw_rsc_vdev_at :: "memory \<Rightarrow> u32 \<Rightarrow> fw_rsc_vdev" where
  "fw_rsc_vdev_at m a = \<lparr>vd_type = load32 m a, vd_id = load32 m (a + 4), vd_notifyid = load32 m (a + 8),
     vd_dfeatures = load32 m (a + 12), vd_gfeatures = load32 m (a + 16), vd_config_len = load32 m (a + 20),
     vd_status = m (a + 24), vd_num_of_vrings = m (a + 25), vd_reserved0 = m (a + 26), vd_reserved1 = m (a + 27)\<rparr>"

definition fw_rsc_vdev_vring_at :: "memory \<Rightarrow> u32 \<Rightarrow> nat \<Rightarrow> fw_rsc_vdev_vring" where
  "fw_rsc_vdev_vring_at m a idx = (let b = a + 28 + of_nat (20 * idx) in
     \<lparr>vv_da = load32 m b, vv_align = load32 m (b + 4), vv_num = load32 m (b + 8), vv_notifyid = load32 m (b + 12),
      vv_reserved = load32 m (b + 16)\<rparr>)"

section \<open>Handlers\<close>

definition handle_carve_out_rsc :: "remote_proc \<Rightarrow> u32 \<Rightarrow> world \<Rightarrow> (int \<times> world) option" where
  "handle_carve_out_rsc rproc rsc w =
     (if rsc = 0 then Some (RPROC_ERR_RSC_TAB_NP, w)
      else let carve_rsc = fw_rsc_carveout_at (w_mem w) rsc in
        if cv_reserved carve_rsc \<noteq> 0 then Some (RPROC_ERR_RSC_TAB_RSVD, w)
        else Some (RPROC_SUCCESS,
          if rp_role rproc = RPROC_MASTER
          then env_map_memory (cv_da carve_rsc) (cv_da carve_rsc) (cv_len carve_rsc) (SHARED_MEM OR UNCACHED) w else w))"

definition handle_trace_rsc :: "remote_proc \<Rightarrow> u32 \<Rightarrow> world \<Rightarrow> (int \<times> world) option" where
  "handle_trace_rsc rproc rsc w = Some (RPROC_ERR_RSC_TAB_NS, w)"

definition handle_dev_mem_rsc :: "remote_proc \<Rightarrow> u32 \<Rightarrow> world \<Rightarrow> (int \<times> world) option" where
  "handle_dev_mem_rsc rproc rsc w = Some (RPROC_ERR_RSC_TAB_NS, w)"

definition handle_mmu_rsc :: "remote_proc \<Rightarrow> u32 \<Rightarrow> world \<Rightarrow> (int \<times> world) option" where
  "handle_mmu_rsc rproc rsc w = Some (RPROC_ERR_RSC_TAB_NS, w)"

text \<open>
  The loop over the rings of a device: the ring goes into the processor's table (the number of
  descriptors is cut to 16 bits by the assignment) and its memory is mapped.
\<close>

fun vdev_vrings_loop :: "u32 \<Rightarrow> ptr \<Rightarrow> nat list \<Rightarrow> world \<Rightarrow> world option" where
  "vdev_vrings_loop rsc proc [] w = Some w"
| "vdev_vrings_loop rsc proc (idx # idxs) w = do {
     let vring = fw_rsc_vdev_vring_at (w_mem w) rsc idx;
     pr \<leftarrow> w_procs w proc;
     vr \<leftarrow> aget (pd_vring_info (hp_vdev pr)) idx;
     vrs \<leftarrow> aset (pd_vring_info (hp_vdev pr)) idx
       (vr\<lparr>pv_phy_addr := vv_da vring, pv_num_descs := ucast (vv_num vring), pv_align := vv_align vring\<rparr>);
     let w = w\<lparr>w_procs := (w_procs w)(proc \<mapsto> pr\<lparr>hp_vdev := (hp_vdev pr)\<lparr>pd_vring_info := vrs\<rparr>\<rparr>)\<rparr>;
     vdev_vrings_loop rsc proc idxs
       (env_map_memory (vv_da vring) (vv_da vring) (vring_size (vv_num vring) (vv_align vring)) (SHARED_MEM OR UNCACHED) w) }"

definition handle_vdev_rsc :: "remote_proc \<Rightarrow> u32 \<Rightarrow> world \<Rightarrow> (int \<times> world) option" where
  "handle_vdev_rsc rproc rsc w =
     (if rsc = 0 then Some (RPROC_ERR_RSC_TAB_NP, w)
      else let vdev_rsc = fw_rsc_vdev_at (w_mem w) rsc in
        if unat (vd_num_of_vrings vdev_rsc) > RSC_TAB_MAX_VRINGS then Some (RPROC_ERR_RSC_TAB_VDEV_NRINGS, w)
        else if vd_reserved0 vdev_rsc \<noteq> 0 \<or> vd_reserved1 vdev_rsc \<noteq> 0 then Some (RPROC_ERR_RSC_TAB_RSVD, w)
        else do {
          pr \<leftarrow> w_procs w (rp_proc rproc);
          let vdev = (hp_vdev pr)\<lparr>pd_num_vrings := ucast (vd_num_of_vrings vdev_rsc),
                pd_dfeatures := vd_dfeatures vdev_rsc, pd_gfeatures := vd_gfeatures vdev_rsc\<rparr>;
          let w = w\<lparr>w_procs := (w_procs w)(rp_proc rproc \<mapsto> pr\<lparr>hp_vdev := vdev\<rparr>)\<rparr>;
          w \<leftarrow> vdev_vrings_loop rsc (rp_proc rproc) [0..<unat (vd_num_of_vrings vdev_rsc)] w;
          Some (RPROC_SUCCESS, w) })"

definition rsc_handler_table :: "(remote_proc \<Rightarrow> u32 \<Rightarrow> world \<Rightarrow> (int \<times> world) option) list" where
  "rsc_handler_table = [handle_carve_out_rsc, handle_trace_rsc, handle_dev_mem_rsc, handle_vdev_rsc, handle_mmu_rsc]"

section \<open>The table\<close>

text \<open>
  The loop over the offset array.  The index into the handler table is the type field of the entry,
  which is not compared with the size of the table: a larger value is an access outside it.
\<close>

fun rsc_entries_loop :: "remote_proc \<Rightarrow> u32 \<Rightarrow> nat list \<Rightarrow> int \<Rightarrow> world \<Rightarrow> (int \<times> world) option" where
  "rsc_entries_loop rproc rsc_table [] status w = Some (status, w)"
| "rsc_entries_loop rproc rsc_table (idx # idxs) status w = do {
     let rsc_offset = rsc_table + rsc_table_offset (w_mem w) rsc_table idx;
     let rsc_type = load32 (w_mem w) rsc_offset;
     handler \<leftarrow> aget rsc_handler_table (unat rsc_type);
     (status, w) \<leftarrow> handler rproc rsc_offset w;
     (if status \<noteq> RPROC_SUCCESS then Some (status, w) else rsc_entries_loop rproc rsc_table idxs status w) }"

text \<open>The sizes are compared as 32-bit unsigned numbers, so the sum in the second check can wrap.\<close>

definition handle_rsc_table :: "remote_proc \<Rightarrow> u32 \<Rightarrow> u32 \<Rightarrow> world \<Rightarrow> (int \<times> world) option" where
  "handle_rsc_table rproc rsc_table sz w =
     (let hdr = resource_table_at (w_mem w) rsc_table in
      if 16 > sz then Some (RPROC_ERR_RSC_TAB_TRUNC, w)
      else if rt_ver hdr \<noteq> RSC_TAB_SUPPORTED_VERSION then Some (RPROC_ERR_RSC_TAB_VER, w)
      else if 16 + rt_num hdr * 4 > sz then Some (RPROC_ERR_RSC_TAB_TRUNC, w)
      else if rt_reserved0 hdr \<noteq> 0 \<or> rt_reserved1 hdr \<noteq> 0 then Some (RPROC_ERR_RSC_TAB_RSVD, w)
      else rsc_entries_loop rproc rsc_table [0..<unat (rt_num hdr)] 0 w)"

section \<open>Encoding of a table\<close>

datatype rsc = Carveout fw_rsc_carveout | Vdev fw_rsc_vdev "fw_rsc_vdev_vring list"

definition encode_carveout :: "fw_rsc_carveout \<Rightarrow> u8 list" where
  "encode_carveout c = le32 (cv_type c) @ le32 (cv_da c) @ le32 (cv_pa c) @ le32 (cv_len c) @ le32 (cv_flags c) @
     le32 (cv_reserved c) @ cv_name c"

definition encode_vring :: "fw_rsc_vdev_vring \<Rightarrow> u8 list" where
  "encode_vring v = le32 (vv_da v) @ le32 (vv_align v) @ le32 (vv_num v) @ le32 (vv_notifyid v) @ le32 (vv_reserved v)"

definition encode_vdev :: "fw_rsc_vdev \<Rightarrow> u8 list" where
  "encode_vdev d = le32 (vd_type d) @ le32 (vd_id d) @ le32 (vd_notifyid d) @ le32 (vd_dfeatures d) @
     le32 (vd_gfeatures d) @ le32 (vd_config_len d) @ [vd_status d, vd_num_of_vrings d, vd_reserved0 d, vd_reserved1 d]"

fun encode_rsc :: "rsc \<Rightarrow> u8 list" where
  "encode_rsc (Carveout c) = encode_carveout c"
| "encode_rsc (Vdev d vs) = encode_vdev d @ concat (map encode_vring vs)"

fun rsc_offsets :: "nat \<Rightarrow> rsc list \<Rightarrow> nat list" where
  "rsc_offsets base [] = []"
| "rsc_offsets base (r # rs) = base # rsc_offsets (base + length (encode_rsc r)) rs"

text \<open>The offset array has \<open>slots\<close> places, of which the first ones are used; the entries follow it.\<close>

definition encode_table :: "nat \<Rightarrow> rsc list \<Rightarrow> u8 list" where
  "encode_table slots rs = le32 1 @ le32 (of_nat (length rs)) @ le32 0 @ le32 0 @
     concat (map (\<lambda>off. le32 (of_nat off)) (rsc_offsets (16 + 4 * slots) rs @ replicate (slots - length rs) 0)) @
     concat (map encode_rsc rs)"

text \<open>The entries the parser supports, by the rules of the format: the type tag, reserved fields zero, at most two rings.\<close>

fun valid_rsc :: "rsc \<Rightarrow> bool" where
  "valid_rsc (Carveout c) \<longleftrightarrow> cv_type c = 0 \<and> cv_reserved c = 0 \<and> length (cv_name c) = 32"
| "valid_rsc (Vdev d vs) \<longleftrightarrow> vd_type d = 3 \<and> vd_reserved0 d = 0 \<and> vd_reserved1 d = 0 \<and>
     unat (vd_num_of_vrings d) = length vs \<and> length vs \<le> 2"

text \<open>What an entry asks for: the regions to map, and the settings of the virtio device.\<close>

definition vring_region :: "fw_rsc_vdev_vring \<Rightarrow> plat_call" where
  "vring_region v = Map_mem_region (vv_da v) (vv_da v) (vring_size (vv_num v) (vv_align v)) (SHARED_MEM OR UNCACHED)"

fun rsc_regions :: "int \<Rightarrow> rsc \<Rightarrow> plat_call list" where
  "rsc_regions role (Carveout c) =
     (if role = RPROC_MASTER then [Map_mem_region (cv_da c) (cv_da c) (cv_len c) (SHARED_MEM OR UNCACHED)] else [])"
| "rsc_regions role (Vdev d vs) = map vring_region vs"

definition set_vring :: "fw_rsc_vdev_vring \<Rightarrow> proc_vring \<Rightarrow> proc_vring" where
  "set_vring v vr = vr\<lparr>pv_phy_addr := vv_da v, pv_num_descs := ucast (vv_num v), pv_align := vv_align v\<rparr>"

definition set_vrings :: "fw_rsc_vdev_vring list \<Rightarrow> proc_vring list \<Rightarrow> proc_vring list" where
  "set_vrings vs vrs = map2 set_vring vs vrs @ drop (length vs) vrs"

fun rsc_configure :: "rsc \<Rightarrow> hil_proc \<Rightarrow> hil_proc" where
  "rsc_configure (Carveout c) pr = pr"
| "rsc_configure (Vdev d vs) pr = pr\<lparr>hp_vdev := (hp_vdev pr)\<lparr>pd_num_vrings := of_nat (length vs), pd_dfeatures := vd_dfeatures d,
     pd_gfeatures := vd_gfeatures d, pd_vring_info := set_vrings vs (pd_vring_info (hp_vdev pr))\<rparr>\<rparr>"

section \<open>Reading an encoded table\<close>

lemma length_encode_vring [simp]: "length (encode_vring v) = 20"
  by (simp add: encode_vring_def)

lemma length_encode_vdev [simp]: "length (encode_vdev d) = 28"
  by (simp add: encode_vdev_def)

lemma carveout_at_encode:
  "holds m a (encode_carveout c) \<Longrightarrow> length (cv_name c) = 32 \<Longrightarrow> fw_rsc_carveout_at m a = c"
  by (cases c) (auto simp: encode_carveout_def holds_append holds_le32 fw_rsc_carveout_at_def add.assoc holds_def [of m "a + 24"])

lemma vdev_at_encode: "holds m a (encode_vdev d) \<Longrightarrow> fw_rsc_vdev_at m a = d"
  by (cases d) (auto simp: encode_vdev_def holds_append holds_le32 holds_Cons fw_rsc_vdev_at_def add.assoc)

lemma holds_encode_vring:
  "holds m b (encode_vring v) \<Longrightarrow>
     \<lparr>vv_da = load32 m b, vv_align = load32 m (b + 4), vv_num = load32 m (b + 8), vv_notifyid = load32 m (b + 12),
      vv_reserved = load32 m (b + 16)\<rparr> = v"
  by (cases v) (auto simp: encode_vring_def holds_append holds_le32 add.assoc)

lemma holds_concat_nth:
  assumes "holds m a (concat (map f xs))" "i < length xs" "\<And>x. length (f x) = k"
  shows "holds m (a + of_nat (k * i)) (f (xs ! i))"
  using assms(1,2)
proof (induction xs arbitrary: a i)
  case Nil
  then show ?case by simp
next
  case (Cons x xs)
  show ?case
  proof (cases i)
    case 0
    then show ?thesis using Cons.prems by (simp add: holds_append)
  next
    case (Suc j)
    have "holds m (a + of_nat k) (concat (map f xs))" using Cons.prems(1) by (simp add: holds_append assms(3))
    then have "holds m (a + of_nat k + of_nat (k * j)) (f (xs ! j))" using Cons.IH Cons.prems(2) Suc by simp
    then show ?thesis by (simp add: Suc algebra_simps)
  qed
qed

lemma vring_at_encode:
  "holds m (a + 28) (concat (map encode_vring vs)) \<Longrightarrow> i < length vs \<Longrightarrow> fw_rsc_vdev_vring_at m a i = vs ! i"
  unfolding fw_rsc_vdev_vring_at_def Let_def
  by (rule holds_encode_vring, rule holds_concat_nth) simp_all

lemma rsc_offsets_nth:
  assumes "i < length rs" "holds m (a + of_nat base) (concat (map encode_rsc rs))"
  shows "holds m (a + of_nat (rsc_offsets base rs ! i)) (encode_rsc (rs ! i))"
  using assms
proof (induction rs arbitrary: i base)
  case Nil
  then show ?case by simp
next
  case (Cons r rs)
  then show ?case by (cases i) (auto simp: holds_append add.assoc)
qed

lemma length_rsc_offsets [simp]: "length (rsc_offsets base rs) = length rs"
  by (induction rs arbitrary: base) auto

lemma sum_list_le32 [simp]: "length (concat (map (\<lambda>off. le32 (g off)) xs)) = 4 * length xs"
  by (induction xs) auto

lemma encode_table_parts:
  assumes "holds m a (encode_table slots rs)" "length rs \<le> slots"
  shows "load32 m a = 1" "load32 m (a + 4) = of_nat (length rs)" "load32 m (a + 8) = 0" "load32 m (a + 12) = 0"
    "holds m (a + 16) (concat (map (\<lambda>off. le32 (of_nat off)) (rsc_offsets (16 + 4 * slots) rs @ replicate (slots - length rs) 0)))"
    "holds m (a + of_nat (16 + 4 * slots)) (concat (map encode_rsc rs))"
  using assms by (auto simp: encode_table_def holds_append holds_le32 add.assoc simp del: length_concat map_append map_replicate)

lemma rsc_table_offset_encode:
  assumes "holds m a (encode_table slots rs)" "length rs \<le> slots" "i < length rs"
  shows "rsc_table_offset m a i = of_nat (rsc_offsets (16 + 4 * slots) rs ! i)"
proof -
  let ?offs = "rsc_offsets (16 + 4 * slots) rs @ replicate (slots - length rs) 0"
  have "holds m (a + 16 + of_nat (4 * i)) (le32 (of_nat (?offs ! i)))"
    by (rule holds_concat_nth [of m "a + 16" "\<lambda>off. le32 (of_nat off)" ?offs])
      (use encode_table_parts(5) [OF assms(1,2)] assms(3) in simp_all)
  then show ?thesis using assms(3) by (simp add: rsc_table_offset_def holds_le32 nth_append)
qed

lemma encode_table_entry:
  assumes "holds m a (encode_table slots rs)" "length rs \<le> slots" "i < length rs"
  shows "holds m (a + rsc_table_offset m a i) (encode_rsc (rs ! i))"
  using rsc_offsets_nth [OF assms(3) encode_table_parts(6) [OF assms(1,2)]]
  by (simp add: rsc_table_offset_encode [OF assms])

section \<open>The parser does what the entries say\<close>

definition rsc_apply :: "int \<Rightarrow> ptr \<Rightarrow> rsc \<Rightarrow> hil_proc \<Rightarrow> world \<Rightarrow> world" where
  "rsc_apply role proc r pr w = w\<lparr>plat_calls := plat_calls w @ rsc_regions role r,
     w_procs := (w_procs w)(proc \<mapsto> rsc_configure r pr)\<rparr>"

lemma le_2_cases:
  assumes "length (xs :: 'a list) \<le> 2"
  obtains "xs = []" | x where "xs = [x]" | x y where "xs = [x, y]"
proof -
  consider "length xs = 0" | "length xs = Suc 0" | "length xs = Suc (Suc 0)" using assms by linarith
  then show thesis by cases (auto simp: length_Suc_conv intro: that)
qed

lemma vdev_vrings_loop_encode:
  assumes "holds (w_mem w) (rsc + 28) (concat (map encode_vring vs))" "length vs \<le> 2"
    and "w_procs w proc = Some pr" "length (pd_vring_info (hp_vdev pr)) = 2"
  shows "vdev_vrings_loop rsc proc [0..<length vs] w =
    Some (w\<lparr>plat_calls := plat_calls w @ map vring_region vs, w_procs := (w_procs w)(proc \<mapsto>
      pr\<lparr>hp_vdev := (hp_vdev pr)\<lparr>pd_vring_info := set_vrings vs (pd_vring_info (hp_vdev pr))\<rparr>\<rparr>)\<rparr>)"
proof -
  obtain v0 v1 where pr: "pd_vring_info (hp_vdev pr) = [v0, v1]"
    using assms(4) by (auto simp: numeral_eq_Suc length_Suc_conv)
  note at = vring_at_encode [OF assms(1)]
  from assms(2) show ?thesis
    by (cases rule: le_2_cases)
      (use at assms(3) pr in \<open>auto simp: set_vrings_def set_vring_def vring_region_def env_map_memory_def plat_call_def
        fun_upd_idem upt_rec numeral_eq_Suc\<close>)
qed

lemma handler_encode:
  assumes "holds (w_mem w) a (encode_rsc r)" "valid_rsc r" "a \<noteq> 0"
    and "w_procs w (rp_proc rproc) = Some pr" "length (pd_vring_info (hp_vdev pr)) = 2"
  shows "\<exists>h. aget rsc_handler_table (unat (load32 (w_mem w) a)) = Some h \<and>
    h rproc a w = Some (0, rsc_apply (rp_role rproc) (rp_proc rproc) r pr w)"
proof (cases r)
  case (Carveout c)
  then have "fw_rsc_carveout_at (w_mem w) a = c" using assms(1,2) by (simp add: carveout_at_encode)
  moreover from this have "load32 (w_mem w) a = 0" using assms(2) Carveout by (auto simp: fw_rsc_carveout_at_def)
  ultimately show ?thesis using assms Carveout
    by (simp add: rsc_handler_table_def handle_carve_out_rsc_def rsc_apply_def rproc_const_defs env_map_memory_def
        plat_call_def fun_upd_idem)
next
  case (Vdev d vs)
  then have d: "fw_rsc_vdev_at (w_mem w) a = d" and vs: "holds (w_mem w) (a + 28) (concat (map encode_vring vs))"
    using assms(1) by (auto simp: holds_append vdev_at_encode)
  from d have ty: "load32 (w_mem w) a = 3" using assms(2) Vdev by (auto simp: fw_rsc_vdev_at_def)
  let ?pr = "pr\<lparr>hp_vdev := (hp_vdev pr)\<lparr>pd_num_vrings := ucast (vd_num_of_vrings d),
                pd_dfeatures := vd_dfeatures d, pd_gfeatures := vd_gfeatures d\<rparr>\<rparr>"
  have "vdev_vrings_loop a (rp_proc rproc) [0..<length vs] (w\<lparr>w_procs := (w_procs w)(rp_proc rproc \<mapsto> ?pr)\<rparr>) =
      Some (w\<lparr>plat_calls := plat_calls w @ map vring_region vs, w_procs := (w_procs w)(rp_proc rproc \<mapsto>
        ?pr\<lparr>hp_vdev := (hp_vdev ?pr)\<lparr>pd_vring_info := set_vrings vs (pd_vring_info (hp_vdev ?pr))\<rparr>\<rparr>)\<rparr>)"
    using vdev_vrings_loop_encode [of "w\<lparr>w_procs := (w_procs w)(rp_proc rproc \<mapsto> ?pr)\<rparr>" a vs "rp_proc rproc" ?pr]
      vs assms(2,5) Vdev by simp
  moreover have "ucast (vd_num_of_vrings d) = (of_nat (length vs) :: u32)"
    using assms(2) Vdev by (metis of_nat_unat valid_rsc.simps(2))
  ultimately show ?thesis using assms Vdev d ty
    by (simp add: rsc_handler_table_def handle_vdev_rsc_def rsc_apply_def rproc_const_defs RSC_TAB_MAX_VRINGS_def)
qed

lemma length_set_vrings [simp]: "length vs \<le> length vrs \<Longrightarrow> length (set_vrings vs vrs) = length vrs"
  by (simp add: set_vrings_def)

lemma rsc_configure_vrings:
  "valid_rsc r \<Longrightarrow> length (pd_vring_info (hp_vdev pr)) = 2 \<Longrightarrow> length (pd_vring_info (hp_vdev (rsc_configure r pr))) = 2"
  by (cases r) simp_all

lemma rsc_entries_loop_encode:
  assumes "\<And>i. i \<in> set idxs \<Longrightarrow> holds m (a + rsc_table_offset m a i) (encode_rsc (f i))"
    and "\<And>i. i \<in> set idxs \<Longrightarrow> valid_rsc (f i) \<and> a + rsc_table_offset m a i \<noteq> 0"
    and "w_mem w = m" "w_procs w (rp_proc rproc) = Some pr" "length (pd_vring_info (hp_vdev pr)) = 2"
  shows "rsc_entries_loop rproc a idxs 0 w = Some (0, w\<lparr>
    plat_calls := plat_calls w @ concat (map (\<lambda>i. rsc_regions (rp_role rproc) (f i)) idxs),
    w_procs := (w_procs w)(rp_proc rproc \<mapsto> fold (\<lambda>i. rsc_configure (f i)) idxs pr)\<rparr>)"
  using assms
proof (induction idxs arbitrary: w pr)
  case Nil
  then show ?case by (simp add: fun_upd_idem)
next
  case (Cons i idxs)
  let ?w = "rsc_apply (rp_role rproc) (rp_proc rproc) (f i) pr w"
  obtain h where h: "aget rsc_handler_table (unat (load32 m (a + rsc_table_offset m a i))) = Some h"
      "h rproc (a + rsc_table_offset m a i) w = Some (0, ?w)"
    using handler_encode [of w "a + rsc_table_offset m a i" "f i" rproc pr] Cons.prems by auto
  have IH: "rsc_entries_loop rproc a idxs 0 ?w = Some (0, ?w\<lparr>
      plat_calls := plat_calls ?w @ concat (map (\<lambda>i. rsc_regions (rp_role rproc) (f i)) idxs),
      w_procs := (w_procs ?w)(rp_proc rproc \<mapsto> fold (\<lambda>i. rsc_configure (f i)) idxs (rsc_configure (f i) pr))\<rparr>)"
    by (rule Cons.IH) (use Cons.prems in \<open>simp_all add: rsc_apply_def rsc_configure_vrings\<close>)
  show ?case using h IH Cons.prems(3) by (simp add: rproc_const_defs rsc_apply_def fun_upd_def cong: if_cong)
qed

lemma length_encode_rsc: "valid_rsc r \<Longrightarrow> 28 \<le> length (encode_rsc r)"
  by (cases r) (auto simp: encode_carveout_def)

lemma rsc_offsets_bounds:
  assumes "i < length rs" "\<forall>r \<in> set rs. valid_rsc r"
  shows "base \<le> rsc_offsets base rs ! i \<and>
    rsc_offsets base rs ! i < base + length (concat (map encode_rsc rs))"
  using assms
proof (induction rs arbitrary: i base)
  case Nil
  then show ?case by simp
next
  case (Cons r rs)
  have "28 \<le> length (encode_rsc r)" using Cons.prems(2) by (simp add: length_encode_rsc)
  then show ?case
    using Cons.IH [of "i - 1" "base + length (encode_rsc r)"] Cons.prems by (cases i) auto
qed

lemma length_encode_table:
  "length rs \<le> slots \<Longrightarrow> length (encode_table slots rs) = 16 + 4 * slots + length (concat (map encode_rsc rs))"
  by (simp add: encode_table_def del: length_concat map_append map_replicate)

lemma encode_table_entry_nonzero:
  assumes "holds m a (encode_table slots rs)" "length rs \<le> slots" "i < length rs" "\<forall>r \<in> set rs. valid_rsc r"
    and "unat a + length (encode_table slots rs) \<le> 2 ^ 32"
  shows "a + rsc_table_offset m a i \<noteq> 0"
proof -
  let ?off = "rsc_offsets (16 + 4 * slots) rs ! i"
  have off: "16 \<le> ?off" "?off < length (encode_table slots rs)"
    using rsc_offsets_bounds [OF assms(3,4), of "16 + 4 * slots"] assms(2) by (auto simp: length_encode_table simp del: length_concat)
  have "unat (a + of_nat ?off) = unat a + ?off"
    using off assms(5) by (simp add: unat_word_ariths unat_of_nat mod_less)
  then have "a + of_nat ?off \<noteq> 0" using off(1) by (metis add_is_0 not_numeral_le_zero unat_0)
  then show ?thesis by (simp add: rsc_table_offset_encode [OF assms(1-3)])
qed

lemma handle_rsc_table_encode:
  assumes "holds (w_mem w) a (encode_table slots rs)" "length rs \<le> slots" "\<forall>r \<in> set rs. valid_rsc r"
    and "unat a + length (encode_table slots rs) \<le> 2 ^ 32" "length (encode_table slots rs) \<le> unat sz"
    and "w_procs w (rp_proc rproc) = Some pr" "length (pd_vring_info (hp_vdev pr)) = 2"
  shows "handle_rsc_table rproc a sz w = Some (RPROC_SUCCESS, w\<lparr>
    plat_calls := plat_calls w @ concat (map (rsc_regions (rp_role rproc)) rs),
    w_procs := (w_procs w)(rp_proc rproc \<mapsto> fold rsc_configure rs pr)\<rparr>)"
proof -
  let ?m = "w_mem w" and ?n = "length rs"
  note hdr = encode_table_parts(1-4) [OF assms(1,2)]
  have len: "16 + 4 * ?n \<le> unat sz" using assms(2,5) by (simp add: length_encode_table)
  moreover have "unat sz < 2 ^ 32" using unsigned_less [of sz] by simp
  ultimately have n: "unat (of_nat ?n :: u32) = ?n" "unat (16 + of_nat ?n * 4 :: u32) = 16 + 4 * ?n"
    by (simp_all add: unat_word_ariths unat_of_nat mod_less)
  have chk: "\<not> 16 > sz" "\<not> 16 + of_nat ?n * 4 > sz"
    using len n by (simp_all add: word_less_nat_alt)
  have f: "map ((!) rs) [0..<?n] = rs" by (simp add: map_nth)
  have "rsc_entries_loop rproc a [0..<?n] 0 w = Some (0, w\<lparr>
      plat_calls := plat_calls w @ concat (map (\<lambda>i. rsc_regions (rp_role rproc) (rs ! i)) [0..<?n]),
      w_procs := (w_procs w)(rp_proc rproc \<mapsto> fold (\<lambda>i. rsc_configure (rs ! i)) [0..<?n] pr)\<rparr>)"
    by (rule rsc_entries_loop_encode [OF _ _ refl])
      (use assms encode_table_entry [OF assms(1,2)] encode_table_entry_nonzero [OF assms(1,2) _ assms(3,4)] in auto)
  moreover have "map (\<lambda>i. g (rs ! i)) [0..<?n] = map g rs" for g :: "rsc \<Rightarrow> plat_call list"
    using arg_cong [OF f, of "map g"] by (simp only: map_map comp_def)
  moreover have "fold (\<lambda>i. rsc_configure (rs ! i)) [0..<?n] pr = fold rsc_configure rs pr"
    using arg_cong [OF f, of "\<lambda>xs. fold rsc_configure xs pr"] by (simp only: fold_map comp_def)
  ultimately show ?thesis
    by (simp add: handle_rsc_table_def resource_table_at_def Let_def hdr n chk RSC_TAB_SUPPORTED_VERSION_def rproc_const_defs)
qed

text \<open>
  Property C20. The parser does what the table says.  Take a table with any number of valid carveout and
  virtio-device entries, encoded in memory according to the structures of the header file (without
  wrapping around the address space), and a size argument that covers it.  Then parsing succeeds; the
  regions mapped are, in order, those of the entries (carveouts only on the master); the processor's
  virtio device has the features and the rings of the entries, ring by ring; and nothing else changes.
\<close>

theorem handle_rsc_table_roundtrip:
  assumes "holds (w_mem w) a (encode_table slots rs)" "length rs \<le> slots" "\<forall>r \<in> set rs. valid_rsc r"
    and "unat a + length (encode_table slots rs) \<le> 2 ^ 32" "length (encode_table slots rs) \<le> unat sz"
    and "w_procs w (rp_proc rproc) = Some pr" "length (pd_vring_info (hp_vdev pr)) = 2"
  shows "handle_rsc_table rproc a sz w = Some (RPROC_SUCCESS, w\<lparr>
    plat_calls := plat_calls w @ concat (map (rsc_regions (rp_role rproc)) rs),
    w_procs := (w_procs w)(rp_proc rproc \<mapsto> fold rsc_configure rs pr)\<rparr>)"
  by (rule handle_rsc_table_encode [OF assms])

definition carveout_example :: fw_rsc_carveout where
  "carveout_example = \<lparr>cv_type = 0, cv_da = 0, cv_pa = 0, cv_len = 0x40000, cv_flags = 0, cv_reserved = 0,
     cv_name = replicate 32 0\<rparr>"

definition vring_example :: "u32 \<Rightarrow> fw_rsc_vdev_vring" where
  "vring_example da = \<lparr>vv_da = da, vv_align = 0x1000, vv_num = 256, vv_notifyid = 1, vv_reserved = 0\<rparr>"

definition vdev_example :: fw_rsc_vdev where
  "vdev_example = \<lparr>vd_type = 3, vd_id = 7, vd_notifyid = 0, vd_dfeatures = 1, vd_gfeatures = 0, vd_config_len = 0,
     vd_status = 0, vd_num_of_vrings = 2, vd_reserved0 = 0, vd_reserved1 = 0\<rparr>"

definition rscs_example :: "rsc list" where
  "rscs_example = [Carveout carveout_example, Vdev vdev_example [vring_example 0x08000000, vring_example 0x08004000]]"

definition proc_vring0 :: proc_vring where
  "proc_vring0 = \<lparr>pv_vq = NULL, pv_phy_addr = 0, pv_num_descs = 0, pv_align = 0,
     pv_intr_info = \<lparr>in_vect_id = 0, in_priority = 0, in_trigger_type = 0, in_data = NULL\<rparr>\<rparr>"

definition hil_proc0 :: hil_proc where
  "hil_proc0 = \<lparr>hp_cpu_id = 1, hp_sh_buff = \<lparr>shm_start_addr = 0x08008000, shm_size = 0x200000, shm_flags = 0\<rparr>,
     hp_vdev = \<lparr>pd_num_vrings = 0, pd_dfeatures = 0, pd_gfeatures = 0, pd_vring_info = [proc_vring0, proc_vring0]\<rparr>,
     hp_num_chnls = 1, hp_chnls = [cstring ''rpmsg-channel''],
     hp_ops = \<lparr>op_enable_interrupt = Some A9_fn, op_reg_ipi_after_deinit = None, op_notify = Some A9_fn,
       op_boot_cpu = Some A9_fn, op_shutdown_cpu = Some A9_fn\<rparr>\<rparr>"

definition rproc_example :: remote_proc where
  "rproc_example = \<lparr>rp_proc = 5, rp_rdev = NULL, rp_loader = NULL, rp_channel_created = None, rp_channel_destroyed = None,
     rp_default_cb = None, rp_role = RPROC_MASTER\<rparr>"

definition rsc_world_example :: "memory \<Rightarrow> world" where
  "rsc_world_example m = \<lparr>isr_table = [], intr_count = 0, intr_enable_flag = True, cpsr = 0, old_value = 0,
     plat_calls = [], w_mem = m, w_nodes = Map.empty, w_chnls = Map.empty, w_epts = Map.empty, w_rdevs = Map.empty,
     w_vqs = Map.empty, w_rings = Map.empty, w_pools = Map.empty, w_procs = [5 \<mapsto> hil_proc0], w_proc_list = NULL,
     w_next = 100, w_allocs = 0, w_app = []\<rparr>"

lemma length_rscs_example: "length (encode_table 2 rscs_example) = 148"
  by (subst length_encode_table) (simp_all add: rscs_example_def encode_carveout_def carveout_example_def)

theorem handle_rsc_table_roundtrip_witness:
  "\<exists>w'. handle_rsc_table rproc_example 0x1000 148 (rsc_world_example (store_bytes (\<lambda>a. 0) 0x1000 (encode_table 2 rscs_example)))
      = Some (0, w') \<and>
    plat_calls w' = [Map_mem_region 0 0 0x40000 65, Map_mem_region 0x08000000 0x08000000 10246 65,
      Map_mem_region 0x08004000 0x08004000 10246 65] \<and>
    map_option (map pv_phy_addr \<circ> pd_vring_info \<circ> hp_vdev) (w_procs w' 5) = Some [0x08000000, 0x08004000]"
proof -
  let ?w = "rsc_world_example (store_bytes (\<lambda>a. 0) 0x1000 (encode_table 2 rscs_example))"
  have "holds (w_mem ?w) 0x1000 (encode_table 2 rscs_example)"
    by (simp add: rsc_world_example_def holds_store_bytes length_rscs_example)
  moreover have "\<forall>r \<in> set rscs_example. valid_rsc r" "length rscs_example \<le> 2"
    by (simp_all add: rscs_example_def carveout_example_def vdev_example_def)
  moreover have "w_procs ?w (rp_proc rproc_example) = Some hil_proc0" "length (pd_vring_info (hp_vdev hil_proc0)) = 2"
    by (simp_all add: rsc_world_example_def rproc_example_def hil_proc0_def)
  ultimately have "handle_rsc_table rproc_example 0x1000 148 ?w = Some (RPROC_SUCCESS, ?w\<lparr>
      plat_calls := plat_calls ?w @ concat (map (rsc_regions (rp_role rproc_example)) rscs_example),
      w_procs := (w_procs ?w)(rp_proc rproc_example \<mapsto> fold rsc_configure rscs_example hil_proc0)\<rparr>)"
    by (intro handle_rsc_table_roundtrip [where slots = 2]) (simp_all add: length_rscs_example)
  moreover have "plat_calls ?w @ concat (map (rsc_regions (rp_role rproc_example)) rscs_example) =
      [Map_mem_region 0 0 0x40000 65, Map_mem_region 0x08000000 0x08000000 10246 65,
       Map_mem_region 0x08004000 0x08004000 10246 65]"
    by (simp add: rsc_world_example_def rscs_example_def rproc_example_def carveout_example_def vring_example_def
        vring_region_def vring_size_def SHARED_MEM_def UNCACHED_def rproc_const_defs Let_def)
  moreover have "map pv_phy_addr (pd_vring_info (hp_vdev (fold rsc_configure rscs_example hil_proc0))) = [0x08000000, 0x08004000]"
    by (simp add: rscs_example_def hil_proc0_def set_vrings_def set_vring_def vring_example_def)
  ultimately show ?thesis by (simp add: rproc_const_defs rproc_example_def)
qed

section \<open>Arbitrary tables\<close>

definition hil_proc_wf :: "hil_proc \<Rightarrow> bool" where
  "hil_proc_wf pr \<longleftrightarrow> length (pd_vring_info (hp_vdev pr)) = 2 \<and> unat (pd_num_vrings (hp_vdev pr)) \<le> 2"

text \<open>What a handler may change: mappings and the processor's virtio device, which stays well formed.\<close>

definition rsc_effect :: "ptr \<Rightarrow> world \<Rightarrow> world \<Rightarrow> bool" where
  "rsc_effect proc w w' \<longleftrightarrow> (\<exists>cs pr'. hil_proc_wf pr' \<and>
     w' = w\<lparr>plat_calls := plat_calls w @ cs, w_procs := (w_procs w)(proc \<mapsto> pr')\<rparr>)"

definition proc_ok :: "ptr \<Rightarrow> world \<Rightarrow> bool" where
  "proc_ok proc w \<longleftrightarrow> (case w_procs w proc of None \<Rightarrow> False | Some pr \<Rightarrow> hil_proc_wf pr)"

lemma rsc_effect_refl: "proc_ok proc w \<Longrightarrow> rsc_effect proc w w"
  by (auto simp: rsc_effect_def proc_ok_def fun_upd_idem split: option.splits intro!: exI [of _ "[]"])

lemma rsc_effect_trans:
  assumes "rsc_effect proc w w'" "rsc_effect proc w' w''"
  shows "rsc_effect proc w w''"
proof -
  obtain cs pr ds pr' where "w' = w\<lparr>plat_calls := plat_calls w @ cs, w_procs := (w_procs w)(proc \<mapsto> pr)\<rparr>"
    "w'' = w'\<lparr>plat_calls := plat_calls w' @ ds, w_procs := (w_procs w')(proc \<mapsto> pr')\<rparr>" "hil_proc_wf pr'"
    using assms by (auto simp: rsc_effect_def)
  then show ?thesis unfolding rsc_effect_def
    by (intro exI [of _ "cs @ ds"] exI [of _ pr']) (simp add: fun_upd_def cong: if_cong)
qed

lemma rsc_effect_ok: "rsc_effect proc w w' \<Longrightarrow> proc_ok proc w'"
  by (auto simp: rsc_effect_def proc_ok_def)

lemma rsc_effect_map:
  assumes "proc_ok proc w"
  shows "rsc_effect proc w (env_map_memory pa va sz flags w)"
proof -
  obtain pr where pr: "w_procs w proc = Some pr" "hil_proc_wf pr"
    using assms by (auto simp: proc_ok_def split: option.splits)
  then show ?thesis unfolding rsc_effect_def
    by (intro exI [of _ "[Map_mem_region va pa sz flags]"] exI [of _ pr])
      (simp add: env_map_memory_def plat_call_def fun_upd_idem)
qed

lemma rsc_effect_proc: "hil_proc_wf pr \<Longrightarrow> rsc_effect proc w (w\<lparr>w_procs := (w_procs w)(proc \<mapsto> pr)\<rparr>)"
  by (auto simp: rsc_effect_def intro!: exI [of _ "[]"])

lemma vdev_vrings_loop_effect:
  "vdev_vrings_loop rsc proc idxs w = Some w' \<Longrightarrow> proc_ok proc w \<Longrightarrow> rsc_effect proc w w'"
proof (induction idxs arbitrary: w)
  case Nil
  then show ?case by (simp add: rsc_effect_refl)
next
  case (Cons idx idxs)
  let ?v = "fw_rsc_vdev_vring_at (w_mem w) rsc idx"
  let ?upd = "\<lambda>vrs. vrs[idx := (vrs ! idx)\<lparr>pv_phy_addr := vv_da ?v, pv_num_descs := ucast (vv_num ?v), pv_align := vv_align ?v\<rparr>]"
  obtain pr where pr: "w_procs w proc = Some pr"
    and rest: "vdev_vrings_loop rsc proc idxs (env_map_memory (vv_da ?v) (vv_da ?v) (vring_size (vv_num ?v) (vv_align ?v))
        (SHARED_MEM OR UNCACHED) (w\<lparr>w_procs := (w_procs w)(proc \<mapsto> pr\<lparr>hp_vdev := (hp_vdev pr)
          \<lparr>pd_vring_info := ?upd (pd_vring_info (hp_vdev pr))\<rparr>\<rparr>)\<rparr>)) = Some w'"
    (is "vdev_vrings_loop _ _ _ (env_map_memory _ _ _ _ ?w) = _")
    using Cons.prems(1) by (auto simp: Let_def option_bind_simps arr_simps)
  have "hil_proc_wf (pr\<lparr>hp_vdev := (hp_vdev pr)\<lparr>pd_vring_info := ?upd (pd_vring_info (hp_vdev pr))\<rparr>\<rparr>)"
    using Cons.prems(2) pr by (simp add: proc_ok_def hil_proc_wf_def)
  then have eff: "rsc_effect proc w ?w" by (rule rsc_effect_proc)
  note step = rsc_effect_map [OF rsc_effect_ok [OF eff], of "vv_da ?v" "vv_da ?v" "vring_size (vv_num ?v) (vv_align ?v)"
      "SHARED_MEM OR UNCACHED"]
  show ?case using eff step Cons.IH [OF rest rsc_effect_ok [OF step]] by (blast intro: rsc_effect_trans)
qed

lemma unat_ucast_8_32: "unat (ucast (b :: u8) :: u32) = unat b"
proof -
  have "unat b < 256" using unsigned_less [of b] by simp
  then show ?thesis by (simp add: unsigned_ucast_eq take_bit_nat_eq_self)
qed

lemma handle_vdev_rsc_effect:
  assumes "handle_vdev_rsc rproc rsc w = Some (st, w')" "proc_ok (rp_proc rproc) w"
  shows "rsc_effect (rp_proc rproc) w w'"
proof -
  let ?d = "fw_rsc_vdev_at (w_mem w) rsc" and ?p = "rp_proc rproc"
  obtain pr where pr: "w_procs w ?p = Some pr" "hil_proc_wf pr"
    using assms(2) by (auto simp: proc_ok_def split: option.splits)
  let ?w = "w\<lparr>w_procs := (w_procs w)(?p \<mapsto> pr\<lparr>hp_vdev := (hp_vdev pr)\<lparr>pd_num_vrings := ucast (vd_num_of_vrings ?d),
      pd_dfeatures := vd_dfeatures ?d, pd_gfeatures := vd_gfeatures ?d\<rparr>\<rparr>)\<rparr>"
  consider "w' = w" | "unat (vd_num_of_vrings ?d) \<le> 2"
      "vdev_vrings_loop rsc ?p [0..<unat (vd_num_of_vrings ?d)] ?w = Some w'"
    using assms(1) pr by (auto simp: handle_vdev_rsc_def Let_def RSC_TAB_MAX_VRINGS_def option_bind_simps split: if_splits)
  then show ?thesis
  proof cases
    case 1
    then show ?thesis using assms(2) by (simp add: rsc_effect_refl)
  next
    case 2
    then have "rsc_effect ?p w ?w"
      using pr by (intro rsc_effect_proc) (simp add: hil_proc_wf_def unat_ucast_8_32)
    then show ?thesis using vdev_vrings_loop_effect [OF 2(2)] by (blast intro: rsc_effect_ok rsc_effect_trans)
  qed
qed

lemma handle_carve_out_rsc_effect:
  "handle_carve_out_rsc rproc rsc w = Some (st, w') \<Longrightarrow> proc_ok (rp_proc rproc) w \<Longrightarrow> rsc_effect (rp_proc rproc) w w'"
  by (auto simp: handle_carve_out_rsc_def Let_def rsc_effect_refl rsc_effect_map split: if_splits)

lemma handler_effect:
  assumes "aget rsc_handler_table i = Some h" "h rproc rsc w = Some (st, w')" "proc_ok (rp_proc rproc) w"
  shows "rsc_effect (rp_proc rproc) w w'"
proof -
  have "h \<in> set rsc_handler_table" using assms(1) by (auto simp: arr_simps)
  then show ?thesis using assms(2,3)
    by (auto simp: rsc_handler_table_def handle_trace_rsc_def handle_dev_mem_rsc_def handle_mmu_rsc_def rsc_effect_refl
        dest: handle_vdev_rsc_effect handle_carve_out_rsc_effect)
qed

lemma rsc_entries_loop_effect:
  "rsc_entries_loop rproc a idxs st w = Some (st', w') \<Longrightarrow> proc_ok (rp_proc rproc) w \<Longrightarrow> rsc_effect (rp_proc rproc) w w'"
proof (induction idxs arbitrary: st w)
  case Nil
  then show ?case by (simp add: rsc_effect_refl)
next
  case (Cons idx idxs)
  let ?a = "a + rsc_table_offset (w_mem w) a idx"
  obtain h s1 w1 where h: "aget rsc_handler_table (unat (load32 (w_mem w) ?a)) = Some h" "h rproc ?a w = Some (s1, w1)"
    and rest: "w' = w1 \<or> rsc_entries_loop rproc a idxs s1 w1 = Some (st', w')"
    using Cons.prems(1) by (auto simp: option_bind_simps Let_def split: if_splits)
  have eff: "rsc_effect (rp_proc rproc) w w1" by (rule handler_effect [OF h Cons.prems(2)])
  from rest show ?case
  proof
    assume "rsc_entries_loop rproc a idxs s1 w1 = Some (st', w')"
    then show ?thesis using Cons.IH rsc_effect_ok [OF eff] rsc_effect_trans [OF eff] by blast
  qed (use eff in simp)
qed



text \<open>
  Two header checks do not protect the loop.  The size of the offset array is computed
  modulo \<open>2 ^ 32\<close>, so a table that announces \<open>2 ^ 30 + k\<close> entries is accepted when there is
  room for \<open>k\<close>; and the type of an entry is used as an index of the five-element handler table
  without a check: if the first entry has a type above 4 the parser calls through memory outside the table.
\<close>

theorem handle_rsc_table_unchecked:
  assumes "rt_ver (resource_table_at (w_mem w) a) = 1" "rt_num (resource_table_at (w_mem w) a) = 2 ^ 30 + k"
    and "rt_reserved0 (resource_table_at (w_mem w) a) = 0" "rt_reserved1 (resource_table_at (w_mem w) a) = 0"
    and "unat k < 2 ^ 28" "16 + 4 * k \<le> sz"
    and "4 < load32 (w_mem w) (a + rsc_table_offset (w_mem w) a 0)"
  shows "handle_rsc_table rproc a sz w = None"
proof -
  have num: "(4294967312 :: u32) = 16" by code_simp
  have k: "unat (2 ^ 30 + k) = 2 ^ 30 + unat k" "unat (16 + 4 * k) = 16 + 4 * unat k"
    using assms(5) by (simp_all add: unat_word_ariths)
  then have "16 \<le> sz" using assms(6) by (simp add: word_le_nat_alt)
  moreover obtain js where "[0..<2 ^ 30 + unat k] = 0 # js" by (metis add_gr_0 upt_rec zero_less_numeral zero_less_power)
  moreover have "5 \<le> unat (load32 (w_mem w) (a + rsc_table_offset (w_mem w) a 0))"
    using assms(7) by (simp add: word_less_nat_alt)
  ultimately show ?thesis using assms(1-4,6) k
    by (simp add: num mult.commute handle_rsc_table_def Let_def RSC_TAB_SUPPORTED_VERSION_def rsc_handler_table_def not_less)
qed

definition rsc_bad_image :: "u8 list" where
  "rsc_bad_image = le32 1 @ le32 0x40000001 @ le32 0 @ le32 0 @ le32 20 @ le32 9"

theorem handle_rsc_table_unchecked_witness:
  "handle_rsc_table rproc_example 0x1000 24 (rsc_world_example (store_bytes (\<lambda>a. 0) 0x1000 rsc_bad_image)) = None"
  by (rule handle_rsc_table_unchecked [of _ _ 1])
    (simp_all add: rsc_world_example_def resource_table_at_def rsc_table_offset_def rsc_bad_image_def load32_def le32_def)

end
