(* ===== verification/ElfLoader.thy ===== *)
theory ElfLoader
  imports RscTable
begin

text \<open>
  The ELF loader \<^verbatim>\<open>lib/remoteproc/elf_loader.c\<close> and the loader interface
  \<^verbatim>\<open>lib/remoteproc/remoteproc_loader.c\<close>.  The firmware image and the memory it is loaded to are the byte
  memory of the processor.  The copies of the section headers and of the section name table live in blocks
  of their own; a header pointer is the offset of the header in its block, and reading a header that does
  not lie in the block is undefined.
\<close>

section \<open>Structures\<close>

record Elf32_Ehdr =
  e_ident :: "u8 list"
  e_type :: u16
  e_machine :: u16
  e_version :: u32
  e_entry :: u32
  e_phoff :: u32
  e_shoff :: u32
  e_flags :: u32
  e_ehsize :: u16
  e_phentsize :: u16
  e_phnum :: u16
  e_shentsize :: u16
  e_shnum :: u16
  e_shstrndx :: u16

record Elf32_Shdr =
  sh_name :: u32
  sh_type :: u32
  sh_flags :: u32
  sh_addr :: u32
  sh_offset :: u32
  sh_size :: u32
  sh_link :: u32
  sh_info :: u32
  sh_addralign :: u32
  sh_entsize :: u32

record Elf32_Rel =
  r_offset :: u32
  r_info :: u32

record Elf32_Sym =
  st_name :: u32
  st_value :: u32
  st_size :: u32
  st_info :: u8
  st_other :: u8
  st_shndx :: u16

definition SHT_NOBITS :: u32 where "SHT_NOBITS = 8"
definition SHT_REL :: u32 where "SHT_REL = 9"
definition SHF_ALLOC :: u32 where "SHF_ALLOC = 2"
definition SHF_EXECINSTR :: u32 where "SHF_EXECINSTR = 4"
definition R_ARM_ABS32 :: u8 where "R_ARM_ABS32 = 2"

lemmas elf_const_defs = SHT_NOBITS_def SHT_REL_def SHF_ALLOC_def SHF_EXECINSTR_def R_ARM_ABS32_def

definition ELF32_R_SYM :: "u32 \<Rightarrow> u32" where "ELF32_R_SYM i = drop_bit 8 i"
definition ELF32_R_TYPE :: "u32 \<Rightarrow> u8" where "ELF32_R_TYPE i = ucast i"

text \<open>The control block; the section pointers are offsets into the block of section headers.\<close>

record elf_decode_info =
  ei_elf_header :: Elf32_Ehdr
  ei_section_headers :: "u8 list option"
  ei_shstrtab :: "char list option"
  ei_dynsym :: "nat option"
  ei_dynstr :: "nat option"
  ei_rel_plt :: "nat option"
  ei_rel_dyn :: "nat option"
  ei_rsc :: "nat option"
  ei_dynsym_addr :: u32
  ei_dynstr_addr :: u32
  ei_firmware :: u32

definition Elf32_Ehdr_at :: "memory \<Rightarrow> u32 \<Rightarrow> Elf32_Ehdr" where
  "Elf32_Ehdr_at m a = \<lparr>e_ident = load_bytes m a 16, e_type = load16 m (a + 16), e_machine = load16 m (a + 18),
     e_version = load32 m (a + 20), e_entry = load32 m (a + 24), e_phoff = load32 m (a + 28), e_shoff = load32 m (a + 32),
     e_flags = load32 m (a + 36), e_ehsize = load16 m (a + 40), e_phentsize = load16 m (a + 42), e_phnum = load16 m (a + 44),
     e_shentsize = load16 m (a + 46), e_shnum = load16 m (a + 48), e_shstrndx = load16 m (a + 50)\<rparr>"

definition bytes32 :: "u8 list \<Rightarrow> nat \<Rightarrow> u32" where
  "bytes32 bs i = ucast (bs ! i) OR push_bit 8 (ucast (bs ! (i + 1)))
     OR push_bit 16 (ucast (bs ! (i + 2))) OR push_bit 24 (ucast (bs ! (i + 3)))"

definition Elf32_Shdr_at :: "u8 list option \<Rightarrow> nat \<Rightarrow> Elf32_Shdr option" where
  "Elf32_Shdr_at blk i = do {
     bs \<leftarrow> blk;
     (if i + 40 \<le> length bs
      then Some \<lparr>sh_name = bytes32 bs i, sh_type = bytes32 bs (i + 4), sh_flags = bytes32 bs (i + 8),
        sh_addr = bytes32 bs (i + 12), sh_offset = bytes32 bs (i + 16), sh_size = bytes32 bs (i + 20),
        sh_link = bytes32 bs (i + 24), sh_info = bytes32 bs (i + 28), sh_addralign = bytes32 bs (i + 32),
        sh_entsize = bytes32 bs (i + 36)\<rparr>
      else None) }"

definition Elf32_Rel_at :: "memory \<Rightarrow> u32 \<Rightarrow> Elf32_Rel" where
  "Elf32_Rel_at m a = \<lparr>r_offset = load32 m a, r_info = load32 m (a + 4)\<rparr>"

definition Elf32_Sym_at :: "memory \<Rightarrow> u32 \<Rightarrow> Elf32_Sym" where
  "Elf32_Sym_at m a = \<lparr>st_name = load32 m a, st_value = load32 m (a + 4), st_size = load32 m (a + 8),
     st_info = m (a + 12), st_other = m (a + 13), st_shndx = load16 m (a + 14)\<rparr>"

definition elf_decode_info0 :: elf_decode_info where
  "elf_decode_info0 = \<lparr>ei_elf_header = \<lparr>e_ident = replicate 16 0, e_type = 0, e_machine = 0, e_version = 0, e_entry = 0,
       e_phoff = 0, e_shoff = 0, e_flags = 0, e_ehsize = 0, e_phentsize = 0, e_phnum = 0, e_shentsize = 0, e_shnum = 0,
       e_shstrndx = 0\<rparr>,
     ei_section_headers = None, ei_shstrtab = None, ei_dynsym = None, ei_dynstr = None, ei_rel_plt = None, ei_rel_dyn = None,
     ei_rsc = None, ei_dynsym_addr = 0, ei_dynstr_addr = 0, ei_firmware = 0\<rparr>"

text \<open>The characters from the start of a section name to the end of the table; reading past the end is undefined.\<close>

definition section_name :: "elf_decode_info \<Rightarrow> Elf32_Shdr \<Rightarrow> char list" where
  "section_name ei sh = (case ei_shstrtab ei of None \<Rightarrow> [] | Some s \<Rightarrow> drop (unat (sh_name sh)) s)"

definition chars_of :: "u8 list \<Rightarrow> char list" where
  "chars_of bs = map (\<lambda>b. char_of (unat b)) bs"

section \<open>Reading headers\<close>

text \<open>Every section walk starts behind the reserved null section and advances by the entry size of the file header.\<close>

definition section_count :: "elf_decode_info \<Rightarrow> nat" where
  "section_count ei = unat (e_shnum (ei_elf_header ei)) - 1"

definition shentsize :: "elf_decode_info \<Rightarrow> nat" where
  "shentsize ei = unat (e_shentsize (ei_elf_header ei))"

definition elf_loader_seek_and_read :: "memory \<Rightarrow> u32 \<Rightarrow> u32 \<Rightarrow> u32 \<Rightarrow> u32 \<Rightarrow> int \<times> memory" where
  "elf_loader_seek_and_read m firmware destination offset sz =
     (0, store_bytes m destination (load_bytes m (firmware + offset) (unat sz)))"

text \<open>The same read into a block of the heap yields the content of the block.\<close>

definition elf_read_block :: "memory \<Rightarrow> u32 \<Rightarrow> u32 \<Rightarrow> nat \<Rightarrow> u8 list" where
  "elf_read_block m firmware offset sz = load_bytes m (firmware + offset) sz"

text \<open>A failed allocation is not reported: the status stays 0 and the pointer stays \<^verbatim>\<open>NULL\<close>.\<close>

definition elf_loader_read_headers :: "config \<Rightarrow> u32 \<Rightarrow> elf_decode_info \<Rightarrow> world \<Rightarrow> (int \<times> elf_decode_info \<times> world) option" where
  "elf_loader_read_headers cf firmware ei w = do {
     let hdr = Elf32_Ehdr_at (w_mem w) firmware;
     let ei = ei\<lparr>ei_elf_header := hdr\<rparr>;
     let hsize = unat (e_shnum hdr) * unat (e_shentsize hdr);
     let (p, w) = env_allocate_memory cf w;
     (if p = NULL then Some (0, ei, w)
      else do {
        let ei = ei\<lparr>ei_section_headers := Some (elf_read_block (w_mem w) firmware (e_shoff hdr) hsize)\<rparr>;
        str \<leftarrow> Elf32_Shdr_at (ei_section_headers ei) (unat (e_shstrndx hdr) * unat (e_shentsize hdr));
        let (q, w) = env_allocate_memory cf w;
        (if q = NULL then Some (0, ei, w)
         else Some (0, ei\<lparr>ei_shstrtab := Some (chars_of (elf_read_block (w_mem w) firmware (sh_offset str) (unat (sh_size str))))\<rparr>, w)) }) }"

definition elf_note_section :: "nat \<Rightarrow> Elf32_Shdr \<Rightarrow> nat \<Rightarrow> elf_decode_info \<Rightarrow> (nat \<times> elf_decode_info) option" where
  "elf_note_section current sh sections_to_find ei =
     (let name = section_name ei sh in
      if sh_flags sh AND SHF_ALLOC \<noteq> 0 \<and> sh_flags sh AND SHF_EXECINSTR = 0 then do {
        c0 \<leftarrow> aget name 0;
        (if c0 = CHR ''.'' then do {
           c1 \<leftarrow> aget name 1;
           (if c1 = CHR ''d'' then do {
              r \<leftarrow> env_strncmp (drop 2 name) (cstring ''ynsym'') 5;
              (if r = 0 then Some (sections_to_find - 1, ei\<lparr>ei_dynsym := Some current\<rparr>)
               else do {
                 r \<leftarrow> env_strncmp (drop 2 name) (cstring ''ynstr'') 5;
                 (if r = 0 then Some (sections_to_find - 1, ei\<lparr>ei_dynstr := Some current\<rparr>) else Some (sections_to_find, ei)) }) }
            else if c1 = CHR ''r'' then do {
              r \<leftarrow> env_strncmp (drop 2 name) (cstring ''el.plt'') 6;
              (if r = 0 then Some (sections_to_find - 1, ei\<lparr>ei_rel_plt := Some current\<rparr>)
               else do {
                 r \<leftarrow> env_strncmp (drop 2 name) (cstring ''el.dyn'') 6;
                 (if r = 0 then Some (sections_to_find - 1, ei\<lparr>ei_rel_dyn := Some current\<rparr>)
                  else do {
                    r \<leftarrow> env_strncmp (drop 2 name) (cstring ''esource_table'') 13;
                    (if r = 0 then Some (sections_to_find - 1, ei\<lparr>ei_rsc := Some current\<rparr>)
                     else Some (sections_to_find, ei)) }) }) }
            else Some (sections_to_find, ei)) }
         else Some (sections_to_find, ei)) }
      else Some (sections_to_find, ei))"

fun needed_sections_loop :: "nat \<Rightarrow> nat \<Rightarrow> nat \<Rightarrow> elf_decode_info \<Rightarrow> (nat \<times> elf_decode_info) option" where
  "needed_sections_loop 0 sections_to_find current ei = Some (sections_to_find, ei)"
| "needed_sections_loop (Suc n) sections_to_find current ei =
     (if sections_to_find = 0 then Some (sections_to_find, ei)
      else do {
        let current = current + shentsize ei;
        sh \<leftarrow> Elf32_Shdr_at (ei_section_headers ei) current;
        (sections_to_find, ei) \<leftarrow> elf_note_section current sh sections_to_find ei;
        needed_sections_loop n sections_to_find current ei })"

definition elf_loader_get_needed_sections :: "elf_decode_info \<Rightarrow> (nat \<times> elf_decode_info) option" where
  "elf_loader_get_needed_sections ei = needed_sections_loop (section_count ei) 5 0 ei"

definition elf_loader_get_decode_info :: "config \<Rightarrow> u32 \<Rightarrow> elf_decode_info \<Rightarrow> world \<Rightarrow> (int \<times> elf_decode_info \<times> world) option" where
  "elf_loader_get_decode_info cf firmware ei w = do {
     (status, ei, w) \<leftarrow> elf_loader_read_headers cf firmware ei w;
     (if status = 0 then do { (n, ei) \<leftarrow> elf_loader_get_needed_sections ei; Some (status, ei, w) }
      else Some (status, ei, w)) }"

section \<open>Loading\<close>

fun load_sections_loop :: "nat \<Rightarrow> nat \<Rightarrow> u32 \<Rightarrow> elf_decode_info \<Rightarrow> memory \<Rightarrow> (int \<times> memory) option" where
  "load_sections_loop 0 current firmware ei m = Some (0, m)"
| "load_sections_loop (Suc n) current firmware ei m = do {
     let current = current + shentsize ei;
     sh \<leftarrow> Elf32_Shdr_at (ei_section_headers ei) current;
     let (status, m) = (if sh_flags sh AND SHF_ALLOC \<noteq> 0 \<and> sh_size sh \<noteq> 0 \<and> sh_type sh AND SHT_NOBITS = 0
        then elf_loader_seek_and_read m firmware (sh_addr sh) (sh_offset sh) (sh_size sh) else (0, m));
     (if status = 0 then load_sections_loop n current firmware ei m else Some (status, m)) }"

definition elf_loader_load_sections :: "u32 \<Rightarrow> elf_decode_info \<Rightarrow> memory \<Rightarrow> (int \<times> memory) option" where
  "elf_loader_load_sections firmware ei m = load_sections_loop (section_count ei) 0 firmware ei m"

section \<open>Relocation\<close>

definition elf_loader_get_dynamic_symbol_addr :: "elf_decode_info \<Rightarrow> u32 \<Rightarrow> memory \<Rightarrow> u32 option" where
  "elf_loader_get_dynamic_symbol_addr ei index m = do {
     d \<leftarrow> ei_dynsym ei;
     dynsym \<leftarrow> Elf32_Shdr_at (ei_section_headers ei) d;
     Some (st_value (Elf32_Sym_at m (ei_dynsym_addr ei + index * sh_entsize dynsym))) }"

definition elf_loader_reloc_entry :: "elf_decode_info \<Rightarrow> u32 \<Rightarrow> memory \<Rightarrow> (int \<times> memory) option" where
  "elf_loader_reloc_entry ei rel_entry m =
     (let rel = Elf32_Rel_at m rel_entry in
      if ELF32_R_TYPE (r_info rel) = R_ARM_ABS32 then do {
        sym_addr \<leftarrow> elf_loader_get_dynamic_symbol_addr ei (ELF32_R_SYM (r_info rel)) m;
        Some (0, if sym_addr \<noteq> 0 then store32 m (r_offset rel) sym_addr else m) }
      else Some (0, m))"

text \<open>The loop advances by the entry size of the section, which may be 0 or make the index wrap: it may not end.\<close>

partial_function (option) relocs_loop :: "elf_decode_info \<Rightarrow> Elf32_Shdr \<Rightarrow> u32 \<Rightarrow> int \<Rightarrow> memory \<Rightarrow> (int \<times> memory) option" where
  "relocs_loop ei section i status m =
     (if i < sh_size section \<and> status = 0 then do {
        (status, m) \<leftarrow> elf_loader_reloc_entry ei (sh_addr section + i) m;
        relocs_loop ei section (i + sh_entsize section) status m }
      else Some (status, m))"

declare relocs_loop.simps [code]

definition elf_loader_relocs_specific :: "elf_decode_info \<Rightarrow> nat \<Rightarrow> memory \<Rightarrow> (int \<times> memory) option" where
  "elf_loader_relocs_specific ei current m = do {
     section \<leftarrow> Elf32_Shdr_at (ei_section_headers ei) current;
     (if sh_type section = SHT_REL then relocs_loop ei section 0 0 m else Some (0, m)) }"

definition elf_loader_relocate_link :: "elf_decode_info \<Rightarrow> memory \<Rightarrow> (int \<times> memory) option" where
  "elf_loader_relocate_link ei m = do {
     (status, m) \<leftarrow> (case ei_rel_dyn ei of None \<Rightarrow> Some (0, m) | Some s \<Rightarrow> elf_loader_relocs_specific ei s m);
     (if status = 0 then (case ei_rel_plt ei of None \<Rightarrow> Some (status, m) | Some s \<Rightarrow> elf_loader_relocs_specific ei s m)
      else Some (status, m)) }"

section \<open>Addresses\<close>

definition elf_loader_get_entry_point_address :: "elf_decode_info \<Rightarrow> u32" where
  "elf_loader_get_entry_point_address ei = e_entry (ei_elf_header ei)"

fun load_address_loop :: "nat \<Rightarrow> nat \<Rightarrow> elf_decode_info \<Rightarrow> u32 option" where
  "load_address_loop 0 current ei = Some RPROC_ERR_PTR"
| "load_address_loop (Suc n) current ei = do {
     let current = current + shentsize ei;
     sh \<leftarrow> Elf32_Shdr_at (ei_section_headers ei) current;
     r \<leftarrow> env_strcmp (section_name ei sh) (cstring ''.text'');
     (if r = 0 then Some (sh_addr sh) else load_address_loop n current ei) }"

end
