(* ===== verification/Loader.thy ===== *)
theory Loader
  imports ElfLoader
begin

text \<open>
  The loader objects of the remoteproc side: the callbacks of \<^verbatim>\<open>elf_loader.c\<close> that work on a
  loader in the heap, and \<^verbatim>\<open>remoteproc_loader.c\<close>, which dispatches to them.  The state has
  the messaging world as a component and heaps for the processor instances, loaders and ELF control blocks.
\<close>

datatype loader_type = ELF_LOADER | FIT_LOADER | LAST_LOADER

text \<open>The functions a loader's callbacks can point to.\<close>

datatype loader_fn = Elf_fn

record remoteproc_loader =
  ld_type :: loader_type
  ld_remote_firmware :: u32
  ld_fw_decode_info :: ptr
  ld_retrieve_entry :: "loader_fn option"
  ld_retrieve_rsc :: "loader_fn option"
  ld_load_firmware :: "loader_fn option"
  ld_attach_firmware :: "loader_fn option"
  ld_detach_firmware :: "loader_fn option"
  ld_retrieve_load_addr :: "loader_fn option"

record rproc_state =
  st_w :: world
  st_rprocs :: "ptr \<rightharpoonup> remote_proc"
  st_loaders :: "ptr \<rightharpoonup> remoteproc_loader"
  st_elfs :: "ptr \<rightharpoonup> elf_decode_info"

definition alloc :: "config \<Rightarrow> rproc_state \<Rightarrow> ptr \<times> rproc_state" where
  "alloc cf s = (let (p, w) = env_allocate_memory cf (st_w s) in (p, s\<lparr>st_w := w\<rparr>))"

definition set_mem :: "memory \<Rightarrow> rproc_state \<Rightarrow> rproc_state" where
  "set_mem m s = s\<lparr>st_w := (st_w s)\<lparr>w_mem := m\<rparr>\<rparr>"

section \<open>Callbacks of the ELF loader\<close>

definition elf_loader_init :: "remoteproc_loader \<Rightarrow> int \<times> remoteproc_loader" where
  "elf_loader_init ld = (RPROC_SUCCESS, ld\<lparr>ld_load_firmware := Some Elf_fn, ld_retrieve_entry := Some Elf_fn,
     ld_retrieve_rsc := Some Elf_fn, ld_attach_firmware := Some Elf_fn, ld_detach_firmware := Some Elf_fn,
     ld_retrieve_load_addr := Some Elf_fn\<rparr>)"

definition elf_loader_attach_firmware :: "config \<Rightarrow> ptr \<Rightarrow> u32 \<Rightarrow> rproc_state \<Rightarrow> (int \<times> rproc_state) option" where
  "elf_loader_attach_firmware cf loader firmware s = do {
     let (p, s) = alloc cf s;
     (if p = NULL then Some (RPROC_ERR_NO_MEM, s)
      else do {
        (status, ei, w) \<leftarrow> elf_loader_get_decode_info cf firmware elf_decode_info0 (st_w s);
        let s = s\<lparr>st_w := w\<rparr>;
        (if status \<noteq> 0 then Some (status, s)
         else do {
           ld \<leftarrow> st_loaders s loader;
           Some (status, s\<lparr>st_elfs := (st_elfs s)(p \<mapsto> ei\<lparr>ei_firmware := firmware\<rparr>),
             st_loaders := (st_loaders s)(loader \<mapsto> ld\<lparr>ld_fw_decode_info := p\<rparr>)\<rparr>) }) }) }"

text \<open>The pointer to the freed control block stays in the loader.\<close>

definition elf_loader_detach_firmware :: "ptr \<Rightarrow> rproc_state \<Rightarrow> (int \<times> rproc_state) option" where
  "elf_loader_detach_firmware loader s = do {
     ld \<leftarrow> st_loaders s loader;
     (if ld_fw_decode_info ld \<noteq> NULL then do {
        ei \<leftarrow> st_elfs s (ld_fw_decode_info ld);
        Some (RPROC_SUCCESS, s\<lparr>st_elfs := (st_elfs s)(ld_fw_decode_info ld := None)\<rparr>) }
      else Some (RPROC_SUCCESS, s)) }"

definition loader_elf_info :: "ptr \<Rightarrow> rproc_state \<Rightarrow> elf_decode_info option" where
  "loader_elf_info loader s = do { ld \<leftarrow> st_loaders s loader; st_elfs s (ld_fw_decode_info ld) }"

definition elf_loader_retrieve_entry_point :: "ptr \<Rightarrow> rproc_state \<Rightarrow> u32 option" where
  "elf_loader_retrieve_entry_point loader s = do {
     ei \<leftarrow> loader_elf_info loader s; Some (elf_loader_get_entry_point_address ei) }"

text \<open>The address of the section in the image and its size; the size is written only when the section exists.\<close>

definition elf_loader_retrieve_resource_section :: "ptr \<Rightarrow> rproc_state \<Rightarrow> (u32 \<times> u32 option) option" where
  "elf_loader_retrieve_resource_section loader s = do {
     ei \<leftarrow> loader_elf_info loader s;
     (case ei_rsc ei of
        None \<Rightarrow> Some (0, None)
      | Some h \<Rightarrow> do {
          rsc_header \<leftarrow> Elf32_Shdr_at (ei_section_headers ei) h;
          Some (ei_firmware ei + sh_offset rsc_header, Some (sh_size rsc_header)) }) }"

definition elf_loader_load_remote_firmware :: "ptr \<Rightarrow> rproc_state \<Rightarrow> (int \<times> rproc_state) option" where
  "elf_loader_load_remote_firmware loader s = do {
     ei \<leftarrow> loader_elf_info loader s;
     (status, m) \<leftarrow> elf_loader_load_sections (ei_firmware ei) ei (w_mem (st_w s));
     (status, m) \<leftarrow> (if status = 0 then elf_loader_relocate_link ei m else Some (status, m));
     Some (status, set_mem m s) }"

definition elf_get_load_address :: "ptr \<Rightarrow> rproc_state \<Rightarrow> u32 option" where
  "elf_get_load_address loader s = do {
     ei \<leftarrow> loader_elf_info loader s; load_address_loop (section_count ei) 0 ei }"

section \<open>The loader interface\<close>

definition loader_zero :: remoteproc_loader where
  "loader_zero = \<lparr>ld_type = ELF_LOADER, ld_remote_firmware = 0, ld_fw_decode_info = NULL, ld_retrieve_entry = None,
     ld_retrieve_rsc = None, ld_load_firmware = None, ld_attach_firmware = None, ld_detach_firmware = None,
     ld_retrieve_load_addr = None\<rparr>"

definition remoteproc_loader_init :: "config \<Rightarrow> loader_type \<Rightarrow> rproc_state \<Rightarrow> ptr \<times> rproc_state" where
  "remoteproc_loader_init cf type s =
     (if type = LAST_LOADER then (NULL, s)
      else let (p, s) = alloc cf s in
        if p = NULL then (NULL, s)
        else case type of
          ELF_LOADER \<Rightarrow> (p, s\<lparr>st_loaders := (st_loaders s)(p \<mapsto> snd (elf_loader_init (loader_zero\<lparr>ld_type := type\<rparr>)))\<rparr>)
        | _ \<Rightarrow> (NULL, s))"

definition remoteproc_loader_delete :: "ptr \<Rightarrow> rproc_state \<Rightarrow> (int \<times> rproc_state) option" where
  "remoteproc_loader_delete loader s =
     (if loader = NULL then Some (RPROC_ERR_PARAM, s)
      else do {
        ld \<leftarrow> st_loaders s loader;
        (status, s) \<leftarrow> (if ld_remote_firmware ld \<noteq> 0
           then do { f \<leftarrow> ld_detach_firmware ld; elf_loader_detach_firmware loader s } else Some (0, s));
        Some (status, s\<lparr>st_loaders := (st_loaders s)(loader := None)\<rparr>) })"

definition remoteproc_loader_attach_firmware :: "config \<Rightarrow> ptr \<Rightarrow> u32 \<Rightarrow> rproc_state \<Rightarrow> (int \<times> rproc_state) option" where
  "remoteproc_loader_attach_firmware cf loader firmware_image s =
     (if loader = NULL \<or> firmware_image = 0 then Some (RPROC_ERR_PARAM, s)
      else do {
        ld \<leftarrow> st_loaders s loader;
        (case ld_attach_firmware ld of
           None \<Rightarrow> Some (RPROC_ERR_LOADER, s)
         | Some f \<Rightarrow> do {
             (status, s) \<leftarrow> (if ld_remote_firmware ld \<noteq> 0
                then do { f \<leftarrow> ld_detach_firmware ld; elf_loader_detach_firmware loader s } else Some (RPROC_SUCCESS, s));
             (if status = 0 then do {
                (status, s) \<leftarrow> elf_loader_attach_firmware cf loader firmware_image s;
                (if status = 0 then do {
                   ld \<leftarrow> st_loaders s loader;
                   Some (status, s\<lparr>st_loaders := (st_loaders s)(loader \<mapsto> ld\<lparr>ld_remote_firmware := firmware_image\<rparr>)\<rparr>) }
                 else Some (status, s)) }
              else Some (status, s)) }) })"

definition remoteproc_loader_retrieve_entry_point :: "ptr \<Rightarrow> rproc_state \<Rightarrow> u32 option" where
  "remoteproc_loader_retrieve_entry_point loader s =
     (if loader = NULL then Some 0
      else do {
        ld \<leftarrow> st_loaders s loader;
        (case ld_retrieve_entry ld of None \<Rightarrow> Some 0 | Some f \<Rightarrow> elf_loader_retrieve_entry_point loader s) })"

definition remoteproc_loader_retrieve_resource_section :: "ptr \<Rightarrow> rproc_state \<Rightarrow> (u32 \<times> u32 option) option" where
  "remoteproc_loader_retrieve_resource_section loader s =
     (if loader = NULL then Some (0, None)
      else do {
        ld \<leftarrow> st_loaders s loader;
        (case ld_retrieve_rsc ld of None \<Rightarrow> Some (0, None) | Some f \<Rightarrow> elf_loader_retrieve_resource_section loader s) })"

definition remoteproc_loader_load_remote_firmware :: "ptr \<Rightarrow> rproc_state \<Rightarrow> (int \<times> rproc_state) option" where
  "remoteproc_loader_load_remote_firmware loader s =
     (if loader = NULL then Some (RPROC_ERR_PARAM, s)
      else do {
        ld \<leftarrow> st_loaders s loader;
        (case ld_load_firmware ld of None \<Rightarrow> Some (RPROC_ERR_LOADER, s) | Some f \<Rightarrow> elf_loader_load_remote_firmware loader s) })"

definition remoteproc_get_load_address :: "ptr \<Rightarrow> rproc_state \<Rightarrow> u32 option" where
  "remoteproc_get_load_address loader s =
     (if loader = NULL then Some RPROC_ERR_PTR
      else do {
        ld \<leftarrow> st_loaders s loader;
        (case ld_retrieve_load_addr ld of None \<Rightarrow> Some RPROC_ERR_PTR | Some f \<Rightarrow> elf_get_load_address loader s) })"

end
