(* ===== verification/ElfProps.thy ===== *)
theory ElfProps
  imports Loader
begin

text \<open>
  Properties of the loader: what loading a firmware image does to the memory, when the relocation
  loop ends, and which address the processor is started at.
\<close>

section \<open>Sections of an image\<close>

text \<open>The headers behind the null section, all of which lie in the block that was read.\<close>

definition elf_sections :: "elf_decode_info \<Rightarrow> Elf32_Shdr list \<Rightarrow> bool" where
  "elf_sections ei shs \<longleftrightarrow> length shs = section_count ei \<and>
     (\<forall>k < length shs. Elf32_Shdr_at (ei_section_headers ei) (Suc k * shentsize ei) = Some (shs ! k))"

definition loadable :: "Elf32_Shdr \<Rightarrow> bool" where
  "loadable sh \<longleftrightarrow> sh_flags sh AND SHF_ALLOC \<noteq> 0 \<and> sh_size sh \<noteq> 0 \<and> sh_type sh AND SHT_NOBITS = 0"

definition dest :: "Elf32_Shdr \<Rightarrow> u32 set" where
  "dest sh = range32 (sh_addr sh) (unat (sh_size sh))"

definition source :: "u32 \<Rightarrow> Elf32_Shdr \<Rightarrow> u32 set" where
  "source fw sh = range32 (fw + sh_offset sh) (unat (sh_size sh))"

definition copy_section :: "u32 \<Rightarrow> Elf32_Shdr \<Rightarrow> memory \<Rightarrow> memory" where
  "copy_section fw sh m = store_bytes m (sh_addr sh) (load_bytes m (fw + sh_offset sh) (unat (sh_size sh)))"

lemma load_sections_loop_step:
  "Elf32_Shdr_at (ei_section_headers ei) (current + shentsize ei) = Some sh \<Longrightarrow>
     load_sections_loop (Suc n) current fw ei m =
       load_sections_loop n (current + shentsize ei) fw ei (if loadable sh then copy_section fw sh m else m)"
  by (simp add: loadable_def elf_loader_seek_and_read_def copy_section_def)

lemma load_sections_loop_fold:
  assumes "\<And>k. k < length shs \<Longrightarrow> Elf32_Shdr_at (ei_section_headers ei) (current + Suc k * shentsize ei) = Some (shs ! k)"
  shows "load_sections_loop (length shs) current fw ei m = Some (0, fold (copy_section fw) (filter loadable shs) m)"
  using assms
proof (induction shs arbitrary: current m)
  case Nil
  then show ?case by simp
next
  case (Cons sh shs)
  have 0: "Elf32_Shdr_at (ei_section_headers ei) (current + shentsize ei) = Some sh" using Cons.prems [of 0] by simp
  have "load_sections_loop (length shs) (current + shentsize ei) fw ei m' =
      Some (0, fold (copy_section fw) (filter loadable shs) m')" for m'
    by (rule Cons.IH) (use Cons.prems [of "Suc _"] in \<open>simp add: algebra_simps\<close>)
  then show ?case by (simp add: load_sections_loop_step [OF 0] del: load_sections_loop.simps(2))
qed

lemma copy_section_outside: "a \<notin> dest sh \<Longrightarrow> copy_section fw sh m a = m a"
  by (simp add: copy_section_def dest_def store_bytes_outside)

lemma copy_sections_outside:
  "\<forall>sh \<in> set L. a \<notin> dest sh \<Longrightarrow> fold (copy_section fw) L m a = m a"
  by (induction L arbitrary: m) (simp_all add: copy_section_outside)

lemma copy_section_here:
  "load_bytes (copy_section fw sh m) (sh_addr sh) (unat (sh_size sh)) = load_bytes m (fw + sh_offset sh) (unat (sh_size sh))"
proof -
  have "unat (sh_size sh) < 2 ^ 32" using unsigned_less [of "sh_size sh"] by simp
  then show ?thesis
    using load_store_bytes [of "load_bytes m (fw + sh_offset sh) (unat (sh_size sh))" m "sh_addr sh"] by (simp add: copy_section_def)
qed

lemma copy_sections_here:
  assumes "sorted_wrt (\<lambda>x y. dest x \<inter> dest y = {}) L" "\<forall>x \<in> set L. \<forall>y \<in> set L. dest x \<inter> source fw y = {}" "sh \<in> set L"
  shows "load_bytes (fold (copy_section fw) L m) (sh_addr sh) (unat (sh_size sh)) =
    load_bytes m (fw + sh_offset sh) (unat (sh_size sh))"
  using assms
proof (induction L arbitrary: m)
  case Nil
  then show ?case by simp
next
  case (Cons x L)
  show ?case
  proof (cases "sh \<in> set L")
    case True
    then have "load_bytes (fold (copy_section fw) L (copy_section fw x m)) (sh_addr sh) (unat (sh_size sh)) =
        load_bytes (copy_section fw x m) (fw + sh_offset sh) (unat (sh_size sh))"
      using Cons by simp
    also have "\<dots> = load_bytes m (fw + sh_offset sh) (unat (sh_size sh))"
      by (rule load_bytes_cong, rule copy_section_outside)
        (use Cons.prems(2) True in \<open>auto simp: source_def\<close>)
    finally show ?thesis by simp
  next
    case False
    then have "sh = x" using Cons.prems(3) by simp
    moreover have "load_bytes (fold (copy_section fw) L (copy_section fw x m)) (sh_addr x) (unat (sh_size x)) =
        load_bytes (copy_section fw x m) (sh_addr x) (unat (sh_size x))"
      by (rule load_bytes_cong, rule copy_sections_outside) (use Cons.prems(1) in \<open>auto simp: dest_def\<close>)
    ultimately show ?thesis by (simp add: copy_section_here)
  qed
qed


text \<open>An image with one section of four bytes, at offset \<open>0x60\<close>, loaded at \<open>0x4000\<close>, and its name table.\<close>

definition shdr_bytes :: "u32 \<Rightarrow> u32 \<Rightarrow> u32 \<Rightarrow> u32 \<Rightarrow> u32 \<Rightarrow> u32 \<Rightarrow> u32 \<Rightarrow> u8 list" where
  "shdr_bytes nm ty fl ad off sz es = le32 nm @ le32 ty @ le32 fl @ le32 ad @ le32 off @ le32 sz @ le32 0 @ le32 0 @ le32 0 @ le32 es"

definition elf_example :: elf_decode_info where
  "elf_example = elf_decode_info0\<lparr>ei_elf_header := (ei_elf_header elf_decode_info0)\<lparr>e_shnum := 2, e_shentsize := 40\<rparr>,
     ei_section_headers := Some (shdr_bytes 0 0 0 0 0 0 0 @ shdr_bytes 1 1 6 0x4000 0x60 4 0),
     ei_shstrtab := Some ([NUL] @ cstring ''.text''), ei_firmware := 0x100000\<rparr>"

definition text_shdr_example :: Elf32_Shdr where
  "text_shdr_example = \<lparr>sh_name = 1, sh_type = 1, sh_flags = 6, sh_addr = 0x4000, sh_offset = 0x60, sh_size = 4, sh_link = 0,
     sh_info = 0, sh_addralign = 0, sh_entsize = 0\<rparr>"

lemma elf_sections_example: "elf_sections elf_example [text_shdr_example]"
  by (simp add: elf_sections_def section_count_def shentsize_def elf_example_def elf_decode_info0_def Elf32_Shdr_at_def
      shdr_bytes_def le32_def bytes32_def text_shdr_example_def)

lemma loadable_example: "filter loadable [text_shdr_example] = [text_shdr_example]"
  by (simp add: loadable_def text_shdr_example_def elf_const_defs)


section \<open>Relocation\<close>

lemma reloc_entry_status: "elf_loader_reloc_entry ei a m = Some (st, m') \<Longrightarrow> st = 0"
  by (auto simp: elf_loader_reloc_entry_def Let_def option_bind_simps split: if_splits)

lemma reloc_entry_total:
  "ei_dynsym ei = Some d \<Longrightarrow> Elf32_Shdr_at (ei_section_headers ei) d = Some dynsym \<Longrightarrow>
     \<exists>m'. elf_loader_reloc_entry ei a m = Some (0, m')"
  by (simp add: elf_loader_reloc_entry_def Let_def elf_loader_get_dynamic_symbol_addr_def)

lemma relocs_loop_stuck:
  assumes "relocs_loop ei sec i st m = Some r"
  shows "\<not> (sh_entsize sec = 0 \<and> i < sh_size sec \<and> st = 0)"
proof (rule relocs_loop.raw_induct [OF _ assms, of "\<lambda>ei sec i st m r. \<not> (sh_entsize sec = 0 \<and> i < sh_size sec \<and> st = 0)"])
  fix loop ei sec i st m r
  assume IH: "\<And>ei sec i st m r. loop ei sec i st m = Some r \<Longrightarrow> \<not> (sh_entsize sec = 0 \<and> i < sh_size sec \<and> st = 0)"
    and body: "(if i < sh_size sec \<and> st = 0 then do {
        (status, m) \<leftarrow> elf_loader_reloc_entry ei (sh_addr sec + i) m;
        loop ei sec (i + sh_entsize sec) status m } else Some (st, m)) = Some r"
  show "\<not> (sh_entsize sec = 0 \<and> i < sh_size sec \<and> st = 0)"
    using body by (auto simp: option_bind_simps dest!: IH dest: reloc_entry_status)
qed

lemma relocs_loop_total:
  assumes "ei_dynsym ei = Some d" "Elf32_Shdr_at (ei_section_headers ei) d = Some dynsym"
    and "sh_entsize sec \<noteq> 0" "unat (sh_size sec) + unat (sh_entsize sec) \<le> 2 ^ 32"
  shows "\<exists>m'. relocs_loop ei sec i 0 m = Some (0, m')"
proof (induction "unat (sh_size sec) - unat i" arbitrary: i m rule: less_induct)
  case less
  show ?case
  proof (cases "i < sh_size sec")
    case True
    obtain m1 where m1: "elf_loader_reloc_entry ei (sh_addr sec + i) m = Some (0, m1)"
      using reloc_entry_total [OF assms(1,2)] by blast
    have i: "unat i < unat (sh_size sec)" using True by (simp add: word_less_nat_alt)
    then have "unat (i + sh_entsize sec) = unat i + unat (sh_entsize sec)"
      using assms(4) by (simp add: unat_word_ariths)
    moreover have "0 < unat (sh_entsize sec)" using assms(3) by (simp add: unat_gt_0)
    ultimately have "unat (sh_size sec) - unat (i + sh_entsize sec) < unat (sh_size sec) - unat i" using i by simp
    then obtain m' where "relocs_loop ei sec (i + sh_entsize sec) 0 m1 = Some (0, m')" using less by blast
    then show ?thesis using True m1 by (simp add: relocs_loop.simps [of _ _ i])
  next
    case False
    then show ?thesis by (simp add: relocs_loop.simps [of _ _ i])
  qed
qed

text \<open>
  Property C25. The relocation loop ends exactly when the section header lets it.  For a relocation section with entry
  size 0 that is not empty the loop never ends, whatever the memory holds; with an entry size that is
  not 0 and does not make the index wrap, and with a dynamic symbol table, it ends with status 0.
\<close>

theorem elf_relocs_termination:
  assumes "Elf32_Shdr_at (ei_section_headers ei) cur = Some sec" "sh_type sec = SHT_REL"
  shows "(sh_entsize sec = 0 \<and> sh_size sec \<noteq> 0 \<longrightarrow> elf_loader_relocs_specific ei cur m = None) \<and>
    (sh_entsize sec \<noteq> 0 \<and> unat (sh_size sec) + unat (sh_entsize sec) \<le> 2 ^ 32 \<and>
       ei_dynsym ei = Some d \<and> Elf32_Shdr_at (ei_section_headers ei) d = Some dynsym \<longrightarrow>
     (\<exists>m'. elf_loader_relocs_specific ei cur m = Some (0, m')))"
proof -
  have "relocs_loop ei sec 0 0 m = None" if "sh_entsize sec = 0" "sh_size sec \<noteq> 0"
    using relocs_loop_stuck [of ei sec 0 0 m] that by (cases "relocs_loop ei sec 0 0 m") (auto simp: word_neq_0_conv)
  then show ?thesis
    using assms relocs_loop_total [of ei d dynsym sec] by (simp add: elf_loader_relocs_specific_def)
qed

definition rel_example :: "u32 \<Rightarrow> elf_decode_info" where
  "rel_example es = elf_decode_info0\<lparr>ei_section_headers := Some (shdr_bytes 1 9 2 0x4000 0 8 es), ei_dynsym := Some 0\<rparr>"

lemma rel_example_shdr:
  "Elf32_Shdr_at (ei_section_headers (rel_example 0)) 0 = Some \<lparr>sh_name = 1, sh_type = 9, sh_flags = 2, sh_addr = 0x4000,
     sh_offset = 0, sh_size = 8, sh_link = 0, sh_info = 0, sh_addralign = 0, sh_entsize = 0\<rparr>"
  "Elf32_Shdr_at (ei_section_headers (rel_example 8)) 0 = Some \<lparr>sh_name = 1, sh_type = 9, sh_flags = 2, sh_addr = 0x4000,
     sh_offset = 0, sh_size = 8, sh_link = 0, sh_info = 0, sh_addralign = 0, sh_entsize = 8\<rparr>"
  by (simp_all add: rel_example_def Elf32_Shdr_at_def shdr_bytes_def le32_def bytes32_def)

theorem elf_relocs_termination_witness:
  "elf_loader_relocs_specific (rel_example 0) 0 (\<lambda>a. 0) = None \<and>
   (\<exists>m'. elf_loader_relocs_specific (rel_example 8) 0 (\<lambda>a. 0) = Some (0, m'))"
  using elf_relocs_termination [OF rel_example_shdr(1), of "\<lambda>a. 0"]
    elf_relocs_termination [OF rel_example_shdr(2), of "\<lambda>a. 0" 0] rel_example_shdr(2)
  by (simp add: elf_const_defs rel_example_def)

section \<open>The start address\<close>

definition cname :: "char list \<Rightarrow> char list" where
  "cname s = takeWhile (\<lambda>c. c \<noteq> NUL) s"

lemma of_char_eq_0_iff: "(of_char c = (0::int)) = (c = NUL)"
  using of_char_eq_iff [where 'a = int, of c NUL] by simp

lemma env_strcmp_cname:
  "NUL \<in> set s \<Longrightarrow> NUL \<notin> set t \<Longrightarrow> \<exists>r. env_strcmp s (cstring t) = Some r \<and> (r = 0 \<longleftrightarrow> cname s = t)"
proof (induction s arbitrary: t)
  case Nil
  then show ?case by simp
next
  case (Cons c s)
  show ?case
  proof (cases t)
    case Nil
    then show ?thesis by (auto simp: cstring_def cname_def of_char_eq_0_iff)
  next
    case (Cons d t')
    then show ?thesis using Cons.prems Cons.IH [of t'] by (auto simp: cstring_def cname_def)
  qed
qed

lemma load_address_loop_find:
  assumes "\<And>k. k < length shs \<Longrightarrow> Elf32_Shdr_at (ei_section_headers ei) (current + Suc k * shentsize ei) = Some (shs ! k)"
    and "\<forall>sh \<in> set shs. NUL \<in> set (section_name ei sh)"
  shows "load_address_loop (length shs) current ei =
    Some (case find (\<lambda>sh. cname (section_name ei sh) = ''.text'') shs of None \<Rightarrow> RPROC_ERR_PTR | Some sh \<Rightarrow> sh_addr sh)"
  using assms
proof (induction shs arbitrary: current)
  case Nil
  then show ?case by simp
next
  case (Cons sh shs)
  have 0: "Elf32_Shdr_at (ei_section_headers ei) (current + shentsize ei) = Some sh" using Cons.prems(1) [of 0] by simp
  obtain r where r: "env_strcmp (section_name ei sh) (cstring ''.text'') = Some r"
      "r = 0 \<longleftrightarrow> cname (section_name ei sh) = ''.text''"
    using env_strcmp_cname [of "section_name ei sh" "''.text''"] Cons.prems(2) by auto
  have "load_address_loop (length shs) (current + shentsize ei) ei =
      Some (case find (\<lambda>sh. cname (section_name ei sh) = ''.text'') shs of None \<Rightarrow> RPROC_ERR_PTR | Some sh \<Rightarrow> sh_addr sh)"
    by (rule Cons.IH) (use Cons.prems(1) [of "Suc _"] Cons.prems(2) in \<open>simp_all add: algebra_simps\<close>)
  then show ?case using 0 r by simp
qed

text \<open>
  The address the remote processor is started at is the address of the first sec whose name
  is exactly \<^verbatim>\<open>.text\<close>, and \<^verbatim>\<open>RPROC_ERR_PTR\<close> if there is none; the entry point of the file header is
  not used.  The section headers must lie in their block and the names must be terminated.
\<close>

theorem elf_get_load_address_text:
  assumes "loader_elf_info loader s = Some ei" "elf_sections ei shs" "\<forall>sh \<in> set shs. NUL \<in> set (section_name ei sh)"
  shows "elf_get_load_address loader s =
    Some (case find (\<lambda>sh. cname (section_name ei sh) = ''.text'') shs of None \<Rightarrow> RPROC_ERR_PTR | Some sh \<Rightarrow> sh_addr sh)"
  using assms(1,2) load_address_loop_find [of shs ei 0, OF _ assms(3)]
  by (simp add: elf_get_load_address_def elf_sections_def)

definition loader_example :: remoteproc_loader where
  "loader_example = (snd (elf_loader_init loader_zero))\<lparr>ld_remote_firmware := 0x100000, ld_fw_decode_info := 7\<rparr>"

definition loader_state_example :: rproc_state where
  "loader_state_example = \<lparr>st_w = rsc_world_example (\<lambda>a. 0), st_rprocs = Map.empty, st_loaders = [6 \<mapsto> loader_example],
     st_elfs = [7 \<mapsto> elf_example]\<rparr>"

theorem elf_get_load_address_text_witness: "elf_get_load_address 6 loader_state_example = Some 0x4000"
proof -
  have "loader_elf_info 6 loader_state_example = Some elf_example"
    by (simp add: loader_elf_info_def loader_state_example_def loader_example_def)
  moreover have "section_name elf_example text_shdr_example = cstring ''.text''"
    by (simp add: section_name_def elf_example_def elf_decode_info0_def text_shdr_example_def)
  ultimately show ?thesis
    using elf_get_load_address_text [OF _ elf_sections_example, of 6 loader_state_example]
    by (simp add: cname_def cstring_def text_shdr_example_def)
qed

end
