(* ===== verification/Remoteproc.thy ===== *)
theory Remoteproc
  imports Loader RpmsgInit
begin

text \<open>
  The remote processor life cycle, \<^verbatim>\<open>lib/remoteproc/remoteproc.c\<close>: resource initialisation on
  the remote side, and creation, boot and shutdown of a remote processor on the master.
\<close>

definition rproc_zero :: remote_proc where
  "rproc_zero = \<lparr>rp_proc = NULL, rp_rdev = NULL, rp_loader = NULL, rp_channel_created = None, rp_channel_destroyed = None,
     rp_default_cb = None, rp_role = 0\<rparr>"

text \<open>An operation of the messaging world on the state of the life cycle.\<close>

definition in_w :: "(world \<Rightarrow> ('a \<times> world) option) \<Rightarrow> rproc_state \<Rightarrow> ('a \<times> rproc_state) option" where
  "in_w f s = do { (x, w) \<leftarrow> f (st_w s); Some (x, s\<lparr>st_w := w\<rparr>) }"

definition in_w0 :: "(world \<Rightarrow> world option) \<Rightarrow> rproc_state \<Rightarrow> rproc_state option" where
  "in_w0 f s = do { w \<leftarrow> f (st_w s); Some (s\<lparr>st_w := w\<rparr>) }"

definition put_rproc :: "ptr \<Rightarrow> remote_proc \<Rightarrow> rproc_state \<Rightarrow> rproc_state" where
  "put_rproc p r s = s\<lparr>st_rprocs := (st_rprocs s)(p \<mapsto> r)\<rparr>"

section \<open>The remote side\<close>

text \<open>The loop over the two rings of the processor when the interrupts are switched off.\<close>

fun reg_ipi_loop :: "config \<Rightarrow> hil_fn \<Rightarrow> ptr \<Rightarrow> nat list \<Rightarrow> world \<Rightarrow> world option" where
  "reg_ipi_loop cf f proc [] w = Some w"
| "reg_ipi_loop cf f proc (i # is') w = do {
     w \<leftarrow> cf_reg_ipi_after_deinit cf f proc i w;
     reg_ipi_loop cf f proc is' w }"

definition remoteproc_resource_deinit :: "config \<Rightarrow> ptr \<Rightarrow> rproc_state \<Rightarrow> (int \<times> rproc_state) option" where
  "remoteproc_resource_deinit cf rproc s = do {
     s \<leftarrow> (if rproc = NULL then Some s
       else do {
         r \<leftarrow> st_rprocs s rproc;
         s \<leftarrow> (if rp_rdev r = NULL then Some s
           else do {
             pr \<leftarrow> w_procs (st_w s) (rp_proc r);
             s \<leftarrow> (case op_reg_ipi_after_deinit (hp_ops pr) of
                 None \<Rightarrow> Some s
               | Some f \<Rightarrow> in_w0 (reg_ipi_loop cf f (rp_proc r) [0..<2]) s);
             in_w0 (rpmsg_deinit cf (rp_rdev r)) s });
         s \<leftarrow> (if rp_proc r = NULL then Some s else in_w0 (hil_delete_proc (rp_proc r)) s);
         Some (s\<lparr>st_rprocs := (st_rprocs s)(rproc := None)\<rparr>) });
     Some (RPROC_SUCCESS, s\<lparr>st_w := env_flush_invalidate_all_caches (snd (env_deinit (st_w s)))\<rparr>) }"

text \<open>
  The result is the status, what is stored through \<^verbatim>\<open>rproc_handle\<close> (\<open>None\<close> when nothing is
  stored) and the state.  \<open>rsc_info\<close> is the table's address and size.
\<close>

definition remoteproc_resource_init ::
  "config \<Rightarrow> (u32 \<times> u32) option \<Rightarrow> nat option \<Rightarrow> nat option \<Rightarrow> rx_cb option \<Rightarrow> rproc_state \<Rightarrow>
     (int \<times> ptr option \<times> rproc_state) option" where
  "remoteproc_resource_init cf rsc_info channel_created channel_destroyed default_cb s =
     (case rsc_info of None \<Rightarrow> Some (RPROC_ERR_PARAM, None, s)
      | Some (rsc_tab, rsc_size) \<Rightarrow> do {
          let (status, w) = env_init (st_w s);
          let s = s\<lparr>st_w := w\<rparr>;
          (if status \<noteq> RPROC_SUCCESS then Some (status, None, s)
           else do {
             let (rproc, s) = alloc cf s;
             (status, s) \<leftarrow> (if rproc = NULL then Some (RPROC_ERR_NO_MEM, s)
               else do {
                 let s = put_rproc rproc rproc_zero s;
                 (proc, s) \<leftarrow> in_w (hil_create_proc cf HIL_RSVD_CPU_ID) s;
                 let s = put_rproc rproc (rproc_zero\<lparr>rp_proc := proc\<rparr>) s;
                 (if proc = NULL then Some (RPROC_ERR_CPU_ID, s)
                  else do {
                    (status, s) \<leftarrow> in_w (handle_rsc_table (rproc_zero\<lparr>rp_proc := proc\<rparr>) rsc_tab rsc_size) s;
                    (if status = RPROC_SUCCESS then do {
                       pr \<leftarrow> w_procs (st_w s) proc;
                       (status, rdev, w) \<leftarrow> rpmsg_init cf (hp_cpu_id pr) NULL channel_created channel_destroyed default_cb
                           RPMSG_MASTER (st_w s);
                       Some (status, put_rproc rproc (rproc_zero\<lparr>rp_proc := proc, rp_rdev := rdev\<rparr>) (s\<lparr>st_w := w\<rparr>)) }
                     else Some (RPROC_ERR_NO_RSC_TABLE, s)) }) });
             (if status \<noteq> RPROC_SUCCESS
              then do { (r, s) \<leftarrow> remoteproc_resource_deinit cf rproc s; Some (status, Some NULL, s) }
              else Some (status, Some rproc, s)) }) })"

section \<open>The master side\<close>

definition remoteproc_deinit :: "ptr \<Rightarrow> rproc_state \<Rightarrow> (int \<times> rproc_state) option" where
  "remoteproc_deinit rproc s = do {
     s \<leftarrow> (if rproc = NULL then Some s
       else do {
         r \<leftarrow> st_rprocs s rproc;
         s \<leftarrow> (if rp_loader r = NULL then Some s else do { (status, s) \<leftarrow> remoteproc_loader_delete (rp_loader r) s; Some s });
         s \<leftarrow> (if rp_proc r = NULL then Some s else in_w0 (hil_delete_proc (rp_proc r)) s);
         Some (s\<lparr>st_rprocs := (st_rprocs s)(rproc := None)\<rparr>) });
     Some (RPROC_SUCCESS, s\<lparr>st_w := snd (env_deinit (st_w s))\<rparr>) }"

text \<open>The first part of \<^verbatim>\<open>remoteproc_init\<close>, up to the attached firmware; \<open>tab\<close> is the firmware table.\<close>

definition remoteproc_init_firmware ::
  "config \<Rightarrow> firmware_info list \<Rightarrow> char list \<Rightarrow> ptr \<Rightarrow> rproc_state \<Rightarrow> (int \<times> rproc_state) option" where
  "remoteproc_init_firmware cf tab fwname rproc s =
     (if rproc = NULL then Some (RPROC_ERR_NO_MEM, s)
      else do {
        let s = put_rproc rproc rproc_zero s;
        let cpu_id = hil_get_cpuforfw cf fwname;
        (if cpu_id < 0 then Some (RPROC_ERR_INVLD_FW, s)
         else do {
           (proc, s) \<leftarrow> in_w (hil_create_proc cf (word_of_int cpu_id)) s;
           let s = put_rproc rproc (rproc_zero\<lparr>rp_proc := proc\<rparr>) s;
           (if proc = NULL then Some (RPROC_ERR_NO_MEM, s)
            else do {
              (status, fw) \<leftarrow> hil_get_firmware tab fwname;
              (if status \<noteq> 0 then Some (status, s)
               else do {
                 (fw_addr, fw_size) \<leftarrow> fw;
                 let (loader, s) = remoteproc_loader_init cf ELF_LOADER s;
                 let s = put_rproc rproc (rproc_zero\<lparr>rp_proc := proc, rp_loader := loader\<rparr>) s;
                 (if loader = NULL then Some (RPROC_ERR_LOADER, s)
                  else remoteproc_loader_attach_firmware cf loader fw_addr s) }) }) }) })"

definition remoteproc_init ::
  "config \<Rightarrow> firmware_info list \<Rightarrow> char list option \<Rightarrow> nat option \<Rightarrow> nat option \<Rightarrow> rx_cb option \<Rightarrow> rproc_state \<Rightarrow>
     (int \<times> ptr option \<times> rproc_state) option" where
  "remoteproc_init cf tab fwname channel_created channel_destroyed default_cb s =
     (case fwname of None \<Rightarrow> Some (RPROC_ERR_PARAM, None, s)
      | Some name \<Rightarrow> do {
          let (status, w) = env_init (st_w s);
          let s = s\<lparr>st_w := w\<rparr>;
          (if status \<noteq> RPROC_SUCCESS then Some (status, None, s)
           else do {
             let (rproc, s) = alloc cf s;
             (status, s) \<leftarrow> remoteproc_init_firmware cf tab name rproc s;
             (status, s) \<leftarrow> (if status = 0 then do {
                  r \<leftarrow> st_rprocs s rproc;
                  let r = r\<lparr>rp_role := RPROC_MASTER\<rparr>;
                  let s = put_rproc rproc r s;
                  (rsc_table, rsc_size) \<leftarrow> remoteproc_loader_retrieve_resource_section (rp_loader r) s;
                  (if rsc_table \<noteq> 0 then do {
                     n \<leftarrow> rsc_size;
                     in_w (handle_rsc_table r rsc_table n) s }
                   else Some (RPROC_ERR_NO_RSC_TABLE, s)) }
                else Some (status, s));
             (if status \<noteq> RPROC_SUCCESS
              then do { (d, s) \<leftarrow> remoteproc_deinit rproc s; Some (status, None, s) }
              else do {
                r \<leftarrow> st_rprocs s rproc;
                Some (status, Some rproc, put_rproc rproc (r\<lparr>rp_channel_created := channel_created,
                  rp_channel_destroyed := channel_destroyed, rp_default_cb := default_cb\<rparr>) s) }) }) })"

text \<open>\<^verbatim>\<open>env_sleep_msec\<close> has an empty body.  \<open>linux\<close> says whether \<^verbatim>\<open>OPENAMP_REMOTE_LINUX_ENABLE\<close> is defined.\<close>

definition env_sleep_msec :: "nat \<Rightarrow> world \<Rightarrow> world" where
  "env_sleep_msec n w = w"

definition RPROC_BOOT_DELAY :: nat where "RPROC_BOOT_DELAY = 500"

definition remoteproc_boot :: "config \<Rightarrow> bool \<Rightarrow> ptr \<Rightarrow> rproc_state \<Rightarrow> (int \<times> rproc_state) option" where
  "remoteproc_boot cf linux rproc s =
     (if rproc = NULL then Some (RPROC_ERR_PARAM, s)
      else do {
        r \<leftarrow> st_rprocs s rproc;
        s \<leftarrow> in_w0 (hil_shutdown_cpu cf (rp_proc r)) s;
        (status, s) \<leftarrow> remoteproc_loader_load_remote_firmware (rp_loader r) s;
        (if status = RPROC_SUCCESS then do {
           load_addr \<leftarrow> remoteproc_get_load_address (rp_loader r) s;
           (if load_addr \<noteq> RPROC_ERR_PTR then do {
              (status, s) \<leftarrow> in_w (hil_boot_cpu cf (rp_proc r) load_addr) s;
              (if status = RPROC_SUCCESS then do {
                 let w = env_sleep_msec RPROC_BOOT_DELAY (st_w s);
                 pr \<leftarrow> w_procs w (rp_proc r);
                 (status, rdev, w) \<leftarrow> rpmsg_init cf (hp_cpu_id pr) (rp_rdev r) (rp_channel_created r) (rp_channel_destroyed r)
                     (rp_default_cb r) (if linux then RPMSG_MASTER else RPMSG_REMOTE) w;
                 Some (status, put_rproc rproc (r\<lparr>rp_rdev := rdev\<rparr>) (s\<lparr>st_w := w\<rparr>)) }
               else Some (status, s)) }
            else Some (RPROC_ERR_LOADER, s)) }
         else Some (RPROC_ERR_LOADER, s)) })"

definition remoteproc_shutdown :: "config \<Rightarrow> ptr \<Rightarrow> rproc_state \<Rightarrow> (int \<times> rproc_state) option" where
  "remoteproc_shutdown cf rproc s =
     (if rproc = NULL then Some (RPROC_SUCCESS, s)
      else do {
        r \<leftarrow> st_rprocs s rproc;
        (r, s) \<leftarrow> (if rp_rdev r = NULL then Some (r, s)
           else do {
             s \<leftarrow> in_w0 (rpmsg_deinit cf (rp_rdev r)) s;
             let r = r\<lparr>rp_rdev := NULL\<rparr>;
             Some (r, put_rproc rproc r s) });
        s \<leftarrow> (if rp_proc r = NULL then Some s else in_w0 (hil_shutdown_cpu cf (rp_proc r)) s);
        Some (RPROC_SUCCESS, s) })"

end
