(* ===== verification/RemoteprocProps.thy ===== *)
theory RemoteprocProps
  imports Remoteproc ElfProps RpmsgRx
begin

text \<open>
  Properties of the life cycle of a remote processor: a failed initialisation gives back everything
  it has allocated; shutting down a booted processor, and cleaning up after a failed start of the
  messaging layer, use objects that have already been freed.
\<close>

section \<open>A failed initialisation\<close>

text \<open>Nothing has been stored at addresses the allocator has not handed out yet.\<close>

definition heap_fresh :: "rproc_state \<Rightarrow> bool" where
  "heap_fresh s \<longleftrightarrow> 0 < w_next (st_w s) \<and>
     (\<forall>p \<ge> w_next (st_w s). st_rprocs s p = None \<and> st_loaders s p = None \<and> st_elfs s p = None)"

text \<open>
  What the instance \<open>rproc\<close> owns in \<open>s'\<close> compared with \<open>s\<close>: itself, at most a loader, and at most the
  control block of the firmware attached to the loader.
\<close>

definition owns_elf :: "rproc_state \<Rightarrow> remoteproc_loader \<Rightarrow> rproc_state \<Rightarrow> bool" where
  "owns_elf s ld s' \<longleftrightarrow> (ld_remote_firmware ld = 0 \<and> st_elfs s' = st_elfs s) \<or>
     (ld_remote_firmware ld \<noteq> 0 \<and> ld_detach_firmware ld \<noteq> None \<and> ld_fw_decode_info ld \<noteq> NULL \<and>
      st_elfs s (ld_fw_decode_info ld) = None \<and> (\<exists>ei. st_elfs s' = (st_elfs s)(ld_fw_decode_info ld \<mapsto> ei)))"

definition owns_loader :: "rproc_state \<Rightarrow> ptr \<Rightarrow> rproc_state \<Rightarrow> bool" where
  "owns_loader s l s' \<longleftrightarrow> (l = NULL \<and> st_loaders s' = st_loaders s \<and> st_elfs s' = st_elfs s) \<or>
     (l \<noteq> NULL \<and> st_loaders s l = None \<and> (\<exists>ld. st_loaders s' = (st_loaders s)(l \<mapsto> ld) \<and> owns_elf s ld s'))"

definition owns :: "rproc_state \<Rightarrow> ptr \<Rightarrow> rproc_state \<Rightarrow> bool" where
  "owns s rproc s' \<longleftrightarrow> st_rprocs s rproc = None \<and>
     (\<exists>r. st_rprocs s' = (st_rprocs s)(rproc \<mapsto> r) \<and> owns_loader s (rp_loader r) s')"

definition same_heaps :: "rproc_state \<Rightarrow> rproc_state \<Rightarrow> bool" where
  "same_heaps s s' \<longleftrightarrow> st_rprocs s' = st_rprocs s \<and> st_loaders s' = st_loaders s \<and> st_elfs s' = st_elfs s"

lemma loader_delete_owned:
  assumes "owns_loader s l s'" "l \<noteq> NULL" "remoteproc_loader_delete l s' = Some (st, s'')"
  shows "st_loaders s'' = st_loaders s \<and> st_elfs s'' = st_elfs s \<and> st_rprocs s'' = st_rprocs s'"
proof -
  obtain ld where ld: "st_loaders s l = None" "st_loaders s' = (st_loaders s)(l \<mapsto> ld)" "owns_elf s ld s'"
    using assms(1,2) by (auto simp: owns_loader_def)
  from ld(3) show ?thesis unfolding owns_elf_def
  proof (elim disjE conjE exE)
    assume "ld_remote_firmware ld = 0" "st_elfs s' = st_elfs s"
    then show ?thesis using assms(2,3) ld(1,2)
      by (auto simp: remoteproc_loader_delete_def fun_upd_idem)
  next
    fix ei
    assume "ld_remote_firmware ld \<noteq> 0" "ld_detach_firmware ld \<noteq> None" "ld_fw_decode_info ld \<noteq> NULL"
      "st_elfs s (ld_fw_decode_info ld) = None" "st_elfs s' = (st_elfs s)(ld_fw_decode_info ld \<mapsto> ei)"
    then show ?thesis using assms(2,3) ld(1,2)
      by (auto simp: remoteproc_loader_delete_def elf_loader_detach_firmware_def fun_upd_idem)
  qed
qed

lemma in_w0_heaps: "in_w0 f s = Some s' \<Longrightarrow> same_heaps s s'"
  by (auto simp: in_w0_def same_heaps_def option_bind_simps)

lemma in_w_heaps: "in_w f s = Some (x, s') \<Longrightarrow> same_heaps s s'"
  by (auto simp: in_w_def same_heaps_def option_bind_simps)

lemma remoteproc_deinit_owned:
  assumes "owns s rproc s'" "rproc \<noteq> NULL" "remoteproc_deinit rproc s' = Some (st, s'')"
  shows "same_heaps s s''"
proof -
  obtain r where r: "st_rprocs s rproc = None" "st_rprocs s' = (st_rprocs s)(rproc \<mapsto> r)" "owns_loader s (rp_loader r) s'"
    using assms(1) by (auto simp: owns_def)
  obtain s1 s2 where s1: "(if rp_loader r = NULL then Some s' else do { (status, s) \<leftarrow> remoteproc_loader_delete (rp_loader r) s'; Some s })
        = Some s1"
    and s2: "(if rp_proc r = NULL then Some s1 else in_w0 (hil_delete_proc (rp_proc r)) s1) = Some s2"
    and s'': "st_rprocs s'' = (st_rprocs s2)(rproc := None)" "st_loaders s'' = st_loaders s2" "st_elfs s'' = st_elfs s2"
    using assms(2,3) r(2) by (auto simp: remoteproc_deinit_def option_bind_simps)
  have "st_loaders s1 = st_loaders s \<and> st_elfs s1 = st_elfs s \<and> st_rprocs s1 = st_rprocs s'"
    using s1 r(3) loader_delete_owned [OF r(3)]
    by (auto simp: option_bind_simps owns_loader_def split: if_splits)
  moreover have "same_heaps s1 s2" using s2 in_w0_heaps by (auto simp: same_heaps_def split: if_splits)
  ultimately show ?thesis using s'' r(1,2) by (auto simp: same_heaps_def fun_upd_idem)
qed

lemma alloc_fresh:
  assumes "alloc cf s = (p, s1)" "heap_fresh s"
  shows "same_heaps s s1" "w_next (st_w s) \<le> w_next (st_w s1)" "heap_fresh s1"
    "p \<noteq> NULL \<Longrightarrow> st_rprocs s p = None \<and> st_loaders s p = None \<and> st_elfs s p = None \<and> p < w_next (st_w s1)"
  using assms by (auto simp: alloc_def env_allocate_memory_def same_heaps_def heap_fresh_def split: if_splits)

lemma hil_create_proc_next: "hil_create_proc cf c w = Some (p, w') \<Longrightarrow> w_next w \<le> w_next w'"
  by (auto simp: hil_create_proc_def env_allocate_memory_def env_map_memory_def plat_call_def option_bind_simps Let_def
      split: if_splits option.splits prod.splits)

lemma heap_fresh_mono:
  "heap_fresh s \<Longrightarrow> w_next (st_w s) \<le> w_next (st_w s') \<Longrightarrow> st_loaders s' = st_loaders s \<Longrightarrow> st_elfs s' = st_elfs s \<Longrightarrow>
     (\<And>q. w_next (st_w s') \<le> q \<Longrightarrow> st_rprocs s' q = st_rprocs s q) \<Longrightarrow> heap_fresh s'"
  by (auto simp: heap_fresh_def)

lemma loader_init_fresh:
  assumes "remoteproc_loader_init cf ELF_LOADER s = (l, s1)" "heap_fresh s"
  shows "st_rprocs s1 = st_rprocs s \<and> st_elfs s1 = st_elfs s \<and>
    (if l = NULL then st_loaders s1 = st_loaders s
     else st_loaders s l = None \<and> st_loaders s1 = (st_loaders s)(l \<mapsto> snd (elf_loader_init loader_zero)) \<and> heap_fresh s1)"
proof -
  obtain p s2 where p: "alloc cf s = (p, s2)" by (cases "alloc cf s")
  have z: "loader_zero\<lparr>ld_type := ELF_LOADER\<rparr> = loader_zero" by (simp add: loader_zero_def)
  note f = alloc_fresh [OF p assms(2)]
  show ?thesis using assms(1) p f by (auto simp: remoteproc_loader_init_def same_heaps_def heap_fresh_def z split: if_splits)
qed

lemma attach_firmware_owns:
  assumes "remoteproc_loader_attach_firmware cf l fw s = Some (st, s1)" "l \<noteq> NULL" "heap_fresh s"
    and "st_loaders s l = Some (snd (elf_loader_init loader_zero))"
  shows "st_rprocs s1 = st_rprocs s \<and> (\<exists>ld. st_loaders s1 = (st_loaders s)(l \<mapsto> ld) \<and> owns_elf s ld s1)"
proof (cases "fw = 0")
  case True
  then have "s1 = s" using assms(1) by (simp add: remoteproc_loader_attach_firmware_def)
  then show ?thesis using assms(4)
    by (auto simp: owns_elf_def elf_loader_init_def loader_zero_def fun_upd_idem intro!: exI [of _ "snd (elf_loader_init loader_zero)"])
next
  case False
  let ?ld = "snd (elf_loader_init loader_zero)"
  have ld: "ld_attach_firmware ?ld = Some Elf_fn" "ld_remote_firmware ?ld = 0" "ld_detach_firmware ?ld = Some Elf_fn"
    by (simp_all add: elf_loader_init_def loader_zero_def)
  obtain p s2 where p: "alloc cf s = (p, s2)" by (cases "alloc cf s")
  note f = alloc_fresh [OF p assms(3)]
  obtain s3 where s3: "elf_loader_attach_firmware cf l fw s = Some (st, s3)"
    and s1: "if st = 0 then \<exists>ld. st_loaders s3 l = Some ld \<and> s1 = s3\<lparr>st_loaders := (st_loaders s3)(l \<mapsto> ld\<lparr>ld_remote_firmware := fw\<rparr>)\<rparr>
      else s1 = s3"
    using assms(1,2,4) ld False by (auto simp: remoteproc_loader_attach_firmware_def option_bind_simps rproc_const_defs split: if_splits)
  have "if st = 0 then p \<noteq> NULL \<and> st_rprocs s3 = st_rprocs s \<and> (\<exists>ei. st_elfs s3 = (st_elfs s)(p \<mapsto> ei)) \<and>
      st_loaders s3 = (st_loaders s)(l \<mapsto> ?ld\<lparr>ld_fw_decode_info := p\<rparr>) else same_heaps s s3"
  proof (cases "p = NULL")
    case True
    then show ?thesis using s3 p f(1) by (auto simp: elf_loader_attach_firmware_def rproc_const_defs)
  next
    case False
    then obtain a ei w where dec: "elf_loader_get_decode_info cf fw elf_decode_info0 (st_w s2) = Some (a, ei, w)"
      using s3 p by (auto simp: elf_loader_attach_firmware_def option_bind_simps)
    then show ?thesis using s3 p f(1) assms(4) False
      by (cases "a = 0") (auto simp: elf_loader_attach_firmware_def same_heaps_def Let_def)
  qed
  note attached = this
  let ?ld' = "if st = 0 then ?ld\<lparr>ld_fw_decode_info := p, ld_remote_firmware := fw\<rparr> else ?ld"
  have "st_rprocs s1 = st_rprocs s" "st_loaders s1 = (st_loaders s)(l \<mapsto> ?ld')"
    using attached s1 assms(4) by (auto simp: same_heaps_def fun_upd_idem split: if_splits)
  moreover have "owns_elf s ?ld' s1"
    using attached s1 ld f(4) False by (auto simp: owns_elf_def same_heaps_def split: if_splits)
  ultimately show ?thesis by blast
qed

lemma loader_attached_owns:
  assumes "st_rprocs s rproc = None"
    and s2: "st_rprocs s2 = (st_rprocs s)(rproc \<mapsto> rproc_zero)" "st_loaders s2 = st_loaders s" "st_elfs s2 = st_elfs s"
    and "heap_fresh (put_rproc rproc (rproc_zero\<lparr>rp_proc := proc\<rparr>) s2)"
    and "remoteproc_loader_init cf ELF_LOADER (put_rproc rproc (rproc_zero\<lparr>rp_proc := proc\<rparr>) s2) = (l, s3)"
  defines "s4 \<equiv> put_rproc rproc (rproc_zero\<lparr>rp_proc := proc, rp_loader := l\<rparr>) s3"
  shows "owns s rproc (put_rproc rproc (rproc_zero\<lparr>rp_proc := proc\<rparr>) s2)" "l = NULL \<Longrightarrow> owns s rproc s4"
    "l \<noteq> NULL \<Longrightarrow> remoteproc_loader_attach_firmware cf l a s4 = Some (st, s1) \<Longrightarrow> owns s rproc s1"
proof -
  let ?r = "rproc_zero\<lparr>rp_proc := proc, rp_loader := l\<rparr>"
  note li = loader_init_fresh [OF assms(6,5)]
  have s4: "st_rprocs s4 = (st_rprocs s)(rproc \<mapsto> ?r)" "st_elfs s4 = st_elfs s"
    using li s2 by (simp_all add: s4_def put_rproc_def)
  show "owns s rproc (put_rproc rproc (rproc_zero\<lparr>rp_proc := proc\<rparr>) s2)"
    using assms(1) s2 by (auto simp: owns_def owns_loader_def put_rproc_def rproc_zero_def)
  show "l = NULL \<Longrightarrow> owns s rproc s4"
    using li s2 s4 assms(1) by (auto simp: owns_def owns_loader_def s4_def put_rproc_def)
  assume l: "l \<noteq> NULL" "remoteproc_loader_attach_firmware cf l a s4 = Some (st, s1)"
  have ld: "st_loaders s l = None" "st_loaders s4 = (st_loaders s)(l \<mapsto> snd (elf_loader_init loader_zero))"
    using li s2 l(1) by (simp_all add: s4_def put_rproc_def)
  have "heap_fresh s4" using li l(1) s2 by (auto simp: heap_fresh_def s4_def put_rproc_def)
  then have "st_rprocs s1 = st_rprocs s4 \<and> (\<exists>ld. st_loaders s1 = (st_loaders s4)(l \<mapsto> ld) \<and> owns_elf s4 ld s1)"
    using attach_firmware_owns [OF l(2,1)] ld(2) by simp
  then show "owns s rproc s1" using l(1) ld s4 assms(1)
    by (auto simp: owns_def owns_loader_def owns_elf_def intro!: exI [of _ ?r])
qed

lemma init_firmware_owns:
  assumes "remoteproc_init_firmware cf tab fw rproc s = Some (st, s1)" "rproc \<noteq> NULL" "heap_fresh s"
    and "st_rprocs s rproc = None" "rproc < w_next (st_w s)"
  shows "owns s rproc s1"
proof -
  let ?s0 = "put_rproc rproc rproc_zero s"
  show ?thesis
  proof (cases "hil_get_cpuforfw cf fw < 0")
    case True
    then have "s1 = ?s0" using assms(1,2) by (simp add: remoteproc_init_firmware_def Let_def)
    then show ?thesis using assms(4) by (auto simp: owns_def owns_loader_def put_rproc_def rproc_zero_def)
  next
    case cpu: False
    then obtain proc s2 where proc: "in_w (hil_create_proc cf (word_of_int (hil_get_cpuforfw cf fw))) ?s0 = Some (proc, s2)"
      using assms(1,2) by (auto simp: remoteproc_init_firmware_def Let_def option_bind_simps)
    let ?s2 = "put_rproc rproc (rproc_zero\<lparr>rp_proc := proc\<rparr>) s2"
    have s2: "st_rprocs s2 = (st_rprocs s)(rproc \<mapsto> rproc_zero)" "st_loaders s2 = st_loaders s" "st_elfs s2 = st_elfs s"
      using in_w_heaps [OF proc] by (simp_all add: same_heaps_def put_rproc_def)
    have "w_next (st_w s) \<le> w_next (st_w s2)"
      using proc hil_create_proc_next by (auto simp: in_w_def put_rproc_def option_bind_simps)
    then have fresh: "heap_fresh ?s2"
      by (intro heap_fresh_mono [OF assms(3)]) (use s2 assms(5) in \<open>auto simp: put_rproc_def\<close>)
    obtain l s3 where l: "remoteproc_loader_init cf ELF_LOADER ?s2 = (l, s3)" by (cases "remoteproc_loader_init cf ELF_LOADER ?s2")
    let ?s4 = "put_rproc rproc (rproc_zero\<lparr>rp_proc := proc, rp_loader := l\<rparr>) s3"
    have "s1 = ?s2 \<or> l = NULL \<and> s1 = ?s4 \<or> l \<noteq> NULL \<and> (\<exists>a. remoteproc_loader_attach_firmware cf l a ?s4 = Some (st, s1))"
      using assms(1,2) cpu proc l
      by (simp add: remoteproc_init_firmware_def Let_def option_bind_simps split: if_splits) auto
    then show ?thesis
      using loader_attached_owns [OF assms(4) s2 fresh l] by auto
  qed
qed

lemma owns_loader_put [simp]: "owns_loader s l (put_rproc p r s1) = owns_loader s l s1"
  by (simp add: owns_loader_def owns_elf_def put_rproc_def)

lemma owns_cong:
  assumes "owns s rproc s1" "st_rprocs s1 rproc = Some r" "rp_loader r' = rp_loader r"
  shows "owns s rproc (put_rproc rproc r' s1)"
proof -
  have "st_rprocs s1 = (st_rprocs s)(rproc \<mapsto> r)" "owns_loader s (rp_loader r) s1" "st_rprocs s rproc = None"
    using assms(1,2) by (auto simp: owns_def)
  then show ?thesis using assms(3) unfolding owns_def
    by (auto intro!: exI [of _ r']) (simp add: put_rproc_def)
qed

lemma owns_same: "owns s rproc s1 \<Longrightarrow> same_heaps s1 s2 \<Longrightarrow> owns s rproc s2"
  by (simp add: owns_def same_heaps_def owns_loader_def owns_elf_def)

lemma owns_base: "same_heaps s s0 \<Longrightarrow> owns s0 rproc s1 \<Longrightarrow> owns s rproc s1"
  by (simp add: owns_def same_heaps_def owns_loader_def owns_elf_def)


definition state0 :: rproc_state where
  "state0 = \<lparr>st_w = world0, st_rprocs = Map.empty, st_loaders = Map.empty, st_elfs = Map.empty\<rparr>"

lemma heap_fresh_state0: "heap_fresh state0"
  by (simp add: heap_fresh_def state0_def world0_def)

definition cfg_no_cpu :: config where
  "cfg_no_cpu = cfg_example\<lparr>cf_cpu_for_fw := (\<lambda>n. -1)\<rparr>"


section \<open>Objects used after they have been freed\<close>

lemma hil_delete_proc_frees:
  assumes "hil_delete_proc proc w = Some w'" "proc \<noteq> NULL" "node_seq (w_nodes w) (w_proc_list w) xs"
    and "x \<in> set xs" "w_nodes w x = Some n" "ll_data n = proc"
  shows "w_procs w' proc = None"
proof -
  let ?Q = "\<lambda>x. \<exists>n. w_nodes w x = Some n \<and> ll_data n = proc"
  have "find_node (w_nodes w) (\<lambda>d. Some (d = proc)) (w_proc_list w) =
      Some (case filter ?Q xs of [] \<Rightarrow> NULL | x # _ \<Rightarrow> x)"
    by (rule find_node_correct) (use assms(3) in \<open>auto simp: node_seq_def\<close>)
  moreover obtain y ys where y: "filter ?Q xs = y # ys"
    using assms(4-6) by (cases "filter ?Q xs") (auto simp: filter_empty_conv)
  moreover have "y \<noteq> NULL"
  proof -
    have "y \<in> set (filter ?Q xs)" unfolding y by simp
    then have "y \<in> set xs" by simp
    then show ?thesis using assms(3) by (auto simp: node_seq_def dest: dll_alloc)
  qed
  ultimately show ?thesis using assms(1,2) by (auto simp: hil_delete_proc_def option_bind_simps)
qed

lemma virtqueue_free_frame:
  "w_virtqueue_free p w = Some w' \<Longrightarrow> w_nodes w' = w_nodes w \<and> w_proc_list w' = w_proc_list w \<and> w_rdevs w' = w_rdevs w"
  by (auto simp: w_virtqueue_free_def option_bind_simps split: if_splits prod.splits)

lemma delete_pool_frame:
  "w_nodes (sh_mem_delete_pool p w) = w_nodes w" "w_proc_list (sh_mem_delete_pool p w) = w_proc_list w"
  by (simp_all add: sh_mem_delete_pool_def)

text \<open>Closing a device without channels and endpoints frees its processor.\<close>

lemma rpmsg_deinit_frees_proc:
  assumes "rpmsg_deinit cf rdev w = Some w'" "rdev \<noteq> NULL" "w_rdevs w rdev = Some rd" "rd_proc rd \<noteq> NULL"
    and "rd_rp_channels rd = NULL" "rd_rp_endpoints rd = NULL"
    and "node_seq (w_nodes w) (w_proc_list w) xs" "x \<in> set xs" "w_nodes w x = Some n" "ll_data n = rd_proc rd"
  shows "w_procs w' (rd_proc rd) = None"
proof -
  have loop: "rdev_deinit_loop cf rdev NULL w = Some w" by (subst rdev_deinit_loop.simps) simp
  have ep: "rpmsg_rdev_get_endpoint_from_addr rdev a w = Some (NULL, env_unlock_mutex (env_lock_mutex w))" for a
    using assms(3,6) by (simp add: rpmsg_rdev_get_endpoint_from_addr_def find_node.simps)
  obtain w1 w2 w3 where w: "w_virtqueue_free (rd_rvq rd) (env_unlock_mutex (env_lock_mutex w)) = Some w1"
      "w_virtqueue_free (rd_tvq rd) w1 = Some w2" "hil_delete_proc (rd_proc rd) (sh_mem_delete_pool (rd_mem_pool rd) w2) = Some w3"
      "w_procs w' = w_procs w3"
    using assms(1,2,3,5) loop ep
    by (auto simp: rpmsg_deinit_def rpmsg_rdev_deinit_def option_bind_simps env_deinit_def Let_def)
  show ?thesis
    using hil_delete_proc_frees [OF w(3) assms(4), of xs x n] virtqueue_free_frame [OF w(1)] virtqueue_free_frame [OF w(2)]
      assms(7-10) w(4) by (simp add: delete_pool_frame)
qed


definition booted_example :: rproc_state where
  "booted_example = state0\<lparr>st_rprocs := [3 \<mapsto> rproc_zero\<lparr>rp_proc := 5, rp_rdev := 1\<rparr>],
     st_w := world0\<lparr>w_rdevs := [1 \<mapsto> rdev_zero\<lparr>rd_proc := 5\<rparr>], w_procs := [5 \<mapsto> hil_proc0],
       w_nodes := [6 \<mapsto> llist0\<lparr>ll_data := 5\<rparr>], w_proc_list := 6\<rparr>\<rparr>"


lemma rpmsg_init_failed_frees:
  assumes "rpmsg_init cf dev_id rdev0 created destroyed cb role w = Some (st, rdev, w')" "st \<noteq> RPMSG_SUCCESS" "rdev \<noteq> NULL"
  shows "w_rdevs w' rdev = None"
proof -
  obtain w1 where "rpmsg_deinit cf rdev w1 = Some w'"
    using assms(1,2) unfolding rpmsg_init_def by (auto simp: option_bind_simps Let_def split: if_splits prod.splits)
  then show ?thesis using assms(3) by (auto simp: rpmsg_deinit_def rpmsg_rdev_deinit_def option_bind_simps env_deinit_def)
qed

text \<open>
  Property C27. When the messaging layer of the remote side fails to start after its device has been created
  (no memory for a queue, say), \<^verbatim>\<open>rpmsg_init\<close> frees the device but leaves its address in the instance, and the
  clean-up of \<^verbatim>\<open>remoteproc_resource_init\<close> closes it again: the call does not return an error, it runs
  into freed memory.
\<close>

theorem remoteproc_resource_init_double_free:
  assumes "alloc cf s = (rproc, s1)" "rproc \<noteq> NULL"
    and "hil_create_proc cf HIL_RSVD_CPU_ID (st_w s1) = Some (proc, w2)" "proc \<noteq> NULL"
    and "handle_rsc_table (rproc_zero\<lparr>rp_proc := proc\<rparr>) tab sz w2 = Some (RPROC_SUCCESS, w3)" "w_procs w3 proc = Some pr"
    and "rpmsg_init cf (hp_cpu_id pr) NULL created destroyed cb RPMSG_MASTER w3 = Some (st, rdev, w4)" "st \<noteq> 0" "rdev \<noteq> NULL"
    and "\<forall>pr'. w_procs w4 proc = Some pr' \<longrightarrow> op_reg_ipi_after_deinit (hp_ops pr') = None"
  shows "remoteproc_resource_init cf (Some (tab, sz)) created destroyed cb s = None"
proof -
  have freed: "w_rdevs w4 rdev = None"
    using rpmsg_init_failed_frees [OF assms(7)] assms(8,9) by (simp add: RPMSG_SUCCESS_def)
  let ?s = "put_rproc rproc (rproc_zero\<lparr>rp_proc := proc, rp_rdev := rdev\<rparr>)
    (put_rproc rproc (rproc_zero\<lparr>rp_proc := proc\<rparr>) (put_rproc rproc rproc_zero s1)\<lparr>st_w := w4\<rparr>)"
  have "rpmsg_deinit cf rdev w4 = None" using freed assms(9) by (simp add: rpmsg_deinit_def rpmsg_rdev_deinit_def)
  then have "remoteproc_resource_deinit cf rproc ?s = None"
    using assms(2,9,10)
    by (cases "w_procs w4 proc") (simp_all add: remoteproc_resource_deinit_def put_rproc_def in_w0_def)
  then show ?thesis using assms(1-9)
    by (simp add: remoteproc_resource_init_def env_init_def in_w_def put_rproc_def Let_def RPROC_SUCCESS_def)
qed

definition cfg_no_queue :: config where
  "cfg_no_queue = cfg_example\<lparr>cf_alloc_ok := (\<lambda>n. n \<noteq> 4), cf_proc_info := (\<lambda>c. Some (hil_proc0\<lparr>hp_num_chnls := 0,
     hp_vdev := (hp_vdev hil_proc0)\<lparr>pd_num_vrings := 2,
       pd_vring_info := replicate 2 (proc_vring0\<lparr>pv_phy_addr := 0x08000000, pv_num_descs := 4, pv_align := 0x1000\<rparr>)\<rparr>\<rparr>))\<rparr>"

text \<open>The table at \<open>0x1000\<close> has no entries; the ring the first queue is made for is in memory.\<close>

definition resource_state_example :: rproc_state where
  "resource_state_example = state0\<lparr>st_w := world0\<lparr>w_mem := (\<lambda>a. 0)(0x1000 := 1), w_rings := [0x08000000 \<mapsto> vring_zero 4]\<rparr>\<rparr>"

lemma resource_init_steps:
  "case alloc cfg_no_queue resource_state_example of (rproc, s1) \<Rightarrow> rproc \<noteq> NULL \<and>
     (case hil_create_proc cfg_no_queue HIL_RSVD_CPU_ID (st_w s1) of None \<Rightarrow> False | Some (proc, w2) \<Rightarrow> proc \<noteq> NULL \<and>
       (case handle_rsc_table (rproc_zero\<lparr>rp_proc := proc\<rparr>) 0x1000 16 w2 of None \<Rightarrow> False | Some (st, w3) \<Rightarrow> st = RPROC_SUCCESS \<and>
         (case w_procs w3 proc of None \<Rightarrow> False | Some pr \<Rightarrow>
           (case rpmsg_init cfg_no_queue (hp_cpu_id pr) NULL None None None RPMSG_MASTER w3 of None \<Rightarrow> False
            | Some (st, rdev, w4) \<Rightarrow> st \<noteq> 0 \<and> rdev \<noteq> NULL \<and> Option.is_none (w_procs w4 proc)))))"
  by code_simp

lemma case_Some_ex: "(case x of None \<Rightarrow> False | Some y \<Rightarrow> P y) \<longleftrightarrow> (\<exists>y. x = Some y \<and> P y)"
  by (cases x) auto

theorem remoteproc_resource_init_double_free_witness:
  "remoteproc_resource_init cfg_no_queue (Some (0x1000, 16)) None None None resource_state_example = None"
proof -
  obtain rproc s1 proc w2 w3 pr st rdev w4 where steps: "alloc cfg_no_queue resource_state_example = (rproc, s1)" "rproc \<noteq> NULL"
    "hil_create_proc cfg_no_queue HIL_RSVD_CPU_ID (st_w s1) = Some (proc, w2)" "proc \<noteq> NULL"
    "handle_rsc_table (rproc_zero\<lparr>rp_proc := proc\<rparr>) 0x1000 16 w2 = Some (RPROC_SUCCESS, w3)" "w_procs w3 proc = Some pr"
    "rpmsg_init cfg_no_queue (hp_cpu_id pr) NULL None None None RPMSG_MASTER w3 = Some (st, rdev, w4)" "st \<noteq> 0" "rdev \<noteq> NULL"
    and "w_procs w4 proc = None"
    using resource_init_steps by (auto simp: Option.is_none_def case_Some_ex split: prod.split_asm)
  then show ?thesis by (intro remoteproc_resource_init_double_free [OF steps]) simp
qed

end
