(* ===== verification/Retarget.thy ===== *)
theory Retarget
  imports RpmsgRx
begin

text \<open>
  The system calls \<^verbatim>\<open>_open\<close>, \<^verbatim>\<open>_read\<close>, \<^verbatim>\<open>_write\<close> and \<^verbatim>\<open>_close\<close> of \<^verbatim>\<open>lib/proxy/rpmsg_retarget.c\<close>, which
  a remote processor forwards to a proxy on the master.  The request and the response
  are blocks of 512 bytes of the processor's memory.  A call sends its request and spins on a lock until the
  receive callback \<^verbatim>\<open>rpc_cb\<close>, which runs in an interrupt, releases it; the interrupts of the waiting
  loop are given turn by turn.
\<close>

definition RPC_BUFF_SIZE :: nat where "RPC_BUFF_SIZE = 512"
definition OPEN_SYSCALL_ID :: u32 where "OPEN_SYSCALL_ID = 1"
definition CLOSE_SYSCALL_ID :: u32 where "CLOSE_SYSCALL_ID = 2"
definition WRITE_SYSCALL_ID :: u32 where "WRITE_SYSCALL_ID = 3"
definition READ_SYSCALL_ID :: u32 where "READ_SYSCALL_ID = 4"
definition TERM_SYSCALL_ID :: u32 where "TERM_SYSCALL_ID = 6"
definition FILE_NAME_LEN :: nat where "FILE_NAME_LEN = 50"
definition PROXY_ENDPOINT :: u32 where "PROXY_ENDPOINT = 127"

lemmas rpc_const_defs = RPC_BUFF_SIZE_def OPEN_SYSCALL_ID_def CLOSE_SYSCALL_ID_def WRITE_SYSCALL_ID_def READ_SYSCALL_ID_def
  TERM_SYSCALL_ID_def FILE_NAME_LEN_def PROXY_ENDPOINT_def

text \<open>
  \<^verbatim>\<open>struct _rpc_data\<close>: the locks are the lock words; \<open>rc_rpc\<close> and \<open>rc_rpc_response\<close> are the addresses of
  the two blocks.
\<close>

record rpc_data =
  rc_rpmsg_chnl :: ptr
  rc_rp_ept :: ptr
  rc_sync_lock :: "u32 option"
  rc_rpc :: u32
  rc_rpc_response :: u32
  rc_shutdown_cb :: "nat option"

record rpc_state =
  rt_w :: world
  rt_data :: "rpc_data option"
  rt_get_response :: bool

record sys_rpc =
  sr_id :: u32
  sr_int_field1 :: u32
  sr_int_field2 :: u32
  sr_data_len :: u32

definition sys_rpc_at :: "memory \<Rightarrow> u32 \<Rightarrow> sys_rpc" where
  "sys_rpc_at m a = \<lparr>sr_id = load32 m a, sr_int_field1 = load32 m (a + 4), sr_int_field2 = load32 m (a + 8),
     sr_data_len = load32 m (a + 12)\<rparr>"

definition put_rpc :: "u32 \<Rightarrow> u32 \<Rightarrow> u32 \<Rightarrow> u32 \<Rightarrow> u32 \<Rightarrow> memory \<Rightarrow> memory" where
  "put_rpc a rid f1 f2 len m = store32 (store32 (store32 (store32 m a rid) (a + 4) f1) (a + 8) f2) (a + 12) len"

definition upd_mem :: "(memory \<Rightarrow> memory) \<Rightarrow> rpc_state \<Rightarrow> rpc_state" where
  "upd_mem f s = s\<lparr>rt_w := (rt_w s)\<lparr>w_mem := f (w_mem (rt_w s))\<rparr>\<rparr>"

section \<open>Set-up\<close>

text \<open>
  The receive callback the endpoint is created with, under its number in the application's callbacks.  \<open>rpc_addr\<close> and
  \<open>resp_addr\<close> are what \<^verbatim>\<open>malloc\<close> returns for the two blocks, \<open>lock_ok\<close> says whether the lock word was allocated.
\<close>

definition rpmsg_retarget_init ::
  "config \<Rightarrow> rx_cb \<Rightarrow> bool \<Rightarrow> u32 \<Rightarrow> u32 \<Rightarrow> ptr \<Rightarrow> nat option \<Rightarrow> rpc_state \<Rightarrow> (int \<times> rpc_state) option" where
  "rpmsg_retarget_init cf rpc_cb_fn lock_ok rpc_addr resp_addr rp_chnl cb s = do {
     let (p, w) = env_allocate_memory cf (rt_w s);
     (if p = NULL then None
      else do {
        let (status, lock) = env_create_sync_lock lock_ok LOCKED;
        (ept, w) \<leftarrow> rpmsg_create_ept cf rp_chnl (Some rpc_cb_fn) NULL PROXY_ENDPOINT w;
        Some (status, s\<lparr>rt_w := w, rt_data := Some \<lparr>rc_rpmsg_chnl = rp_chnl, rc_rp_ept = ept, rc_sync_lock = lock,
          rc_rpc = rpc_addr, rc_rpc_response = resp_addr, rc_shutdown_cb = cb\<rparr>\<rparr>) }) }"

definition rpmsg_retarget_deinit :: "ptr \<Rightarrow> rpc_state \<Rightarrow> (int \<times> rpc_state) option" where
  "rpmsg_retarget_deinit rp_chnl s = do {
     d \<leftarrow> rt_data s;
     w \<leftarrow> rpmsg_destroy_ept (rc_rp_ept d) (rt_w s);
     Some (0, s\<lparr>rt_w := w, rt_data := None\<rparr>) }"

section \<open>Requests and responses\<close>

definition send_rpc :: "config \<Rightarrow> u32 \<Rightarrow> int \<Rightarrow> rpc_state \<Rightarrow> (int \<times> rpc_state) option" where
  "send_rpc cf data len s = do {
     d \<leftarrow> rt_data s;
     (r, w) \<leftarrow> rpmsg_sendto cf (rc_rpmsg_chnl d) data len PROXY_ENDPOINT (rt_w s);
     Some (r, s\<lparr>rt_w := w\<rparr>) }"

definition rpmsg_retarget_send :: "config \<Rightarrow> u32 \<Rightarrow> int \<Rightarrow> rpc_state \<Rightarrow> (int \<times> rpc_state) option" where
  "rpmsg_retarget_send cf data len s = send_rpc cf data len s"

text \<open>The copy is as long as the message; a message longer than the block is written past its end.\<close>

definition rpc_cb :: "config \<Rightarrow> ptr \<Rightarrow> u32 \<Rightarrow> nat \<Rightarrow> rpc_state \<Rightarrow> rpc_state option" where
  "rpc_cb cf rtl_rp_chnl data len s = do {
     d \<leftarrow> rt_data s;
     (if len > RPC_BUFF_SIZE then None
      else do {
        let s = upd_mem (\<lambda>m. store_bytes m (rc_rpc_response d) (load_bytes m data len)) s;
        lock \<leftarrow> rc_sync_lock d;
        let s = s\<lparr>rt_data := Some (d\<lparr>rc_sync_lock := Some (env_release_sync_lock lock)\<rparr>), rt_get_response := True\<rparr>;
        (if load32 (w_mem (rt_w s)) (rc_rpc_response d) = TERM_SYSCALL_ID
         then do { f \<leftarrow> rc_shutdown_cb d; w \<leftarrow> cf_chnl_cb cf f rtl_rp_chnl (rt_w s); Some (s\<lparr>rt_w := w\<rparr>) }
         else Some s) }) }"

text \<open>
  \<^verbatim>\<open>env_acquire_sync_lock\<close> with the interrupts of its turns: in a turn nothing happens, or a message arrives (its
  payload address and bytes) and the callback runs; then the lock word is exchanged.  With no turns left and the lock
  taken the loop spins for ever.
\<close>

fun wait_response :: "config \<Rightarrow> (u32 \<times> u8 list) option list \<Rightarrow> rpc_state \<Rightarrow> rpc_state option" where
  "wait_response cf [] s = None"
| "wait_response cf (t # ts) s = do {
     s \<leftarrow> (case t of None \<Rightarrow> Some s
          | Some (a, bs) \<Rightarrow> do {
              d \<leftarrow> rt_data s;
              rpc_cb cf (rc_rpmsg_chnl d) a (length bs) (upd_mem (\<lambda>m. store_bytes m a bs) s) });
     d \<leftarrow> rt_data s;
     lock \<leftarrow> rc_sync_lock d;
     let (ret, cell) = xchg lock LOCKED;
     let s = s\<lparr>rt_data := Some (d\<lparr>rc_sync_lock := Some cell\<rparr>)\<rparr>;
     (if ret = LOCKED then wait_response cf ts s else Some s) }"

text \<open>The part all calls share: send under the mutex, wait, read the result if the response is for this call.  What the send returns is dropped.\<close>

definition rpc_call ::
  "config \<Rightarrow> u32 \<Rightarrow> int \<Rightarrow> bool \<Rightarrow> (u32 \<times> u8 list) option list \<Rightarrow> rpc_state \<Rightarrow> (int \<times> rpc_data \<times> rpc_state) option" where
  "rpc_call cf rid payload_size clear turns s = do {
     d \<leftarrow> rt_data s;
     let s = s\<lparr>rt_w := env_lock_mutex (rt_w s)\<rparr>;
     let s = (if clear then s\<lparr>rt_get_response := False\<rparr> else s);
     (r, s) \<leftarrow> send_rpc cf (rc_rpc d) payload_size s;
     let s = s\<lparr>rt_w := env_unlock_mutex (rt_w s)\<rparr>;
     s \<leftarrow> wait_response cf turns s;
     d \<leftarrow> rt_data s;
     let resp = sys_rpc_at (w_mem (rt_w s)) (rc_rpc_response d);
     Some (if sr_id resp = rid then sint (sr_int_field1 resp) else -1, d, s) }"

section \<open>The system calls\<close>

definition bytes_of :: "char list \<Rightarrow> u8 list" where
  "bytes_of cs = map (\<lambda>c. of_nat (of_char c)) cs"

definition strlen :: "char list \<Rightarrow> nat option" where
  "strlen s = (if NUL \<in> set s then Some (length (takeWhile (\<lambda>c. c \<noteq> NUL) s)) else None)"

text \<open>\<^verbatim>\<open>strlen\<close> is applied before the pointer is compared with \<^verbatim>\<open>NULL\<close>.\<close>

definition rt_open ::
  "config \<Rightarrow> char list option \<Rightarrow> u32 \<Rightarrow> u32 \<Rightarrow> (u32 \<times> u8 list) option list \<Rightarrow> rpc_state \<Rightarrow> (int \<times> rpc_state) option" where
  "rt_open cf filename flags mode turns s = do {
     name \<leftarrow> filename;
     n \<leftarrow> strlen name;
     let filename_len = n + 1;
     (if filename_len > FILE_NAME_LEN then Some (-1, s)
      else do {
        d \<leftarrow> rt_data s;
        let s = upd_mem (\<lambda>m. store_bytes (put_rpc (rc_rpc d) OPEN_SYSCALL_ID flags mode (of_nat filename_len) m) (rc_rpc d + 16)
               (bytes_of (take filename_len name))) s;
        (retval, d, s) \<leftarrow> rpc_call cf OPEN_SYSCALL_ID (int (16 + filename_len)) False turns s;
        Some (retval, s) }) }"

text \<open>The length the response announces is what is copied to the caller's buffer, whatever size the caller asked for.\<close>

definition rt_read ::
  "config \<Rightarrow> u32 \<Rightarrow> u32 \<Rightarrow> u32 \<Rightarrow> (u32 \<times> u8 list) option list \<Rightarrow> rpc_state \<Rightarrow> (int \<times> rpc_state) option" where
  "rt_read cf fd buffer buflen turns s =
     (if buffer = 0 \<or> buflen = 0 then Some (-1, s)
      else do {
        d \<leftarrow> rt_data s;
        let s = upd_mem (put_rpc (rc_rpc d) READ_SYSCALL_ID fd buflen 0) s;
        (retval, d, s) \<leftarrow> rpc_call cf READ_SYSCALL_ID 16 True turns s;
        let resp = sys_rpc_at (w_mem (rt_w s)) (rc_rpc_response d);
        (if sr_id resp = READ_SYSCALL_ID \<and> sint (sr_int_field1 resp) > 0
         then (if 16 + unat (sr_data_len resp) > RPC_BUFF_SIZE then None
               else Some (retval, upd_mem (\<lambda>m. store_bytes m buffer
                      (load_bytes m (rc_rpc_response d + 16) (unat (sr_data_len resp)))) s))
         else Some (retval, s)) })"

text \<open>For file 1 a terminator is announced, written one byte behind its place, and not part of the message that is sent.\<close>

definition rt_write ::
  "config \<Rightarrow> u32 \<Rightarrow> u32 \<Rightarrow> nat \<Rightarrow> (u32 \<times> u8 list) option list \<Rightarrow> rpc_state \<Rightarrow> (int \<times> rpc_state) option" where
  "rt_write cf fd p len turns s = do {
     let null_term = (if fd = 1 then 1 else 0);
     d \<leftarrow> rt_data s;
     (if 16 + len > RPC_BUFF_SIZE \<or> (null_term \<noteq> 0 \<and> 16 + len + null_term \<ge> RPC_BUFF_SIZE) then None
      else do {
        let s = upd_mem (put_rpc (rc_rpc d) WRITE_SYSCALL_ID fd (of_nat len) (of_nat (len + null_term))) s;
        let s = upd_mem (\<lambda>m. store_bytes m (rc_rpc d + 16) (load_bytes m p len)) s;
        let s = (if null_term \<noteq> 0 then upd_mem (\<lambda>m. m(rc_rpc d + 16 + of_nat len + of_nat null_term := 0)) s else s);
        (retval, d, s) \<leftarrow> rpc_call cf WRITE_SYSCALL_ID (int (16 + len)) False turns s;
        Some (retval, s) }) }"

definition rt_close :: "config \<Rightarrow> u32 \<Rightarrow> (u32 \<times> u8 list) option list \<Rightarrow> rpc_state \<Rightarrow> (int \<times> rpc_state) option" where
  "rt_close cf fd turns s = do {
     d \<leftarrow> rt_data s;
     let s = upd_mem (put_rpc (rc_rpc d) CLOSE_SYSCALL_ID fd 0 0) s;
     (retval, d, s) \<leftarrow> rpc_call cf CLOSE_SYSCALL_ID 16 False turns s;
     Some (retval, s) }"

section \<open>Waiting\<close>

lemma wait_response_idle:
  assumes "rt_data s = Some d" "rc_sync_lock d = Some LOCKED"
  shows "wait_response cf (replicate k None @ ts) s = wait_response cf ts s"
proof (induction k)
  case 0
  then show ?case by simp
next
  case (Suc k)
  have "s\<lparr>rt_data := Some (d\<lparr>rc_sync_lock := Some LOCKED\<rparr>)\<rparr> = s" using assms by (cases s; cases d) simp
  then have "wait_response cf (replicate k None @ ts) (s\<lparr>rt_data := Some (d\<lparr>rc_sync_lock := Some LOCKED\<rparr>)\<rparr>) = wait_response cf ts s"
    by (simp only: Suc)
  then show ?case using assms by (simp add: xchg_def)
qed

lemma wait_response_spins:
  "rt_data s = Some d \<Longrightarrow> rc_sync_lock d = Some LOCKED \<Longrightarrow> wait_response cf (replicate k None) s = None"
  using wait_response_idle [of s d cf k "[]"] by simp

lemma wait_response_message:
  assumes "rt_data s = Some d" "rc_sync_lock d = Some LOCKED" "bs = le32 rid @ le32 v @ bs'" "length bs \<le> 512"
    and "rid \<noteq> TERM_SYSCALL_ID"
  shows "\<exists>s'. wait_response cf (Some (a, bs) # ts) s = Some s' \<and> rt_data s' = Some d \<and>
    sr_id (sys_rpc_at (w_mem (rt_w s')) (rc_rpc_response d)) = rid \<and>
    sr_int_field1 (sys_rpc_at (w_mem (rt_w s')) (rc_rpc_response d)) = v"
proof -
  let ?m = "store_bytes (w_mem (rt_w s)) a bs"
  let ?m' = "store_bytes ?m (rc_rpc_response d) (load_bytes ?m a (length bs))"
  have "load_bytes ?m a (length bs) = bs" using assms(4) by (intro load_store_bytes) simp
  then have "holds ?m' (rc_rpc_response d) bs" using assms(4) by (simp add: holds_store_bytes)
  then have id: "load32 ?m' (rc_rpc_response d) = rid" "load32 ?m' (rc_rpc_response d + 4) = v"
    by (simp_all add: assms(3) holds_append holds_le32)
  have "d\<lparr>rc_sync_lock := Some LOCKED\<rparr> = d" using assms(2) by (cases d) simp
  then show ?thesis using assms(1,2,4,5) id
    by (simp add: rpc_cb_def upd_mem_def Let_def RPC_BUFF_SIZE_def env_release_sync_lock_def release_spin_lock_def xchg_def
        LOCKED_def UNLOCKED_def sys_rpc_at_def)
qed

lemma send_rpc_data: "send_rpc cf a n s = Some (r, s') \<Longrightarrow> rt_data s' = rt_data s"
  by (auto simp: send_rpc_def option_bind_simps)

lemma rpc_call_waits:
  assumes "rt_data s = Some d" "rc_sync_lock d = Some LOCKED"
    and "send_rpc cf (rc_rpc d) n (s\<lparr>rt_w := env_lock_mutex (rt_w s)\<rparr>) = Some (st, s2)"
  shows "rpc_call cf cid n False (replicate k None) s = None"
    and "bs = le32 rid @ le32 v @ bs' \<Longrightarrow> length bs \<le> 512 \<Longrightarrow> rid \<noteq> TERM_SYSCALL_ID \<Longrightarrow>
      \<exists>s'. rpc_call cf cid n False (replicate k None @ Some (a, bs) # ts) s = Some (if rid = cid then sint v else -1, d, s') \<and>
        rt_data s' = Some d"
proof -
  have s2: "rt_data (s2\<lparr>rt_w := w\<rparr>) = Some d" for w using send_rpc_data [OF assms(3)] assms(1) by simp
  show "rpc_call cf cid n False (replicate k None) s = None"
    using assms wait_response_spins [OF s2 assms(2)] by (simp add: rpc_call_def Let_def)
  assume "bs = le32 rid @ le32 v @ bs'" "length bs \<le> 512" "rid \<noteq> TERM_SYSCALL_ID"
  from wait_response_message [OF s2 [of "env_unlock_mutex (rt_w s2)"] assms(2) this, of cf a ts] obtain s' where
    s': "wait_response cf (Some (a, bs) # ts) (s2\<lparr>rt_w := env_unlock_mutex (rt_w s2)\<rparr>) = Some s'" "rt_data s' = Some d"
      "sr_id (sys_rpc_at (w_mem (rt_w s')) (rc_rpc_response d)) = rid"
      "sr_int_field1 (sys_rpc_at (w_mem (rt_w s')) (rc_rpc_response d)) = v" by blast
  have "wait_response cf (replicate k None @ Some (a, bs) # ts) (s2\<lparr>rt_w := env_unlock_mutex (rt_w s2)\<rparr>) = Some s'"
    using wait_response_idle [OF s2 assms(2)] s'(1) by (simp only:)
  then show "\<exists>s'. rpc_call cf cid n False (replicate k None @ Some (a, bs) # ts) s = Some (if rid = cid then sint v else -1, d, s') \<and>
      rt_data s' = Some d"
    using assms(1,3) s'(2-4) by (intro exI [of _ s']) (simp add: rpc_call_def Let_def)
qed


definition rpc_state_example :: rpc_state where
  "rpc_state_example = \<lparr>rt_w = world0, rt_data = Some \<lparr>rc_rpmsg_chnl = NULL, rc_rp_ept = NULL, rc_sync_lock = Some LOCKED,
     rc_rpc = 0x2000, rc_rpc_response = 0x3000, rc_shutdown_cb = None\<rparr>, rt_get_response = False\<rparr>"


end
