(* ===== verification/EptMap.thy ===== *)
theory EptMap
  imports Rpmsg
begin

text \<open>
  The endpoints of a remote device as a finite map from addresses to endpoints.  The device keeps
  them twice: as a linked list of nodes and as bits of the address bitmap.  \<open>ept_map\<close> ties the two together;
  creation, lookup and destruction are shown to implement update, application and deletion.  The
  contract is the locale \<open>address_map\<close>, whose derived facts (what a lookup returns after a creation or a destruction)
  hold for the code by interpretation.
\<close>

section \<open>The map\<close>

text \<open>
  \<open>ept_nodes w p xs\<close>: the list at \<open>p\<close> has the nodes \<open>xs\<close>, whose data are allocated endpoints.
\<close>

definition node_ept :: "world \<Rightarrow> ptr \<Rightarrow> (ptr \<times> rpmsg_endpoint) option" where
  "node_ept w x = do { n \<leftarrow> w_nodes w x; ep \<leftarrow> w_epts w (ll_data n); Some (ll_data n, ep) }"

definition ept_entries :: "world \<Rightarrow> ptr list \<Rightarrow> (u32 \<times> ptr) list" where
  "ept_entries w xs = map (\<lambda>x. case node_ept w x of Some (e, ep) \<Rightarrow> (ep_addr ep, e) | None \<Rightarrow> (0, NULL)) xs"

definition ept_map :: "world \<Rightarrow> ptr \<Rightarrow> (u32 \<rightharpoonup> ptr) \<Rightarrow> bool" where
  "ept_map w rdev T \<longleftrightarrow> (\<exists>rd xs. w_rdevs w rdev = Some rd \<and> length (rd_bitmap rd) = RPMSG_ADDR_BMP_SIZE \<and>
     node_seq (w_nodes w) (rd_rp_endpoints rd) xs \<and> (\<forall>x \<in> set xs. node_ept w x \<noteq> None) \<and>
     distinct (map fst (ept_entries w xs)) \<and> T = map_of (ept_entries w xs) \<and> NULL \<notin> ran T \<and>
     addr_set (rd_bitmap rd) = insert 0 (unat ` dom T) \<and> 0 \<notin> dom T)"

text \<open>Objects are stored only at addresses the allocator has handed out.\<close>

definition objs_fresh :: "world \<Rightarrow> bool" where
  "objs_fresh w \<longleftrightarrow> 0 < w_next w \<and> (\<forall>p \<ge> w_next w. w_nodes w p = None \<and> w_epts w p = None)"

lemma ept_mapE:
  assumes "ept_map w rdev T"
  obtains rd xs where "w_rdevs w rdev = Some rd" "length (rd_bitmap rd) = RPMSG_ADDR_BMP_SIZE"
    "node_seq (w_nodes w) (rd_rp_endpoints rd) xs" "\<forall>x \<in> set xs. node_ept w x \<noteq> None"
    "distinct (map fst (ept_entries w xs))" "T = map_of (ept_entries w xs)" "NULL \<notin> ran T"
    "addr_set (rd_bitmap rd) = insert 0 (unat ` dom T)" "0 \<notin> dom T"
  using assms unfolding ept_map_def by blast

lemma ept_mapI:
  assumes "w_rdevs w rdev = Some rd" "length (rd_bitmap rd) = RPMSG_ADDR_BMP_SIZE"
    "node_seq (w_nodes w) (rd_rp_endpoints rd) xs" "\<And>x. x \<in> set xs \<Longrightarrow> node_ept w x \<noteq> None"
    "distinct (map fst (ept_entries w xs))" "map_of (ept_entries w xs) = T" "NULL \<notin> ran T"
    "addr_set (rd_bitmap rd) = insert 0 (unat ` dom T)" "0 \<notin> dom T"
  shows "ept_map w rdev T"
  using assms unfolding ept_map_def by blast

lemma ept_entries_set: "\<forall>x \<in> set xs. node_ept w x \<noteq> None \<Longrightarrow>
    (a, e) \<in> set (ept_entries w xs) \<longleftrightarrow> (\<exists>x \<in> set xs. \<exists>ep. node_ept w x = Some (e, ep) \<and> ep_addr ep = a)"
  by (force simp: ept_entries_def)

lemma ept_map_lookup_iff:
  assumes "distinct (map fst (ept_entries w xs))" "\<forall>x \<in> set xs. node_ept w x \<noteq> None"
  shows "map_of (ept_entries w xs) a = Some e \<longleftrightarrow> (\<exists>x \<in> set xs. \<exists>ep. node_ept w x = Some (e, ep) \<and> ep_addr ep = a)"
  using assms ept_entries_set by (metis map_of_eq_Some_iff)

section \<open>Lookup\<close>

text \<open>The endpoint the lookup leads to: \<^verbatim>\<open>NULL\<close> or the data of the node.\<close>

definition find_ept :: "ptr \<Rightarrow> u32 \<Rightarrow> world \<Rightarrow> (ptr \<times> world) option" where
  "find_ept rdev addr w = do {
     (node, w) \<leftarrow> rpmsg_rdev_get_endpoint_from_addr rdev addr w;
     (if node = NULL then Some (NULL, w) else do { nd \<leftarrow> w_nodes w node; Some (ll_data nd, w) }) }"

lemma node_eptD: "node_ept w x = Some (e, ep) \<Longrightarrow> \<exists>n. w_nodes w x = Some n \<and> ll_data n = e \<and> w_epts w e = Some ep"
  by (auto simp: node_ept_def option_bind_simps)

lemma get_endpoint_node:
  assumes "w_rdevs w rdev = Some rd" "node_seq (w_nodes w) (rd_rp_endpoints rd) xs" "\<forall>x \<in> set xs. node_ept w x \<noteq> None"
  shows "rpmsg_rdev_get_endpoint_from_addr rdev addr w =
    Some (case filter (\<lambda>x. \<exists>e ep. node_ept w x = Some (e, ep) \<and> ep_addr ep = addr) xs of [] \<Rightarrow> NULL | x # _ \<Rightarrow> x,
      env_unlock_mutex (env_lock_mutex w))"
proof -
  let ?Q = "\<lambda>x. \<exists>e ep. node_ept w x = Some (e, ep) \<and> ep_addr ep = addr"
  have "ept_addr_is addr (env_lock_mutex w) (ll_data n) = Some (?Q x)" if "x \<in> set xs" "w_nodes w x = Some n" for x n
  proof -
    from assms(3) that(1) obtain e ep where x: "node_ept w x = Some (e, ep)" by force
    with that(2) show ?thesis by (auto simp: ept_addr_is_def dest!: node_eptD)
  qed
  then have "find_node (w_nodes w) (ept_addr_is addr (env_lock_mutex w)) (rd_rp_endpoints rd) =
      Some (case filter ?Q xs of [] \<Rightarrow> NULL | x # _ \<Rightarrow> x)"
    using assms(2) by (intro find_node_correct) (simp_all add: node_seq_def)
  then show ?thesis using assms(1) by (simp add: rpmsg_rdev_get_endpoint_from_addr_def)
qed

lemma find_ept_map:
  assumes "ept_map w rdev T"
  shows "find_ept rdev addr w = Some (case T addr of None \<Rightarrow> NULL | Some e \<Rightarrow> e, env_unlock_mutex (env_lock_mutex w))"
proof -
  from assms obtain rd xs where rd: "w_rdevs w rdev = Some rd" "node_seq (w_nodes w) (rd_rp_endpoints rd) xs"
    and xs: "\<forall>x \<in> set xs. node_ept w x \<noteq> None" and T: "distinct (map fst (ept_entries w xs))" "T = map_of (ept_entries w xs)"
    by (rule ept_mapE)
  let ?Q = "\<lambda>x. \<exists>e ep. node_ept w x = Some (e, ep) \<and> ep_addr ep = addr"
  note node = get_endpoint_node [OF rd xs, of addr] and look = ept_map_lookup_iff [OF T(1) xs, of addr]
  show ?thesis
  proof (cases "filter ?Q xs")
    case Nil
    then have "T addr = None" using look T(2) by (cases "T addr") (auto simp: filter_empty_conv)
    then show ?thesis using node Nil by (simp add: find_ept_def)
  next
    case (Cons x ys)
    then have "x \<in> set (filter ?Q xs)" by simp
    then obtain e ep where x: "x \<in> set xs" "node_ept w x = Some (e, ep)" "ep_addr ep = addr" by auto
    then have "T addr = Some e" using look T(2) by auto
    moreover have "x \<noteq> NULL" using rd(2) x(1) by (auto simp: node_seq_def dest: dll_alloc)
    moreover have "\<exists>n. w_nodes w x = Some n \<and> ll_data n = e" using node_eptD [OF x(2)] by auto
    ultimately show ?thesis using node Cons by (auto simp: find_ept_def)
  qed
qed

section \<open>The choice of an address\<close>

lemma choose_address_ok:
  assumes "length bm = RPMSG_ADDR_BMP_SIZE" "0 \<in> addr_set bm" "addr = RPMSG_ADDR_ANY \<or> unat addr < 2 ^ 31"
  shows "\<exists>s a bm'. choose_address bm addr = Some (s, a, bm') \<and> length bm' = RPMSG_ADDR_BMP_SIZE \<and>
    (if s = RPMSG_SUCCESS
     then unat a \<notin> addr_set bm \<and> unat a < 128 \<and> (addr \<noteq> RPMSG_ADDR_ANY \<longrightarrow> a = addr) \<and> addr_set bm' = insert (unat a) (addr_set bm)
     else bm' = bm \<and> (if addr = RPMSG_ADDR_ANY then addr_set bm = {..<128} else unat addr \<in> addr_set bm \<or> 128 \<le> unat addr))"
proof (cases "addr = RPMSG_ADDR_ANY")
  case True
  from get_address_cases [of bm] assms(1) consider
      (found) a bm' where "rpmsg_get_address bm 4 = Some (int a, bm')" "a \<notin> addr_set bm" "a < 128"
        "addr_set bm' = insert a (addr_set bm)" "length bm' = 4"
    | (full) "addr_set bm = {..<128}" "rpmsg_get_address bm 4 = Some (-1, bm)"
    by (auto simp: RPMSG_ADDR_BMP_SIZE_def)
  then show ?thesis
  proof cases
    case found
    then have u: "unat (of_nat a :: u32) = a" by (simp add: unat_of_nat)
    then have "sint (of_nat a :: u32) = int a" using found by (subst sint_small) simp_all
    then show ?thesis using True found u by (simp add: choose_address_def RPMSG_ADDR_BMP_SIZE_def)
  next
    case full
    then show ?thesis using True assms(1) by (simp add: choose_address_def RPMSG_ADDR_BMP_SIZE_def rpmsg_err_defs)
  qed
next
  case False
  with assms(3) have s: "sint addr = int (unat addr)" by (simp add: sint_small)
  show ?thesis
  proof (cases "unat addr < 128")
    case True
    with assms(1) have lt: "unat addr < 32 * length bm" by (simp add: RPMSG_ADDR_BMP_SIZE_def)
    from is_address_set_iff [OF lt] assms(1) obtain v where
      "rpmsg_is_address_set bm RPMSG_ADDR_BMP_SIZE (int (unat addr)) = Some v" "v \<noteq> 0 \<longleftrightarrow> unat addr \<in> addr_set bm" by auto
    then show ?thesis using set_address_addr_set [OF lt] assms(1) False True s
      by (auto simp: choose_address_def rpmsg_err_defs)
  next
    case False': False
    then have "128 \<le> int (unat addr)" by linarith
    then have "128 \<le> uint addr" by simp
    then show ?thesis using False False' s assms(1)
      by (simp add: choose_address_def rpmsg_is_address_set_def RPMSG_ADDR_BMP_SIZE_def rpmsg_err_defs)
  qed
qed

section \<open>Creation\<close>

text \<open>
  What the endpoint operations leave alone: everything but the endpoints, the nodes of the endpoint list, and the list and the
  bitmap of the device.
\<close>

definition rd_rest :: "remote_device \<Rightarrow> remote_device" where
  "rd_rest rd = rd\<lparr>rd_bitmap := [], rd_rp_endpoints := NULL\<rparr>"

definition ept_frame :: "world \<Rightarrow> world \<Rightarrow> bool" where
  "ept_frame w w' \<longleftrightarrow> w_mem w' = w_mem w \<and> w_chnls w' = w_chnls w \<and> w_vqs w' = w_vqs w \<and> w_rings w' = w_rings w \<and>
     w_pools w' = w_pools w \<and> w_procs w' = w_procs w \<and> w_proc_list w' = w_proc_list w \<and> w_app w' = w_app w \<and>
     w_next w \<le> w_next w' \<and> (\<forall>r. map_option rd_rest (w_rdevs w' r) = map_option rd_rest (w_rdevs w r)) \<and>
     (\<forall>x n. w_nodes w x = Some n \<and> w_epts w (ll_data n) = None \<longrightarrow> w_nodes w' x = Some n) \<and>
     (\<forall>e. w_epts w' e \<noteq> None \<longrightarrow> w_epts w e \<noteq> None \<or> w_next w \<le> e)"

definition new_ept :: "u32 \<Rightarrow> rx_cb option \<Rightarrow> ptr \<Rightarrow> rpmsg_endpoint" where
  "new_ept a cb priv = ept_zero\<lparr>ep_addr := a, ep_cb := cb, ep_priv := priv\<rparr>"

lemma core_create_endpoint_ok:
  assumes "w_rdevs w rdev = Some rd" "node_seq (w_nodes w) (rd_rp_endpoints rd) xs" "objs_fresh w" "\<forall>x \<in> set xs. node_ept w x \<noteq> None"
    and "cf_alloc_ok cf (w_allocs w)" "cf_alloc_ok cf (Suc (w_allocs w))"
    and "choose_address (rd_bitmap rd) addr = Some (RPMSG_SUCCESS, a, bm)"
  shows "\<exists>w'. core_create_endpoint cf rdev cb priv addr w = Some (w_next w, w') \<and>
    same_data ((w_nodes w)(Suc (w_next w) \<mapsto> llist0\<lparr>ll_data := w_next w\<rparr>)) (w_nodes w') \<and>
    node_seq (w_nodes w') (Suc (w_next w)) (Suc (w_next w) # xs) \<and>
    w_epts w' = (w_epts w)(w_next w \<mapsto> new_ept a cb priv) \<and>
    w_rdevs w' = (w_rdevs w)(rdev \<mapsto> rd\<lparr>rd_bitmap := bm, rd_rp_endpoints := Suc (w_next w)\<rparr>) \<and>
    w_next w' = Suc (Suc (w_next w)) \<and> w_allocs w' = Suc (Suc (w_allocs w)) \<and> ept_frame w w'"
proof -
  let ?h = "(w_nodes w)(Suc (w_next w) \<mapsto> llist0\<lparr>ll_data := w_next w\<rparr>)"
  have pos: "0 < w_next w" and none: "w_nodes w (Suc (w_next w)) = None" using assms(3) by (auto simp: objs_fresh_def)
  then have nin: "Suc (w_next w) \<notin> set xs" using assms(2) by (auto simp: node_seq_def dest: dll_alloc)
  then have seq': "node_seq ?h (rd_rp_endpoints rd) xs" using assms(2) by (simp add: node_seq_def)
  from ll.add_seq [OF this _ nin] obtain h' where h': "add_to_list ?h (rd_rp_endpoints rd) (Suc (w_next w)) = Some (h', Suc (w_next w))"
    "node_seq h' (Suc (w_next w)) (Suc (w_next w) # xs)" "same_data ?h h'" by (auto simp: node_fresh_def)
  have keep: "h' x = Some n" if "w_nodes w x = Some n" "w_epts w (ll_data n) = None" for x n
  proof -
    have "node_ept w x = None" using that by (simp add: node_ept_def)
    then have "x \<notin> set (Suc (w_next w) # xs)" using assms(4) that(1) none by auto
    moreover from this have "?h x = Some n" using that(1) by simp
    ultimately show ?thesis using add_to_list_frame [OF _ _ _ _ nin h'(1)] seq' by (simp add: node_seq_def)
  qed
  show ?thesis using assms pos h' keep
    by (simp add: core_create_endpoint_def env_allocate_memory_def Let_def ept_frame_def rd_rest_def new_ept_def)
qed

lemma core_create_endpoint_fail:
  assumes "w_rdevs w rdev = Some rd" "objs_fresh w"
    and "\<not> cf_alloc_ok cf (w_allocs w) \<or> \<not> cf_alloc_ok cf (Suc (w_allocs w)) \<or>
      (\<exists>s a. choose_address (rd_bitmap rd) addr = Some (s, a, rd_bitmap rd) \<and> s \<noteq> RPMSG_SUCCESS)"
  shows "\<exists>w'. core_create_endpoint cf rdev cb priv addr w = Some (NULL, w') \<and> w_nodes w' = w_nodes w \<and> w_epts w' = w_epts w \<and>
    w_rdevs w' = w_rdevs w \<and> w_next w \<le> w_next w' \<and> ept_frame w w'"
proof -
  have "w_epts w (w_next w) = None" "0 < w_next w" using assms(2) by (auto simp: objs_fresh_def)
  then have "(w_epts w)(w_next w := None) = w_epts w" by auto
  moreover have "(w_rdevs w)(rdev \<mapsto> rd) = w_rdevs w" "rd\<lparr>rd_bitmap := rd_bitmap rd\<rparr> = rd" using assms(1) by auto
  ultimately show ?thesis using assms(1,3) \<open>0 < w_next w\<close>
    by (cases "cf_alloc_ok cf (w_allocs w)"; cases "cf_alloc_ok cf (Suc (w_allocs w))")
      (auto simp: core_create_endpoint_def env_allocate_memory_def Let_def ept_frame_def)
qed

text \<open>An operation that keeps the nodes and endpoints of the list keeps its entries.\<close>

lemma ept_entries_cong: "(\<And>x. x \<in> set xs \<Longrightarrow> node_ept w' x = node_ept w x) \<Longrightarrow> ept_entries w' xs = ept_entries w xs"
  by (simp add: ept_entries_def)

lemma same_data_node: "same_data h h' \<Longrightarrow> h x = Some n \<Longrightarrow> \<exists>n'. h' x = Some n' \<and> ll_data n' = ll_data n"
  by (metis (mono_tags, lifting) map_option_eq_Some same_data_def)

lemma same_data_None: "same_data h h' \<Longrightarrow> h x = None \<longleftrightarrow> h' x = None"
  by (metis map_option_is_None same_data_def)

lemma node_ept_same_data:
  assumes "same_data (w_nodes w) (w_nodes w')" "node_ept w x = Some (e, ep)" "w_epts w' e = w_epts w e"
  shows "node_ept w' x = Some (e, ep)"
  using assms node_eptD [OF assms(2)] by (auto simp: node_ept_def dest: same_data_node)

lemma ept_map_cong:
  assumes "ept_map w rdev T" "w_nodes w' = w_nodes w" "w_epts w' = w_epts w" "w_rdevs w' rdev = w_rdevs w rdev"
  shows "ept_map w' rdev T"
proof -
  have "node_ept w' x = node_ept w x" for x using assms(2,3) by (simp add: node_ept_def)
  then show ?thesis using assms by (simp add: ept_map_def ept_entries_def)
qed

text \<open>The bitmap is full when the map has all 127 addresses above zero.\<close>

lemma ept_map_room:
  assumes "addr_set bm = insert 0 (unat ` dom T)" "0 \<notin> dom T" "length bm = RPMSG_ADDR_BMP_SIZE"
  shows "addr_set bm = {..<128} \<longleftrightarrow> \<not> card (dom (T :: u32 \<rightharpoonup> ptr)) < 127"
proof -
  have sub: "addr_set bm \<subseteq> {..<128}" using addr_set_bounded [of bm] assms(3) by (simp add: RPMSG_ADDR_BMP_SIZE_def)
  have fin: "finite (unat ` dom T)" using assms(1) finite_addr_set [of bm] by (metis finite_insert)
  have "0 \<notin> unat ` dom T" using assms(2) by (auto simp: unat_eq_0)
  moreover have "card (unat ` dom T) = card (dom T)" by (rule card_image) (metis inj_onI word_unat_eq_iff)
  ultimately have card: "card (addr_set bm) = Suc (card (dom T))" using assms(1) fin by simp
  show ?thesis
  proof
    assume "addr_set bm = {..<128}"
    then show "\<not> card (dom T) < 127" using card by simp
  next
    assume "\<not> card (dom T) < 127"
    then have "card {..<128 :: nat} \<le> card (addr_set bm)" using card by simp
    then show "addr_set bm = {..<128}" using sub by (intro card_seteq) simp_all
  qed
qed

lemma ept_map_insert:
  assumes "node_seq (w_nodes w) p xs" "\<forall>x \<in> set xs. node_ept w x \<noteq> None" "objs_fresh w"
    and T: "distinct (map fst (ept_entries w xs))" "T = map_of (ept_entries w xs)" "NULL \<notin> ran T" "0 \<notin> dom T"
    and a: "T a = None" "a \<noteq> 0" "addr_set bm = insert 0 (insert (unat a) (unat ` dom T))" "length bm = RPMSG_ADDR_BMP_SIZE"
    and w': "same_data ((w_nodes w)(Suc (w_next w) \<mapsto> llist0\<lparr>ll_data := w_next w\<rparr>)) (w_nodes w')"
      "node_seq (w_nodes w') (Suc (w_next w)) (Suc (w_next w) # xs)"
      "w_epts w' = (w_epts w)(w_next w \<mapsto> new_ept a cb priv)"
      "w_rdevs w' = (w_rdevs w)(rdev \<mapsto> rd\<lparr>rd_bitmap := bm, rd_rp_endpoints := Suc (w_next w)\<rparr>)"
  shows "ept_map w' rdev (T(a \<mapsto> w_next w))" "w_next w \<notin> ran T"
proof -
  let ?n = "Suc (w_next w)"
  have fr: "w_epts w (w_next w) = None" "w_nodes w ?n = None" "0 < w_next w"
    using assms(3) by (auto simp: objs_fresh_def)
  have keep: "node_ept w' x = node_ept w x" if x: "x \<in> set xs" for x
  proof -
    from assms(2) x obtain e ep where e: "node_ept w x = Some (e, ep)" by force
    then obtain n where n: "w_nodes w x = Some n" "ll_data n = e" "w_epts w e = Some ep" using node_eptD by blast
    then have "x \<noteq> ?n" "e \<noteq> w_next w" using fr by auto
    then have "((w_nodes w)(?n \<mapsto> llist0\<lparr>ll_data := w_next w\<rparr>)) x = Some n" using n by simp
    from same_data_node [OF w'(1) this] show ?thesis using n e w'(3) \<open>e \<noteq> w_next w\<close> by (auto simp: node_ept_def)
  qed
  have new: "node_ept w' ?n = Some (w_next w, new_ept a cb priv)"
    using same_data_node [OF w'(1), of ?n] w'(3) by (auto simp: node_ept_def)
  have ent: "ept_entries w' (?n # xs) = (a, w_next w) # ept_entries w xs"
    using keep new by (simp add: ept_entries_def new_ept_def)
  show nr: "w_next w \<notin> ran T"
  proof
    assume "w_next w \<in> ran T"
    then obtain b where "T b = Some (w_next w)" by (auto simp: ran_def)
    then obtain x ep where "node_ept w x = Some (w_next w, ep)"
      using T(2) ept_map_lookup_iff [OF T(1) assms(2)] by blast
    then show False using fr by (auto dest: node_eptD)
  qed
  have "a \<notin> fst ` set (ept_entries w xs)" using a(1) T(2) by (simp add: map_of_eq_None_iff)
  then have dist: "distinct (map fst (ept_entries w' (?n # xs)))" using T(1) ent by simp
  show "ept_map w' rdev (T(a \<mapsto> w_next w))"
  proof (rule ept_mapI)
    show "w_rdevs w' rdev = Some (rd\<lparr>rd_bitmap := bm, rd_rp_endpoints := ?n\<rparr>)" by (simp add: w'(4))
    show "NULL \<notin> ran (T(a \<mapsto> w_next w))" using T(3) fr(3) a(1) by (simp add: ran_map_upd)
    show "node_ept w' x \<noteq> None" if "x \<in> set (?n # xs)" for x using that keep new assms(2) by auto
  qed (use a T(2,4) w'(2) ent dist in \<open>simp_all add: insert_commute\<close>)
qed

lemma core_create_endpoint_map:
  assumes "ept_map w rdev T" "objs_fresh w" "addr = RPMSG_ADDR_ANY \<or> unat addr < 2 ^ 31"
  shows "\<exists>ept w'. core_create_endpoint cf rdev cb priv addr w = Some (ept, w') \<and> objs_fresh w' \<and> ept_frame w w' \<and>
    (if ept = NULL then ept_map w' rdev T
     else (\<exists>a. T a = None \<and> a \<noteq> 0 \<and> unat a < 128 \<and> (addr \<noteq> RPMSG_ADDR_ANY \<longrightarrow> a = addr) \<and>
       ept \<notin> ran T \<and> w_epts w' ept = Some (new_ept a cb priv) \<and> ept_map w' rdev (T(a \<mapsto> ept)))) \<and>
    (ept \<noteq> NULL \<longleftrightarrow> cf_alloc_ok cf (w_allocs w) \<and> cf_alloc_ok cf (Suc (w_allocs w)) \<and>
       (if addr = RPMSG_ADDR_ANY then card (dom T) < 127 else addr \<noteq> 0 \<and> unat addr < 128 \<and> T addr = None))"
proof -
  from assms(1) obtain rd xs where rd: "w_rdevs w rdev = Some rd" and len: "length (rd_bitmap rd) = RPMSG_ADDR_BMP_SIZE"
    and seq: "node_seq (w_nodes w) (rd_rp_endpoints rd) xs" and xs: "\<forall>x \<in> set xs. node_ept w x \<noteq> None"
    and T: "distinct (map fst (ept_entries w xs))" "T = map_of (ept_entries w xs)" "NULL \<notin> ran T"
    and bm: "addr_set (rd_bitmap rd) = insert 0 (unat ` dom T)" "0 \<notin> dom T" by (rule ept_mapE)
  from choose_address_ok [OF len _ assms(3)] bm(1) obtain s a bm' where
    ch: "choose_address (rd_bitmap rd) addr = Some (s, a, bm')" "length bm' = RPMSG_ADDR_BMP_SIZE" and
    s: "if s = RPMSG_SUCCESS
     then unat a \<notin> addr_set (rd_bitmap rd) \<and> unat a < 128 \<and> (addr \<noteq> RPMSG_ADDR_ANY \<longrightarrow> a = addr) \<and>
       addr_set bm' = insert (unat a) (addr_set (rd_bitmap rd))
     else bm' = rd_bitmap rd \<and> (if addr = RPMSG_ADDR_ANY then addr_set (rd_bitmap rd) = {..<128}
       else unat addr \<in> addr_set (rd_bitmap rd) \<or> 128 \<le> unat addr)" by blast
  note room = ept_map_room [OF bm len]
  have fr: "0 < w_next w" "\<And>p. p \<ge> w_next w \<Longrightarrow> w_nodes w p = None \<and> w_epts w p = None"
    using assms(2) by (auto simp: objs_fresh_def)
  show ?thesis
  proof (cases "cf_alloc_ok cf (w_allocs w) \<and> cf_alloc_ok cf (Suc (w_allocs w)) \<and> s = RPMSG_SUCCESS")
    case True
    with core_create_endpoint_ok [OF rd seq assms(2) xs, of cf addr a bm' cb priv] ch(1) obtain w' where
      c: "core_create_endpoint cf rdev cb priv addr w = Some (w_next w, w')" and
      w': "same_data ((w_nodes w)(Suc (w_next w) \<mapsto> llist0\<lparr>ll_data := w_next w\<rparr>)) (w_nodes w')"
      "node_seq (w_nodes w') (Suc (w_next w)) (Suc (w_next w) # xs)"
      "w_epts w' = (w_epts w)(w_next w \<mapsto> new_ept a cb priv)"
      "w_rdevs w' = (w_rdevs w)(rdev \<mapsto> rd\<lparr>rd_bitmap := bm', rd_rp_endpoints := Suc (w_next w)\<rparr>)"
      "w_next w' = Suc (Suc (w_next w))" "ept_frame w w'" by blast
    from True s bm have a: "T a = None" "a \<noteq> 0" "addr_set bm' = insert 0 (insert (unat a) (unat ` dom T))" "unat a < 128"
      "addr \<noteq> RPMSG_ADDR_ANY \<longrightarrow> a = addr" by (auto simp: domIff image_iff)
    note ins = ept_map_insert [OF seq xs assms(2) T bm(2) a(1-3) ch(2) w'(1-4)]
    have "w_nodes w' p = None" if "Suc (Suc (w_next w)) \<le> p" for p
      using that fr(2) [of p] same_data_None [OF w'(1), of p] by simp
    then have "objs_fresh w'" using fr w'(3,5) by (auto simp: objs_fresh_def)
    moreover have "\<not> (addr = RPMSG_ADDR_ANY \<and> \<not> card (dom T) < 127)" using True s room a(4) by auto
    moreover have "w_epts w' (w_next w) = Some (new_ept a cb priv)" by (simp add: w'(3))
    ultimately show ?thesis using c ins w'(6) a fr(1) True
      by (intro exI [of _ "w_next w"] exI [of _ w'] conjI) (simp_all, metis, auto)
  next
    case False
    have "\<not> cf_alloc_ok cf (w_allocs w) \<or> \<not> cf_alloc_ok cf (Suc (w_allocs w)) \<or>
      (\<exists>s a. choose_address (rd_bitmap rd) addr = Some (s, a, rd_bitmap rd) \<and> s \<noteq> RPMSG_SUCCESS)"
      using False ch(1) s by auto
    from core_create_endpoint_fail [OF rd assms(2) this, of cb priv] obtain w' where
      w': "core_create_endpoint cf rdev cb priv addr w = Some (NULL, w')" "w_nodes w' = w_nodes w" "w_epts w' = w_epts w"
      "w_rdevs w' = w_rdevs w" "w_next w \<le> w_next w'" "ept_frame w w'" by blast
    let ?room = "if addr = RPMSG_ADDR_ANY then card (dom T) < 127 else addr \<noteq> 0 \<and> unat addr < 128 \<and> T addr = None"
    have "\<not> ?room" if "s \<noteq> RPMSG_SUCCESS"
    proof (cases "addr = RPMSG_ADDR_ANY")
      case True
      then show ?thesis using that s room by simp
    next
      case False
      then have "unat addr = 0 \<or> addr \<in> dom T \<or> 128 \<le> unat addr" using that s bm(1) by simp
      then show ?thesis using False by (auto simp: unat_eq_0)
    qed
    then have "\<not> (cf_alloc_ok cf (w_allocs w) \<and> cf_alloc_ok cf (Suc (w_allocs w)) \<and> ?room)" using False by blast
    moreover have "objs_fresh w'" using fr w'(2,3,5) by (auto simp: objs_fresh_def)
    moreover have "ept_map w' rdev T" by (rule ept_map_cong [OF assms(1)]) (simp_all add: w')
    ultimately show ?thesis using w'(1,6)
      by (intro exI [of _ NULL] exI [of _ w'] conjI) simp_all
  qed
qed

section \<open>Destruction\<close>

lemma node_unique:
  assumes "distinct (map fst (ept_entries w xs))" "x \<in> set xs" "y \<in> set xs"
    and "node_ept w x = Some (e, ep)" "node_ept w y = Some (e', ep')" "ep_addr ep = ep_addr ep'"
  shows "x = y"
proof -
  let ?f = "\<lambda>x. fst (case node_ept w x of Some (e, ep) \<Rightarrow> (ep_addr ep, e) | None \<Rightarrow> (0, NULL))"
  have "inj_on ?f (set xs)" using assms(1) by (simp add: ept_entries_def distinct_map comp_def inj_on_def)
  moreover have "?f x = ?f y" using assms(4-6) by simp
  ultimately show ?thesis using assms(2,3) by (meson inj_onD)
qed

lemma core_destroy_endpoint_step:
  assumes "w_rdevs w rdev = Some rd" "node_seq (w_nodes w) (rd_rp_endpoints rd) xs" "\<forall>x \<in> set xs. node_ept w x \<noteq> None"
    and "distinct (map fst (ept_entries w xs))" "x \<in> set xs" "node_ept w x = Some (e, ep)"
    and "rpmsg_release_address (rd_bitmap rd) RPMSG_ADDR_BMP_SIZE (sint (ep_addr ep)) = Some (s, bm)"
  shows "\<exists>w' h p. core_destroy_endpoint rdev e w = Some w' \<and> same_data (w_nodes w) h \<and> node_seq h p (remove1 x xs) \<and>
    w_nodes w' = h(x := None) \<and> w_epts w' = (w_epts w)(e := None) \<and>
    w_rdevs w' = (w_rdevs w)(rdev \<mapsto> rd\<lparr>rd_bitmap := bm, rd_rp_endpoints := p\<rparr>) \<and>
    w_next w' = w_next w \<and> w_allocs w' = w_allocs w \<and> ept_frame w w'"
proof -
  let ?Q = "\<lambda>x. \<exists>e' ep'. node_ept w x = Some (e', ep') \<and> ep_addr ep' = ep_addr ep"
  have "x \<in> set (filter ?Q xs)" using assms(5,6) by simp
  then obtain y ys where fil: "filter ?Q xs = y # ys" by (cases "filter ?Q xs") auto
  then have "y \<in> set (filter ?Q xs)" by simp
  then have "y = x" using node_unique [OF assms(4)] assms(5,6) by auto
  moreover have x: "x \<noteq> NULL" using assms(2,5) by (auto simp: node_seq_def dest: dll_alloc)
  moreover from ll.remove_seq [OF assms(2,5)] obtain h p where
    "remove_from_list (w_nodes w) (rd_rp_endpoints rd) x = Some (h, p)" "node_seq h p (remove1 x xs)" "same_data (w_nodes w) h" by blast
  moreover from this have "h z = Some n \<and> z \<noteq> x" if "w_nodes w z = Some n" "w_epts w (ll_data n) = None" for z n
  proof -
    have "z \<notin> set xs" using assms(3) that by (auto simp: node_ept_def)
    then show ?thesis
      using remove_from_list_frame [OF _ _ assms(5) \<open>remove_from_list (w_nodes w) (rd_rp_endpoints rd) x = Some (h, p)\<close>]
        assms(2,5) that(1) by (auto simp: node_seq_def)
  qed
  moreover have "w_epts w e = Some ep" using node_eptD [OF assms(6)] by auto
  ultimately show ?thesis using get_endpoint_node [OF assms(1-3), of "ep_addr ep"] fil assms(1,7)
    by (simp add: core_destroy_endpoint_def Let_def ept_frame_def rd_rest_def) blast
qed

lemma map_eq_Some_ext: "(\<And>b v. m b = Some v \<longleftrightarrow> m' b = Some v) \<Longrightarrow> m = m'"
  by (rule ext) (metis not_Some_eq)

lemma ept_map_delete:
  assumes "node_seq (w_nodes w) q xs" "\<forall>x \<in> set xs. node_ept w x \<noteq> None"
    and T: "distinct (map fst (ept_entries w xs))" "T = map_of (ept_entries w xs)" "NULL \<notin> ran T" "0 \<notin> dom T"
    and x: "x \<in> set xs" "node_ept w x = Some (e, ep)"
    and bm: "addr_set bm = insert 0 (unat ` dom T) - {unat (ep_addr ep)}" "ep_addr ep \<noteq> 0" "length bm = RPMSG_ADDR_BMP_SIZE"
    and w': "same_data (w_nodes w) h" "node_seq h p (remove1 x xs)" "w_nodes w' = h(x := None)" "w_epts w' = (w_epts w)(e := None)"
      "w_rdevs w' = (w_rdevs w)(rdev \<mapsto> rd\<lparr>rd_bitmap := bm, rd_rp_endpoints := p\<rparr>)"
  shows "ept_map w' rdev (T(ep_addr ep := None))"
proof -
  have ds: "distinct xs" using assms(1) by (simp add: node_seq_def)
  have keep: "node_ept w' y = node_ept w y" if y: "y \<in> set (remove1 x xs)" for y
  proof -
    from y ds have y': "y \<in> set xs" "y \<noteq> x" by auto
    with assms(2) obtain e' ep' where e': "node_ept w y = Some (e', ep')" by force
    then obtain n where n: "w_nodes w y = Some n" "ll_data n = e'" "w_epts w e' = Some ep'" using node_eptD by blast
    have "e' \<noteq> e"
    proof
      assume "e' = e"
      then have "ep' = ep" using n(3) node_eptD [OF x(2)] by auto
      then show False using node_unique [OF T(1) x(1) y'(1) x(2) e'] y'(2) by simp
    qed
    with same_data_node [OF w'(1) n(1)] n e' y'(2) w'(3,4) show ?thesis by (auto simp: node_ept_def)
  qed
  have ent: "ept_entries w' (remove1 x xs) = ept_entries w (remove1 x xs)" by (rule ept_entries_cong) (rule keep)
  have dist: "distinct (map fst (ept_entries w (remove1 x xs)))"
    using T(1) ds by (simp add: ept_entries_def distinct_map inj_on_def)
  have some: "\<forall>y \<in> set (remove1 x xs). node_ept w y \<noteq> None" using assms(2) by (meson notin_set_remove1)
  have map: "map_of (ept_entries w (remove1 x xs)) = T(ep_addr ep := None)"
  proof (rule map_eq_Some_ext)
    fix b v
    have set: "set (remove1 x xs) = set xs - {x}" using ds by (rule set_remove1_eq)
    show "map_of (ept_entries w (remove1 x xs)) b = Some v \<longleftrightarrow> (T(ep_addr ep := None)) b = Some v"
    proof (cases "b = ep_addr ep")
      case True
      have "\<not> (\<exists>y \<in> set (remove1 x xs). \<exists>ep'. node_ept w y = Some (v, ep') \<and> ep_addr ep' = b)"
        using node_unique [OF T(1) x(1) _ x(2)] True set by auto
      then show ?thesis using ept_map_lookup_iff [OF dist some, of b v] True by simp
    next
      case False
      then have "(\<exists>y \<in> set (remove1 x xs). \<exists>ep'. node_ept w y = Some (v, ep') \<and> ep_addr ep' = b) \<longleftrightarrow>
        (\<exists>y \<in> set xs. \<exists>ep'. node_ept w y = Some (v, ep') \<and> ep_addr ep' = b)" using x(2) set by auto
      then show ?thesis
        using ept_map_lookup_iff [OF dist some, of b v] ept_map_lookup_iff [OF T(1) assms(2), of b v] T(2) False by simp
    qed
  qed
  show ?thesis
  proof (rule ept_mapI)
    show "w_rdevs w' rdev = Some (rd\<lparr>rd_bitmap := bm, rd_rp_endpoints := p\<rparr>)" by (simp add: w'(5))
    show "node_ept w' y \<noteq> None" if "y \<in> set (remove1 x xs)" for y using that keep some by simp
    show "NULL \<notin> ran (T(ep_addr ep := None))" using T(3) by (auto simp: ran_def split: if_splits)
    have "inj (unat :: u32 \<Rightarrow> nat)" by (rule injI) (simp add: word_unat_eq_iff)
    then have "unat ` dom (T(ep_addr ep := None)) = unat ` dom T - {unat (ep_addr ep)}" by (simp add: image_set_diff)
    then show "addr_set (rd_bitmap (rd\<lparr>rd_bitmap := bm, rd_rp_endpoints := p\<rparr>)) = insert 0 (unat ` dom (T(ep_addr ep := None)))"
      using bm(1,2) by (simp add: insert_Diff_if unat_eq_0)
  qed (use bm T(4) w'(2,3) ent dist map ds in \<open>auto simp: node_seq_def\<close>)
qed

lemma core_destroy_endpoint_map:
  assumes "ept_map w rdev T" "objs_fresh w" "T a = Some e"
  shows "\<exists>w'. core_destroy_endpoint rdev e w = Some w' \<and> objs_fresh w' \<and> ept_frame w w' \<and> ept_map w' rdev (T(a := None)) \<and>
    w_epts w' = (w_epts w)(e := None) \<and> w_allocs w' = w_allocs w"
proof -
  from assms(1) obtain rd xs where rd: "w_rdevs w rdev = Some rd" and len: "length (rd_bitmap rd) = RPMSG_ADDR_BMP_SIZE"
    and seq: "node_seq (w_nodes w) (rd_rp_endpoints rd) xs" and xs: "\<forall>x \<in> set xs. node_ept w x \<noteq> None"
    and T: "distinct (map fst (ept_entries w xs))" "T = map_of (ept_entries w xs)" "NULL \<notin> ran T"
    and bm: "addr_set (rd_bitmap rd) = insert 0 (unat ` dom T)" "0 \<notin> dom T" by (rule ept_mapE)
  from assms(3) T(2) obtain x ep where x: "x \<in> set xs" "node_ept w x = Some (e, ep)" "ep_addr ep = a"
    using ept_map_lookup_iff [OF T(1) xs] by blast
  have "unat a \<in> addr_set (rd_bitmap rd)" using assms(3) bm(1) by auto
  then have lt: "unat a < 32 * length (rd_bitmap rd)" using addr_set_bounded by blast
  then have "sint a = int (unat a)" using len by (simp add: sint_small RPMSG_ADDR_BMP_SIZE_def)
  with release_address_addr_set [OF lt] len x(3) obtain bm' where
    rel: "rpmsg_release_address (rd_bitmap rd) RPMSG_ADDR_BMP_SIZE (sint (ep_addr ep)) = Some (RPMSG_SUCCESS, bm')"
    "addr_set bm' = addr_set (rd_bitmap rd) - {unat a}" "length bm' = RPMSG_ADDR_BMP_SIZE" by auto
  from core_destroy_endpoint_step [OF rd seq xs T(1) x(1,2) rel(1)] obtain w' h p where
    w': "core_destroy_endpoint rdev e w = Some w'" "same_data (w_nodes w) h" "node_seq h p (remove1 x xs)"
    "w_nodes w' = h(x := None)" "w_epts w' = (w_epts w)(e := None)"
    "w_rdevs w' = (w_rdevs w)(rdev \<mapsto> rd\<lparr>rd_bitmap := bm', rd_rp_endpoints := p\<rparr>)"
    "w_next w' = w_next w" "w_allocs w' = w_allocs w" "ept_frame w w'" by blast
  have "ept_map w' rdev (T(ep_addr ep := None))"
    by (rule ept_map_delete [OF seq xs T bm(2) x(1,2) _ _ rel(3) w'(2-6)]) (use rel(2) bm x(3) assms(3) in auto)
  moreover have "objs_fresh w'" using assms(2) same_data_None [OF w'(2)] w'(4,5,7) by (auto simp: objs_fresh_def)
  ultimately show ?thesis using w' x(3) by auto
qed

section \<open>The interface\<close>

text \<open>
  A table from addresses to objects: creation takes a free address (the one asked for, or any) or fails and changes nothing,
  a search applies the map, destruction of an object of the table deletes its address.
\<close>

locale address_map =
  fixes inv :: "'w \<Rightarrow> ('a \<rightharpoonup> 'p) \<Rightarrow> bool"
    and null :: 'p
    and valid :: "'a \<Rightarrow> bool"
    and any :: 'a
    and create :: "'c \<Rightarrow> 'a \<Rightarrow> 'w \<Rightarrow> ('p \<times> 'w) option"
    and search :: "'a \<Rightarrow> 'w \<Rightarrow> ('p \<times> 'w) option"
    and destroy :: "'p \<Rightarrow> 'w \<Rightarrow> 'w option"
  assumes inv_null: "inv w T \<Longrightarrow> null \<notin> ran T"
    and create_map: "inv w T \<Longrightarrow> valid a \<Longrightarrow> \<exists>p w'. create c a w = Some (p, w') \<and>
      (if p = null then inv w' T else \<exists>b. T b = None \<and> (a \<noteq> any \<longrightarrow> b = a) \<and> p \<notin> ran T \<and> inv w' (T(b \<mapsto> p)))"
    and search_map: "inv w T \<Longrightarrow> \<exists>w'. search a w = Some (case T a of None \<Rightarrow> null | Some p \<Rightarrow> p, w') \<and> inv w' T"
    and destroy_map: "inv w T \<Longrightarrow> T a = Some p \<Longrightarrow> \<exists>w'. destroy p w = Some w' \<and> inv w' (T(a := None))"
begin

lemma search_hit:
  assumes "inv w T" "search a w = Some (p, w')"
  shows "inv w' T" "p \<noteq> null \<longleftrightarrow> T a = Some p"
  using search_map [OF assms(1), of a] assms(2) inv_null [OF assms(1)] by (auto simp: ran_def split: option.splits)

lemma create_inv: "inv w T \<Longrightarrow> valid a \<Longrightarrow> create c a w = Some (p, w') \<Longrightarrow> \<exists>T'. inv w' T'"
  using create_map [of w T a c] by (auto split: if_splits)

lemma destroy_inv: "inv w T \<Longrightarrow> search a w = Some (p, w') \<Longrightarrow> p \<noteq> null \<Longrightarrow> destroy p w' = Some w'' \<Longrightarrow> \<exists>T'. inv w'' T'"
  using search_hit [of w T a p w'] destroy_map [of w' T a p] by auto

text \<open>An object that has just been created is found at its address, and destroying it gives the old map back.\<close>

lemma create_search:
  assumes "inv w T" "valid a" "create c a w = Some (p, w')" "p \<noteq> null"
  shows "\<exists>b w''. T b = None \<and> (a \<noteq> any \<longrightarrow> b = a) \<and> search b w' = Some (p, w'') \<and>
    (\<forall>b'. b' \<noteq> b \<longrightarrow> (\<exists>w3. search b' w' = Some (case T b' of None \<Rightarrow> null | Some q \<Rightarrow> q, w3)))"
proof -
  from create_map [OF assms(1,2), of c] assms(3,4) obtain b where
    b: "T b = None" "a \<noteq> any \<longrightarrow> b = a" "inv w' (T(b \<mapsto> p))" by auto
  have "\<exists>w3. search b' w' = Some (case T b' of None \<Rightarrow> null | Some q \<Rightarrow> q, w3)" if "b' \<noteq> b" for b'
    using search_map [OF b(3), of b'] that by auto
  then show ?thesis using b search_map [OF b(3), of b] by auto
qed

lemma create_destroy:
  assumes "inv w T" "valid a" "create c a w = Some (p, w')" "p \<noteq> null"
  shows "\<exists>w''. destroy p w' = Some w'' \<and> inv w'' T"
proof -
  from create_map [OF assms(1,2), of c] assms(3,4) obtain b where b: "T b = None" "inv w' (T(b \<mapsto> p))" by auto
  have "(T(b \<mapsto> p))(b := None) = T" using b(1) by auto
  then show ?thesis using destroy_map [OF b(2), of b p] by auto
qed

end

text \<open>A fresh device has the address 0 reserved and no endpoint.\<close>

lemma ept_map_empty:
  assumes "w_rdevs w rdev = Some rd" "rd_rp_endpoints rd = NULL" "rd_bitmap rd = [1, 0, 0, 0]"
  shows "ept_map w rdev Map.empty"
proof (rule ept_mapI [OF assms(1), where xs = "[]"])
  show "addr_set (rd_bitmap rd) = insert 0 (unat ` dom (Map.empty :: u32 \<rightharpoonup> ptr))"
    unfolding assms(3) by (auto simp: addr_set_def nth_Cons' bit_simps split: if_splits)
qed (simp_all add: assms RPMSG_ADDR_BMP_SIZE_def node_seq_def ept_entries_def)

definition ept_inv :: "ptr \<Rightarrow> world \<Rightarrow> (u32 \<rightharpoonup> ptr) \<Rightarrow> bool" where
  "ept_inv rdev w T \<longleftrightarrow> ept_map w rdev T \<and> objs_fresh w"

definition ept_addr_valid :: "u32 \<Rightarrow> bool" where
  "ept_addr_valid a \<longleftrightarrow> a = RPMSG_ADDR_ANY \<or> unat a < 2 ^ 31"

definition create_ept :: "config \<Rightarrow> ptr \<Rightarrow> rx_cb option \<times> ptr \<Rightarrow> u32 \<Rightarrow> world \<Rightarrow> (ptr \<times> world) option" where
  "create_ept cf rdev = (\<lambda>(cb, priv) addr w. core_create_endpoint cf rdev cb priv addr w)"

interpretation epm: address_map "ept_inv rdev" NULL ept_addr_valid RPMSG_ADDR_ANY "create_ept cf rdev" "find_ept rdev" "core_destroy_endpoint rdev"
  for cf rdev
proof (unfold_locales, goal_cases)
  case (1 w T)
  then show ?case by (auto simp: ept_inv_def ept_map_def)
next
  case (2 w T a c)
  obtain cb priv where c: "c = (cb, priv)" by fastforce
  from 2 core_create_endpoint_map [of w rdev T a cf cb priv] obtain p w' where
    p: "core_create_endpoint cf rdev cb priv a w = Some (p, w')" "objs_fresh w'"
    "if p = NULL then ept_map w' rdev T
     else \<exists>b. T b = None \<and> b \<noteq> 0 \<and> unat b < 128 \<and> (a \<noteq> RPMSG_ADDR_ANY \<longrightarrow> b = a) \<and> p \<notin> ran T \<and>
       w_epts w' p = Some (new_ept b cb priv) \<and> ept_map w' rdev (T(b \<mapsto> p))"
    unfolding ept_inv_def ept_addr_valid_def by blast
  then show ?case unfolding ept_inv_def create_ept_def c by (cases "p = NULL") auto
next
  case (3 w T a)
  then have "ept_map (env_unlock_mutex (env_lock_mutex w)) rdev T" "objs_fresh (env_unlock_mutex (env_lock_mutex w))"
    by (auto simp: ept_inv_def objs_fresh_def intro: ept_map_cong)
  then show ?case using 3 find_ept_map [of w rdev T a] by (auto simp: ept_inv_def)
next
  case (4 w T a p)
  then show ?case using core_destroy_endpoint_map [of w rdev T a p] by (auto simp: ept_inv_def)
qed

section \<open>The public functions\<close>

text \<open>Attaching the channel to an endpoint does not touch the table.\<close>

lemma ept_map_attach:
  assumes "ept_map w rdev T" "w_epts w e = Some ep" "ep_addr ep' = ep_addr ep"
  shows "ept_map (w\<lparr>w_epts := (w_epts w)(e \<mapsto> ep')\<rparr>) rdev T"
proof -
  let ?w = "w\<lparr>w_epts := (w_epts w)(e \<mapsto> ep')\<rparr>"
  have n: "node_ept ?w x = map_option (\<lambda>(d, p). (d, if d = e then ep' else p)) (node_ept w x)" for x
    using assms(2) by (cases "w_nodes w x") (auto simp: node_ept_def split: bind_split)
  have "ept_entries ?w xs = ept_entries w xs" for xs
    unfolding ept_entries_def
    by (rule map_cong [OF refl]) (use assms(2,3) n in \<open>auto split: option.splits dest: node_eptD\<close>)
  then show ?thesis using assms(1) n by (simp add: ept_map_def)
qed

lemma ept_inv_attach:
  assumes "ept_inv rdev w T" "w_epts w e = Some ep" "ep_addr ep' = ep_addr ep"
  shows "ept_inv rdev (w\<lparr>w_epts := (w_epts w)(e \<mapsto> ep')\<rparr>) T"
  using assms ept_map_attach [of w rdev T e ep ep'] by (auto simp: ept_inv_def objs_fresh_def)

lemma rpmsg_create_ept_map:
  assumes "ept_inv rdev w T" "w_chnls w chnl = Some ch" "ch_rdev ch = rdev" "chnl \<noteq> NULL" "cb \<noteq> None" "ept_addr_valid addr"
  shows "\<exists>ept w'. rpmsg_create_ept cf chnl cb priv addr w = Some (ept, w') \<and> ept_frame w w' \<and>
    (ept \<noteq> NULL \<longleftrightarrow> cf_alloc_ok cf (w_allocs w) \<and> cf_alloc_ok cf (Suc (w_allocs w)) \<and>
       (if addr = RPMSG_ADDR_ANY then card (dom T) < 127 else addr \<noteq> 0 \<and> unat addr < 128 \<and> T addr = None)) \<and>
    (ept = NULL \<longrightarrow> ept_inv rdev w' T) \<and>
    (ept \<noteq> NULL \<longrightarrow> (\<exists>a. T a = None \<and> a \<noteq> 0 \<and> unat a < 128 \<and> (addr \<noteq> RPMSG_ADDR_ANY \<longrightarrow> a = addr) \<and>
       w_epts w' ept = Some \<lparr>ep_rp_chnl = chnl, ep_cb = cb, ep_addr = a, ep_priv = priv\<rparr> \<and> ept_inv rdev w' (T(a \<mapsto> ept))))"
proof -
  from core_create_endpoint_map [of w rdev T addr cf cb priv] assms(1,6) obtain ept w1 where
    c: "core_create_endpoint cf rdev cb priv addr w = Some (ept, w1)" "objs_fresh w1" "ept_frame w w1"
    "if ept = NULL then ept_map w1 rdev T
     else \<exists>a. T a = None \<and> a \<noteq> 0 \<and> unat a < 128 \<and> (addr \<noteq> RPMSG_ADDR_ANY \<longrightarrow> a = addr) \<and> ept \<notin> ran T \<and>
       w_epts w1 ept = Some (new_ept a cb priv) \<and> ept_map w1 rdev (T(a \<mapsto> ept))"
    "ept \<noteq> NULL \<longleftrightarrow> cf_alloc_ok cf (w_allocs w) \<and> cf_alloc_ok cf (Suc (w_allocs w)) \<and>
       (if addr = RPMSG_ADDR_ANY then card (dom T) < 127 else addr \<noteq> 0 \<and> unat addr < 128 \<and> T addr = None)"
    unfolding ept_inv_def ept_addr_valid_def by blast
  show ?thesis
  proof (cases "ept = NULL")
    case True
    then have "rpmsg_create_ept cf chnl cb priv addr w = Some (NULL, w1)"
      using c(1) assms(2-5) by (auto simp: rpmsg_create_ept_def)
    moreover have "ept_inv rdev w1 T" using True c(2,4) by (simp add: ept_inv_def)
    ultimately show ?thesis using True c(3,5) by blast
  next
    case False
    with c(4) obtain a where a: "T a = None" "a \<noteq> 0" "unat a < 128" "addr \<noteq> RPMSG_ADDR_ANY \<longrightarrow> a = addr"
      "w_epts w1 ept = Some (new_ept a cb priv)" "ept_inv rdev w1 (T(a \<mapsto> ept))" using c(2) by (auto simp: ept_inv_def)
    let ?ep = "\<lparr>ep_rp_chnl = chnl, ep_cb = cb, ep_addr = a, ep_priv = priv\<rparr>"
    let ?w = "w1\<lparr>w_epts := (w_epts w1)(ept \<mapsto> ?ep)\<rparr>"
    have "rpmsg_create_ept cf chnl cb priv addr w = Some (ept, ?w)"
      using False c(1) assms(2-5) a(5) by (simp add: rpmsg_create_ept_def new_ept_def ept_zero_def)
    moreover have "ept_frame w ?w" using c(3) a(5) by (auto simp: ept_frame_def)
    moreover have "ept_inv rdev ?w (T(a \<mapsto> ept))" by (rule ept_inv_attach [OF a(6,5)]) (simp add: new_ept_def)
    moreover have "w_epts ?w ept = Some ?ep" by simp
    ultimately show ?thesis using False a(1-4) c(5) by blast
  qed
qed

lemma rpmsg_destroy_ept_map:
  assumes "ept_inv rdev w T" "T a = Some e" "w_epts w e = Some ep" "w_chnls w (ep_rp_chnl ep) = Some ch" "ch_rdev ch = rdev"
  shows "\<exists>w'. rpmsg_destroy_ept e w = Some w' \<and> ept_inv rdev w' (T(a := None)) \<and> w_epts w' = (w_epts w)(e := None) \<and> ept_frame w w'"
proof -
  have "e \<noteq> NULL" using epm.inv_null [OF assms(1)] assms(2) by (metis ranI)
  moreover from core_destroy_endpoint_map [of w rdev T a e] assms(1,2) obtain w' where
    "core_destroy_endpoint rdev e w = Some w'" "ept_inv rdev w' (T(a := None))" "w_epts w' = (w_epts w)(e := None)" "ept_frame w w'"
    unfolding ept_inv_def by blast
  ultimately show ?thesis using assms(3-5) by (simp add: rpmsg_destroy_ept_def)
qed

section \<open>Properties\<close>

text \<open>
  Property C13.  Creation and destruction of endpoints implement a map from addresses to endpoints.  \<^verbatim>\<open>rpmsg_create_ept\<close> returns an
  endpoint exactly when both allocations succeed and the address asked for is between 1 and 127 and unused (for
  \<^verbatim>\<open>RPMSG_ADDR_ANY\<close>: when fewer than 127 are in use); then the endpoint is registered at a free address, a lookup
  of that address returns it, and \<^verbatim>\<open>rpmsg_destroy_ept\<close> removes it and gives the previous table back.  Otherwise
  the result is \<^verbatim>\<open>NULL\<close> and the table is as before.
\<close>

theorem endpoint_create_destroy_roundtrip:
  assumes "ept_inv rdev w T" "w_chnls w chnl = Some ch" "ch_rdev ch = rdev" "chnl \<noteq> NULL" "cb \<noteq> None" "ept_addr_valid addr"
  shows "\<exists>ept w'. rpmsg_create_ept cf chnl cb priv addr w = Some (ept, w') \<and>
    (ept \<noteq> NULL \<longleftrightarrow> cf_alloc_ok cf (w_allocs w) \<and> cf_alloc_ok cf (Suc (w_allocs w)) \<and>
       (if addr = RPMSG_ADDR_ANY then card (dom T) < 127 else addr \<noteq> 0 \<and> unat addr < 128 \<and> T addr = None)) \<and>
    (if ept = NULL then ept_inv rdev w' T
     else (\<exists>a. T a = None \<and> a \<noteq> 0 \<and> unat a < 128 \<and> (addr \<noteq> RPMSG_ADDR_ANY \<longrightarrow> a = addr) \<and> ept_inv rdev w' (T(a \<mapsto> ept)) \<and>
       (\<exists>w2. find_ept rdev a w' = Some (ept, w2)) \<and>
       (\<exists>w3. rpmsg_destroy_ept ept w' = Some w3 \<and> ept_inv rdev w3 T \<and> w_epts w3 ept = None)))"
proof -
  from rpmsg_create_ept_map [OF assms, of cf priv] obtain ept w' where
    c: "rpmsg_create_ept cf chnl cb priv addr w = Some (ept, w')" "ept_frame w w'"
    "ept \<noteq> NULL \<longleftrightarrow> cf_alloc_ok cf (w_allocs w) \<and> cf_alloc_ok cf (Suc (w_allocs w)) \<and>
       (if addr = RPMSG_ADDR_ANY then card (dom T) < 127 else addr \<noteq> 0 \<and> unat addr < 128 \<and> T addr = None)"
    "ept = NULL \<longrightarrow> ept_inv rdev w' T"
    "ept \<noteq> NULL \<longrightarrow> (\<exists>a. T a = None \<and> a \<noteq> 0 \<and> unat a < 128 \<and> (addr \<noteq> RPMSG_ADDR_ANY \<longrightarrow> a = addr) \<and>
       w_epts w' ept = Some \<lparr>ep_rp_chnl = chnl, ep_cb = cb, ep_addr = a, ep_priv = priv\<rparr> \<and> ept_inv rdev w' (T(a \<mapsto> ept)))" by blast
  show ?thesis
  proof (cases "ept = NULL")
    case True
    then show ?thesis using c(1,3,4) by auto
  next
    case False
    with c(5) obtain a where a: "T a = None" "a \<noteq> 0" "unat a < 128" "addr \<noteq> RPMSG_ADDR_ANY \<longrightarrow> a = addr"
      "w_epts w' ept = Some \<lparr>ep_rp_chnl = chnl, ep_cb = cb, ep_addr = a, ep_priv = priv\<rparr>" "ept_inv rdev w' (T(a \<mapsto> ept))" by blast
    have "w_chnls w' chnl = Some ch" using c(2) assms(2) by (simp add: ept_frame_def)
    then obtain w3 where "rpmsg_destroy_ept ept w' = Some w3" "ept_inv rdev w3 ((T(a \<mapsto> ept))(a := None))" "w_epts w3 ept = None"
      using rpmsg_destroy_ept_map [OF a(6) _ a(5), of a ch] assms(3) by auto
    moreover have "(T(a \<mapsto> ept))(a := None) = T" using a(1) by auto
    moreover obtain w2 where "find_ept rdev a w' = Some (ept, w2)" using epm.search_map [OF a(6), of a] by auto
    ultimately show ?thesis using False c(1,3) a by auto
  qed
qed

definition ept_rdev_example :: remote_device where
  "ept_rdev_example = rdev_zero\<lparr>rd_bitmap := [1, 0, 0, 0]\<rparr>"

definition ept_world_example :: world where
  "ept_world_example = world0\<lparr>w_rdevs := [1 \<mapsto> ept_rdev_example], w_chnls := [5 \<mapsto> chnl_zero\<lparr>ch_rdev := 1\<rparr>]\<rparr>"

lemma ept_inv_example: "ept_inv 1 ept_world_example Map.empty"
  using ept_map_empty [of ept_world_example 1 ept_rdev_example]
  by (simp add: ept_inv_def objs_fresh_def ept_world_example_def ept_rdev_example_def rdev_zero_def world0_def)

theorem endpoint_create_destroy_roundtrip_witness:
  "\<exists>ept w' w2 w3. rpmsg_create_ept cfg_example 5 (Some (App_rx_cb 0)) 1 53 ept_world_example = Some (ept, w') \<and>
     ept \<noteq> NULL \<and> ept_inv 1 w' [53 \<mapsto> ept] \<and> find_ept 1 53 w' = Some (ept, w2) \<and> rpmsg_destroy_ept ept w' = Some w3 \<and> w_epts w3 ept = None"
proof -
  have "w_chnls ept_world_example 5 = Some (chnl_zero\<lparr>ch_rdev := 1\<rparr>)" "ept_addr_valid 53" "(53 :: u32) \<noteq> RPMSG_ADDR_ANY"
    by (simp_all add: ept_world_example_def ept_addr_valid_def RPMSG_ADDR_ANY_def)
  then show ?thesis
    using endpoint_create_destroy_roundtrip [OF ept_inv_example, of 5 "chnl_zero\<lparr>ch_rdev := 1\<rparr>" "Some (App_rx_cb 0)" 53 cfg_example 1]
    by (auto simp: cfg_example_def)
qed

text \<open>
  The steps of a client of the endpoint table; an endpoint is destroyed only while it is registered.
\<close>

inductive ept_step :: "config \<Rightarrow> ptr \<Rightarrow> world \<Rightarrow> world \<Rightarrow> bool" for cf rdev where
  create: "ept_addr_valid addr \<Longrightarrow> core_create_endpoint cf rdev cb priv addr w = Some (e, w') \<Longrightarrow> ept_step cf rdev w w'"
| lookup: "find_ept rdev a w = Some (e, w') \<Longrightarrow> ept_step cf rdev w w'"
| destroy: "find_ept rdev a w = Some (e, w') \<Longrightarrow> e \<noteq> NULL \<Longrightarrow> core_destroy_endpoint rdev e w' = Some w'' \<Longrightarrow> ept_step cf rdev w w''"

lemma ept_step_inv: "ept_step cf rdev w w' \<Longrightarrow> \<exists>T. ept_inv rdev w T \<Longrightarrow> \<exists>T. ept_inv rdev w' T"
proof (induction rule: ept_step.induct)
  case (create addr cb priv w e w')
  then show ?case using epm.create_inv [of rdev w _ addr cf "(cb, priv)" e w'] by (auto simp: create_ept_def)
next
  case (lookup a w e w')
  then show ?case using epm.search_hit(1) by blast
next
  case (destroy a w e w' w'')
  then show ?case using epm.destroy_inv [of rdev w _ a e w' w''] by blast
qed

text \<open>
  Property C15.  Consistency of the endpoint table in every reachable state: starting from a device that has just been
  initialised, after any sequence of creations (successful or not), lookups and destructions the list and the address bitmap
  describe the same map; no step can fail to return; and no two registered endpoints have the same address.
\<close>

theorem endpoint_table_consistent:
  assumes "w_rdevs w0 rdev = Some rd" "rd_rp_endpoints rd = NULL" "rd_bitmap rd = [1, 0, 0, 0]" "objs_fresh w0"
    and "rtranclp (ept_step cf rdev) w0 w"
  shows "\<exists>T. ept_inv rdev w T \<and>
    (\<forall>addr cb priv. ept_addr_valid addr \<longrightarrow> core_create_endpoint cf rdev cb priv addr w \<noteq> None) \<and>
    (\<forall>a. \<exists>w'. find_ept rdev a w = Some (case T a of None \<Rightarrow> NULL | Some e \<Rightarrow> e, w')) \<and>
    (\<forall>a e. T a = Some e \<longrightarrow> core_destroy_endpoint rdev e w \<noteq> None \<and> (\<exists>ep. w_epts w e = Some ep \<and> ep_addr ep = a)) \<and>
    (\<forall>a b e. T a = Some e \<and> T b = Some e \<longrightarrow> a = b)"
proof -
  have "\<exists>T. ept_inv rdev w0 T" using ept_map_empty [OF assms(1-3)] assms(4) by (auto simp: ept_inv_def)
  with assms(5) have "\<exists>T. ept_inv rdev w T" by (induction rule: rtranclp_induct) (auto dest: ept_step_inv)
  then obtain T where T: "ept_inv rdev w T" by blast
  have ep: "\<exists>ep. w_epts w e = Some ep \<and> ep_addr ep = a" if "T a = Some e" for a e
  proof -
    from T obtain xs where "distinct (map fst (ept_entries w xs))" "\<forall>x \<in> set xs. node_ept w x \<noteq> None" "T = map_of (ept_entries w xs)"
      unfolding ept_inv_def ept_map_def by blast
    then show ?thesis using that ept_map_lookup_iff by (metis node_eptD)
  qed
  show ?thesis
  proof (intro exI [of _ T] conjI allI impI)
    show "core_create_endpoint cf rdev cb priv addr w \<noteq> None" if "ept_addr_valid addr" for addr cb priv
      using epm.create_map [OF T that, of cf "(cb, priv)"] by (auto simp: create_ept_def)
    show "\<exists>w'. find_ept rdev a w = Some (case T a of None \<Rightarrow> NULL | Some e \<Rightarrow> e, w')" for a
      using epm.search_map [OF T, of a] by auto
    show "core_destroy_endpoint rdev e w \<noteq> None" if "T a = Some e" for a e using epm.destroy_map [OF T that] by auto
    show "a = b" if "T a = Some e \<and> T b = Some e" for a b e using ep [of a e] ep [of b e] that by auto
  qed (use T ep in auto)
qed

theorem endpoint_table_consistent_witness:
  "\<exists>e w T. core_create_endpoint cfg_example 1 None 1 53 ept_world_example = Some (e, w) \<and> ept_inv 1 w T \<and>
     (\<forall>a. \<exists>w'. find_ept 1 a w = Some (case T a of None \<Rightarrow> NULL | Some e \<Rightarrow> e, w'))"
proof -
  have v: "ept_addr_valid 53" by (simp add: ept_addr_valid_def)
  then obtain e w where e: "core_create_endpoint cfg_example 1 None 1 53 ept_world_example = Some (e, w)"
    using epm.create_map [OF ept_inv_example, of 53 cfg_example "(None, 1)"] by (auto simp: create_ept_def)
  then have "rtranclp (ept_step cfg_example 1) ept_world_example w" using v ept_step.create by (intro r_into_rtranclp)
  then show ?thesis
    using endpoint_table_consistent [of ept_world_example 1 ept_rdev_example cfg_example w] e ept_inv_example
    by (auto simp: ept_world_example_def ept_rdev_example_def rdev_zero_def ept_inv_def)
qed

end
