(* ===== verification/Channels.thy ===== *)
theory Channels
  imports EptMap
begin

text \<open>
  The channels of a remote device as a list.  Channel nodes and endpoint nodes live in one heap; because the
  objects they lead to are different, neither operation disturbs the other list.  Creation puts a channel in front, a
  search by name finds the first channel of that name, and deletion removes that one, which is the right one as long as
  names are not shared.
\<close>

section \<open>Names\<close>

lemma env_strncmp_total: "n \<le> length a \<Longrightarrow> n \<le> length b \<Longrightarrow> \<exists>v. env_strncmp a b n = Some v"
  by (induction a b n rule: env_strncmp.induct) auto

lemma env_strncpy_total: "n \<le> length s \<Longrightarrow> \<exists>d. env_strncpy s n = Some d"
  by (induction s n rule: env_strncpy.induct) auto

text \<open>A name that has been copied once is in normal form.\<close>

lemma env_strncpy_replicate: "env_strncpy (replicate n NUL) n = Some (replicate n NUL)"
  by (cases n) simp_all

lemma env_strncpy_idem: "env_strncpy s n = Some d \<Longrightarrow> env_strncpy d n = Some d"
proof (induction s n arbitrary: d rule: env_strncpy.induct)
  case (2 c s n)
  then show ?case using env_strncpy_replicate [of "Suc n"] by (auto split: if_splits)
qed simp_all

definition name_eq :: "char list \<Rightarrow> char list \<Rightarrow> bool" where
  "name_eq a b \<longleftrightarrow> env_strncmp a b RPMSG_NAME_SIZE = Some 0"

lemma name_eq_refl: "length a = RPMSG_NAME_SIZE \<Longrightarrow> name_eq a a"
  by (simp add: name_eq_def env_strncmp_refl)

section \<open>The list\<close>

definition chnl_entry :: "ptr \<Rightarrow> world \<Rightarrow> ptr \<Rightarrow> ptr \<Rightarrow> bool" where
  "chnl_entry rdev w y c \<longleftrightarrow> (\<exists>n ch. w_nodes w y = Some n \<and> ll_data n = c \<and> w_chnls w c = Some ch \<and> ch_rdev ch = rdev \<and>
     length (ch_name ch) = RPMSG_NAME_SIZE)"

definition chnl_inv :: "ptr \<Rightarrow> world \<Rightarrow> ptr list \<Rightarrow> bool" where
  "chnl_inv rdev w cs \<longleftrightarrow> (\<exists>rd ys. w_rdevs w rdev = Some rd \<and> node_seq (w_nodes w) (rd_rp_channels rd) ys \<and>
     list_all2 (chnl_entry rdev w) ys cs) \<and> distinct cs \<and> NULL \<notin> set cs \<and>
     (\<forall>p. w_chnls w p = None \<or> w_epts w p = None) \<and> (\<forall>p \<ge> w_next w. w_chnls w p = None)"

lemma chnl_invE:
  assumes "chnl_inv rdev w cs"
  obtains rd ys where "w_rdevs w rdev = Some rd" "node_seq (w_nodes w) (rd_rp_channels rd) ys" "list_all2 (chnl_entry rdev w) ys cs"
    "distinct cs" "NULL \<notin> set cs" "\<And>p. w_chnls w p = None \<or> w_epts w p = None" "\<And>p. p \<ge> w_next w \<Longrightarrow> w_chnls w p = None"
  using assms unfolding chnl_inv_def by blast

lemma chnl_entry_set: "list_all2 (chnl_entry rdev w) ys cs \<Longrightarrow> y \<in> set ys \<Longrightarrow> \<exists>c \<in> set cs. chnl_entry rdev w y c"
  by (induction rule: list_all2_induct) auto

lemma chnl_entry_mem: "list_all2 (chnl_entry rdev w) ys cs \<Longrightarrow> c \<in> set cs \<Longrightarrow> \<exists>y \<in> set ys. chnl_entry rdev w y c"
  by (induction rule: list_all2_induct) auto

lemma chnl_inv_chnl: "chnl_inv rdev w cs \<Longrightarrow> c \<in> set cs \<Longrightarrow>
    \<exists>ch. w_chnls w c = Some ch \<and> ch_rdev ch = rdev \<and> length (ch_name ch) = RPMSG_NAME_SIZE"
  by (erule chnl_invE) (force dest: chnl_entry_mem simp: chnl_entry_def)

text \<open>Channel nodes and endpoint nodes are different.\<close>

lemma nodes_disjoint:
  assumes "chnl_entry rdev w y c" "w_chnls w c = None \<or> w_epts w c = None"
  shows "node_ept w y = None"
  using assms by (auto simp: chnl_entry_def node_ept_def)

text \<open>The endpoint operations keep the channels.\<close>

lemma chnl_inv_ept_frame:
  assumes "chnl_inv rdev w cs" "ept_frame w w'"
  shows "chnl_inv rdev w' cs"
proof -
  from assms(1) obtain rd ys where c: "w_rdevs w rdev = Some rd" "node_seq (w_nodes w) (rd_rp_channels rd) ys"
    "list_all2 (chnl_entry rdev w) ys cs" "distinct cs" "NULL \<notin> set cs"
    and d: "\<And>p. w_chnls w p = None \<or> w_epts w p = None" "\<And>p. p \<ge> w_next w \<Longrightarrow> w_chnls w p = None"
    by (rule chnl_invE) blast
  have f: "w_chnls w' = w_chnls w" "w_next w \<le> w_next w'" "map_option rd_rest (w_rdevs w' rdev) = map_option rd_rest (w_rdevs w rdev)"
    "\<And>x n. w_nodes w x = Some n \<and> w_epts w (ll_data n) = None \<Longrightarrow> w_nodes w' x = Some n"
    "\<And>e. w_epts w' e \<noteq> None \<Longrightarrow> w_epts w e \<noteq> None \<or> w_next w \<le> e"
    using assms(2) unfolding ept_frame_def by auto
  from f(3) c(1) obtain rd' where rd': "w_rdevs w' rdev = Some rd'" "rd_rest rd' = rd_rest rd" by auto
  then have ch: "rd_rp_channels rd' = rd_rp_channels rd" unfolding rd_rest_def by (metis remote_device.ext_inject remote_device.surjective remote_device.update_convs(7,9))
  have keep: "w_nodes w' y = w_nodes w y" "chnl_entry rdev w' y z" if y: "chnl_entry rdev w y z" for y z
  proof -
    from y obtain n ch where n: "w_nodes w y = Some n" "ll_data n = z" "w_chnls w z = Some ch" by (auto simp: chnl_entry_def)
    then have "w_nodes w' y = Some n" using d(1) [of z] by (intro f(4)) auto
    with n y f(1) show "w_nodes w' y = w_nodes w y" "chnl_entry rdev w' y z" by (auto simp: chnl_entry_def)
  qed
  have "node_seq (w_nodes w') (rd_rp_channels rd') ys"
    unfolding ch using c(2) by (rule node_seq_frame) (use chnl_entry_set [OF c(3)] keep(1) in blast)
  moreover have "list_all2 (chnl_entry rdev w') ys cs" using c(3) keep(2) by (rule list_all2_mono)
  moreover have "w_chnls w' p = None \<or> w_epts w' p = None" for p using d(1) [of p] d(2) [of p] f(1) f(5) [of p] by auto
  ultimately show ?thesis using rd'(1) c(4,5) d(2) f(1,2) unfolding chnl_inv_def by auto
qed

section \<open>Creation\<close>

text \<open>An operation on other nodes keeps the endpoints.\<close>

lemma ept_map_frame:
  assumes "ept_map w rdev T" "\<And>x. node_ept w x \<noteq> None \<Longrightarrow> w_nodes w' x = w_nodes w x" "w_epts w' = w_epts w"
    and "w_rdevs w rdev = Some rd" "w_rdevs w' rdev = Some rd'" "rd_rp_endpoints rd' = rd_rp_endpoints rd" "rd_bitmap rd' = rd_bitmap rd"
  shows "ept_map w' rdev T"
proof -
  from assms(1) obtain rd0 xs where rd0: "w_rdevs w rdev = Some rd0" and e0: "length (rd_bitmap rd0) = RPMSG_ADDR_BMP_SIZE"
    "node_seq (w_nodes w) (rd_rp_endpoints rd0) xs"
    "\<forall>x \<in> set xs. node_ept w x \<noteq> None" "distinct (map fst (ept_entries w xs))" "T = map_of (ept_entries w xs)" "NULL \<notin> ran T"
    "addr_set (rd_bitmap rd0) = insert 0 (unat ` dom T)" "0 \<notin> dom T" by (rule ept_mapE)
  from rd0 assms(4) have "rd0 = rd" by simp
  note e = e0 [unfolded this]
  have n: "node_ept w' x = node_ept w x" if "x \<in> set xs" for x using that e(3) assms(2,3) by (simp add: node_ept_def)
  have ent: "ept_entries w' xs = ept_entries w xs" using n by (rule ept_entries_cong)
  show ?thesis
  proof (rule ept_mapI [OF assms(5), where xs = xs])
    show "node_seq (w_nodes w') (rd_rp_endpoints rd') xs"
      unfolding assms(6) using e(2) by (rule node_seq_frame) (use e(3) assms(2) in blast)
  qed (use e assms(7) ent n in auto)
qed

lemma core_create_channel_inv:
  assumes "ept_inv rdev w T" "chnl_inv rdev w cs" "env_strncpy name RPMSG_NAME_SIZE = Some nm"
    and "cf_alloc_ok cf (w_allocs w)" "cf_alloc_ok cf (Suc (w_allocs w))"
  shows "\<exists>w'. core_rpmsg_create_channel cf rdev name src dst w = Some (w_next w, w') \<and> ept_inv rdev w' T \<and>
    chnl_inv rdev w' (w_next w # cs) \<and> w_next w \<noteq> NULL \<and> w_chnls w (w_next w) = None \<and>
    w_chnls w' = (w_chnls w)(w_next w \<mapsto>
      \<lparr>ch_name = nm, ch_src = src, ch_dst = dst, ch_rdev = rdev, ch_rp_ept = NULL, ch_state = RPMSG_CHNL_STATE_IDLE\<rparr>) \<and>
    w_epts w' = w_epts w \<and> w_mem w' = w_mem w \<and> w_vqs w' = w_vqs w \<and> w_rings w' = w_rings w \<and> w_pools w' = w_pools w \<and>
    w_procs w' = w_procs w \<and> w_app w' = w_app w \<and> w_next w' = Suc (Suc (w_next w)) \<and> w_allocs w' = Suc (Suc (w_allocs w)) \<and>
    (\<exists>rd p. w_rdevs w rdev = Some rd \<and> w_rdevs w' rdev = Some (rd\<lparr>rd_rp_channels := p\<rparr>))"
proof -
  let ?c = "w_next w" and ?n = "Suc (w_next w)"
  let ?ch = "\<lparr>ch_name = nm, ch_src = src, ch_dst = dst, ch_rdev = rdev, ch_rp_ept = NULL, ch_state = RPMSG_CHNL_STATE_IDLE\<rparr>"
  let ?h = "(w_nodes w)(?n \<mapsto> llist0\<lparr>ll_data := ?c\<rparr>)"
  from assms(2) obtain rd ys where rd: "w_rdevs w rdev = Some rd" "node_seq (w_nodes w) (rd_rp_channels rd) ys"
    "list_all2 (chnl_entry rdev w) ys cs" "distinct cs" "NULL \<notin> set cs"
    and d: "\<And>p. w_chnls w p = None \<or> w_epts w p = None" "\<And>p. p \<ge> w_next w \<Longrightarrow> w_chnls w p = None" by (rule chnl_invE) blast
  have pos: "0 < w_next w" and none: "\<And>p. p \<ge> w_next w \<Longrightarrow> w_nodes w p = None \<and> w_epts w p = None"
    using assms(1) by (auto simp: ept_inv_def objs_fresh_def)
  have nin: "?n \<notin> set ys" using rd(2) none [of ?n] by (auto simp: node_seq_def dest: dll_alloc)
  then have seq: "node_seq ?h (rd_rp_channels rd) ys" using rd(2) by (simp add: node_seq_def)
  from ll.add_seq [OF this _ nin] obtain h' where h': "add_to_list ?h (rd_rp_channels rd) ?n = Some (h', ?n)"
    "node_seq h' ?n (?n # ys)" "same_data ?h h'" by (auto simp: node_fresh_def)
  have keep: "h' x = w_nodes w x" if "x \<notin> set ys" "x \<noteq> ?n" for x
    using add_to_list_frame [OF _ _ _ _ nin h'(1), of x] seq that by (simp add: node_seq_def)
  define w' where "w' = env_unlock_mutex ((env_lock_mutex (w\<lparr>w_chnls := (w_chnls w)(?c \<mapsto> ?ch),
      w_next := Suc ?n, w_allocs := Suc (Suc (w_allocs w))\<rparr>))\<lparr>w_nodes := h', w_rdevs := (w_rdevs w)(rdev \<mapsto> rd\<lparr>rd_rp_channels := ?n\<rparr>)\<rparr>)"
  have run: "core_rpmsg_create_channel cf rdev name src dst w = Some (?c, w')"
    using assms(3-5) pos rd(1) h'(1)
    by (simp add: core_rpmsg_create_channel_def env_allocate_memory_def Let_def chnl_zero_def w'_def RPMSG_CHNL_STATE_IDLE_def)
  have "ept_map w' rdev T"
  proof (rule ept_map_frame [where w = w and rd' = "rd\<lparr>rd_rp_channels := ?n\<rparr>"])
    show "w_nodes w' x = w_nodes w x" if x: "node_ept w x \<noteq> None" for x
    proof -
      have "x \<notin> set ys"
      proof
        assume "x \<in> set ys"
        with chnl_entry_set [OF rd(3)] obtain z where "chnl_entry rdev w x z" by blast
        from nodes_disjoint [OF this d(1)] x show False by simp
      qed
      moreover have "x \<noteq> ?n" using none [of ?n] x by (auto simp: node_ept_def)
      ultimately show ?thesis by (simp add: keep w'_def)
    qed
  qed (use assms(1) rd(1) in \<open>simp_all add: ept_inv_def w'_def\<close>)
  moreover have "objs_fresh w'"
  proof -
    have "h' p = None" if "Suc ?n \<le> p" for p using same_data_None [OF h'(3), of p] none [of p] that by simp
    then show ?thesis using none by (simp add: objs_fresh_def w'_def)
  qed
  ultimately have "ept_inv rdev w' T" by (simp add: ept_inv_def)
  moreover have "chnl_inv rdev w' (?c # cs)"
  proof -
    have "chnl_entry rdev w' y z" if "chnl_entry rdev w y z" for y z
    proof -
      from that obtain n ch where n: "w_nodes w y = Some n" "ll_data n = z" "w_chnls w z = Some ch" "ch_rdev ch = rdev"
        "length (ch_name ch) = RPMSG_NAME_SIZE" by (auto simp: chnl_entry_def)
      have "y \<noteq> ?n" "z \<noteq> ?c" using n none [of ?n] d(2) [of ?c] by auto
      then have "?h y = Some n" using n(1) by simp
      from same_data_node [OF h'(3) this] n \<open>z \<noteq> ?c\<close> show ?thesis by (auto simp: chnl_entry_def w'_def)
    qed
    then have "list_all2 (chnl_entry rdev w') ys cs" using rd(3) by (auto elim: list_all2_mono)
    moreover have "chnl_entry rdev w' ?n ?c"
      using same_data_node [OF h'(3), of ?n] env_strncpy_length [OF assms(3)] by (auto simp: chnl_entry_def w'_def)
    moreover have "?c \<notin> set cs" using chnl_inv_chnl [OF assms(2)] d(2) [of ?c] by fastforce
    ultimately show ?thesis using rd(4,5) h'(2) pos d none [of ?c]
      by (auto simp: chnl_inv_def w'_def intro!: exI [of _ "?n # ys"])
  qed
  ultimately show ?thesis using run pos d(2) [of ?c] rd(1) by (auto simp: w'_def)
qed

section \<open>Search\<close>

definition named :: "world \<Rightarrow> char list \<Rightarrow> ptr \<Rightarrow> bool" where
  "named w name c \<longleftrightarrow> (\<exists>ch. w_chnls w c = Some ch \<and> name_eq (ch_name ch) name)"

lemma chnl_entry_node: "chnl_entry rdev w y c \<Longrightarrow> \<exists>n. w_nodes w y = Some n \<and> ll_data n = c"
  unfolding chnl_entry_def by blast

lemma chnl_entry_fun: "chnl_entry rdev w y c \<Longrightarrow> chnl_entry rdev w y c' \<Longrightarrow> c = c'"
  by (drule chnl_entry_node)+ auto

lemma chnl_entry_filter:
  "list_all2 (chnl_entry rdev w) ys cs \<Longrightarrow>
     list_all2 (chnl_entry rdev w) (filter (\<lambda>y. \<exists>n. w_nodes w y = Some n \<and> P (ll_data n)) ys) (filter P cs)"
proof (induction rule: list_all2_induct)
  case (Cons y ys c cs)
  from Cons.hyps(1) have "(\<exists>n. w_nodes w y = Some n \<and> P (ll_data n)) \<longleftrightarrow> P c" by (drule_tac chnl_entry_node) auto
  then show ?case using Cons by simp
qed simp

lemma chnl_find:
  assumes rd: "w_rdevs w rdev = Some rd" "node_seq (w_nodes w) (rd_rp_channels rd) ys" "list_all2 (chnl_entry rdev w) ys cs"
    and "length name = RPMSG_NAME_SIZE"
  shows "\<exists>node. rpmsg_rdev_get_chnl_node_from_id rdev name w = Some (node, env_unlock_mutex (env_lock_mutex w)) \<and>
    (case filter (named w name) cs of [] \<Rightarrow> node = NULL | c # _ \<Rightarrow> node \<noteq> NULL \<and> node \<in> set ys \<and> chnl_entry rdev w node c)"
proof -
  let ?Q = "\<lambda>y. \<exists>n. w_nodes w y = Some n \<and> named w name (ll_data n)"
  have "chnl_name_is name (env_lock_mutex w) (ll_data n) = Some (?Q y)" if "y \<in> set ys" "w_nodes w y = Some n" for y n
  proof -
    from chnl_entry_set [OF rd(3) that(1)] that(2) obtain ch where
      ch: "w_chnls w (ll_data n) = Some ch" "length (ch_name ch) = RPMSG_NAME_SIZE" by (auto simp: chnl_entry_def)
    with env_strncmp_total [of RPMSG_NAME_SIZE "ch_name ch" name] assms(4) obtain v where
      "env_strncmp (ch_name ch) name RPMSG_NAME_SIZE = Some v" by auto
    then show ?thesis using ch that(2) by (auto simp: chnl_name_is_def named_def name_eq_def)
  qed
  then have f: "find_node (w_nodes w) (chnl_name_is name (env_lock_mutex w)) (rd_rp_channels rd) =
      Some (case filter ?Q ys of [] \<Rightarrow> NULL | y # _ \<Rightarrow> y)"
    using rd(2) by (intro find_node_correct) (simp_all add: node_seq_def)
  note fil = chnl_entry_filter [OF rd(3), of "named w name"]
  have nn: "y \<noteq> NULL" if "y \<in> set ys" for y using rd(2) that by (auto simp: node_seq_def dest: dll_alloc)
  show ?thesis
  proof (cases "filter ?Q ys")
    case Nil
    then have "filter (named w name) cs = []" using fil by simp
    then show ?thesis using f Nil rd(1) by (simp add: rpmsg_rdev_get_chnl_node_from_id_def)
  next
    case (Cons y zs)
    then obtain c cz where "filter (named w name) cs = c # cz" "chnl_entry rdev w y c" using fil by (auto simp: list_all2_Cons1)
    moreover have "y \<in> set (filter ?Q ys)" unfolding Cons by simp
    then have "y \<in> set ys" by simp
    ultimately show ?thesis using f Cons rd(1) nn by (simp add: rpmsg_rdev_get_chnl_node_from_id_def)
  qed
qed

section \<open>Deletion\<close>

lemma list_all2_remove1:
  assumes "list_all2 R ys cs" "distinct cs" "y \<in> set ys" "R y c" "\<And>a b b'. R a b \<Longrightarrow> R a b' \<Longrightarrow> b = b'"
  shows "list_all2 R (remove1 y ys) (remove1 c cs)"
  using assms(1-3)
proof (induction rule: list_all2_induct)
  case (Cons y0 ys c0 cs)
  show ?case
  proof (cases "y0 = y")
    case True
    then have "c0 = c" using Cons.hyps(1) assms(4,5) by blast
    then show ?thesis using True Cons.hyps(2) by simp
  next
    case False
    then have y: "y \<in> set ys" using Cons.prems(2) by simp
    have "c \<in> set cs"
    proof -
      from y Cons.hyps(2) obtain c' where "c' \<in> set cs" "R y c'" by (metis in_set_conv_nth list_all2_conv_all_nth)
      then show ?thesis using assms(4,5) by blast
    qed
    then have "c0 \<noteq> c" using Cons.prems(1) by auto
    then show ?thesis using False Cons y by simp
  qed
qed simp

text \<open>What a deletion leaves alone.\<close>

definition chnl_frame :: "world \<Rightarrow> world \<Rightarrow> bool" where
  "chnl_frame w w' \<longleftrightarrow> w_mem w' = w_mem w \<and> w_epts w' = w_epts w \<and> w_vqs w' = w_vqs w \<and> w_rings w' = w_rings w \<and>
     w_pools w' = w_pools w \<and> w_procs w' = w_procs w \<and> w_app w' = w_app w \<and> w_next w' = w_next w \<and> w_allocs w' = w_allocs w"

text \<open>Deletion frees the given channel and unlinks the first channel of its name.\<close>

lemma core_delete_channel_step:
  assumes "ept_inv rdev w T" "chnl_inv rdev w cs" "w_chnls w c = Some ch" "ch_rdev ch = rdev" "length (ch_name ch) = RPMSG_NAME_SIZE"
    and "c \<noteq> NULL" "filter (named w (ch_name ch)) cs = c0 # zs"
  shows "\<exists>w' rd p ys. core_rpmsg_delete_channel c w = Some w' \<and> w_rdevs w rdev = Some rd \<and>
    w_rdevs w' rdev = Some (rd\<lparr>rd_rp_channels := p\<rparr>) \<and> node_seq (w_nodes w') p ys \<and>
    list_all2 (\<lambda>y d. \<exists>n. w_nodes w' y = Some n \<and> ll_data n = d) ys (remove1 c0 cs) \<and>
    w_chnls w' = (w_chnls w)(c := None) \<and> ept_inv rdev w' T \<and> chnl_frame w w'"
proof -
  from assms(2) obtain rd ys where rd: "w_rdevs w rdev = Some rd" "node_seq (w_nodes w) (rd_rp_channels rd) ys"
    "list_all2 (chnl_entry rdev w) ys cs" "distinct cs" "NULL \<notin> set cs"
    and d: "\<And>p. w_chnls w p = None \<or> w_epts w p = None" "\<And>p. p \<ge> w_next w \<Longrightarrow> w_chnls w p = None" by (rule chnl_invE) blast
  from chnl_find [OF rd(1-3) assms(5)] assms(7) obtain y where y: "y \<noteq> NULL" "y \<in> set ys" "chnl_entry rdev w y c0"
    "rpmsg_rdev_get_chnl_node_from_id rdev (ch_name ch) w = Some (y, env_unlock_mutex (env_lock_mutex w))" by auto
  from ll.remove_seq [OF rd(2) y(2)] obtain h p where h: "remove_from_list (w_nodes w) (rd_rp_channels rd) y = Some (h, p)"
    "node_seq h p (remove1 y ys)" "same_data (w_nodes w) h" by blast
  have dy: "distinct ys" using rd(2) by (simp add: node_seq_def)
  define w' where "w' = (env_unlock_mutex ((env_lock_mutex (env_unlock_mutex (env_lock_mutex w)))\<lparr>w_nodes := h,
    w_rdevs := (w_rdevs w)(rdev \<mapsto> rd\<lparr>rd_rp_channels := p\<rparr>)\<rparr>))\<lparr>w_nodes := h(y := None), w_chnls := (w_chnls w)(c := None)\<rparr>"
  have run: "core_rpmsg_delete_channel c w = Some w'"
    using assms(3,4,6) y(1,4) rd(1) h(1) by (simp add: core_rpmsg_delete_channel_def Let_def w'_def)
  have "ept_map w' rdev T"
  proof (rule ept_map_frame [where w = w and rd' = "rd\<lparr>rd_rp_channels := p\<rparr>"])
    show "w_nodes w' x = w_nodes w x" if x: "node_ept w x \<noteq> None" for x
    proof -
      have "x \<notin> set ys"
      proof
        assume "x \<in> set ys"
        with chnl_entry_set [OF rd(3)] obtain z where "chnl_entry rdev w x z" by blast
        from nodes_disjoint [OF this d(1)] x show False by simp
      qed
      then show ?thesis using remove_from_list_frame [OF _ dy y(2) h(1)] rd(2) y(2) by (auto simp: w'_def node_seq_def)
    qed
  qed (use assms(1) rd(1) in \<open>simp_all add: ept_inv_def w'_def\<close>)
  moreover have "objs_fresh w'"
    using assms(1) same_data_None [OF h(3)] by (simp add: ept_inv_def objs_fresh_def w'_def)
  ultimately have "ept_inv rdev w' T" by (simp add: ept_inv_def)
  moreover have "node_seq (w_nodes w') p (remove1 y ys)"
    using h(2) by (rule node_seq_frame) (use dy in \<open>auto simp: w'_def\<close>)
  moreover have "list_all2 (\<lambda>y d. \<exists>n. w_nodes w' y = Some n \<and> ll_data n = d) (remove1 y ys) (remove1 c0 cs)"
  proof (rule list.rel_mono_strong [OF list_all2_remove1 [OF rd(3,4) y(2,3)]])
    show "\<exists>n. w_nodes w' z = Some n \<and> ll_data n = e" if "z \<in> set (remove1 y ys)" "chnl_entry rdev w z e" for z e
      using that dy chnl_entry_node [OF that(2)] same_data_node [OF h(3)] by (auto simp: w'_def)
  qed (rule chnl_entry_fun)
  ultimately show ?thesis using run rd(1)
    by (intro exI [of _ w'] exI [of _ rd] exI [of _ p] exI [of _ "remove1 y ys"]) (simp add: w'_def chnl_frame_def)
qed

lemma core_delete_channel_inv:
  assumes "ept_inv rdev w T" "chnl_inv rdev w cs" "c \<in> set cs" "w_chnls w c = Some ch" "filter (named w (ch_name ch)) cs = c # zs"
  shows "\<exists>w'. core_rpmsg_delete_channel c w = Some w' \<and> chnl_inv rdev w' (remove1 c cs) \<and> ept_inv rdev w' T \<and>
    w_chnls w' = (w_chnls w)(c := None) \<and> chnl_frame w w'"
proof -
  from assms(2) have inv: "distinct cs" "NULL \<notin> set cs" "\<And>p. w_chnls w p = None \<or> w_epts w p = None" "\<And>p. p \<ge> w_next w \<Longrightarrow> w_chnls w p = None"
    by (auto simp: chnl_inv_def)
  from chnl_inv_chnl [OF assms(2,3)] assms(4) have ch: "ch_rdev ch = rdev" "length (ch_name ch) = RPMSG_NAME_SIZE" by auto
  have "c \<noteq> NULL" using assms(3) inv(2) by metis
  from core_delete_channel_step [OF assms(1,2,4) ch this assms(5)] obtain w' rd p ys where
    w': "core_rpmsg_delete_channel c w = Some w'" "w_rdevs w' rdev = Some (rd\<lparr>rd_rp_channels := p\<rparr>)" "node_seq (w_nodes w') p ys"
    "list_all2 (\<lambda>y d. \<exists>n. w_nodes w' y = Some n \<and> ll_data n = d) ys (remove1 c cs)"
    "w_chnls w' = (w_chnls w)(c := None)" "ept_inv rdev w' T" "chnl_frame w w'" by blast
  have "list_all2 (chnl_entry rdev w') ys (remove1 c cs)"
  proof (rule list.rel_mono_strong [OF w'(4)])
    fix y d
    assume yd: "d \<in> set (remove1 c cs)" "\<exists>n. w_nodes w' y = Some n \<and> ll_data n = d"
    then have "d \<noteq> c" "d \<in> set cs" using inv(1) by auto
    then show "chnl_entry rdev w' y d" using yd(2) chnl_inv_chnl [OF assms(2)] w'(5) by (auto simp: chnl_entry_def)
  qed
  then have "chnl_inv rdev w' (remove1 c cs)"
    using w'(2,3,5,7) inv by (auto simp: chnl_inv_def chnl_frame_def)
  then show ?thesis using w' by blast
qed

text \<open>
  Property C29.  Two channels of one name: \<^verbatim>\<open>_rpmsg_delete_channel\<close> on the older one frees that channel but unlinks the
  node of the newer one, because it looks the node up by name.  The list keeps a node whose channel has been
  freed, and the next search by name reads the freed channel (the search has no defined result).
\<close>

theorem delete_channel_shared_name:
  assumes "ept_inv rdev w T" "chnl_inv rdev w (c1 # c2 # cs)" "w_chnls w c1 = Some ch1" "w_chnls w c2 = Some ch2"
    and "name_eq (ch_name ch1) (ch_name ch2)"
  shows "\<exists>w'. core_rpmsg_delete_channel c2 w = Some w' \<and> w_chnls w' c2 = None \<and> w_chnls w' c1 = Some ch1 \<and>
    (\<forall>name. rpmsg_rdev_get_chnl_node_from_id rdev name w' = None)"
proof -
  have "c2 \<in> set (c1 # c2 # cs)" by simp
  from chnl_inv_chnl [OF assms(2) this] assms(4) have ch: "ch_rdev ch2 = rdev" "length (ch_name ch2) = RPMSG_NAME_SIZE" by auto
  have ne: "c2 \<noteq> NULL" "c1 \<noteq> c2" using assms(2) by (auto simp: chnl_inv_def)
  have "\<exists>zs. filter (named w (ch_name ch2)) (c1 # c2 # cs) = c1 # zs" using assms(3,5) by (simp add: named_def)
  then obtain zs where "filter (named w (ch_name ch2)) (c1 # c2 # cs) = c1 # zs" by blast
  from core_delete_channel_step [OF assms(1,2,4) ch ne(1) this] obtain w' rd p ys where
    w': "core_rpmsg_delete_channel c2 w = Some w'" "w_rdevs w' rdev = Some (rd\<lparr>rd_rp_channels := p\<rparr>)" "node_seq (w_nodes w') p ys"
    "list_all2 (\<lambda>y d. \<exists>n. w_nodes w' y = Some n \<and> ll_data n = d) ys (c2 # cs)"
    "w_chnls w' = (w_chnls w)(c2 := None)" by auto
  from w'(3,4) obtain n where n: "p \<noteq> NULL" "w_nodes w' p = Some n" "ll_data n = c2"
    by (auto simp: node_seq_def list_all2_Cons2 dest: dll_head)
  have "rpmsg_rdev_get_chnl_node_from_id rdev name w' = None" for name
    using n w'(2,5) by (simp add: rpmsg_rdev_get_chnl_node_from_id_def find_node.simps chnl_name_is_def)
  then show ?thesis using w'(1,5) assms(3) ne(2) by auto
qed

text \<open>Two channels called ping.\<close>

definition ping_chnl :: "ptr \<Rightarrow> rpmsg_channel" where
  "ping_chnl rdev = \<lparr>ch_name = ''ping'' @ replicate 28 NUL, ch_src = 1, ch_dst = 2, ch_rdev = rdev, ch_rp_ept = NULL, ch_state = RPMSG_CHNL_STATE_ACTIVE\<rparr>"

definition two_chnls_example :: world where
  "two_chnls_example = world0\<lparr>w_rdevs := [1 \<mapsto> ept_rdev_example\<lparr>rd_rp_channels := 3\<rparr>],
     w_chnls := [5 \<mapsto> ping_chnl 1, 6 \<mapsto> ping_chnl 1],
     w_nodes := [3 \<mapsto> llist0\<lparr>ll_data := 5, ll_next := 4\<rparr>, 4 \<mapsto> llist0\<lparr>ll_data := 6, ll_prev := 3\<rparr>]\<rparr>"

lemma two_chnls_inv: "ept_inv 1 two_chnls_example Map.empty" "chnl_inv 1 two_chnls_example [5, 6]"
proof -
  show "ept_inv 1 two_chnls_example Map.empty"
    using ept_map_empty [of two_chnls_example 1 "ept_rdev_example\<lparr>rd_rp_channels := 3\<rparr>"]
    by (simp add: ept_inv_def objs_fresh_def two_chnls_example_def ept_rdev_example_def rdev_zero_def world0_def)
  have "node_seq (w_nodes two_chnls_example) 3 [3, 4]" by (simp add: node_seq_def two_chnls_example_def llist0_def)
  moreover have "list_all2 (chnl_entry 1 two_chnls_example) [3, 4] [5, 6]"
    by (simp add: chnl_entry_def two_chnls_example_def llist0_def ping_chnl_def RPMSG_NAME_SIZE_def)
  ultimately show "chnl_inv 1 two_chnls_example [5, 6]"
    unfolding chnl_inv_def by (auto simp: two_chnls_example_def world0_def)
qed

theorem delete_channel_shared_name_witness:
  "\<exists>w'. core_rpmsg_delete_channel 6 two_chnls_example = Some w' \<and> w_chnls w' 6 = None \<and>
     rpmsg_rdev_get_chnl_node_from_id 1 (cstring ''ping'') w' = None"
proof -
  have "w_chnls two_chnls_example 5 = Some (ping_chnl 1)" "w_chnls two_chnls_example 6 = Some (ping_chnl 1)"
    "name_eq (ch_name (ping_chnl 1)) (ch_name (ping_chnl 1))"
    by (simp_all add: two_chnls_example_def name_eq_refl ping_chnl_def RPMSG_NAME_SIZE_def)
  then show ?thesis using delete_channel_shared_name [OF two_chnls_inv] by blast
qed

end
