(* ===== verification/NameService.thy ===== *)
theory NameService
  imports Channels RpmsgTx
begin

text \<open>
  The name service: what an announcement looks like in memory, and what \<^verbatim>\<open>rpmsg_ns_callback\<close> does with one.  An
  announcement of a new channel opens an active channel to the announced address, with an endpoint of its own, and
  answers it; an announcement of destruction takes both away again.
\<close>

section \<open>Announcements in memory\<close>

definition ns_msg_at :: "memory \<Rightarrow> u32 \<Rightarrow> char list \<Rightarrow> u32 \<Rightarrow> u32 \<Rightarrow> bool" where
  "ns_msg_at m data nm addr flags \<longleftrightarrow> load_bytes m data RPMSG_NAME_SIZE = map char_byte nm \<and>
     load32 m (data + 32) = addr \<and> load32 m (data + 36) = flags"

lemma byte_char_byte [simp]: "byte_char (char_byte c) = c"
proof -
  have "unat (of_nat (of_char c) :: u8) = of_char c" by (simp add: unat_of_nat)
  then show ?thesis by (simp add: byte_char_def char_byte_def of_nat_of_char)
qed

lemma put_ns_msg_announces:
  assumes "length nm = RPMSG_NAME_SIZE"
  shows "ns_msg_at (put_ns_msg hdr nm addr flags m) (RPMSG_LOCATE_DATA hdr) nm addr flags"
    "load32 (put_ns_msg hdr nm addr flags m) (hdr + 4) = RPMSG_NS_EPT_ADDR"
    "load16 (put_ns_msg hdr nm addr flags m) (hdr + 12) = RPMSG_NS_MSG_SIZE"
proof -
  let ?d = "RPMSG_LOCATE_DATA hdr"
  have l: "length (map char_byte nm) = 32" using assms by (simp add: RPMSG_NAME_SIZE_def)
  have dis: "range32 ?d 32 \<inter> range32 (?d + 36) 4 = {}" "range32 ?d 32 \<inter> range32 (?d + 32) 4 = {}"
    "range32 (?d + 36) 4 \<inter> range32 (?d + 32) 4 = {}"
    "range32 (hdr + 4) 4 \<inter> range32 (?d + 32) 4 = {}" "range32 (hdr + 4) 4 \<inter> range32 (?d + 36) 4 = {}"
    "range32 (hdr + 4) 4 \<inter> range32 ?d 32 = {}" "range32 (hdr + 4) 4 \<inter> range32 (hdr + 12) 2 = {}"
    "range32 (hdr + 12) 2 \<inter> range32 (?d + 32) 4 = {}" "range32 (hdr + 12) 2 \<inter> range32 (?d + 36) 4 = {}"
    "range32 (hdr + 12) 2 \<inter> range32 ?d 32 = {}"
    using range32_disjoint [of 16 32 52 4 hdr] range32_disjoint [of 16 32 48 4 hdr] range32_disjoint [of 48 4 52 4 hdr]
      range32_disjoint [of 4 4 48 4 hdr] range32_disjoint [of 4 4 52 4 hdr] range32_disjoint [of 4 4 16 32 hdr]
      range32_disjoint [of 4 4 12 2 hdr] range32_disjoint [of 12 2 48 4 hdr] range32_disjoint [of 12 2 52 4 hdr]
      range32_disjoint [of 12 2 16 32 hdr]
    by (simp_all add: RPMSG_LOCATE_DATA_def RPMSG_HDR_SIZE_def Int_commute add.assoc)
  have b: "load_bytes (store_bytes m' ?d (map char_byte nm)) ?d 32 = map char_byte nm" for m'
    using load_store_bytes [of "map char_byte nm" m' ?d] l by simp
  show "ns_msg_at (put_ns_msg hdr nm addr flags m) ?d nm addr flags"
    using dis l by (simp add: ns_msg_at_def put_ns_msg_def Let_def mem_disj mem_simps RPMSG_NAME_SIZE_def b)
  show "load32 (put_ns_msg hdr nm addr flags m) (hdr + 4) = RPMSG_NS_EPT_ADDR"
    "load16 (put_ns_msg hdr nm addr flags m) (hdr + 12) = RPMSG_NS_MSG_SIZE"
    using dis l by (simp_all add: put_ns_msg_def Let_def mem_disj mem_simps)
qed

text \<open>The terminator the callback writes falls on the last byte of the flags, which is zero for both flags.\<close>

lemma byte_bit_high: "8 \<le> n \<Longrightarrow> \<not> bit (b :: u8) n"
  by (auto dest: bit_imp_le_length)

lemma load32_high_byte: "load32 m a = v \<Longrightarrow> m (a + 3) = ucast (drop_bit 24 v)"
  by (rule bit_word_eqI) (auto simp: load32_def bit_simps byte_bit_high)

lemma ns_terminator:
  assumes "ns_msg_at m data nm addr flags" "drop_bit 24 flags = 0"
  shows "m(data + 39 := 0) = m"
proof -
  have "m (data + 36 + 3) = ucast (drop_bit 24 flags)" using assms(1) by (intro load32_high_byte) (simp add: ns_msg_at_def)
  then have "m (data + 39) = 0" using assms(2) by (simp add: add.assoc)
  then show ?thesis by auto
qed

section \<open>Opening a channel\<close>

text \<open>Changes of a channel that keep its name and device keep both lists.\<close>

lemma ept_inv_chnls: "ept_inv rdev w T \<Longrightarrow> ept_inv rdev (w\<lparr>w_chnls := f\<rparr>) T"
  by (auto simp: ept_inv_def objs_fresh_def intro: ept_map_cong)

lemma chnl_inv_upd:
  assumes "chnl_inv rdev w cs" "w_chnls w c = Some ch" "ch_name ch' = ch_name ch" "ch_rdev ch' = ch_rdev ch"
  shows "chnl_inv rdev (w\<lparr>w_chnls := (w_chnls w)(c \<mapsto> ch')\<rparr>) cs"
proof -
  let ?w = "w\<lparr>w_chnls := (w_chnls w)(c \<mapsto> ch')\<rparr>"
  from assms(1) obtain rd ys where rd: "w_rdevs w rdev = Some rd" "node_seq (w_nodes w) (rd_rp_channels rd) ys"
    "list_all2 (chnl_entry rdev w) ys cs" "distinct cs" "NULL \<notin> set cs"
    and d: "\<And>p. w_chnls w p = None \<or> w_epts w p = None" "\<And>p. p \<ge> w_next w \<Longrightarrow> w_chnls w p = None" by (rule chnl_invE) blast
  have "chnl_entry rdev ?w y e" if "chnl_entry rdev w y e" for y e
    using that assms(2-4) unfolding chnl_entry_def by (cases "e = c") auto
  then have "list_all2 (chnl_entry rdev ?w) ys cs" using rd(3) by (auto elim: list_all2_mono)
  moreover have "w_chnls ?w p = None \<or> w_epts ?w p = None" for p using d(1) [of p] assms(2) by auto
  moreover have "w_chnls ?w p = None" if "p \<ge> w_next ?w" for p using d(2) [of p] d(2) [of c] assms(2) that by auto
  ultimately show ?thesis using rd by (auto simp: chnl_inv_def)
qed

definition rd_core :: "remote_device \<Rightarrow> remote_device" where
  "rd_core rd = rd\<lparr>rd_bitmap := [], rd_rp_endpoints := NULL, rd_rp_channels := NULL\<rparr>"

lemma rd_coreD: "rd_core rd = rd_core rd' \<Longrightarrow> rd_rvq rd = rd_rvq rd' \<and> rd_tvq rd = rd_tvq rd' \<and> rd_mem_pool rd = rd_mem_pool rd' \<and>
    rd_device rd = rd_device rd' \<and> rd_role rd = rd_role rd' \<and> rd_state rd = rd_state rd' \<and> rd_default_cb rd = rd_default_cb rd' \<and>
    rd_channel_created rd = rd_channel_created rd' \<and> rd_channel_destroyed rd = rd_channel_destroyed rd'"
  by (cases rd; cases rd') (simp add: rd_core_def)

lemma rd_core_rest: "rd_rest rd = rd_rest rd' \<Longrightarrow> rd_core rd = rd_core rd'"
  by (cases rd; cases rd') (simp add: rd_core_def rd_rest_def)

lemma ept_frame_core: "ept_frame w w' \<Longrightarrow> w_rdevs w r = Some rd \<Longrightarrow> \<exists>rd'. w_rdevs w' r = Some rd' \<and> rd_core rd' = rd_core rd"
  unfolding ept_frame_def by (metis map_option_eq_Some rd_core_rest)

lemma ns_open:
  assumes inv: "ept_inv rdev w T" "chnl_inv rdev w cs"
    and msg: "ns_msg_at (w_mem w) data nm dst flags" "flags AND RPMSG_NS_DESTROY = 0" "drop_bit 24 flags = 0"
      "env_strncpy nm RPMSG_NAME_SIZE = Some nm"
    and ok: "\<forall>i < 4. cf_alloc_ok cf (w_allocs w + i)" "card (dom T) < 127"
    and rd: "w_rdevs w rdev = Some rd" "rd_default_cb rd = Some cb"
  shows "\<exists>c ept a w1 rd1. rpmsg_ns_callback cf data RPMSG_NS_MSG_SIZE rdev w =
      do { (s, w2) \<leftarrow> rpmsg_send cf c data 40 w1; rd \<leftarrow> w_rdevs w2 rdev; call_chnl_cb cf (rd_channel_created rd) c w2 } \<and>
    c \<noteq> NULL \<and> w_chnls w c = None \<and> T a = None \<and> a \<noteq> 0 \<and> unat a < 128 \<and>
    w_chnls w1 = (w_chnls w)(c \<mapsto> \<lparr>ch_name = nm, ch_src = a, ch_dst = dst, ch_rdev = rdev, ch_rp_ept = ept,
      ch_state = RPMSG_CHNL_STATE_ACTIVE\<rparr>) \<and>
    w_epts w1 ept = Some \<lparr>ep_rp_chnl = c, ep_cb = Some cb, ep_addr = a, ep_priv = rdev\<rparr> \<and>
    ept_inv rdev w1 (T(a \<mapsto> ept)) \<and> chnl_inv rdev w1 (c # cs) \<and> w_rdevs w1 rdev = Some rd1 \<and> rd_core rd1 = rd_core rd \<and>
    w_mem w1 = w_mem w \<and> w_vqs w1 = w_vqs w \<and> w_rings w1 = w_rings w \<and> w_pools w1 = w_pools w \<and>
    w_procs w1 = w_procs w \<and> w_app w1 = w_app w"
proof -
  have al: "cf_alloc_ok cf (w_allocs w)" "cf_alloc_ok cf (Suc (w_allocs w))" "cf_alloc_ok cf (Suc (Suc (w_allocs w)))"
    "cf_alloc_ok cf (Suc (Suc (Suc (w_allocs w))))"
    using ok(1) [rule_format, of 0] ok(1) [rule_format, of 1] ok(1) [rule_format, of 2] ok(1) [rule_format, of 3]
    by (simp_all add: numeral_eq_Suc)
  have mem: "w\<lparr>w_mem := (w_mem w)(data + of_int (int (unat RPMSG_NS_MSG_SIZE) - 1) := 0)\<rparr> = w"
    using ns_terminator [OF msg(1,3)] by (simp add: RPMSG_NS_MSG_SIZE_def)
  have nm: "map byte_char (load_bytes (w_mem w) data RPMSG_NAME_SIZE) = nm"
    using msg(1) by (simp add: ns_msg_at_def comp_def)
  let ?c = "w_next w"
  let ?ch = "\<lparr>ch_name = nm, ch_src = 0, ch_dst = dst, ch_rdev = rdev, ch_rp_ept = NULL, ch_state = RPMSG_CHNL_STATE_IDLE\<rparr>"
  from core_create_channel_inv [OF inv msg(4) al(1,2), of 0 dst] rd(1) obtain w1 p where
    c: "core_rpmsg_create_channel cf rdev nm 0 dst w = Some (?c, w1)" "ept_inv rdev w1 T" "chnl_inv rdev w1 (?c # cs)" "?c \<noteq> NULL"
    "w_chnls w ?c = None" "w_chnls w1 = (w_chnls w)(?c \<mapsto> ?ch)" "w_allocs w1 = Suc (Suc (w_allocs w))"
    "w_rdevs w1 rdev = Some (rd\<lparr>rd_rp_channels := p\<rparr>)"
    "w_mem w1 = w_mem w" "w_vqs w1 = w_vqs w" "w_rings w1 = w_rings w" "w_pools w1 = w_pools w" "w_procs w1 = w_procs w" "w_app w1 = w_app w"
    by auto
  let ?ch2 = "\<lparr>ch_name = nm, ch_src = 0, ch_dst = dst, ch_rdev = rdev, ch_rp_ept = NULL, ch_state = RPMSG_CHNL_STATE_ACTIVE\<rparr>"
  define w2 where "w2 = w1\<lparr>w_chnls := (w_chnls w1)(?c \<mapsto> ?ch2)\<rparr>"
  have i2: "ept_inv rdev w2 T" "chnl_inv rdev w2 (?c # cs)"
    unfolding w2_def by (rule ept_inv_chnls [OF c(2)], rule chnl_inv_upd [OF c(3), of _ ?ch]) (simp_all add: c(6))
  have ch1: "w_chnls w1 ?c = Some ?ch" by (simp add: c(6))
  have rd2: "w_rdevs w2 rdev = Some (rd\<lparr>rd_rp_channels := p\<rparr>)" using c(8) by (simp add: w2_def)
  have "w_chnls w2 ?c = Some ?ch2" by (simp add: w2_def)
  from rpmsg_create_ept_map [OF i2(1) this _ c(4), of "Some cb" RPMSG_ADDR_ANY cf rdev] al(3,4) ok(2) obtain ept w3 a where
    e: "rpmsg_create_ept cf ?c (Some cb) rdev RPMSG_ADDR_ANY w2 = Some (ept, w3)" "ept_frame w2 w3" "ept \<noteq> NULL"
    "T a = None" "a \<noteq> 0" "unat a < 128" "w_epts w3 ept = Some \<lparr>ep_rp_chnl = ?c, ep_cb = Some cb, ep_addr = a, ep_priv = rdev\<rparr>"
    "ept_inv rdev w3 (T(a \<mapsto> ept))"
    by (auto simp: ept_addr_valid_def w2_def c(7))
  let ?ch3 = "\<lparr>ch_name = nm, ch_src = a, ch_dst = dst, ch_rdev = rdev, ch_rp_ept = ept, ch_state = RPMSG_CHNL_STATE_ACTIVE\<rparr>"
  define w4 where "w4 = w3\<lparr>w_chnls := (w_chnls w3)(?c \<mapsto> ?ch3)\<rparr>"
  have ch3: "w_chnls w3 ?c = Some ?ch2" "w_chnls w3 = w_chnls w2" using e(2) by (simp_all add: ept_frame_def w2_def)
  have "ept_inv rdev w4 (T(a \<mapsto> ept))" unfolding w4_def using e(8) by (rule ept_inv_chnls)
  moreover have "chnl_inv rdev w4 (?c # cs)"
    unfolding w4_def using chnl_inv_ept_frame [OF i2(2) e(2)] ch3(1) by (rule chnl_inv_upd) simp_all
  moreover obtain rd1 where "w_rdevs w4 rdev = Some rd1" "rd_core rd1 = rd_core rd"
    using ept_frame_core [OF e(2), of rdev "rd\<lparr>rd_rp_channels := p\<rparr>"] c(8) by (auto simp: w2_def w4_def rd_core_def)
  moreover have "rpmsg_ns_callback cf data RPMSG_NS_MSG_SIZE rdev w =
      do { (s, w2) \<leftarrow> rpmsg_send cf ?c data 40 w4; rd \<leftarrow> w_rdevs w2 rdev; call_chnl_cb cf (rd_channel_created rd) ?c w2 }"
    unfolding rpmsg_ns_callback_def mem Let_def nm
    using msg(1,2) c(1,4,8) e(1,3,7) ch1 ch3(1) rd2 rd(2)
    by (simp add: ns_msg_at_def w2_def [symmetric] w4_def RPMSG_NS_MSG_SIZE_def)
  ultimately show ?thesis using c(4,5,9-14) e(2-7) ch3(2)
    by (intro exI [of _ ?c] exI [of _ ept] exI [of _ a] exI [of _ w4] exI [of _ rd1]) (simp add: w4_def w2_def c(6) ept_frame_def)
qed

section \<open>Closing a channel\<close>

text \<open>An application whose channel callbacks record the call and change nothing else.\<close>

definition recording_chnls :: "config \<Rightarrow> bool" where
  "recording_chnls cf \<longleftrightarrow> (\<forall>n c w. cf_chnl_cb cf n c w = Some (w\<lparr>w_app := w_app w @ [Chnl_event n c]\<rparr>))"

definition chnl_events :: "nat option \<Rightarrow> ptr \<Rightarrow> app_event list" where
  "chnl_events cb c = (case cb of None \<Rightarrow> [] | Some n \<Rightarrow> [Chnl_event n c])"

lemma call_chnl_cb_recording: "recording_chnls cf \<Longrightarrow> call_chnl_cb cf cb c w = Some (w\<lparr>w_app := w_app w @ chnl_events cb c\<rparr>)"
  by (simp add: call_chnl_cb_def recording_chnls_def chnl_events_def split: option.splits)

text \<open>Both lists depend on the object heaps only.\<close>

lemma inv_cong:
  assumes "w_nodes w' = w_nodes w" "w_chnls w' = w_chnls w" "w_epts w' = w_epts w" "w_rdevs w' rdev = w_rdevs w rdev" "w_next w' = w_next w"
  shows "ept_inv rdev w' T = ept_inv rdev w T" "chnl_inv rdev w' cs = chnl_inv rdev w cs"
proof -
  have "node_ept w' = node_ept w" "chnl_entry rdev w' = chnl_entry rdev w"
    using assms by (simp_all add: node_ept_def chnl_entry_def fun_eq_iff)
  then show "ept_inv rdev w' T = ept_inv rdev w T" "chnl_inv rdev w' cs = chnl_inv rdev w cs"
    using assms by (simp_all add: ept_inv_def objs_fresh_def chnl_inv_def ept_map_def ept_entries_def)
qed

lemma named_cong: "w_chnls w' = w_chnls w \<Longrightarrow> named w' = named w"
  by (simp add: named_def fun_eq_iff)

lemma ns_close:
  assumes inv: "ept_inv rdev w T" "chnl_inv rdev w cs" "recording_chnls cf"
    and msg: "ns_msg_at (w_mem w) data nm addr flags" "flags AND RPMSG_NS_DESTROY \<noteq> 0" "drop_bit 24 flags = 0" "length nm = RPMSG_NAME_SIZE"
    and c: "filter (named w nm) cs = c # zs" "w_chnls w c = Some ch" "ch_name ch = nm"
    and e: "w_epts w (ch_rp_ept ch) = Some ep" "ep_rp_chnl ep = c" "T (ep_addr ep) = Some (ch_rp_ept ch)"
    and rd: "w_rdevs w rdev = Some rd"
  shows "\<exists>w'. rpmsg_ns_callback cf data RPMSG_NS_MSG_SIZE rdev w = Some w' \<and> ept_inv rdev w' (T(ep_addr ep := None)) \<and>
    chnl_inv rdev w' (remove1 c cs) \<and> w_chnls w' = (w_chnls w)(c := None) \<and> w_epts w' = (w_epts w)(ch_rp_ept ch := None) \<and>
    w_mem w' = w_mem w \<and> w_app w' = w_app w @ chnl_events (rd_channel_destroyed rd) c"
proof -
  have mem: "w\<lparr>w_mem := (w_mem w)(data + of_int (int (unat RPMSG_NS_MSG_SIZE) - 1) := 0)\<rparr> = w"
    using ns_terminator [OF msg(1,3)] by (simp add: RPMSG_NS_MSG_SIZE_def)
  have nm: "map byte_char (load_bytes (w_mem w) data RPMSG_NAME_SIZE) = nm"
    using msg(1) by (simp add: ns_msg_at_def comp_def)
  have cin: "c \<in> set cs" using c(1) by (metis filter_is_subset list.set_intros(1) subsetD)
  from chnl_inv_chnl [OF inv(2) cin] c(2) have chr: "ch_rdev ch = rdev" by auto
  from inv(2) rd obtain ys where ys: "node_seq (w_nodes w) (rd_rp_channels rd) ys" "list_all2 (chnl_entry rdev w) ys cs"
    by (auto elim: chnl_invE)
  from chnl_find [OF rd ys msg(4)] c(1) obtain node n where n: "node \<noteq> NULL" "w_nodes w node = Some n" "ll_data n = c"
    "rpmsg_rdev_get_chnl_node_from_id rdev nm w = Some (node, env_unlock_mutex (env_lock_mutex w))"
    by (auto dest: chnl_entry_node)
  define w1 where "w1 = (env_unlock_mutex (env_lock_mutex w))\<lparr>w_app := w_app w @ chnl_events (rd_channel_destroyed rd) c\<rparr>"
  have i1: "ept_inv rdev w1 T" "chnl_inv rdev w1 cs" using inv(1,2) inv_cong [of w1 w rdev] by (simp_all add: w1_def)
  from rpmsg_destroy_ept_map [OF i1(1) e(3), of ep ch] e(1,2) c(2) chr obtain w2 where
    d: "rpmsg_destroy_ept (ch_rp_ept ch) w1 = Some w2" "ept_inv rdev w2 (T(ep_addr ep := None))"
    "w_epts w2 = (w_epts w)(ch_rp_ept ch := None)" "ept_frame w1 w2" by (auto simp: w1_def)
  have ch2: "w_chnls w2 = w_chnls w" using d(4) by (simp add: ept_frame_def w1_def)
  then have fil: "w_chnls w2 c = Some ch" "filter (named w2 (ch_name ch)) cs = c # zs" using c named_cong [OF ch2] by simp_all
  from core_delete_channel_inv [OF d(2) chnl_inv_ept_frame [OF i1(2) d(4)] cin fil] obtain w3 where
    "core_rpmsg_delete_channel c w2 = Some w3" "chnl_inv rdev w3 (remove1 c cs)" "ept_inv rdev w3 (T(ep_addr ep := None))"
    "w_chnls w3 = (w_chnls w)(c := None)" "chnl_frame w2 w3" unfolding ch2 by blast
  moreover from this have "rpmsg_ns_callback cf data RPMSG_NS_MSG_SIZE rdev w = Some w3"
    unfolding rpmsg_ns_callback_def mem Let_def nm using msg(1,2) n rd c(2) d(1)
    by (simp add: ns_msg_at_def call_chnl_cb_recording [OF inv(3)] w1_def)
  ultimately show ?thesis using d(3,4) by (intro exI [of _ w3]) (simp add: chnl_frame_def ept_frame_def w1_def)
qed

section \<open>The whole handshake\<close>

text \<open>The master can answer an announcement at \<open>data\<close>: it has a buffer \<open>b\<close> and a free descriptor \<open>x\<close>.\<close>

definition reply_ready ::
  "config \<Rightarrow> ptr \<Rightarrow> remote_device \<Rightarrow> world \<Rightarrow> u32 \<Rightarrow> virtqueue \<Rightarrow> vring_mem \<Rightarrow> virtqueue \<Rightarrow> ring_abs \<Rightarrow> u32 \<Rightarrow> u32 \<Rightarrow> ring_abs \<Rightarrow> u16 \<Rightarrow> u16 list \<Rightarrow> bool" where
  "reply_ready cf rdev rd w data vq r d A b len A' x xs \<longleftrightarrow> data \<noteq> 0 \<and> rd_state rd = RPMSG_DEV_STATE_ACTIVE \<and>
     rd_role rd = RPMSG_REMOTE \<and> rd_tvq rd \<noteq> NULL \<and> rd_mem_pool rd \<noteq> NULL \<and> get_vq (rd_tvq rd) w = Some (vq, r) \<and>
     ring_rel (cf_vatopa cf) \<lparr>rs_drv = vq, rs_dev = d, rs_ring = r\<rparr> A \<and> tx_source cf rd w A = Some (b, len, A') \<and> b \<noteq> 0 \<and>
     cf_vatopa cf b \<noteq> 0 \<and> ra_free A' = x # xs \<and> quiet_notify cf \<and> vq_dev vq = rdev \<and> notify_wired w vq \<and> 56 \<le> unat len \<and>
     range32 data 40 \<inter> range32 (cf_vatopa cf b) 16 = {}"

lemma reply_sends:
  assumes "reply_ready cf rdev rd w data vq r d A b len A' x xs" "c \<noteq> NULL" "w_chnls w1 c = Some ch" "ch_state ch = RPMSG_CHNL_STATE_ACTIVE"
    and "ch_rdev ch = rdev" "w_rdevs w rdev = Some rd" "w_rdevs w1 rdev = Some rd1" "rd_core rd1 = rd_core rd"
    and "w_vqs w1 = w_vqs w" "w_rings w1 = w_rings w" "w_pools w1 = w_pools w" "w_procs w1 = w_procs w" "w_mem w1 = w_mem w"
  shows "\<exists>w' vq' r'. rpmsg_send cf c data 40 w1 = Some (RPMSG_SUCCESS, w') \<and> tx_frame w1 w' \<and>
    w_mem w' = put_msg (cf_vatopa cf b) (ch_src ch) (ch_dst ch) (load_bytes (w_mem w) data 40) 40 (w_mem w) \<and>
    get_vq (rd_tvq rd) w' = Some (vq', r') \<and>
    ring_rel (cf_vatopa cf) \<lparr>rs_drv = vq', rs_dev = d, rs_ring = r'\<rparr> (A'\<lparr>ra_free := xs,
      ra_pend := ra_pend A' @ [\<lparr>tk_chain = [x], tk_bufs = [(cf_vatopa cf b, len)], tk_cookie = cf_vatopa cf b\<rparr>]\<rparr>) \<and>
    only_vq (rd_tvq rd) (vq_ring_mem vq) w w' \<and> vq_ident vq' = vq_ident vq"
proof -
  note core = rd_coreD [OF assms(8)]
  note R = assms(1) [unfolded reply_ready_def]
  have get: "get_vq (rd_tvq rd1) w1 = Some (vq, r)" using R core assms(9,10) by (simp add: get_vq_def)
  have src: "tx_source cf rd1 w1 A = Some (b, len, A')" using R core assms(11) by (auto simp: tx_source_def split: list.splits)
  have act: "send_active c ch rd1 w1" using R core assms(2-5,7) by (simp add: send_active_def)
  have "notify_wired w vq" "vq_dev vq = rdev" using R by blast+
  then have wired: "notify_wired w1 vq" using core assms(6,7,12) by (simp add: notify_wired_def)
  from R have h: "rd_role rd = RPMSG_REMOTE" "rd_tvq rd \<noteq> NULL" "rd_mem_pool rd \<noteq> NULL" "b \<noteq> 0" "cf_vatopa cf b \<noteq> 0"
    "ring_rel (cf_vatopa cf) \<lparr>rs_drv = vq, rs_dev = d, rs_ring = r\<rparr> A" "ra_free A' = x # xs" "quiet_notify cf" "56 \<le> unat len"
    "range32 data 40 \<inter> range32 (cf_vatopa cf b) 16 = {}" by blast+
  have "56 \<le> int (unat len)" using h(9) by linarith
  then have "56 \<le> uint len" by simp
  then have "\<exists>w' vq' r'. rpmsg_send_offchannel_raw cf c (ch_src ch) (ch_dst ch) data 40 True w1 = Some (RPMSG_SUCCESS, w') \<and>
    w_mem w' = put_msg (cf_vatopa cf b) (ch_src ch) (ch_dst ch) (load_bytes (w_mem w1) data (nat 40)) (of_int 40) (w_mem w1) \<and>
    tx_frame w1 w' \<and> get_vq (rd_tvq rd1) w' = Some (vq', r') \<and> vq_ident vq' = vq_ident vq \<and>
    ring_rel (cf_vatopa cf) \<lparr>rs_drv = vq', rs_dev = d, rs_ring = r'\<rparr> (A'\<lparr>ra_free := xs,
      ra_pend := ra_pend A' @ [\<lparr>tk_chain = [x], tk_bufs = [(cf_vatopa cf b, len)], tk_cookie = cf_vatopa cf b\<rparr>]\<rparr>) \<and>
    only_vq (rd_tvq rd1) (vq_ring_mem vq) w1 w'"
    by (intro master_send [OF act _ _ _ get _ src _ _ _ _ wired]) (use h core in simp_all)
  then obtain w' vq' r' where w': "rpmsg_send_offchannel_raw cf c (ch_src ch) (ch_dst ch) data 40 True w1 = Some (RPMSG_SUCCESS, w')"
    "w_mem w' = put_msg (cf_vatopa cf b) (ch_src ch) (ch_dst ch) (load_bytes (w_mem w1) data 40) 40 (w_mem w1)"
    "tx_frame w1 w'" "get_vq (rd_tvq rd1) w' = Some (vq', r')"
    "ring_rel (cf_vatopa cf) \<lparr>rs_drv = vq', rs_dev = d, rs_ring = r'\<rparr> (A'\<lparr>ra_free := xs,
      ra_pend := ra_pend A' @ [\<lparr>tk_chain = [x], tk_bufs = [(cf_vatopa cf b, len)], tk_cookie = cf_vatopa cf b\<rparr>]\<rparr>)" "only_vq (rd_tvq rd1) (vq_ring_mem vq) w1 w'" "vq_ident vq' = vq_ident vq" by auto
  have "data \<noteq> 0" using R by blast
  then have "rpmsg_send cf c data 40 w1 = Some (RPMSG_SUCCESS, w')" using w'(1) assms(2,3) by (simp add: rpmsg_send_def)
  moreover have "get_vq (rd_tvq rd) w' = Some (vq', r')" using w'(4) core by simp
  moreover have "only_vq (rd_tvq rd) (vq_ring_mem vq) w w'" using w'(6) core assms(9,10) by (simp add: only_vq_def)
  ultimately show ?thesis using w'(2,3,5,7) unfolding assms(13) by blast
qed

text \<open>The callback of the master, with the answer and the call of the application.\<close>

lemma ns_announcement_opens:
  assumes "ept_inv rdev w T" "chnl_inv rdev w cs" "recording_chnls cf" "w_rdevs w rdev = Some rd" "rd_default_cb rd = Some cb"
    and "ns_msg_at (w_mem w) (RPMSG_LOCATE_DATA hdr) nm dst RPMSG_NS_CREATE" "env_strncpy nm RPMSG_NAME_SIZE = Some nm"
    and "\<forall>i < 4. cf_alloc_ok cf (w_allocs w + i)" "card (dom T) < 127"
    and "reply_ready cf rdev rd w (RPMSG_LOCATE_DATA hdr) vq r d A b len A' x xs"
  shows "\<exists>c ept a w' vq' r'. rpmsg_ns_callback cf (RPMSG_LOCATE_DATA hdr) RPMSG_NS_MSG_SIZE rdev w = Some w' \<and> c \<noteq> NULL \<and>
    w_chnls w c = None \<and> T a = None \<and> a \<noteq> 0 \<and> unat a < 128 \<and> ept_inv rdev w' (T(a \<mapsto> ept)) \<and> chnl_inv rdev w' (c # cs) \<and>
    w_chnls w' = (w_chnls w)(c \<mapsto> \<lparr>ch_name = nm, ch_src = a, ch_dst = dst, ch_rdev = rdev, ch_rp_ept = ept,
      ch_state = RPMSG_CHNL_STATE_ACTIVE\<rparr>) \<and>
    w_epts w' ept = Some \<lparr>ep_rp_chnl = c, ep_cb = Some cb, ep_addr = a, ep_priv = rdev\<rparr> \<and>
    w_mem w' = put_msg (cf_vatopa cf b) a dst (load_bytes (w_mem w) (RPMSG_LOCATE_DATA hdr) 40) 40 (w_mem w) \<and>
    w_app w' = w_app w @ chnl_events (rd_channel_created rd) c \<and> get_vq (rd_tvq rd) w' = Some (vq', r') \<and>
    ring_rel (cf_vatopa cf) \<lparr>rs_drv = vq', rs_dev = d, rs_ring = r'\<rparr> (A'\<lparr>ra_free := xs,
      ra_pend := ra_pend A' @ [\<lparr>tk_chain = [x], tk_bufs = [(cf_vatopa cf b, len)], tk_cookie = cf_vatopa cf b\<rparr>]\<rparr>) \<and>
    (\<exists>rd1. w_rdevs w' rdev = Some rd1 \<and> rd_core rd1 = rd_core rd) \<and> w_procs w' = w_procs w \<and>
    only_vq (rd_tvq rd) (vq_ring_mem vq) w w' \<and> vq_ident vq' = vq_ident vq"
proof -
  from ns_open [OF assms(1,2,6) _ _ assms(7-9,4,5)] obtain c ept a w1 rd1 where
    o: "rpmsg_ns_callback cf (RPMSG_LOCATE_DATA hdr) RPMSG_NS_MSG_SIZE rdev w = do { (s, w2) \<leftarrow> rpmsg_send cf c (RPMSG_LOCATE_DATA hdr) 40 w1;
      rd \<leftarrow> w_rdevs w2 rdev; call_chnl_cb cf (rd_channel_created rd) c w2 }"
    "c \<noteq> NULL" "w_chnls w c = None" "T a = None" "a \<noteq> 0" "unat a < 128"
    "w_chnls w1 = (w_chnls w)(c \<mapsto> \<lparr>ch_name = nm, ch_src = a, ch_dst = dst, ch_rdev = rdev, ch_rp_ept = ept,
      ch_state = RPMSG_CHNL_STATE_ACTIVE\<rparr>)"
    "w_epts w1 ept = Some \<lparr>ep_rp_chnl = c, ep_cb = Some cb, ep_addr = a, ep_priv = rdev\<rparr>"
    "ept_inv rdev w1 (T(a \<mapsto> ept))" "chnl_inv rdev w1 (c # cs)" "w_rdevs w1 rdev = Some rd1" "rd_core rd1 = rd_core rd"
    "w_mem w1 = w_mem w" "w_vqs w1 = w_vqs w" "w_rings w1 = w_rings w" "w_pools w1 = w_pools w" "w_procs w1 = w_procs w" "w_app w1 = w_app w"
    by (auto simp: RPMSG_NS_CREATE_def)
  have "w_chnls w1 c = Some \<lparr>ch_name = nm, ch_src = a, ch_dst = dst, ch_rdev = rdev, ch_rp_ept = ept, ch_state = RPMSG_CHNL_STATE_ACTIVE\<rparr>"
    by (simp add: o(7))
  from reply_sends [OF assms(10) o(2) this _ _ assms(4) o(11,12,14-17,13)] obtain w2 vq' r' where
    s: "rpmsg_send cf c (RPMSG_LOCATE_DATA hdr) 40 w1 = Some (RPMSG_SUCCESS, w2)" "tx_frame w1 w2"
    "w_mem w2 = put_msg (cf_vatopa cf b) a dst (load_bytes (w_mem w) (RPMSG_LOCATE_DATA hdr) 40) 40 (w_mem w)"
    "get_vq (rd_tvq rd) w2 = Some (vq', r')"
    "ring_rel (cf_vatopa cf) \<lparr>rs_drv = vq', rs_dev = d, rs_ring = r'\<rparr> (A'\<lparr>ra_free := xs,
      ra_pend := ra_pend A' @ [\<lparr>tk_chain = [x], tk_bufs = [(cf_vatopa cf b, len)], tk_cookie = cf_vatopa cf b\<rparr>]\<rparr>)" "only_vq (rd_tvq rd) (vq_ring_mem vq) w w2" "vq_ident vq' = vq_ident vq" by auto
  let ?w = "w2\<lparr>w_app := w_app w2 @ chnl_events (rd_channel_created rd) c\<rparr>"
  have run: "rpmsg_ns_callback cf (RPMSG_LOCATE_DATA hdr) RPMSG_NS_MSG_SIZE rdev w = Some ?w"
    using o(1,11) s(1,2) rd_coreD [OF o(12)] by (simp add: tx_frame_def call_chnl_cb_recording [OF assms(3)])
  have "ept_inv rdev ?w (T(a \<mapsto> ept))" "chnl_inv rdev ?w (c # cs)"
    using inv_cong [of ?w w1 rdev] o(9,10) s(2) by (simp_all add: tx_frame_def)
  then show ?thesis using run o(2-8,11,12,17,18) s(2-7)
    by (intro exI [of _ c] exI [of _ ept] exI [of _ a] exI [of _ ?w] exI [of _ vq'] exI [of _ r'])
      (simp add: tx_frame_def get_vq_def only_vq_def)
qed

text \<open>The remote, whose channel waits for the answer, takes the source of the first message as its peer.\<close>

lemma get_endpoint_map:
  assumes "ept_inv rdev w T" "T a = Some e"
  shows "\<exists>node n. rpmsg_rdev_get_endpoint_from_addr rdev a w = Some (node, env_unlock_mutex (env_lock_mutex w)) \<and> node \<noteq> NULL \<and>
    w_nodes w node = Some n \<and> ll_data n = e"
proof -
  have "e \<noteq> NULL" using epm.inv_null [OF assms(1)] assms(2) by (metis ranI)
  moreover have "find_ept rdev a w = Some (e, env_unlock_mutex (env_lock_mutex w))"
    using assms find_ept_map [of w rdev T a] by (simp add: ept_inv_def)
  ultimately show ?thesis by (auto simp: find_ept_def option_bind_simps split: if_splits)
qed

lemma remote_accepts:
  assumes "ept_inv rdev w T" "recording_chnls cf" "w_rdevs w rdev = Some rd" "T (load32 (w_mem w) (hdr + 4)) = Some e"
    and "w_epts w e = Some ep" "ep_rp_chnl ep \<noteq> NULL" "w_chnls w (ep_rp_chnl ep) = Some ch" "ch_state ch = RPMSG_CHNL_STATE_NS"
  shows "\<exists>node w1 w'. rpmsg_rdev_get_endpoint_from_addr rdev (load32 (w_mem w) (hdr + 4)) w = Some (node, w1) \<and>
    rpmsg_deliver cf rdev node hdr w1 = Some w' \<and>
    w_chnls w' = (w_chnls w)(ep_rp_chnl ep \<mapsto> ch\<lparr>ch_dst := load32 (w_mem w) hdr, ch_state := RPMSG_CHNL_STATE_ACTIVE\<rparr>) \<and>
    w_app w' = w_app w @ chnl_events (rd_channel_created rd) (ep_rp_chnl ep) \<and> w_mem w' = w_mem w"
proof -
  from get_endpoint_map [OF assms(1,4)] obtain node n where
    "rpmsg_rdev_get_endpoint_from_addr rdev (load32 (w_mem w) (hdr + 4)) w = Some (node, env_unlock_mutex (env_lock_mutex w))"
    "w_nodes w node = Some n" "ll_data n = e" by blast
  then show ?thesis using assms(3,5-8)
    by (simp add: rpmsg_deliver_def chnl_in_ns_def call_chnl_cb_recording [OF assms(2)])
qed

text \<open>
  Property C12.  The name service handshake.  The master receives the announcement of a channel that the remote has
  written with \<^verbatim>\<open>put_ns_msg\<close> (name \<open>nm\<close>, address \<open>dst\<close>); memory and addresses are not exhausted and a buffer is
  free.  The callback returns with a new active channel of that name at the head of the master's list, with an endpoint
  at a fresh address \<open>a\<close>, and offers an answer from \<open>a\<close> to \<open>dst\<close>.  When the remote, whose channel at \<open>dst\<close> waits in state NS,
  receives the answer, its channel becomes active with destination \<open>a\<close>: the two channels point to
  each other, and each application is told once.
\<close>

theorem name_service_handshake:
  assumes "ept_inv rdev w T" "chnl_inv rdev w cs" "recording_chnls cf" "w_rdevs w rdev = Some rd" "rd_default_cb rd = Some cb"
    and "w_mem w = put_ns_msg hdr nm dst RPMSG_NS_CREATE m" "env_strncpy nm RPMSG_NAME_SIZE = Some nm"
    and "\<forall>i < 4. cf_alloc_ok cf (w_allocs w + i)" "card (dom T) < 127"
    and "reply_ready cf rdev rd w (RPMSG_LOCATE_DATA hdr) vq r d A b len A' x xs"
    and "ept_inv rdevr wr Tr" "w_rdevs wr rdevr = Some rdr" "Tr dst = Some er" "w_epts wr er = Some epr" "ep_rp_chnl epr = cr"
      "cr \<noteq> NULL" "w_chnls wr cr = Some chr" "ch_src chr = dst" "ch_state chr = RPMSG_CHNL_STATE_NS"
  shows "\<exists>c ept a w' vq' r' node wr1 wr'.
    rpmsg_ns_callback cf (RPMSG_LOCATE_DATA hdr) RPMSG_NS_MSG_SIZE rdev w = Some w' \<and>
    T a = None \<and> a \<noteq> 0 \<and> unat a < 128 \<and> ept_inv rdev w' (T(a \<mapsto> ept)) \<and> chnl_inv rdev w' (c # cs) \<and>
    w_chnls w' = (w_chnls w)(c \<mapsto> \<lparr>ch_name = nm, ch_src = a, ch_dst = dst, ch_rdev = rdev, ch_rp_ept = ept,
      ch_state = RPMSG_CHNL_STATE_ACTIVE\<rparr>) \<and>
    w_app w' = w_app w @ chnl_events (rd_channel_created rd) c \<and> get_vq (rd_tvq rd) w' = Some (vq', r') \<and>
    ring_rel (cf_vatopa cf) \<lparr>rs_drv = vq', rs_dev = d, rs_ring = r'\<rparr> (A'\<lparr>ra_free := xs,
      ra_pend := ra_pend A' @ [\<lparr>tk_chain = [x], tk_bufs = [(cf_vatopa cf b, len)], tk_cookie = cf_vatopa cf b\<rparr>]\<rparr>) \<and>
    rpmsg_rdev_get_endpoint_from_addr rdevr (load32 (w_mem w') (cf_vatopa cf b + 4)) (wr\<lparr>w_mem := w_mem w'\<rparr>) = Some (node, wr1) \<and>
    rpmsg_deliver cf rdevr node (cf_vatopa cf b) wr1 = Some wr' \<and>
    w_chnls wr' = (w_chnls wr)(cr \<mapsto> chr\<lparr>ch_dst := a, ch_state := RPMSG_CHNL_STATE_ACTIVE\<rparr>) \<and>
    w_app wr' = w_app wr @ chnl_events (rd_channel_created rdr) cr"
proof -
  have msg: "ns_msg_at (w_mem w) (RPMSG_LOCATE_DATA hdr) nm dst RPMSG_NS_CREATE"
    unfolding assms(6) by (rule put_ns_msg_announces(1)) (rule env_strncpy_length [OF assms(7)])
  from ns_announcement_opens [OF assms(1-5) msg assms(7-10)] obtain c ept a w' vq' r' where
    o: "rpmsg_ns_callback cf (RPMSG_LOCATE_DATA hdr) RPMSG_NS_MSG_SIZE rdev w = Some w'"
    "T a = None" "a \<noteq> 0" "unat a < 128" "ept_inv rdev w' (T(a \<mapsto> ept))" "chnl_inv rdev w' (c # cs)"
    "w_chnls w' = (w_chnls w)(c \<mapsto> \<lparr>ch_name = nm, ch_src = a, ch_dst = dst, ch_rdev = rdev, ch_rp_ept = ept,
      ch_state = RPMSG_CHNL_STATE_ACTIVE\<rparr>)"
    "w_mem w' = put_msg (cf_vatopa cf b) a dst (load_bytes (w_mem w) (RPMSG_LOCATE_DATA hdr) 40) 40 (w_mem w)"
    "w_app w' = w_app w @ chnl_events (rd_channel_created rd) c" "get_vq (rd_tvq rd) w' = Some (vq', r')"
    "ring_rel (cf_vatopa cf) \<lparr>rs_drv = vq', rs_dev = d, rs_ring = r'\<rparr> (A'\<lparr>ra_free := xs,
      ra_pend := ra_pend A' @ [\<lparr>tk_chain = [x], tk_bufs = [(cf_vatopa cf b, len)], tk_cookie = cf_vatopa cf b\<rparr>]\<rparr>)" by blast
  have l: "load32 (w_mem w') (cf_vatopa cf b) = a" "load32 (w_mem w') (cf_vatopa cf b + 4) = dst"
    unfolding o(8) by (simp_all add: put_msg_fields)
  let ?wr = "wr\<lparr>w_mem := w_mem w'\<rparr>"
  have "ept_inv rdevr ?wr Tr" using assms(11) inv_cong(1) [of ?wr wr rdevr Tr] by simp
  from remote_accepts [OF this assms(3), of rdr "cf_vatopa cf b" er epr chr] l assms(12-19) obtain node wr1 wr' where
    "rpmsg_rdev_get_endpoint_from_addr rdevr (load32 (w_mem w') (cf_vatopa cf b + 4)) ?wr = Some (node, wr1)"
    "rpmsg_deliver cf rdevr node (cf_vatopa cf b) wr1 = Some wr'"
    "w_chnls wr' = (w_chnls wr)(cr \<mapsto> chr\<lparr>ch_dst := a, ch_state := RPMSG_CHNL_STATE_ACTIVE\<rparr>)"
    "w_app wr' = w_app wr @ chnl_events (rd_channel_created rdr) cr" by auto
  then show ?thesis using o by blast
qed

subsection \<open>Example\<close>

text \<open>A master with the announcement of channel ping at \<open>0x500\<close>, and a remote whose channel at address 9 has announced itself.\<close>

definition ns_rdev_example :: remote_device where
  "ns_rdev_example = tx_rdev_example\<lparr>rd_bitmap := [1, 0, 0, 0], rd_default_cb := Some (App_rx_cb 0), rd_channel_created := Some 1\<rparr>"

definition ns_world_example :: world where
  "ns_world_example = tx_world_example\<lparr>w_mem := put_ns_msg 0x500 (ch_name (ping_chnl 1)) 9 RPMSG_NS_CREATE (\<lambda>a. 0),
     w_chnls := Map.empty, w_rdevs := [1 \<mapsto> ns_rdev_example]\<rparr>"

lemma ns_inv_example: "ept_inv 1 ns_world_example Map.empty" "chnl_inv 1 ns_world_example []"
proof -
  show "ept_inv 1 ns_world_example Map.empty"
    using ept_map_empty [of ns_world_example 1 ns_rdev_example]
    by (simp add: ept_inv_def objs_fresh_def ns_world_example_def ns_rdev_example_def tx_rdev_example_def rdev_zero_def
        tx_world_example_def world0_def)
  have "node_seq (w_nodes ns_world_example) NULL []" by (simp add: node_seq_def)
  then show "chnl_inv 1 ns_world_example []"
    by (simp add: chnl_inv_def ns_world_example_def ns_rdev_example_def tx_rdev_example_def rdev_zero_def)
qed

lemma ns_name_example: "env_strncpy (ch_name (ping_chnl 1)) RPMSG_NAME_SIZE = Some (ch_name (ping_chnl 1))"
  by code_simp

lemma cfg_example_chnls: "recording_chnls cfg_example"
  by (simp add: recording_chnls_def cfg_example_def)

lemma ns_reply_example:
  "reply_ready cfg_example 1 ns_rdev_example ns_world_example (RPMSG_LOCATE_DATA 0x500) tx_vq_example (rs_ring ring_example)
     (rs_dev ring_example) (ring_abs0 4) 0x10000 512 (ring_abs0 4) 0 [1, 2, 3]"
proof -
  have "tx_source cfg_example ns_rdev_example ns_world_example (ring_abs0 4) = Some (0x10000, 512, ring_abs0 4)" by code_simp
  moreover have "notify_wired ns_world_example tx_vq_example" by code_simp
  moreover have "ra_free (ring_abs0 4) = 0 # [1, 2, 3]" by code_simp
  moreover have "range32 (0x500 + of_nat 16) 40 \<inter> range32 (0x500 + of_nat 64256) 16 = {}" by (rule range32_disjoint) simp_all
  then have "range32 0x510 40 \<inter> range32 0x10000 16 = {}" by simp
  ultimately show ?thesis using tx_rel_example tx_hyps_example(6,7)
    by (simp add: reply_ready_def RPMSG_LOCATE_DATA_def RPMSG_HDR_SIZE_def cfg_example_def ns_rdev_example_def tx_rdev_example_def
        rdev_zero_def ns_world_example_def tx_world_example_def get_vq_def tx_vq_example_def)
qed

definition ns_remote_example :: world where
  "ns_remote_example = ept_world_example\<lparr>w_chnls := [5 \<mapsto> (ping_chnl 1)\<lparr>ch_src := 9, ch_state := RPMSG_CHNL_STATE_NS\<rparr>]\<rparr>"

lemma ns_remote_endpoint: "\<exists>wr e. ept_inv 1 wr [9 \<mapsto> e] \<and> w_rdevs wr 1 \<noteq> None \<and>
    w_epts wr e = Some \<lparr>ep_rp_chnl = 5, ep_cb = Some (App_rx_cb 0), ep_addr = 9, ep_priv = 1\<rparr> \<and>
    w_chnls wr = w_chnls ns_remote_example"
proof -
  have "ept_inv 1 ns_remote_example Map.empty" unfolding ns_remote_example_def by (rule ept_inv_chnls [OF ept_inv_example])
  moreover have "w_chnls ns_remote_example 5 = Some ((ping_chnl 1)\<lparr>ch_src := 9, ch_state := RPMSG_CHNL_STATE_NS\<rparr>)"
    by (simp add: ns_remote_example_def)
  ultimately obtain e w where "ept_inv 1 w [9 \<mapsto> e]" "ept_frame ns_remote_example w"
    "w_epts w e = Some \<lparr>ep_rp_chnl = 5, ep_cb = Some (App_rx_cb 0), ep_addr = 9, ep_priv = 1\<rparr>"
    using rpmsg_create_ept_map [of 1 ns_remote_example Map.empty 5 "(ping_chnl 1)\<lparr>ch_src := 9, ch_state := RPMSG_CHNL_STATE_NS\<rparr>"
        "Some (App_rx_cb 0)" 9 cfg_example 1]
    by (auto simp: ept_addr_valid_def RPMSG_ADDR_ANY_def cfg_example_def ping_chnl_def)
  moreover from this have "w_rdevs w 1 \<noteq> None" "w_chnls w = w_chnls ns_remote_example"
    by (auto simp: ept_frame_def ept_inv_def ept_map_def)
  ultimately show ?thesis by blast
qed

theorem name_service_handshake_witness:
  "\<exists>c ept a w' node wr1 wr'. rpmsg_ns_callback cfg_example 0x510 40 1 ns_world_example = Some w' \<and>
     w_chnls w' c = Some \<lparr>ch_name = ''ping'' @ replicate 28 NUL, ch_src = a, ch_dst = 9, ch_rdev = 1, ch_rp_ept = ept,
       ch_state = RPMSG_CHNL_STATE_ACTIVE\<rparr> \<and> w_app w' = [Chnl_event 1 c] \<and>
     rpmsg_deliver cfg_example 1 node 0x10000 wr1 = Some wr' \<and>
     w_chnls wr' 5 = Some ((ping_chnl 1)\<lparr>ch_src := 9, ch_dst := a\<rparr>)"
proof -
  have rd: "w_rdevs ns_world_example 1 = Some ns_rdev_example" "rd_default_cb ns_rdev_example = Some (App_rx_cb 0)"
    "rd_channel_created ns_rdev_example = Some 1" "w_app ns_world_example = []"
    by (simp_all add: ns_world_example_def ns_rdev_example_def tx_world_example_def world0_def)
  have mem: "w_mem ns_world_example = put_ns_msg 0x500 (ch_name (ping_chnl 1)) 9 RPMSG_NS_CREATE (\<lambda>a. 0)"
    by (simp add: ns_world_example_def)
  have v: "cf_vatopa cfg_example 0x10000 = 0x10000" by (simp add: cfg_example_def)
  have al: "\<forall>i < 4. cf_alloc_ok cfg_example (w_allocs ns_world_example + i)" by (simp add: cfg_example_def)
  obtain wr e rdr where r: "ept_inv 1 wr [9 \<mapsto> e]" "w_rdevs wr 1 = Some rdr"
    "w_epts wr e = Some \<lparr>ep_rp_chnl = 5, ep_cb = Some (App_rx_cb 0), ep_addr = 9, ep_priv = 1\<rparr>" "w_chnls wr = w_chnls ns_remote_example"
    using ns_remote_endpoint by auto
  have "w_chnls wr 5 = Some ((ping_chnl 1)\<lparr>ch_src := 9, ch_state := RPMSG_CHNL_STATE_NS\<rparr>)" by (simp add: r(4) ns_remote_example_def)
  from name_service_handshake [OF ns_inv_example cfg_example_chnls rd(1,2) mem ns_name_example al _ ns_reply_example r(1,2) _ r(3) _ _ this]
  obtain c ept a w' node wr1 wr' where
    h: "rpmsg_ns_callback cfg_example (RPMSG_LOCATE_DATA 0x500) RPMSG_NS_MSG_SIZE 1 ns_world_example = Some w'"
    "w_chnls w' = (w_chnls ns_world_example)(c \<mapsto> \<lparr>ch_name = ch_name (ping_chnl 1), ch_src = a, ch_dst = 9, ch_rdev = 1, ch_rp_ept = ept,
      ch_state = RPMSG_CHNL_STATE_ACTIVE\<rparr>)"
    "w_app w' = [Chnl_event 1 c]" "rpmsg_deliver cfg_example 1 node 0x10000 wr1 = Some wr'"
    "w_chnls wr' = (w_chnls wr)(5 \<mapsto> (ping_chnl 1)\<lparr>ch_src := 9, ch_state := RPMSG_CHNL_STATE_NS, ch_dst := a, ch_state := RPMSG_CHNL_STATE_ACTIVE\<rparr>)"
    using rd(3,4) v by (auto simp: chnl_events_def)
  then show ?thesis
    by (intro exI [of _ c] exI [of _ ept] exI [of _ a] exI [of _ w'] exI [of _ node] exI [of _ wr1] exI [of _ wr'])
      (simp add: RPMSG_LOCATE_DATA_def RPMSG_HDR_SIZE_def RPMSG_NS_MSG_SIZE_def ping_chnl_def)
qed

section \<open>Opening and closing\<close>

text \<open>
  Property C14.  Opening and closing by announcement is a round trip: after the announcement of a channel has been processed,
  an announcement of its destruction, whenever it arrives, closes exactly that channel; channels, endpoint table
  and address bitmap are as before the first announcement, and the application has been told of both.
\<close>

theorem name_service_open_close:
  assumes "ept_inv rdev w T" "chnl_inv rdev w cs" "recording_chnls cf" "w_rdevs w rdev = Some rd" "rd_default_cb rd = Some cb"
    and "w_mem w = put_ns_msg hdr nm dst RPMSG_NS_CREATE m" "env_strncpy nm RPMSG_NAME_SIZE = Some nm"
    and "\<forall>i < 4. cf_alloc_ok cf (w_allocs w + i)" "card (dom T) < 127"
    and "reply_ready cf rdev rd w (RPMSG_LOCATE_DATA hdr) vq r d A b len A' x xs"
  shows "\<exists>c w'. rpmsg_ns_callback cf (RPMSG_LOCATE_DATA hdr) RPMSG_NS_MSG_SIZE rdev w = Some w' \<and> chnl_inv rdev w' (c # cs) \<and>
    (\<forall>hdr2 addr m2. \<exists>w''. rpmsg_ns_callback cf (RPMSG_LOCATE_DATA hdr2) RPMSG_NS_MSG_SIZE rdev
        (w'\<lparr>w_mem := put_ns_msg hdr2 nm addr RPMSG_NS_DESTROY m2\<rparr>) = Some w'' \<and>
      ept_inv rdev w'' T \<and> chnl_inv rdev w'' cs \<and> w_chnls w'' = w_chnls w \<and>
      w_app w'' = w_app w @ chnl_events (rd_channel_created rd) c @ chnl_events (rd_channel_destroyed rd) c)"
proof -
  have len: "length nm = RPMSG_NAME_SIZE" using env_strncpy_length [OF assms(7)] .
  have msg: "ns_msg_at (w_mem w) (RPMSG_LOCATE_DATA hdr) nm dst RPMSG_NS_CREATE"
    unfolding assms(6) by (rule put_ns_msg_announces(1)) (rule env_strncpy_length [OF assms(7)])
  from ns_announcement_opens [OF assms(1-5) msg assms(7-10)] obtain c ept a w' where
    o: "rpmsg_ns_callback cf (RPMSG_LOCATE_DATA hdr) RPMSG_NS_MSG_SIZE rdev w = Some w'" "w_chnls w c = None"
    "T a = None" "ept_inv rdev w' (T(a \<mapsto> ept))" "chnl_inv rdev w' (c # cs)"
    "w_chnls w' = (w_chnls w)(c \<mapsto> \<lparr>ch_name = nm, ch_src = a, ch_dst = dst, ch_rdev = rdev, ch_rp_ept = ept,
      ch_state = RPMSG_CHNL_STATE_ACTIVE\<rparr>)"
    "w_epts w' ept = Some \<lparr>ep_rp_chnl = c, ep_cb = Some cb, ep_addr = a, ep_priv = rdev\<rparr>"
    "w_app w' = w_app w @ chnl_events (rd_channel_created rd) c" "\<exists>rd1. w_rdevs w' rdev = Some rd1 \<and> rd_core rd1 = rd_core rd" by blast
  have "\<exists>w''. rpmsg_ns_callback cf (RPMSG_LOCATE_DATA hdr2) RPMSG_NS_MSG_SIZE rdev
        (w'\<lparr>w_mem := put_ns_msg hdr2 nm addr RPMSG_NS_DESTROY m2\<rparr>) = Some w'' \<and>
      ept_inv rdev w'' T \<and> chnl_inv rdev w'' cs \<and> w_chnls w'' = w_chnls w \<and>
      w_app w'' = w_app w @ chnl_events (rd_channel_created rd) c @ chnl_events (rd_channel_destroyed rd) c" for hdr2 addr m2
  proof -
    let ?w = "w'\<lparr>w_mem := put_ns_msg hdr2 nm addr RPMSG_NS_DESTROY m2\<rparr>"
    let ?ch = "\<lparr>ch_name = nm, ch_src = a, ch_dst = dst, ch_rdev = rdev, ch_rp_ept = ept, ch_state = RPMSG_CHNL_STATE_ACTIVE\<rparr>"
    have i: "ept_inv rdev ?w (T(a \<mapsto> ept))" "chnl_inv rdev ?w (c # cs)" using o(4,5) inv_cong [of ?w w' rdev] by simp_all
    have msg: "ns_msg_at (w_mem ?w) (RPMSG_LOCATE_DATA hdr2) nm addr RPMSG_NS_DESTROY" using put_ns_msg_announces(1) [OF len] by simp
    have flags: "RPMSG_NS_DESTROY AND RPMSG_NS_DESTROY \<noteq> 0" "drop_bit 24 RPMSG_NS_DESTROY = 0" by (simp_all add: RPMSG_NS_DESTROY_def)
    have ch: "w_chnls ?w c = Some ?ch" "ch_name ?ch = nm" by (simp_all add: o(6))
    then obtain zs where fil: "filter (named ?w nm) (c # cs) = c # zs" using name_eq_refl [OF len] by (simp add: named_def)
    have ep: "w_epts ?w (ch_rp_ept ?ch) = Some \<lparr>ep_rp_chnl = c, ep_cb = Some cb, ep_addr = a, ep_priv = rdev\<rparr>" using o(7) by simp
    obtain rd2 where rd2: "w_rdevs ?w rdev = Some rd2" "rd_core rd2 = rd_core rd" using o(9) by auto
    from ns_close [OF i assms(3) msg flags len fil ch ep _ _ rd2(1)] obtain w'' where
      w'': "rpmsg_ns_callback cf (RPMSG_LOCATE_DATA hdr2) RPMSG_NS_MSG_SIZE rdev ?w = Some w''"
      "ept_inv rdev w'' ((T(a \<mapsto> ept))(a := None))" "chnl_inv rdev w'' cs" "w_chnls w'' = (w_chnls ?w)(c := None)"
      "w_app w'' = w_app ?w @ chnl_events (rd_channel_destroyed rd2) c" by auto
    moreover have "(T(a \<mapsto> ept))(a := None) = T" "(w_chnls ?w)(c := None) = w_chnls w" using o(2,3,6) by auto
    ultimately show ?thesis using o(8) rd_coreD [OF rd2(2)] by auto
  qed
  then show ?thesis using o(1,5) by blast
qed

theorem name_service_open_close_witness:
  "\<exists>w' w''. rpmsg_ns_callback cfg_example (RPMSG_LOCATE_DATA 0x500) RPMSG_NS_MSG_SIZE 1 ns_world_example = Some w' \<and>
     rpmsg_ns_callback cfg_example (RPMSG_LOCATE_DATA 0x800) RPMSG_NS_MSG_SIZE 1
       (w'\<lparr>w_mem := put_ns_msg 0x800 (ch_name (ping_chnl 1)) 9 RPMSG_NS_DESTROY (\<lambda>a. 0)\<rparr>) = Some w'' \<and>
     ept_inv 1 w'' Map.empty \<and> chnl_inv 1 w'' []"
proof -
  have rd: "w_rdevs ns_world_example 1 = Some ns_rdev_example" "rd_default_cb ns_rdev_example = Some (App_rx_cb 0)"
    "w_mem ns_world_example = put_ns_msg 0x500 (ch_name (ping_chnl 1)) 9 RPMSG_NS_CREATE (\<lambda>a. 0)"
    by (simp_all add: ns_world_example_def ns_rdev_example_def)
  have al: "\<forall>i < 4. cf_alloc_ok cfg_example (w_allocs ns_world_example + i)" by (simp add: cfg_example_def)
  have "card (dom (Map.empty :: u32 \<rightharpoonup> ptr)) < 127" by simp
  from name_service_open_close [OF ns_inv_example cfg_example_chnls rd ns_name_example al this ns_reply_example] show ?thesis by blast
qed

end
