(* ===== verification/Announce.thy ===== *)
theory Announce
  imports NameService
begin

text \<open>
  The announcements of the remote.  When the master notifies it, \<^verbatim>\<open>rpmsg_tx_callback\<close> walks over the list of channels and
  writes one announcement per idle channel, each into a buffer the master has offered.
\<close>

section \<open>An announcement in a buffer\<close>

definition ns_buffer :: "memory \<Rightarrow> u32 \<Rightarrow> rpmsg_channel \<Rightarrow> bool" where
  "ns_buffer m hdr ch \<longleftrightarrow> ns_msg_at m (RPMSG_LOCATE_DATA hdr) (ch_name ch) (ch_src ch) RPMSG_NS_CREATE \<and>
     load32 m (hdr + 4) = RPMSG_NS_EPT_ADDR \<and> load16 m (hdr + 12) = RPMSG_NS_MSG_SIZE"

text \<open>The fields of an announcement are in the first 56 bytes of the buffer.\<close>

lemma ns_ranges:
  "range32 (hdr + 4) 4 \<subseteq> range32 hdr 56" "range32 (hdr + 12) 2 \<subseteq> range32 hdr 56" "range32 (RPMSG_LOCATE_DATA hdr) 32 \<subseteq> range32 hdr 56"
  "range32 (RPMSG_LOCATE_DATA hdr + 32) 4 \<subseteq> range32 hdr 56" "range32 (RPMSG_LOCATE_DATA hdr + 36) 4 \<subseteq> range32 hdr 56"
  using range32_subset [of 4 4 56 hdr] range32_subset [of 12 2 56 hdr] range32_subset [of 16 32 56 hdr] range32_subset [of 48 4 56 hdr]
    range32_subset [of 52 4 56 hdr]
  by (simp_all add: RPMSG_LOCATE_DATA_def RPMSG_HDR_SIZE_def add.assoc)

lemma ns_buffer_put: "length (ch_name ch) = RPMSG_NAME_SIZE \<Longrightarrow> ns_buffer (put_ns_msg hdr (ch_name ch) (ch_src ch) RPMSG_NS_CREATE m) hdr ch"
  by (simp add: ns_buffer_def put_ns_msg_announces)

lemma put_ns_msg_outside:
  assumes "length nm = RPMSG_NAME_SIZE" "b \<notin> range32 hdr 56"
  shows "put_ns_msg hdr nm a f m b = m b"
proof -
  have "b \<notin> range32 (hdr + 4) 4" "b \<notin> range32 (hdr + 12) 2" "b \<notin> range32 (RPMSG_LOCATE_DATA hdr) 32"
    "b \<notin> range32 (RPMSG_LOCATE_DATA hdr + 32) 4" "b \<notin> range32 (RPMSG_LOCATE_DATA hdr + 36) 4" using assms(2) ns_ranges [of hdr] by blast+
  then show ?thesis using assms(1) by (simp add: put_ns_msg_def Let_def RPMSG_NAME_SIZE_def mem_simps)
qed

lemma ns_buffer_cong:
  assumes "ns_buffer m hdr ch" "\<And>b. b \<in> range32 hdr 56 \<Longrightarrow> m' b = m b"
  shows "ns_buffer m' hdr ch"
proof -
  have "load_bytes m' (RPMSG_LOCATE_DATA hdr) RPMSG_NAME_SIZE = load_bytes m (RPMSG_LOCATE_DATA hdr) RPMSG_NAME_SIZE"
    by (rule load_bytes_cong) (use assms(2) ns_ranges(3) [of hdr] in \<open>auto simp: RPMSG_NAME_SIZE_def\<close>)
  moreover have "load32 m' a = load32 m a" if "range32 a 4 \<subseteq> range32 hdr 56" for a
    by (rule load32_cong) (use assms(2) that in auto)
  moreover have "load16 m' (hdr + 12) = load16 m (hdr + 12)" by (rule load16_cong) (use assms(2) ns_ranges(2) [of hdr] in auto)
  ultimately show ?thesis using assms(1) ns_ranges [of hdr] by (simp add: ns_buffer_def ns_msg_at_def)
qed

section \<open>Sending one announcement\<close>

lemma remote_announces:
  assumes "w_rdevs w rdev = Some rd" "rd_role rd \<noteq> RPMSG_REMOTE" "get_vq (rd_tvq rd) w = Some (vq, r)"
    "ring_rel va \<lparr>rs_drv = d, rs_dev = vq, rs_ring = r\<rparr> A" "ra_pend A = t # ts" "msg_hdr cf va t \<noteq> 0"
    "quiet_notify cf" "notify_wired w vq" "w_chnls w c = Some ch" "env_strncpy (ch_name ch) RPMSG_NAME_SIZE = Some (ch_name ch)"
  shows "\<exists>w' vq' r'. rpmsg_send_ns_message cf rdev c flags w = Some w' \<and>
    w_mem w' = put_ns_msg (msg_hdr cf va t) (ch_name ch) (ch_src ch) flags (w_mem w) \<and>
    tx_frame w w' \<and> get_vq (rd_tvq rd) w' = Some (vq', r') \<and> vq_ident vq' = vq_ident vq \<and>
    ring_rel va \<lparr>rs_drv = d, rs_dev = vq', rs_ring = r'\<rparr> (A\<lparr>ra_pend := ts, ra_used := ra_used A @ [(t, tk_len t)]\<rparr>) \<and>
    only_vq (rd_tvq rd) (vq_ring_mem vq) w w'"
proof -
  let ?h = "msg_hdr cf va t"
  have rdl: "w_rdevs (env_lock_mutex w) rdev = Some rd" "get_vq (rd_tvq rd) (env_lock_mutex w) = Some (vq, r)" using assms(1,3) by simp_all
  from get_tx_pending [OF rdl(1) assms(2) rdl(2) assms(4,5), of cf "cf_uninit_len cf" "cf_uninit_idx cf"]
  obtain vq1 where g: "rpmsg_get_tx_buffer cf rdev (cf_uninit_len cf) (cf_uninit_idx cf) (env_lock_mutex w) =
      Some (?h, tk_len t, tk_head t, put_vq (rd_tvq rd) vq1 r (env_lock_mutex w))" "vq_ident vq1 = vq_ident vq"
    "ring_rel va \<lparr>rs_drv = d, rs_dev = vq1, rs_ring = r\<rparr> (A\<lparr>ra_pend := ts, ra_taken := ra_taken A @ [t]\<rparr>)" by blast
  define w1 where "w1 = put_vq (rd_tvq rd) vq1 r (env_lock_mutex w)"
  define w2 where "w2 = w1\<lparr>w_mem := put_ns_msg ?h (ch_name ch) (ch_src ch) flags (w_mem w)\<rparr>"
  have m1: "w_mem w1 = w_mem w" "w_chnls w1 c = Some ch" "w_rdevs w1 rdev = Some rd" using assms(1,9) by (simp_all add: w1_def put_vq_def)
  have f2: "tx_frame w w2" by (simp add: w2_def w1_def tx_frame_def)
  have g2: "get_vq (rd_tvq rd) w2 = Some (vq1, r)" by (simp add: w2_def w1_def get_vq_def put_vq_def)
  have "notify_wired w2 vq1" using assms(8) notify_wired_cong [OF g(2), of w2 w] f2 by (simp add: tx_frame_def)
  from give_and_kick [OF g2 g(3) _ assms(7) this, of "ra_taken A" t "tk_len t"] obtain w3 w4 vq' r' where k:
    "w_add_consumed_buffer cf (rd_tvq rd) (tk_head t) (tk_len t) w2 = Some (VQUEUE_SUCCESS, w3)" "w_kick cf (rd_tvq rd) w3 = Some w4"
    "tx_frame w2 w3" "tx_frame w2 w4" "w_mem w4 = w_mem w2" "get_vq (rd_tvq rd) w4 = Some (vq', r')" "vq_ident vq' = vq_ident vq1"
    "ring_rel va \<lparr>rs_drv = d, rs_dev = vq', rs_ring = r'\<rparr>
      (A\<lparr>ra_pend := ts, ra_taken := ra_taken A, ra_used := ra_used A @ [(t, tk_len t)]\<rparr>)" "only_vq (rd_tvq rd) (vq_ring_mem vq1) w2 w4" by auto
  have only: "only_vq (rd_tvq rd) (vq_ring_mem vq) w (env_unlock_mutex w4)"
    using g(2) k(9) by (simp add: only_vq_def vq_ident_def w2_def w1_def put_vq_def)
  have rd2: "w_rdevs w2 rdev = Some rd" "w_rdevs w3 rdev = Some rd" using f2 k(3) assms(1) by (simp_all add: tx_frame_def)
  have "rpmsg_send_ns_message cf rdev c flags w = Some (env_unlock_mutex w4)"
    using assms(2,6,10) g(1) [folded w1_def] k(1) [unfolded w2_def] k(2) rd2(2) m1
    by (simp add: rpmsg_send_ns_message_def rpmsg_enqueue_buffer_def Let_def)
  moreover have "A\<lparr>ra_pend := ts, ra_taken := ra_taken A, ra_used := us\<rparr> = A\<lparr>ra_pend := ts, ra_used := us\<rparr>" for us
    by (cases A) simp
  ultimately show ?thesis using only k(4-8) f2 g(2) tx_frame_trans [OF f2 k(4)]
    by (intro exI [of _ "env_unlock_mutex w4"] exI [of _ vq'] exI [of _ r']) (simp add: w2_def tx_frame_def)
qed

section \<open>The walk over the channels\<close>

definition is_idle :: "(ptr \<rightharpoonup> rpmsg_channel) \<Rightarrow> ptr \<Rightarrow> bool" where
  "is_idle M c \<longleftrightarrow> (case M c of None \<Rightarrow> False | Some ch \<Rightarrow> ch_state ch = RPMSG_CHNL_STATE_IDLE)"

text \<open>The channels after the walk: the idle ones of the list have the new state.\<close>

definition leave_idle :: "u32 \<Rightarrow> ptr list \<Rightarrow> (ptr \<rightharpoonup> rpmsg_channel) \<Rightarrow> (ptr \<rightharpoonup> rpmsg_channel)" where
  "leave_idle st cs M = (\<lambda>c. if c \<in> set cs \<and> is_idle M c then map_option (\<lambda>ch. ch\<lparr>ch_state := st\<rparr>) (M c) else M c)"

lemma leave_idle_Nil [simp]: "leave_idle st [] M = M"
  by (simp add: leave_idle_def)

lemma leave_idle_skip: "\<not> is_idle M c \<Longrightarrow> leave_idle st (c # cs) M = leave_idle st cs M"
  by (auto simp: leave_idle_def)

lemma leave_idle_step:
  "M c = Some ch \<Longrightarrow> is_idle M c \<Longrightarrow> c \<notin> set cs \<Longrightarrow> leave_idle st cs (M(c \<mapsto> ch\<lparr>ch_state := st\<rparr>)) = leave_idle st (c # cs) M"
  by (auto simp: leave_idle_def is_idle_def fun_eq_iff)

lemma idle_others: "c \<notin> set cs \<Longrightarrow> filter (is_idle (M(c \<mapsto> ch))) cs = filter (is_idle M) cs"
  by (rule filter_cong) (auto simp: is_idle_def)

definition apart :: "config \<Rightarrow> (u32 \<Rightarrow> u32) \<Rightarrow> token list \<Rightarrow> bool" where
  "apart cf va ts \<longleftrightarrow> sorted_wrt (\<lambda>t t'. range32 (msg_hdr cf va t) 56 \<inter> range32 (msg_hdr cf va t') 56 = {}) ts \<and>
     (\<forall>t \<in> set ts. msg_hdr cf va t \<noteq> 0)"

definition name_ok :: "rpmsg_channel \<Rightarrow> bool" where
  "name_ok ch \<longleftrightarrow> env_strncpy (ch_name ch) RPMSG_NAME_SIZE = Some (ch_name ch)"

lemma name_ok_length: "name_ok ch \<Longrightarrow> length (ch_name ch) = RPMSG_NAME_SIZE"
  by (auto simp: name_ok_def dest: env_strncpy_length)

text \<open>What the walk changes: the channels, the buffers it fills, the transmit ring.\<close>

definition walk_frame :: "world \<Rightarrow> world \<Rightarrow> bool" where
  "walk_frame w w' \<longleftrightarrow> w_nodes w' = w_nodes w \<and> w_epts w' = w_epts w \<and> w_rdevs w' = w_rdevs w \<and> w_procs w' = w_procs w \<and>
     w_app w' = w_app w \<and> w_next w' = w_next w \<and> w_allocs w' = w_allocs w"

lemma tx_loop_announces:
  assumes "dll (w_nodes w) p ys" "list_all2 (\<lambda>y c. \<exists>n. w_nodes w y = Some n \<and> ll_data n = c) ys cs" "distinct cs"
    and "\<forall>c \<in> set cs. \<exists>ch. w_chnls w c = Some ch \<and> name_ok ch" "w_rdevs w rdev = Some rd" "rd_role rd \<noteq> RPMSG_REMOTE" "rd_support_ns rd"
    and "get_vq (rd_tvq rd) w = Some (vq, r)" "ring_rel va \<lparr>rs_drv = d, rs_dev = vq, rs_ring = r\<rparr> A" "quiet_notify cf" "notify_wired w vq"
    and "length (filter (is_idle (w_chnls w)) cs) \<le> length (ra_pend A)" "apart cf va (ra_pend A)"
  shows "\<exists>w' vq' r'. rpmsg_tx_loop cf rdev p w = Some w' \<and> walk_frame w w' \<and> only_vq (rd_tvq rd) (vq_ring_mem vq) w w' \<and> w_chnls w' = leave_idle RPMSG_CHNL_STATE_NS cs (w_chnls w) \<and>
    (let k = length (filter (is_idle (w_chnls w)) cs); ts = take k (ra_pend A) in
     list_all2 (\<lambda>t c. \<exists>ch. w_chnls w c = Some ch \<and> ns_buffer (w_mem w') (msg_hdr cf va t) ch) ts (filter (is_idle (w_chnls w)) cs) \<and>
     (\<forall>b. (\<forall>t \<in> set ts. b \<notin> range32 (msg_hdr cf va t) 56) \<longrightarrow> w_mem w' b = w_mem w b) \<and>
     get_vq (rd_tvq rd) w' = Some (vq', r') \<and> vq_ident vq' = vq_ident vq \<and>
     ring_rel va \<lparr>rs_drv = d, rs_dev = vq', rs_ring = r'\<rparr>
       (A\<lparr>ra_pend := drop k (ra_pend A), ra_used := ra_used A @ map (\<lambda>t. (t, tk_len t)) ts\<rparr>))"
  using assms(1-5,8,9,11-13)
proof (induction ys arbitrary: p cs w vq r A)
  case Nil
  have e: "A\<lparr>ra_pend := ra_pend A, ra_used := ra_used A\<rparr> = A" by simp
  have "rpmsg_tx_loop cf rdev p w = Some w" using Nil.prems(1) by (simp add: rpmsg_tx_loop.simps)
  then show ?case using Nil.prems by (simp add: walk_frame_def only_vq_def)
next
  case (Cons y ys)
  from Cons.prems(2) obtain c cs' where cs: "cs = c # cs'" by (cases cs) auto
  from dll_head [OF Cons.prems(1)] obtain n where n: "p = y" "y \<noteq> NULL" "w_nodes w y = Some n" "dll (w_nodes w) (ll_next n) ys" by blast
  have l: "ll_data n = c" "list_all2 (\<lambda>y c. \<exists>n. w_nodes w y = Some n \<and> ll_data n = c) ys cs'" "distinct cs'" "c \<notin> set cs'"
    using Cons.prems(2,3) n(3) by (auto simp: cs)
  obtain ch where ch: "w_chnls w c = Some ch" "name_ok ch" using Cons.prems(4) by (auto simp: cs)
  have ch': "\<forall>c \<in> set cs'. \<exists>ch. w_chnls w c = Some ch \<and> name_ok ch" using Cons.prems(4) by (simp add: cs)
  show ?case
  proof (cases "is_idle (w_chnls w) c")
    case False
    then have "rpmsg_tx_loop cf rdev p w = rpmsg_tx_loop cf rdev (ll_next n) w"
      using n l(1) ch Cons.prems(5) by (subst rpmsg_tx_loop.simps) (simp add: is_idle_def)
    then show ?thesis using Cons.IH [OF n(4) l(2,3) ch' Cons.prems(5-8) _ Cons.prems(10)] Cons.prems(9) False
      by (simp add: cs leave_idle_skip)
  next
    case True
    then have st: "ch_state ch = RPMSG_CHNL_STATE_IDLE" using ch by (simp add: is_idle_def)
    obtain t ts where t: "ra_pend A = t # ts" using Cons.prems(9) True by (cases "ra_pend A") (auto simp: cs)
    let ?ch = "ch\<lparr>ch_state := RPMSG_CHNL_STATE_NS\<rparr>" and ?h = "msg_hdr cf va t"
    let ?w = "w\<lparr>w_chnls := (w_chnls w)(c \<mapsto> ?ch)\<rparr>"
    have ap: "?h \<noteq> 0" "apart cf va ts" "\<forall>t' \<in> set ts. range32 ?h 56 \<inter> range32 (msg_hdr cf va t') 56 = {}"
      using Cons.prems(10) t by (simp_all add: apart_def)
    have wd: "notify_wired ?w vq" using Cons.prems(8) notify_wired_cong [of vq vq ?w w] by simp
    have g: "w_rdevs ?w rdev = Some rd" "get_vq (rd_tvq rd) ?w = Some (vq, r)" using Cons.prems(5,6) by (simp_all add: get_vq_def)
    from remote_announces [OF g(1) assms(6) g(2) Cons.prems(7) t ap(1) assms(10) wd, of c ?ch RPMSG_NS_CREATE] ch(2) obtain w1 vq1 r1 where
      s: "rpmsg_send_ns_message cf rdev c RPMSG_NS_CREATE ?w = Some w1" "w_mem w1 = put_ns_msg ?h (ch_name ch) (ch_src ch) RPMSG_NS_CREATE (w_mem w)"
      "tx_frame ?w w1" "get_vq (rd_tvq rd) w1 = Some (vq1, r1)" "vq_ident vq1 = vq_ident vq"
      "ring_rel va \<lparr>rs_drv = d, rs_dev = vq1, rs_ring = r1\<rparr> (A\<lparr>ra_pend := ts, ra_used := ra_used A @ [(t, tk_len t)]\<rparr>)"
      "only_vq (rd_tvq rd) (vq_ring_mem vq) ?w w1" by (auto simp: name_ok_def)
    have f: "w_nodes w1 = w_nodes w" "w_chnls w1 = (w_chnls w)(c \<mapsto> ?ch)" "w_epts w1 = w_epts w" "w_rdevs w1 = w_rdevs w" "w_procs w1 = w_procs w"
      "w_app w1 = w_app w" "w_next w1 = w_next w" "w_allocs w1 = w_allocs w" using s(3) by (simp_all add: tx_frame_def)
    have run: "rpmsg_tx_loop cf rdev p w = rpmsg_tx_loop cf rdev (ll_next n) w1"
      using n l(1) ch st Cons.prems(5) s(1) f(1) assms(7) by (subst rpmsg_tx_loop.simps) simp
    have "\<exists>w' vq' r'. rpmsg_tx_loop cf rdev (ll_next n) w1 = Some w' \<and> walk_frame w1 w' \<and> only_vq (rd_tvq rd) (vq_ring_mem vq1) w1 w' \<and>
      w_chnls w' = leave_idle RPMSG_CHNL_STATE_NS cs' (w_chnls w1) \<and>
      (let k = length (filter (is_idle (w_chnls w1)) cs'); us = take k ts in
       list_all2 (\<lambda>t c. \<exists>ch. w_chnls w1 c = Some ch \<and> ns_buffer (w_mem w') (msg_hdr cf va t) ch) us (filter (is_idle (w_chnls w1)) cs') \<and>
       (\<forall>b. (\<forall>t \<in> set us. b \<notin> range32 (msg_hdr cf va t) 56) \<longrightarrow> w_mem w' b = w_mem w1 b) \<and>
       get_vq (rd_tvq rd) w' = Some (vq', r') \<and> vq_ident vq' = vq_ident vq1 \<and>
       ring_rel va \<lparr>rs_drv = d, rs_dev = vq', rs_ring = r'\<rparr>
         (A\<lparr>ra_pend := drop k ts, ra_used := (ra_used A @ [(t, tk_len t)]) @ map (\<lambda>t. (t, tk_len t)) us\<rparr>))"
    proof -
      have wd1: "notify_wired w1 vq1" using Cons.prems(8) notify_wired_cong [OF s(5), of w1 w] f by simp
      have c1: "\<forall>c \<in> set cs'. \<exists>ch. w_chnls w1 c = Some ch \<and> name_ok ch" using ch' l(4) by (auto simp: f)
      have k1: "length (filter (is_idle (w_chnls w1)) cs') \<le> length (ra_pend (A\<lparr>ra_pend := ts, ra_used := ra_used A @ [(t, tk_len t)]\<rparr>))"
        using Cons.prems(9) True t by (simp add: cs f(2) idle_others [OF l(4)])
      have "dll (w_nodes w1) (ll_next n) ys" "list_all2 (\<lambda>y c. \<exists>n. w_nodes w1 y = Some n \<and> ll_data n = c) ys cs'" "w_rdevs w1 rdev = Some rd"
        using n(4) l(2) Cons.prems(5) by (simp_all add: f)
      from Cons.IH [OF this(1,2) l(3) c1 this(3) s(4,6) wd1 k1] ap(2) show ?thesis by simp
    qed
    then obtain w' vq' r' where i: "rpmsg_tx_loop cf rdev (ll_next n) w1 = Some w'" "walk_frame w1 w'"
      "w_chnls w' = leave_idle RPMSG_CHNL_STATE_NS cs' (w_chnls w1)"
      "let k = length (filter (is_idle (w_chnls w1)) cs'); us = take k ts in
       list_all2 (\<lambda>t c. \<exists>ch. w_chnls w1 c = Some ch \<and> ns_buffer (w_mem w') (msg_hdr cf va t) ch) us (filter (is_idle (w_chnls w1)) cs') \<and>
       (\<forall>b. (\<forall>t \<in> set us. b \<notin> range32 (msg_hdr cf va t) 56) \<longrightarrow> w_mem w' b = w_mem w1 b) \<and>
       get_vq (rd_tvq rd) w' = Some (vq', r') \<and> vq_ident vq' = vq_ident vq1 \<and>
       ring_rel va \<lparr>rs_drv = d, rs_dev = vq', rs_ring = r'\<rparr>
         (A\<lparr>ra_pend := drop k ts, ra_used := (ra_used A @ [(t, tk_len t)]) @ map (\<lambda>t. (t, tk_len t)) us\<rparr>)"
      and ov: "only_vq (rd_tvq rd) (vq_ring_mem vq1) w1 w'" by blast
    have only: "only_vq (rd_tvq rd) (vq_ring_mem vq) w w'" using ov s(5,7) by (simp add: only_vq_def vq_ident_def)
    define k where "k = length (filter (is_idle (w_chnls w)) cs')"
    have fi: "filter (is_idle (w_chnls w1)) cs' = filter (is_idle (w_chnls w)) cs'" by (simp add: f(2) idle_others [OF l(4)])
    note i4 = i(4) [unfolded fi Let_def, folded k_def]
    have "ns_buffer (w_mem w1) ?h ch" unfolding s(2) by (rule ns_buffer_put) (rule name_ok_length [OF ch(2)])
    moreover have "w_mem w' b = w_mem w1 b" if "b \<in> range32 ?h 56" for b
    proof -
      have "\<forall>t \<in> set (take k ts). b \<notin> range32 (msg_hdr cf va t) 56" using ap(3) that in_set_takeD by fastforce
      then show ?thesis using i4 by blast
    qed
    ultimately have hd: "ns_buffer (w_mem w') ?h ch" by (rule ns_buffer_cong)
    have tl: "list_all2 (\<lambda>t c. \<exists>ch. w_chnls w c = Some ch \<and> ns_buffer (w_mem w') (msg_hdr cf va t) ch) (take k ts) (filter (is_idle (w_chnls w)) cs')"
      by (rule list.rel_mono_strong [OF conjunct1 [OF i4]]) (use l(4) in \<open>auto simp: f(2) split: if_splits\<close>)
    have out: "w_mem w' b = w_mem w b" if "b \<notin> range32 ?h 56" "\<forall>t \<in> set (take k ts). b \<notin> range32 (msg_hdr cf va t) 56" for b
      using i4 that put_ns_msg_outside [OF name_ok_length [OF ch(2)] that(1)] by (simp add: s(2))
    have fr: "walk_frame w w'" using i(2) f by (simp add: walk_frame_def)
    have "w_chnls w' = leave_idle RPMSG_CHNL_STATE_NS cs (w_chnls w)"
      using i(3) leave_idle_step [OF ch(1) True l(4), of RPMSG_CHNL_STATE_NS] by (simp add: f(2) cs)
    then show ?thesis using run only i(1) fr hd tl out i4 s(5) True ch(1) t
      by (intro exI [of _ w'] exI [of _ vq'] exI [of _ r']) (simp add: cs Let_def k_def [symmetric])
  qed
qed

text \<open>Without the name service the idle channels become active at once, and nothing is sent.\<close>

lemma tx_loop_activates:
  assumes "dll (w_nodes w) p ys" "list_all2 (\<lambda>y c. \<exists>n. w_nodes w y = Some n \<and> ll_data n = c) ys cs" "distinct cs"
    and "\<forall>c \<in> set cs. w_chnls w c \<noteq> None" "w_rdevs w rdev = Some rd" "\<not> rd_support_ns rd"
  shows "rpmsg_tx_loop cf rdev p w = Some (w\<lparr>w_chnls := leave_idle RPMSG_CHNL_STATE_ACTIVE cs (w_chnls w)\<rparr>)"
  using assms(1-5)
proof (induction ys arbitrary: p cs w)
  case Nil
  then show ?case by (simp add: rpmsg_tx_loop.simps)
next
  case (Cons y ys)
  from Cons.prems(2) obtain c cs' where cs: "cs = c # cs'" by (cases cs) auto
  from dll_head [OF Cons.prems(1)] obtain n where n: "p = y" "y \<noteq> NULL" "w_nodes w y = Some n" "dll (w_nodes w) (ll_next n) ys" by blast
  have l: "ll_data n = c" "list_all2 (\<lambda>y c. \<exists>n. w_nodes w y = Some n \<and> ll_data n = c) ys cs'" "distinct cs'" "c \<notin> set cs'"
    using Cons.prems(2,3) n(3) by (auto simp: cs)
  obtain ch where ch: "w_chnls w c = Some ch" using Cons.prems(4) by (auto simp: cs)
  show ?case
  proof (cases "is_idle (w_chnls w) c")
    case False
    then have "rpmsg_tx_loop cf rdev p w = rpmsg_tx_loop cf rdev (ll_next n) w"
      using n l(1) ch Cons.prems(5) by (subst rpmsg_tx_loop.simps) (simp add: is_idle_def)
    then show ?thesis using Cons.IH [OF n(4) l(2,3)] Cons.prems(4,5) False by (simp add: cs leave_idle_skip)
  next
    case True
    let ?w = "w\<lparr>w_chnls := (w_chnls w)(c \<mapsto> ch\<lparr>ch_state := RPMSG_CHNL_STATE_ACTIVE\<rparr>)\<rparr>"
    have "rpmsg_tx_loop cf rdev p w = rpmsg_tx_loop cf rdev (ll_next n) ?w"
      using n l(1) ch True Cons.prems(5) assms(6) by (subst rpmsg_tx_loop.simps) (simp add: is_idle_def)
    also have "\<dots> = Some (?w\<lparr>w_chnls := leave_idle RPMSG_CHNL_STATE_ACTIVE cs' (w_chnls ?w)\<rparr>)"
      by (rule Cons.IH) (use n(4) l(2,3) Cons.prems(4,5) cs in auto)
    also have "\<dots> = Some (w\<lparr>w_chnls := leave_idle RPMSG_CHNL_STATE_ACTIVE cs (w_chnls w)\<rparr>)"
      unfolding cs leave_idle_step [OF ch True l(4), symmetric] by simp
    finally show ?thesis .
  qed
qed

lemma chnl_inv_walk:
  assumes "chnl_inv rdev w cs" "w_rdevs w rdev = Some rd"
  shows "\<exists>ys. dll (w_nodes w) (rd_rp_channels rd) ys \<and> list_all2 (\<lambda>y c. \<exists>n. w_nodes w y = Some n \<and> ll_data n = c) ys cs \<and> distinct cs"
proof -
  from assms obtain ys where "node_seq (w_nodes w) (rd_rp_channels rd) ys" "list_all2 (chnl_entry rdev w) ys cs" "distinct cs"
    by (auto simp: chnl_inv_def)
  then show ?thesis by (intro exI [of _ ys]) (auto simp: node_seq_def elim: list_all2_mono dest: chnl_entry_node)
qed

lemma tx_callback_announces:
  assumes "chnl_inv rdev w cs" "\<forall>c \<in> set cs. \<exists>ch. w_chnls w c = Some ch \<and> name_ok ch" "w_rdevs w rdev = Some rd"
    and "rd_role rd = RPMSG_MASTER" "rd_support_ns rd" "vq_dev v = rdev"
    and "get_vq (rd_tvq rd) w = Some (vq, r)" "ring_rel va \<lparr>rs_drv = d, rs_dev = vq, rs_ring = r\<rparr> A" "quiet_notify cf" "notify_wired w vq"
    and "length (filter (is_idle (w_chnls w)) cs) \<le> length (ra_pend A)" "apart cf va (ra_pend A)"
  shows "\<exists>w' vq' r'. rpmsg_tx_callback cf v w = Some w' \<and> walk_frame w w' \<and> only_vq (rd_tvq rd) (vq_ring_mem vq) w w' \<and> w_chnls w' = leave_idle RPMSG_CHNL_STATE_NS cs (w_chnls w) \<and>
    (let k = length (filter (is_idle (w_chnls w)) cs); ts = take k (ra_pend A) in
     list_all2 (\<lambda>t c. \<exists>ch. w_chnls w c = Some ch \<and> ns_buffer (w_mem w') (msg_hdr cf va t) ch) ts (filter (is_idle (w_chnls w)) cs) \<and>
     (\<forall>b. (\<forall>t \<in> set ts. b \<notin> range32 (msg_hdr cf va t) 56) \<longrightarrow> w_mem w' b = w_mem w b) \<and>
     get_vq (rd_tvq rd) w' = Some (vq', r') \<and> vq_ident vq' = vq_ident vq \<and>
     ring_rel va \<lparr>rs_drv = d, rs_dev = vq', rs_ring = r'\<rparr>
       (A\<lparr>ra_pend := drop k (ra_pend A), ra_used := ra_used A @ map (\<lambda>t. (t, tk_len t)) ts\<rparr>))"
proof -
  from chnl_inv_walk [OF assms(1,3)] obtain ys where
    y: "dll (w_nodes w) (rd_rp_channels rd) ys" "list_all2 (\<lambda>y c. \<exists>n. w_nodes w y = Some n \<and> ll_data n = c) ys cs" "distinct cs" by blast
  have r: "rd_role rd \<noteq> RPMSG_REMOTE" using assms(4) by (simp add: RPMSG_MASTER_def RPMSG_REMOTE_def)
  have "rpmsg_tx_callback cf v w = rpmsg_tx_loop cf rdev (rd_rp_channels rd) w" using assms(3,4,6) by (simp add: rpmsg_tx_callback_def)
  then show ?thesis using tx_loop_announces [OF y assms(2,3) r assms(5,7-12)] by (simp only:)
qed

end
