(* ===== verification/RingStart.thy ===== *)
theory RingStart
  imports RpmsgTx
begin

text \<open>
  How a ring comes into use.  Both sides call \<^verbatim>\<open>virtqueue_create\<close> on the ring, one after the other, and each call links all
  descriptors of the shared table again.  The driver may already have offered buffers when the device does so; this
  is harmless as long as the links are still those of the first call, which offering buffers does not change.
\<close>

section \<open>The links of the descriptor table\<close>

definition link_of :: "nat \<Rightarrow> nat \<Rightarrow> u16" where
  "link_of n j = (if j + 1 < n then of_nat (j + 1) else VQ_RING_DESC_CHAIN_END)"

definition relink :: "vring_desc list \<Rightarrow> vring_desc list" where
  "relink desc = map (\<lambda>j. (desc ! j)\<lparr>d_next := link_of (length desc) j\<rparr>) [0..<length desc]"

definition linked_fresh :: "vring_desc list \<Rightarrow> bool" where
  "linked_fresh desc \<longleftrightarrow> map d_next desc = map (link_of (length desc)) [0..<length desc]"

lemma length_relink [simp]: "length (relink desc) = length desc"
  by (simp add: relink_def)

lemma relink_fresh: "linked_fresh (relink desc)"
  by (simp add: linked_fresh_def relink_def)

lemma relink_id: "linked_fresh desc \<Longrightarrow> relink desc = desc"
proof (rule nth_equalityI)
  fix j
  assume f: "linked_fresh desc" and "j < length (relink desc)"
  then have j: "j < length desc" by simp
  have "map d_next desc ! j = map (link_of (length desc)) [0..<length desc] ! j" using f by (simp add: linked_fresh_def)
  then have "d_next (desc ! j) = link_of (length desc) j" using j by simp
  then show "relink desc ! j = desc ! j" using j by (simp add: relink_def)
qed simp

lemma relink_relink [simp]: "relink (relink desc) = relink desc"
  by (rule relink_id) (rule relink_fresh)

lemma vq_ring_init_loop_exact:
  assumes "m \<le> length desc"
  shows "\<exists>desc'. vq_ring_init_loop [k..<m] desc = Some desc' \<and> length desc' = length desc \<and>
    (\<forall>j < length desc. desc' ! j = (if k \<le> j \<and> j < m then (desc ! j)\<lparr>d_next := of_nat (j + 1)\<rparr> else desc ! j))"
  using assms
proof (induction "m - k" arbitrary: k desc)
  case 0
  then show ?case by auto
next
  case (Suc n)
  then have km: "k < m" by simp
  let ?desc = "desc[k := (desc ! k)\<lparr>d_next := of_nat (k + 1)\<rparr>]"
  have "n = m - Suc k" "m \<le> length ?desc" using Suc.hyps(2) Suc.prems by simp_all
  from Suc.hyps(1) [OF this] obtain desc' where d:
    "vq_ring_init_loop [Suc k..<m] ?desc = Some desc'" "length desc' = length ?desc"
    "\<forall>j < length ?desc. desc' ! j = (if Suc k \<le> j \<and> j < m then (?desc ! j)\<lparr>d_next := of_nat (j + 1)\<rparr> else ?desc ! j)"
    by blast
  have "vq_ring_init_loop [k..<m] desc = Some desc'"
    using d(1) km Suc.prems by (simp add: upt_conv_Cons set_next_def)
  moreover have "desc' ! j = (if k \<le> j \<and> j < m then (desc ! j)\<lparr>d_next := of_nat (j + 1)\<rparr> else desc ! j)"
    if "j < length desc" for j using d(3) that km by (cases "j = k") auto
  ultimately show ?case using d(2) by (intro exI [of _ desc']) simp
qed

lemma vq_ring_init_relink:
  assumes "0 < unat (vq_nentries vq)" "length (vr_desc r) = unat (vq_nentries vq)"
  shows "vq_ring_init vq r = Some (vq\<lparr>vq_ring := vring_init (ucast (vq_nentries vq)) (vq_ring_mem vq) (vq_alignment vq)\<rparr>,
    r\<lparr>vr_desc := relink (vr_desc r)\<rparr>)"
proof -
  let ?n = "unat (vq_nentries vq)"
  obtain desc where d: "vq_ring_init_loop [0..<?n - 1] (vr_desc r) = Some desc" "length desc = ?n"
    "\<forall>j < ?n. desc ! j = (if j < ?n - 1 then (vr_desc r ! j)\<lparr>d_next := of_nat (j + 1)\<rparr> else vr_desc r ! j)"
    using vq_ring_init_loop_exact [of "?n - 1" "vr_desc r" 0] assms(2) by auto
  have "desc[?n - 1 := (desc ! (?n - 1))\<lparr>d_next := VQ_RING_DESC_CHAIN_END\<rparr>] = relink (vr_desc r)"
  proof (rule nth_equalityI)
    show "desc[?n - 1 := (desc ! (?n - 1))\<lparr>d_next := VQ_RING_DESC_CHAIN_END\<rparr>] ! j = relink (vr_desc r) ! j"
      if "j < length (desc[?n - 1 := (desc ! (?n - 1))\<lparr>d_next := VQ_RING_DESC_CHAIN_END\<rparr>])" for j
      using that d(2,3) assms by (cases "j = ?n - 1") (auto simp: relink_def link_of_def nth_list_update)
  qed (simp add: d(2) assms(2))
  then show ?thesis using d(1,2) assms(1) by (simp add: vq_ring_init_def set_next_def Let_def)
qed

section \<open>A new queue\<close>

text \<open>The control block that \<^verbatim>\<open>virtqueue_create\<close> returns.\<close>

definition new_vq :: "ptr \<Rightarrow> u16 \<Rightarrow> char list \<Rightarrow> vring_alloc_info \<Rightarrow> vq_fn option \<Rightarrow> vq_fn option \<Rightarrow> virtqueue" where
  "new_vq dev qid nm ring cb nt = (vq_zero (unat (vai_num_descs ring)))
     \<lparr>vq_dev := dev, vq_name := nm, vq_queue_index := qid, vq_alignment := vai_align ring, vq_nentries := vai_num_descs ring,
      vq_free_cnt := vai_num_descs ring, vq_callback := cb, vq_notify := nt,
      vq_ring_size := vring_size (ucast (vai_num_descs ring)) (vai_align ring), vq_ring_mem := vai_phy_addr ring,
      vq_ring := vring_init (ucast (vai_num_descs ring)) (vai_phy_addr ring) (vai_align ring)\<rparr>"

definition start_ring :: "vring_mem \<Rightarrow> vring_mem" where
  "start_ring r = r\<lparr>vr_desc := relink (vr_desc r), vr_avail_flags := vr_avail_flags r OR VRING_AVAIL_F_NO_INTERRUPT\<rparr>"

lemma new_vq_fields [simp]:
  "vq_dev (new_vq dev qid nm ring cb nt) = dev" "vq_queue_index (new_vq dev qid nm ring cb nt) = qid"
  "vq_nentries (new_vq dev qid nm ring cb nt) = vai_num_descs ring" "vq_callback (new_vq dev qid nm ring cb nt) = cb"
  "vq_notify (new_vq dev qid nm ring cb nt) = nt" "vq_ring_mem (new_vq dev qid nm ring cb nt) = vai_phy_addr ring"
  "vq_available_idx (new_vq dev qid nm ring cb nt) = 0" "\<not> vq_inuse (new_vq dev qid nm ring cb nt)"
  by (simp_all add: new_vq_def vq_zero_def)

lemma virtqueue_create_exact:
  assumes "pow2_size (vai_num_descs ring)" "length (vr_desc r) = unat (vai_num_descs ring)"
    and "env_strncpy name VIRTQUEUE_MAX_NAME_SZ = Some nm"
  shows "virtqueue_create dbg True dev qid name ring cb nt r = Some (0, Some (new_vq dev qid nm ring cb nt), start_ring r)"
proof -
  let ?n = "unat (vai_num_descs ring)"
  have pos: "0 < ?n" using pow2_size_pos [OF assms(1)] by simp
  then have nz: "vai_num_descs ring \<noteq> 0" by auto
  have "unat (vai_num_descs ring AND (vai_num_descs ring - 1)) = 0" by (simp add: unat_mask_index [OF assms(1)])
  then have p2: "vai_num_descs ring AND (vai_num_descs ring - 1) = 0" by (simp add: unat_eq_zero)
  have init: "vq_ring_init vq r = Some (vq\<lparr>vq_ring := vring_init (ucast (vq_nentries vq)) (vq_ring_mem vq) (vq_alignment vq)\<rparr>,
      r\<lparr>vr_desc := relink (vr_desc r)\<rparr>)" if "vq_nentries vq = vai_num_descs ring" for vq
    using vq_ring_init_relink [of vq r] that pos assms(2) by simp
  show ?thesis
    using nz p2 assms(3)
    by (simp add: virtqueue_create_def VQ_PARAM_CHK_def VQUEUE_SUCCESS_def init virtqueue_disable_cb_def vq_zero_def new_vq_def start_ring_def)
qed

text \<open>A device queue that has not taken anything yet.\<close>

definition fresh_dev :: "u16 \<Rightarrow> virtqueue \<Rightarrow> bool" where
  "fresh_dev n d \<longleftrightarrow> vq_nentries d = n \<and> \<not> vq_inuse d \<and> vq_available_idx d = 0"

lemma new_vq_fresh_dev: "vai_num_descs ring = n \<Longrightarrow> fresh_dev n (new_vq dev qid nm ring cb nt)"
  by (simp add: fresh_dev_def)

lemma ring_rel_dev:
  assumes "ring_rel va \<lparr>rs_drv = vq, rs_dev = d, rs_ring = r\<rparr> A" "fresh_dev n d" "fresh_dev n d'"
  shows "ring_rel va \<lparr>rs_drv = vq, rs_dev = d', rs_ring = r\<rparr> A"
  using assms
  by (simp add: ring_rel_def ring_geometry_def ring_free_def ring_owned_def ring_tokens_def ring_avail_def ring_used_def fresh_dev_def)

lemma ring_rel_start:
  assumes "ring_rel va \<lparr>rs_drv = vq, rs_dev = d, rs_ring = r\<rparr> A" "linked_fresh (vr_desc r)"
  shows "ring_rel va \<lparr>rs_drv = vq, rs_dev = d, rs_ring = start_ring r\<rparr> A"
  using assms
  by (simp add: ring_rel_def ring_geometry_def ring_free_def ring_owned_def ring_tokens_def ring_avail_def ring_used_def
      start_ring_def relink_id)

lemma start_ring_fresh: "linked_fresh (vr_desc (start_ring r))" "length (vr_desc (start_ring r)) = length (vr_desc r)"
  by (simp_all add: start_ring_def relink_fresh)

text \<open>The driver creates the ring; whatever device queue joins later, nothing is in flight.\<close>

lemma new_ring_rel:
  assumes "pow2_size n" "vai_num_descs ring = n" "env_strncpy name VIRTQUEUE_MAX_NAME_SZ = Some nm" "fresh_dev n d"
  shows "ring_rel va \<lparr>rs_drv = new_vq dev qid nm ring cb nt, rs_dev = d, rs_ring = start_ring (vring_zero (unat n))\<rparr> (ring_abs0 (unat n))"
proof -
  let ?vq = "new_vq dev qid nm ring cb nt" and ?r = "start_ring (vring_zero (unat n))"
  have l: "length (vr_desc (vring_zero (unat n))) = unat n" by (simp add: vring_zero_def)
  have c: "virtqueue_create False True dev qid name ring cb nt (vring_zero (unat n)) = Some (0, Some ?vq, ?r)"
    "virtqueue_create False True dev qid name ring cb nt ?r = Some (0, Some ?vq, start_ring ?r)"
    using assms(1-3) l start_ring_fresh(2) by (simp_all add: virtqueue_create_exact)
  from ring_create_initial [OF assms(1,2,2,3,3), of False dev qid cb nt dev qid cb nt va] c
  have "ring_rel va \<lparr>rs_drv = ?vq, rs_dev = ?vq, rs_ring = start_ring ?r\<rparr> (ring_abs0 (unat n))" by auto
  then have "ring_rel va \<lparr>rs_drv = ?vq, rs_dev = ?vq, rs_ring = ?r\<rparr> (ring_abs0 (unat n))"
    by (simp add: ring_rel_def ring_geometry_def ring_free_def ring_owned_def ring_tokens_def ring_avail_def ring_used_def start_ring_def)
  then show ?thesis using ring_rel_dev [OF _ new_vq_fresh_dev [OF assms(2)] assms(4)] by blast
qed

section \<open>Offering keeps the links\<close>

lemma links_update: "k < length desc \<Longrightarrow> d_next d = d_next (desc ! k) \<Longrightarrow> map d_next (desc[k := d]) = map d_next desc"
  by (simp add: map_update list_update_same_conv)

lemma add_buffer_loop_links:
  "vq_ring_add_buffer_loop dbg va needed rd i idx bufs desc = Some (idx', desc') \<Longrightarrow> map d_next desc' = map d_next desc"
proof (induction bufs arbitrary: i idx desc)
  case (Cons b bufs)
  obtain data attr where b: "b = (data, attr)" by fastforce
  show ?case
  proof (cases "i < needed")
    case True
    define fl where "fl = (let fl = (if i < needed - 1 then VRING_DESC_F_NEXT else 0) in if rd \<le> i then fl OR VRING_DESC_F_WRITE else fl)"
    define d where "d = (desc ! unat idx)\<lparr>d_addr := ucast (va data), d_len := attr, d_flags := fl\<rparr>"
    have "vq_ring_add_buffer_loop dbg va needed rd i idx (b # bufs) desc = do {
        _ \<leftarrow> VQASSERT dbg (idx \<noteq> VQ_RING_DESC_CHAIN_END); dp \<leftarrow> aget desc (unat idx); desc \<leftarrow> aset desc (unat idx) (dp\<lparr>d_addr := ucast (va data), d_len := attr, d_flags := fl\<rparr>);
        vq_ring_add_buffer_loop dbg va needed rd (i + 1) (d_next dp) bufs desc }"
      using True by (simp only: b fl_def Let_def vq_ring_add_buffer_loop.simps not_True_eq_False if_False)
    with Cons.prems have d: "unat idx < length desc" "d_next d = d_next (desc ! unat idx)"
      "vq_ring_add_buffer_loop dbg va needed rd (i + 1) (d_next (desc ! unat idx)) bufs (desc[unat idx := d]) = Some (idx', desc')"
      by (auto simp del: vq_ring_add_buffer_loop.simps simp: option_bind_simps arr_simps d_def)
    show ?thesis using Cons.IH [OF d(3)] d(1,2) links_update by simp
  qed (use Cons.prems b in simp)
qed simp

lemma add_buffer_links:
  assumes "virtqueue_add_buffer dbg va vq bufs rd wr ck r = Some (st, vq', r')" "linked_fresh (vr_desc r)"
  shows "linked_fresh (vr_desc r')"
proof -
  have "map d_next (vr_desc r') = map d_next (vr_desc r)"
  proof (cases "VQ_PARAM_CHK dbg (vq_free_cnt vq = 0) ERROR_VRING_FULL
      (VQ_PARAM_CHK dbg (rd + wr < 1) ERROR_VQUEUE_INVLD_PARAM VQUEUE_SUCCESS) = VQUEUE_SUCCESS")
    case True
    with assms(1) show ?thesis
      by (simp add: virtqueue_add_buffer_def option_bind_simps Let_def vq_ring_add_buffer_def vq_ring_update_avail_def)
        (auto dest!: add_buffer_loop_links)
  next
    case False
    with assms(1) show ?thesis by (auto simp: virtqueue_add_buffer_def option_bind_simps Let_def)
  qed
  moreover from this have "length (vr_desc r') = length (vr_desc r)" by (metis length_map)
  ultimately show ?thesis using assms(2) by (simp add: linked_fresh_def)
qed

end
