(* ===== verification/Startup.thy ===== *)
theory Startup
  imports RingStart NameService RpmsgInit
begin

text \<open>
  The start of the messaging layer on the two processors.  \<^verbatim>\<open>rpmsg_init\<close> is shown to establish, on either side, what the
  theorems about sending, receiving, endpoints and the name service assume: the tables of channels and endpoints are
  consistent, the device is active, the queues are created and wired to the interrupts, and on the master the receive ring is
  filled with buffers of the pool.  When the remote starts after the master on the same rings, both rings connect the two
  sides.
\<close>

section \<open>Frames and resources\<close>

text \<open>Everything of the state that is not the environment's.\<close>

definition objects where
  "objects w = (w_mem w, w_nodes w, w_chnls w, w_epts w, w_rdevs w, w_vqs w, w_rings w, w_pools w, w_procs w, w_proc_list w, w_next w, w_allocs w, w_app w)"

text \<open>Enabling an interrupt changes the interrupt tables only; no allocation fails.\<close>

definition quiet_enable :: "config \<Rightarrow> bool" where
  "quiet_enable cf \<longleftrightarrow> (\<forall>f p i w. \<exists>w'. cf_enable_interrupt cf f p i w = Some w' \<and> objects w' = objects w)"

definition mem_ok :: "config \<Rightarrow> bool" where
  "mem_ok cf \<longleftrightarrow> (\<forall>i. cf_alloc_ok cf i)"

lemma alloc_ok: "mem_ok cf \<Longrightarrow> env_allocate_memory cf w = (w_next w, w\<lparr>w_next := Suc (w_next w), w_allocs := Suc (w_allocs w)\<rparr>)"
  by (simp add: mem_ok_def env_allocate_memory_def)

section \<open>The channels of the table\<close>

text \<open>A channel that waits to be announced, with its endpoint.\<close>

definition chnl_waits :: "ptr \<Rightarrow> rx_cb \<Rightarrow> (u32 \<rightharpoonup> ptr) \<Rightarrow> world \<Rightarrow> char list \<Rightarrow> ptr \<Rightarrow> bool" where
  "chnl_waits rdev cb T w nm c \<longleftrightarrow> (\<exists>a e. w_chnls w c = Some \<lparr>ch_name = nm, ch_src = a, ch_dst = RPMSG_NS_EPT_ADDR, ch_rdev = rdev,
     ch_rp_ept = e, ch_state = RPMSG_CHNL_STATE_IDLE\<rparr> \<and> T a = Some e \<and>
     w_epts w e = Some \<lparr>ep_rp_chnl = c, ep_cb = Some cb, ep_addr = a, ep_priv = rdev\<rparr>)"

text \<open>The addresses in use are \<open>1, \<dots>, k\<close>: the next one the code takes is \<open>k + 1\<close>.\<close>

definition addrs_upto :: "nat \<Rightarrow> u32 set" where
  "addrs_upto k = of_nat ` {1..k}"

lemma unat_addrs_upto: "k < 128 \<Longrightarrow> unat ` addrs_upto k = {1..k}"
proof -
  assume "k < 128"
  then have "unat (of_nat i :: u32) = i" if "i \<in> {1..k}" for i using that by (simp add: unat_of_nat)
  then show ?thesis by (force simp: addrs_upto_def image_image)
qed

lemma addrs_upto_Suc: "addrs_upto (Suc k) = insert (of_nat (Suc k)) (addrs_upto k)"
  by (simp add: addrs_upto_def atLeastAtMostSuc_conv)

lemma card_addrs_upto: "k < 128 \<Longrightarrow> card (addrs_upto k) = k"
  using unat_addrs_upto [of k] by (metis card_atLeastAtMost card_image diff_Suc_1 inj_on_def unsigned_word_eqI)

lemma choose_any_next:
  assumes "length bm = RPMSG_ADDR_BMP_SIZE" "addr_set bm = {0..k}" "k < 127"
  shows "\<exists>bm'. choose_address bm RPMSG_ADDR_ANY = Some (RPMSG_SUCCESS, of_nat (Suc k), bm')"
proof -
  have "\<exists>bm'. rpmsg_get_address bm (length bm) = Some (int (Suc k), bm')"
    using get_address_loop_found [of "Suc k" bm 0] assms by (auto simp: rpmsg_get_address_def RPMSG_ADDR_BMP_SIZE_def)
  moreover have "sint (of_nat (Suc k) :: u32) = int (Suc k)"
  proof -
    have u: "unat (of_nat (Suc k) :: u32) = Suc k" using assms(3) by (simp add: unat_of_nat del: of_nat_Suc)
    then show ?thesis using sint_small [of "of_nat (Suc k)"] assms(3) by (simp del: of_nat_Suc)
  qed
  ultimately show ?thesis using assms(1) by (auto simp: choose_address_def Let_def)
qed

lemma create_any_addr:
  assumes "core_create_endpoint cf rdev cb priv RPMSG_ADDR_ANY w = Some (ept, w')" "ept \<noteq> NULL" "w_rdevs w rdev = Some rd"
    and "choose_address (rd_bitmap rd) RPMSG_ADDR_ANY = Some (RPMSG_SUCCESS, a, bm)"
  shows "\<exists>ep. w_epts w' ept = Some ep \<and> ep_addr ep = a"
  using assms by (auto simp: core_create_endpoint_def env_allocate_memory_def option_bind_simps Let_def split: if_splits prod.splits)

text \<open>Creation of an endpoint keeps the others.\<close>

lemma create_ept_keeps:
  assumes "core_create_endpoint cf rdev cb priv addr w = Some (ept, w')" "objs_fresh w" "w_epts w e \<noteq> None"
  shows "w_epts w' e = w_epts w e" "ept \<noteq> NULL \<Longrightarrow> ept \<noteq> e"
proof -
  have "e \<noteq> w_next w" using assms(2,3) by (auto simp: objs_fresh_def)
  then show "w_epts w' e = w_epts w e" "ept \<noteq> NULL \<Longrightarrow> ept \<noteq> e" using assms(1,2)
    by (auto simp: core_create_endpoint_def env_allocate_memory_def option_bind_simps Let_def objs_fresh_def split: if_splits prod.splits)
qed

lemma rpmsg_create_ept_keeps:
  assumes "rpmsg_create_ept cf chnl cb priv addr w = Some (ept, w')" "objs_fresh w" "w_epts w e \<noteq> None"
  shows "w_epts w' e = w_epts w e"
proof (cases "chnl = NULL \<or> cb = None")
  case False
  then obtain ch e1 w1 where ch: "w_chnls w chnl = Some ch" and c: "core_create_endpoint cf (ch_rdev ch) cb priv addr w = Some (e1, w1)"
    using assms(1) by (auto simp: rpmsg_create_ept_def option_bind_simps)
  show ?thesis
  proof (cases "e1 = NULL")
    case True
    then have "w' = w1" using assms(1) False ch c by (simp add: rpmsg_create_ept_def)
    then show ?thesis using create_ept_keeps(1) [OF c assms(2,3)] by simp
  next
    case e1: False
    then have "\<exists>ep. w' = w1\<lparr>w_epts := (w_epts w1)(e1 \<mapsto> ep)\<rparr>"
      using assms(1) False ch c by (auto simp: rpmsg_create_ept_def option_bind_simps)
    then show ?thesis using create_ept_keeps [OF c assms(2,3)] e1 by auto
  qed
qed (use assms(1) in \<open>auto simp: rpmsg_create_ept_def\<close>)

lemma create_ept_next:
  assumes "ept_inv rdev w T" "dom T = addrs_upto k" "k < 127" "w_chnls w chnl = Some ch" "ch_rdev ch = rdev" "chnl \<noteq> NULL" "mem_ok cf"
  shows "\<exists>ept w'. rpmsg_create_ept cf chnl (Some cb) priv RPMSG_ADDR_ANY w = Some (ept, w') \<and> ept \<noteq> NULL \<and> ept_frame w w' \<and>
    w_epts w' ept = Some \<lparr>ep_rp_chnl = chnl, ep_cb = Some cb, ep_addr = of_nat (Suc k), ep_priv = priv\<rparr> \<and>
    T (of_nat (Suc k)) = None \<and> ept_inv rdev w' (T(of_nat (Suc k) \<mapsto> ept))"
proof -
  have card: "card (dom T) < 127" using assms(2,3) by (simp add: card_addrs_upto)
  from rpmsg_create_ept_map [OF assms(1,4-6), of "Some cb" RPMSG_ADDR_ANY cf priv] card assms(7) obtain ept w' a where
    c: "rpmsg_create_ept cf chnl (Some cb) priv RPMSG_ADDR_ANY w = Some (ept, w')" "ept_frame w w'" "ept \<noteq> NULL" "T a = None"
    "w_epts w' ept = Some \<lparr>ep_rp_chnl = chnl, ep_cb = Some cb, ep_addr = a, ep_priv = priv\<rparr>" "ept_inv rdev w' (T(a \<mapsto> ept))"
    by (auto simp: mem_ok_def ept_addr_valid_def)
  from assms(1) obtain rd where rd: "w_rdevs w rdev = Some rd" "length (rd_bitmap rd) = RPMSG_ADDR_BMP_SIZE"
    "addr_set (rd_bitmap rd) = insert 0 (unat ` dom T)" by (auto simp: ept_inv_def elim: ept_mapE)
  have "addr_set (rd_bitmap rd) = {0..k}" using rd(3) assms(2,3) unat_addrs_upto [of k] by (auto simp: atLeastAtMost_insertL [symmetric])
  from choose_any_next [OF rd(2) this assms(3)] obtain bm where
    ch: "choose_address (rd_bitmap rd) RPMSG_ADDR_ANY = Some (RPMSG_SUCCESS, of_nat (Suc k), bm)" by blast
  obtain w1 ep where w1: "core_create_endpoint cf rdev (Some cb) priv RPMSG_ADDR_ANY w = Some (ept, w1)"
    "w_epts w1 ept = Some ep" "ep\<lparr>ep_rp_chnl := chnl\<rparr> = \<lparr>ep_rp_chnl = chnl, ep_cb = Some cb, ep_addr = a, ep_priv = priv\<rparr>"
    using c(1,3,5) assms(4-6) by (auto simp: rpmsg_create_ept_def option_bind_simps split: if_splits)
  have "a = ep_addr ep" using w1(3) by (cases ep) simp
  then have "a = of_nat (Suc k)" using create_any_addr [OF w1(1) c(3) rd(1) ch] w1(2) by auto
  then show ?thesis using c by blast
qed

text \<open>What the tables of one device leave alone.\<close>

definition table_frame :: "ptr \<Rightarrow> world \<Rightarrow> world \<Rightarrow> bool" where
  "table_frame rdev w w' \<longleftrightarrow> w_mem w' = w_mem w \<and> w_vqs w' = w_vqs w \<and> w_rings w' = w_rings w \<and> w_pools w' = w_pools w \<and>
     w_procs w' = w_procs w \<and> w_app w' = w_app w \<and> w_next w \<le> w_next w' \<and>
     (\<forall>rd. w_rdevs w rdev = Some rd \<longrightarrow> (\<exists>rd'. w_rdevs w' rdev = Some rd' \<and> rd_core rd' = rd_core rd))"

lemma table_frame_trans: "table_frame rdev w1 w2 \<Longrightarrow> table_frame rdev w2 w3 \<Longrightarrow> table_frame rdev w1 w3"
  unfolding table_frame_def by (metis order_trans)

lemma table_frame_ept: "ept_frame w w' \<Longrightarrow> table_frame rdev w w'"
  using ept_frame_core [of w w' rdev] by (auto simp: table_frame_def ept_frame_def)

lemma table_frame_chnls: "table_frame rdev w (w\<lparr>w_chnls := f\<rparr>)"
  by (simp add: table_frame_def)

text \<open>One turn of the loop over the channel table.\<close>

lemma init_channel:
  assumes "ept_inv rdev w T" "chnl_inv rdev w cs" "dom T = addrs_upto k" "k < 127" "mem_ok cf" "w_rdevs w rdev = Some rd"
    and "rd_default_cb rd = Some cb" "env_strncpy (names ! i) RPMSG_NAME_SIZE = Some nm" "i < length names"
    and "list_all2 (chnl_waits rdev cb T w) nms cs"
  shows "\<exists>c ept w'. rdev_init_channels_loop cf rdev names (i # is') w = rdev_init_channels_loop cf rdev names is' w' \<and>
    ept_inv rdev w' (T(of_nat (Suc k) \<mapsto> ept)) \<and> chnl_inv rdev w' (c # cs) \<and> table_frame rdev w w' \<and>
    list_all2 (chnl_waits rdev cb (T(of_nat (Suc k) \<mapsto> ept)) w') (nm # nms) (c # cs)"
proof -
  let ?c = "w_next w" and ?a = "of_nat (Suc k) :: u32"
  let ?ch = "\<lparr>ch_name = nm, ch_src = 0, ch_dst = RPMSG_NS_EPT_ADDR, ch_rdev = rdev, ch_rp_ept = NULL, ch_state = RPMSG_CHNL_STATE_IDLE\<rparr>"
  from core_create_channel_inv [OF assms(1,2,8), of cf 0 RPMSG_NS_EPT_ADDR] assms(5,6) obtain w1 p where
    c: "core_rpmsg_create_channel cf rdev (names ! i) 0 RPMSG_NS_EPT_ADDR w = Some (?c, w1)" "ept_inv rdev w1 T"
    "chnl_inv rdev w1 (?c # cs)" "?c \<noteq> NULL" "w_chnls w ?c = None" "w_chnls w1 = (w_chnls w)(?c \<mapsto> ?ch)" "w_epts w1 = w_epts w"
    "w_mem w1 = w_mem w" "w_vqs w1 = w_vqs w" "w_rings w1 = w_rings w" "w_pools w1 = w_pools w" "w_procs w1 = w_procs w"
    "w_app w1 = w_app w" "w_next w1 = Suc (Suc (w_next w))" "w_rdevs w1 rdev = Some (rd\<lparr>rd_rp_channels := p\<rparr>)"
    by (auto simp: mem_ok_def)
  have f1: "table_frame rdev w w1" using c(8-15) assms(6) by (simp add: table_frame_def rd_core_def)
  have ch1: "w_chnls w1 ?c = Some ?ch" "ch_rdev ?ch = rdev" by (simp_all add: c(6))
  from create_ept_next [OF c(2) assms(3,4) ch1 c(4) assms(5), of cb rdev] obtain ept w2 where
    e: "rpmsg_create_ept cf ?c (Some cb) rdev RPMSG_ADDR_ANY w1 = Some (ept, w2)" "ept \<noteq> NULL" "ept_frame w1 w2"
    "w_epts w2 ept = Some \<lparr>ep_rp_chnl = ?c, ep_cb = Some cb, ep_addr = ?a, ep_priv = rdev\<rparr>" "T ?a = None"
    "ept_inv rdev w2 (T(?a \<mapsto> ept))" by blast
  have ch2: "w_chnls w2 = w_chnls w1" using e(3) by (simp add: ept_frame_def)
  let ?ch' = "?ch\<lparr>ch_rp_ept := ept, ch_src := ?a\<rparr>"
  let ?w = "w2\<lparr>w_chnls := (w_chnls w2)(?c \<mapsto> ?ch')\<rparr>"
  have "rdev_init_channels_loop cf rdev names (i # is') w = rdev_init_channels_loop cf rdev names is' ?w"
    using c(1,4,6,15) e(1,2,4) assms(7,9) ch2 by simp
  moreover have "ept_inv rdev ?w (T(?a \<mapsto> ept))" using e(6) by (rule ept_inv_chnls)
  moreover have "chnl_inv rdev ?w (?c # cs)"
    by (rule chnl_inv_upd [OF chnl_inv_ept_frame [OF c(3) e(3)], of ?c ?ch]) (simp_all add: ch2 c(6))
  moreover have "table_frame rdev w ?w"
    using table_frame_trans [OF table_frame_trans [OF f1 table_frame_ept [OF e(3)]] table_frame_chnls] .
  moreover have "chnl_waits rdev cb (T(?a \<mapsto> ept)) ?w nm ?c"
    using e(4) by (auto simp: chnl_waits_def)
  moreover have "chnl_waits rdev cb (T(?a \<mapsto> ept)) ?w n d" if d: "chnl_waits rdev cb T w n d" for n d
  proof -
    from d obtain a x where x: "w_chnls w d = Some \<lparr>ch_name = n, ch_src = a, ch_dst = RPMSG_NS_EPT_ADDR, ch_rdev = rdev, ch_rp_ept = x,
        ch_state = RPMSG_CHNL_STATE_IDLE\<rparr>" "T a = Some x"
      "w_epts w x = Some \<lparr>ep_rp_chnl = d, ep_cb = Some cb, ep_addr = a, ep_priv = rdev\<rparr>" by (auto simp: chnl_waits_def)
    have "objs_fresh w1" using c(2) by (simp add: ept_inv_def)
    from rpmsg_create_ept_keeps [OF e(1) this, of x] x(3) c(7) have "w_epts w2 x = w_epts w x" by simp
    moreover have "d \<noteq> ?c" "a \<noteq> ?a" using x(1,2) c(5) e(5) by auto
    ultimately show ?thesis using x ch2 c(6) by (auto simp: chnl_waits_def)
  qed
  ultimately show ?thesis using assms(10) by (intro exI [of _ ?c] exI [of _ ept] exI [of _ ?w]) (auto elim: list_all2_mono)
qed

lemma init_channels:
  assumes "ept_inv rdev w T" "chnl_inv rdev w cs" "dom T = addrs_upto k" "k + length idxs < 127" "mem_ok cf" "w_rdevs w rdev = Some rd"
    and "rd_default_cb rd = Some cb" "\<forall>i \<in> set idxs. i < length names \<and> env_strncpy (names ! i) RPMSG_NAME_SIZE = Some (nm i)"
    and "list_all2 (chnl_waits rdev cb T w) nms cs"
  shows "\<exists>w' T' cs'. rdev_init_channels_loop cf rdev names idxs w = Some (RPMSG_SUCCESS, w') \<and> ept_inv rdev w' T' \<and> chnl_inv rdev w' cs' \<and>
    dom T' = addrs_upto (k + length idxs) \<and> table_frame rdev w w' \<and>
    list_all2 (chnl_waits rdev cb T' w') (rev (map nm idxs) @ nms) cs'"
  using assms
proof (induction idxs arbitrary: w T cs k rd nms)
  case Nil
  then show ?case by (auto simp: table_frame_def)
next
  case (Cons i idxs)
  have i: "i < length names" "env_strncpy (names ! i) RPMSG_NAME_SIZE = Some (nm i)" "k < 127" using Cons.prems(4,8) by auto
  from init_channel [OF Cons.prems(1-3) i(3) Cons.prems(5-7) i(2,1) Cons.prems(9), of idxs] obtain c ept w1 where
    s: "rdev_init_channels_loop cf rdev names (i # idxs) w = rdev_init_channels_loop cf rdev names idxs w1"
    "ept_inv rdev w1 (T(of_nat (Suc k) \<mapsto> ept))" "chnl_inv rdev w1 (c # cs)" "table_frame rdev w w1"
    "list_all2 (chnl_waits rdev cb (T(of_nat (Suc k) \<mapsto> ept)) w1) (nm i # nms) (c # cs)" by blast
  obtain rd1 where rd1: "w_rdevs w1 rdev = Some rd1" "rd_core rd1 = rd_core rd" using s(4) Cons.prems(6) by (auto simp: table_frame_def)
  have "dom (T(of_nat (Suc k) \<mapsto> ept)) = addrs_upto (Suc k)" using Cons.prems(3) by (simp add: addrs_upto_Suc del: of_nat_Suc)
  from Cons.IH [OF s(2,3) this _ Cons.prems(5) rd1(1) _ _ s(5)] rd_coreD [OF rd1(2)] Cons.prems(4,7,8)
  obtain w' T' cs' where "rdev_init_channels_loop cf rdev names idxs w1 = Some (RPMSG_SUCCESS, w')" "ept_inv rdev w' T'" "chnl_inv rdev w' cs'"
    "dom T' = addrs_upto (Suc k + length idxs)" "table_frame rdev w1 w'"
    "list_all2 (chnl_waits rdev cb T' w') (rev (map nm idxs) @ nm i # nms) cs'" by auto
  then show ?case using s(1) table_frame_trans [OF s(4)]
    by (intro exI [of _ w'] exI [of _ T'] exI [of _ cs']) (simp del: rdev_init_channels_loop.simps)
qed

section \<open>Creation of the device\<close>

text \<open>A processor without channels and endpoints; \<open>proc\<close> is the record of the other processor.\<close>

definition no_tables :: "world \<Rightarrow> bool" where
  "no_tables w \<longleftrightarrow> objs_fresh w \<and> w_chnls w = Map.empty \<and> w_epts w = Map.empty"

definition new_rdev :: "ptr \<Rightarrow> u32 \<Rightarrow> nat option \<Rightarrow> nat option \<Rightarrow> rx_cb \<Rightarrow> u32 \<Rightarrow> remote_device" where
  "new_rdev proc role created destroyed cb features = rdev_zero\<lparr>rd_proc := proc, rd_role := role, rd_channel_created := created,
     rd_channel_destroyed := destroyed, rd_default_cb := Some cb, rd_bitmap := [1, 0, 0, 0], rd_device := proc, rd_features := features\<rparr>"

lemma tables_empty:
  assumes "no_tables w" "w_rdevs w rdev = Some rd" "rd_rp_endpoints rd = NULL" "rd_rp_channels rd = NULL" "rd_bitmap rd = [1, 0, 0, 0]"
  shows "ept_inv rdev w Map.empty" "chnl_inv rdev w []"
  using assms ept_map_empty [of w rdev rd] by (auto simp: no_tables_def ept_inv_def chnl_inv_def node_seq_def)

lemma bitmap_start: "(rd_bitmap rdev_zero)[0 := 1] = [1, 0, 0, 0]"
  by (simp add: rdev_zero_def RPMSG_ADDR_BMP_SIZE_def numeral_eq_Suc)

lemma new_rdev_fields [simp]:
  "rd_rp_endpoints (new_rdev proc role cc cd cb f) = NULL" "rd_rp_channels (new_rdev proc role cc cd cb f) = NULL"
  "rd_bitmap (new_rdev proc role cc cd cb f) = [1, 0, 0, 0]" "rd_role (new_rdev proc role cc cd cb f) = role"
  "rd_proc (new_rdev proc role cc cd cb f) = proc" "rd_device (new_rdev proc role cc cd cb f) = proc"
  "rd_default_cb (new_rdev proc role cc cd cb f) = Some cb" "rd_mem_pool (new_rdev proc role cc cd cb f) = NULL"
  "rd_features (new_rdev proc role cc cd cb f) = f" "rd_support_ns (new_rdev proc role cc cd cb f) = False"
  "rd_channel_created (new_rdev proc role cc cd cb f) = cc"
  by (simp_all add: new_rdev_def rdev_zero_def)

text \<open>The state right after the device has been allocated.\<close>

definition rdev_alloc :: "remote_device \<Rightarrow> world \<Rightarrow> world" where
  "rdev_alloc rd w = w\<lparr>w_next := Suc (w_next w), w_allocs := Suc (w_allocs w), w_rdevs := (w_rdevs w)(w_next w \<mapsto> rd)\<rparr>"

lemma rdev_alloc_frame [simp]:
  "w_mem (rdev_alloc rd w) = w_mem w" "w_vqs (rdev_alloc rd w) = w_vqs w" "w_rings (rdev_alloc rd w) = w_rings w"
  "w_pools (rdev_alloc rd w) = w_pools w" "w_procs (rdev_alloc rd w) = w_procs w" "w_app (rdev_alloc rd w) = w_app w"
  "w_rdevs (rdev_alloc rd w) (w_next w) = Some rd" "w_next (rdev_alloc rd w) = Suc (w_next w)"
  by (simp_all add: rdev_alloc_def)

lemma rdev_alloc_tables: "no_tables w \<Longrightarrow> no_tables (rdev_alloc rd w)"
  by (simp add: no_tables_def objs_fresh_def rdev_alloc_def)

lemma new_rdev_eq:
  "rdev_zero\<lparr>rd_proc := proc, rd_role := role, rd_channel_created := cc, rd_channel_destroyed := cd, rd_default_cb := Some cb,
     rd_bitmap := (rd_bitmap rdev_zero)[0 := 1], rd_device := proc, rd_features := rd_features rdev_zero OR f\<rparr> = new_rdev proc role cc cd cb f"
  by (simp add: new_rdev_def bitmap_start) (simp add: rdev_zero_def)

lemma rdev_init_start:
  assumes "hil_create_proc cf dev_id w = Some (proc, w1)" "proc \<noteq> NULL" "w_procs w1 proc = Some pr" "no_tables w1" "mem_ok cf"
  shows "rpmsg_rdev_init cf dev_id role cc cd (Some cb) w = do {
     let w = rdev_alloc (new_rdev proc role cc cd cb (pd_dfeatures (hp_vdev pr))) w1;
     (ok, w) \<leftarrow> (if role = RPMSG_REMOTE then do {
          (pool, w) \<leftarrow> w_sh_mem_create_pool cf (shm_start_addr (hp_sh_buff pr)) (shm_size (hp_sh_buff pr)) RPMSG_BUFFER_SIZE w;
          rd \<leftarrow> w_rdevs w (w_next w1);
          Some (pool \<noteq> NULL, w\<lparr>w_rdevs := (w_rdevs w)(w_next w1 \<mapsto> rd\<lparr>rd_mem_pool := pool\<rparr>)\<rparr>) }
        else Some (True, w));
     (if \<not> ok then Some (RPMSG_ERR_NO_MEM, None, w)
      else do {
        (status, w) \<leftarrow> rpmsg_rdev_init_channels cf (w_next w1) w;
        (if status \<noteq> RPMSG_SUCCESS then Some (status, None, w) else Some (RPMSG_SUCCESS, Some (w_next w1), w)) }) }"
proof -
  have pos: "0 < w_next w1" using assms(4) by (simp add: no_tables_def objs_fresh_def)
  show ?thesis
    using assms pos
    by (simp add: rpmsg_rdev_init_def alloc_ok rpmsg_rdev_set_feature_def hil_get_shm_info_def rdev_alloc_def Let_def new_rdev_eq)
qed

text \<open>The remote side: the channels of the processor table wait to be announced.\<close>

lemma rdev_init_remote:
  assumes "hil_create_proc cf dev_id w = Some (proc, w1)" "proc \<noteq> NULL" "w_procs w1 proc = Some pr" "no_tables w1" "mem_ok cf"
    and "n = nat (sint (hp_num_chnls pr))" "n < 127" "n \<le> length (hp_chnls pr)"
    and "\<forall>i < n. env_strncpy (hp_chnls pr ! i) RPMSG_NAME_SIZE = Some (nm i)"
  shows "\<exists>w' T cs. rpmsg_rdev_init cf dev_id RPMSG_MASTER cc cd (Some cb) w = Some (RPMSG_SUCCESS, Some (w_next w1), w') \<and>
    ept_inv (w_next w1) w' T \<and> chnl_inv (w_next w1) w' cs \<and> dom T = addrs_upto n \<and>
    list_all2 (chnl_waits (w_next w1) cb T w') (rev (map nm [0..<n])) cs \<and>
    table_frame (w_next w1) (rdev_alloc (new_rdev proc RPMSG_MASTER cc cd cb (pd_dfeatures (hp_vdev pr))) w1) w'"
proof -
  let ?rd = "new_rdev proc RPMSG_MASTER cc cd cb (pd_dfeatures (hp_vdev pr))" and ?rdev = "w_next w1"
  let ?w = "rdev_alloc ?rd w1"
  have t: "ept_inv ?rdev ?w Map.empty" "chnl_inv ?rdev ?w []"
    by (rule tables_empty [OF rdev_alloc_tables [OF assms(4)], where rd = ?rd], simp_all)+
  have d: "dom (Map.empty :: u32 \<rightharpoonup> ptr) = addrs_upto 0" by (simp add: addrs_upto_def)
  from init_channels [OF t d _ assms(5), of "[0..<n]" ?rd cb "hp_chnls pr" nm "[]"] assms(7-9) obtain w' T cs where
    i: "rdev_init_channels_loop cf ?rdev (hp_chnls pr) [0..<n] ?w = Some (RPMSG_SUCCESS, w')" "ept_inv ?rdev w' T" "chnl_inv ?rdev w' cs"
    "dom T = addrs_upto n" "table_frame ?rdev ?w w'" "list_all2 (chnl_waits ?rdev cb T w') (rev (map nm [0..<n])) cs" by auto
  have "rpmsg_rdev_init_channels cf ?rdev ?w = Some (RPMSG_SUCCESS, w')"
    using i(1) assms(3,6) by (simp add: rpmsg_rdev_init_channels_def hil_get_chnl_info_def)
  then have "rpmsg_rdev_init cf dev_id RPMSG_MASTER cc cd (Some cb) w = Some (RPMSG_SUCCESS, Some ?rdev, w')"
    unfolding rdev_init_start [OF assms(1-5)] by (simp add: RPMSG_MASTER_def RPMSG_REMOTE_def)
  then show ?thesis using i(2-6) by blast
qed

text \<open>The master: an empty table of channels, and the pool of the shared memory.\<close>

lemma rdev_init_master:
  assumes "hil_create_proc cf dev_id w = Some (proc, w1)" "proc \<noteq> NULL" "w_procs w1 proc = Some pr" "no_tables w1" "mem_ok cf"
    and "sh_mem_create_pool True (shm_start_addr (hp_sh_buff pr)) (shm_size (hp_sh_buff pr)) RPMSG_BUFFER_SIZE = Some (Some pool)"
    and "shm_start_addr (hp_sh_buff pr) \<noteq> 0" "shm_size (hp_sh_buff pr) \<noteq> 0"
  shows "\<exists>w'. rpmsg_rdev_init cf dev_id RPMSG_REMOTE cc cd (Some cb) w = Some (RPMSG_SUCCESS, Some (w_next w1), w') \<and>
    no_tables w' \<and> w_pools w' = (w_pools w1)(Suc (w_next w1) \<mapsto> pool) \<and> w_mem w' = w_mem w1 \<and> w_vqs w' = w_vqs w1 \<and> w_rings w' = w_rings w1 \<and>
    w_procs w' = w_procs w1 \<and> w_app w' = w_app w1 \<and> w_next w' = Suc (Suc (w_next w1)) \<and>
    w_rdevs w' (w_next w1) = Some ((new_rdev proc RPMSG_REMOTE cc cd cb (pd_dfeatures (hp_vdev pr)))\<lparr>rd_mem_pool := Suc (w_next w1)\<rparr>)"
proof -
  let ?rd = "new_rdev proc RPMSG_REMOTE cc cd cb (pd_dfeatures (hp_vdev pr))" and ?rdev = "w_next w1"
  let ?w = "rdev_alloc ?rd w1"
  let ?w' = "?w\<lparr>w_next := Suc (Suc ?rdev), w_allocs := Suc (w_allocs ?w), w_pools := (w_pools w1)(Suc ?rdev \<mapsto> pool),
      w_rdevs := (w_rdevs ?w)(?rdev \<mapsto> ?rd\<lparr>rd_mem_pool := Suc ?rdev\<rparr>)\<rparr>"
  have p: "w_sh_mem_create_pool cf (shm_start_addr (hp_sh_buff pr)) (shm_size (hp_sh_buff pr)) RPMSG_BUFFER_SIZE ?w =
      Some (Suc ?rdev, ?w\<lparr>w_next := Suc (Suc ?rdev), w_allocs := Suc (w_allocs ?w), w_pools := (w_pools w1)(Suc ?rdev \<mapsto> pool)\<rparr>)"
    using assms(5-8) by (simp add: w_sh_mem_create_pool_def alloc_ok RPMSG_BUFFER_SIZE_def Let_def)
  have "rpmsg_rdev_init_channels cf ?rdev ?w' = Some (RPMSG_SUCCESS, ?w')"
    by (simp add: rpmsg_rdev_init_channels_def RPMSG_MASTER_def RPMSG_REMOTE_def)
  then have "rpmsg_rdev_init cf dev_id RPMSG_REMOTE cc cd (Some cb) w = Some (RPMSG_SUCCESS, Some ?rdev, ?w')"
    unfolding rdev_init_start [OF assms(1-5)] using p by simp
  moreover have "no_tables ?w'" using assms(4) by (simp add: no_tables_def objs_fresh_def rdev_alloc_def)
  ultimately show ?thesis by (intro exI [of _ ?w']) simp
qed

section \<open>The queues\<close>

text \<open>The memory of a ring when its queue is created: the master clears it, the remote uses it as it is.\<close>

definition ring_given :: "u32 \<Rightarrow> proc_vring \<Rightarrow> vring_mem \<Rightarrow> world \<Rightarrow> bool" where
  "ring_given role hw r w \<longleftrightarrow> (if role = RPMSG_REMOTE then r = vring_zero (unat (pv_num_descs hw))
     else w_rings w (pv_phy_addr hw) = Some r \<and> length (vr_desc r) = unat (pv_num_descs hw))"

lemma INIT_VRING_fields [simp]:
  "vai_phy_addr (INIT_VRING_ALLOC_INFO hw) = pv_phy_addr hw" "vai_num_descs (INIT_VRING_ALLOC_INFO hw) = pv_num_descs hw"
  by (simp_all add: INIT_VRING_ALLOC_INFO_def)

abbreviation dev_vq :: "ptr \<Rightarrow> nat \<Rightarrow> char list \<Rightarrow> proc_vring \<Rightarrow> vq_fn \<Rightarrow> virtqueue" where
  "dev_vq rdev i nm hw f \<equiv> new_vq rdev (of_nat i) nm (INIT_VRING_ALLOC_INFO hw) (Some f) (Some Hil_vring_notify)"

definition vq_alloc :: "virtqueue \<Rightarrow> vring_mem \<Rightarrow> world \<Rightarrow> world" where
  "vq_alloc vq r w = put_vq (w_next w) vq r (w\<lparr>w_next := Suc (w_next w), w_allocs := Suc (w_allocs w)\<rparr>)"

lemma vq_alloc_frame [simp]:
  "w_mem (vq_alloc vq r w) = w_mem w" "w_nodes (vq_alloc vq r w) = w_nodes w" "w_chnls (vq_alloc vq r w) = w_chnls w"
  "w_epts (vq_alloc vq r w) = w_epts w" "w_rdevs (vq_alloc vq r w) = w_rdevs w" "w_pools (vq_alloc vq r w) = w_pools w"
  "w_procs (vq_alloc vq r w) = w_procs w" "w_app (vq_alloc vq r w) = w_app w" "w_next (vq_alloc vq r w) = Suc (w_next w)"
  "w_rings (vq_alloc vq r w) = (w_rings w)(vq_ring_mem vq \<mapsto> r)" "w_vqs (vq_alloc vq r w) = (w_vqs w)(w_next w \<mapsto> vq)"
  by (simp_all add: vq_alloc_def put_vq_def)

lemma create_vq:
  assumes "w_rdevs w rdev = Some rd" "mem_ok cf" "0 < w_next w" "idx < length vrings" "idx < length names" "idx < length callbacks"
    and "hw = vrings ! idx" "pow2_size (pv_num_descs hw)" "ring_given (rd_role rd) hw r w"
    and "env_strncpy (names ! idx) VIRTQUEUE_MAX_NAME_SZ = Some nm"
  shows "rdev_create_vqs cf rdev (idx # idxs) names callbacks vrings vqs w =
    rdev_create_vqs cf rdev idxs names callbacks vrings (vqs @ [w_next w]) (vq_alloc (dev_vq rdev idx nm hw (callbacks ! idx)) (start_ring r) w)"
proof -
  have l: "length (vr_desc r) = unat (pv_num_descs hw)" using assms(9) by (auto simp: ring_given_def vring_zero_def split: if_splits)
  have c: "virtqueue_create (cf_dbg cf) True rdev (of_nat idx) (names ! idx) (INIT_VRING_ALLOC_INFO hw) (Some (callbacks ! idx))
      (Some Hil_vring_notify) r = Some (0, Some (dev_vq rdev idx nm hw (callbacks ! idx)), start_ring r)"
    by (rule virtqueue_create_exact) (use assms(8,10) l in simp_all)
  show ?thesis
  proof (cases "rd_role rd = RPMSG_REMOTE")
    case True
    then have r: "r = vring_zero (unat (pv_num_descs hw))" using assms(9) by (simp add: ring_given_def)
    let ?w = "w\<lparr>w_rings := (w_rings w)(pv_phy_addr hw \<mapsto> r)\<rparr>"
    have "vq_alloc vq r' ?w = vq_alloc vq r' w" if "vq_ring_mem vq = pv_phy_addr hw" for vq r'
      using that by (simp add: vq_alloc_def put_vq_def)
    moreover have "rdev_create_vqs cf rdev (idx # idxs) names callbacks vrings vqs w = rdev_create_vqs cf rdev idxs names callbacks vrings
        (vqs @ [w_next w]) (vq_alloc (dev_vq rdev idx nm hw (callbacks ! idx)) (start_ring r) ?w)"
      using assms(1-6) True c unfolding r assms(7) by (simp add: alloc_ok vq_alloc_def)
    ultimately show ?thesis by simp
  next
    case False
    then have "w_rings w (pv_phy_addr hw) = Some r" using assms(9) by (simp add: ring_given_def)
    then show ?thesis using assms(1-6) False c unfolding assms(7) by (simp add: alloc_ok vq_alloc_def)
  qed
qed

lemma create_two_vqs:
  assumes "w_rdevs w rdev = Some rd" "mem_ok cf" "0 < w_next w" "vrings = [h0, h1]"
    and "pow2_size (pv_num_descs h0)" "pow2_size (pv_num_descs h1)" "pv_phy_addr h0 \<noteq> pv_phy_addr h1"
    and "ring_given (rd_role rd) h0 r0 w" "ring_given (rd_role rd) h1 r1 w"
    and "env_strncpy s0 VIRTQUEUE_MAX_NAME_SZ = Some nm0" "env_strncpy s1 VIRTQUEUE_MAX_NAME_SZ = Some nm1"
  shows "rdev_create_vqs cf rdev [0..<2] [s0, s1] [f0, f1] vrings [] w = Some (RPMSG_SUCCESS, [w_next w, Suc (w_next w)],
    vq_alloc (dev_vq rdev 1 nm1 h1 f1) (start_ring r1) (vq_alloc (dev_vq rdev 0 nm0 h0 f0) (start_ring r0) w))"
proof -
  let ?w = "vq_alloc (dev_vq rdev 0 nm0 h0 f0) (start_ring r0) w"
  have g: "ring_given (rd_role rd) h1 r1 ?w" using assms(7,9) by (simp add: ring_given_def)
  have u: "[0..<2] = [0, 1 :: nat]" by (simp add: upt_rec)
  have v: "0 < length vrings" "1 < length vrings" "h0 = vrings ! 0" "h1 = vrings ! 1" by (simp_all add: assms(4))
  have n: "env_strncpy ([s0, s1] ! 0) VIRTQUEUE_MAX_NAME_SZ = Some nm0" "env_strncpy ([s0, s1] ! 1) VIRTQUEUE_MAX_NAME_SZ = Some nm1"
    using assms(10,11) by simp_all
  have w: "w_rdevs ?w rdev = Some rd" "0 < w_next ?w" using assms(1) by simp_all
  have "rdev_create_vqs cf rdev [0, 1] [s0, s1] [f0, f1] vrings [] w =
      rdev_create_vqs cf rdev [1] [s0, s1] [f0, f1] vrings ([] @ [w_next w]) (vq_alloc (dev_vq rdev 0 nm0 h0 ([f0, f1] ! 0)) (start_ring r0) w)"
    by (rule create_vq [OF assms(1-3) v(1) _ _ v(3) assms(5,8) n(1)]) simp_all
  also have "\<dots> = rdev_create_vqs cf rdev [1] [s0, s1] [f0, f1] vrings [w_next w] ?w" by (simp del: rdev_create_vqs.simps)
  also have "\<dots> = rdev_create_vqs cf rdev [] [s0, s1] [f0, f1] vrings ([w_next w] @ [w_next ?w])
      (vq_alloc (dev_vq rdev 1 nm1 h1 ([f0, f1] ! 1)) (start_ring r1) ?w)"
    by (rule create_vq [OF w(1) assms(2) w(2) v(2) _ _ v(4) assms(6) g n(2)]) simp_all
  finally show ?thesis by (simp add: u)
qed

section \<open>The receive buffers of the master\<close>

abbreviation buff_token :: "u16 \<Rightarrow> u32 \<Rightarrow> token" where
  "buff_token x b \<equiv> \<lparr>tk_chain = [x], tk_bufs = [(b, RPMSG_BUFFER_SIZE)], tk_cookie = b\<rparr>"

definition offer_all :: "u32 list \<Rightarrow> ring_abs \<Rightarrow> ring_abs" where
  "offer_all bs A = A\<lparr>ra_free := drop (length bs) (ra_free A), ra_pend := ra_pend A @ map2 buff_token (ra_free A) bs\<rparr>"

lemma offer_all_Cons:
  "ra_free A = x # xs \<Longrightarrow> offer_all bs (A\<lparr>ra_free := xs, ra_pend := ra_pend A @ [buff_token x b]\<rparr>) = offer_all (b # bs) A"
  by (simp add: offer_all_def)

lemma live_nonzero: "pool_inv p \<Longrightarrow> b \<in> live_buffers p \<Longrightarrow> b \<noteq> 0"
proof -
  assume p: "pool_inv p" and "b \<in> live_buffers p"
  then obtain i where "i \<in> alloc_set p" "b = buff_addr p i" by (auto simp: live_buffers_def)
  moreover from this p have "i < sp_total_buffs p" by (auto simp: pool_inv_def)
  ultimately show ?thesis using buff_addr_nonzero [OF p] by simp
qed

text \<open>What filling the receive ring leaves alone.\<close>

definition fill_frame :: "ptr \<Rightarrow> u32 \<Rightarrow> world \<Rightarrow> world \<Rightarrow> bool" where
  "fill_frame p a w w' \<longleftrightarrow> tx_frame w w' \<and> (\<forall>q. q \<noteq> p \<longrightarrow> w_vqs w' q = w_vqs w q) \<and> (\<forall>b. b \<noteq> a \<longrightarrow> w_rings w' b = w_rings w b)"

lemma fill_step:
  assumes "w_pools w (rd_mem_pool rd) = Some pool" "rd_mem_pool rd \<noteq> NULL" "pool_inv pool" "card (live_buffers pool) < pool_capacity pool"
    and "get_vq (rd_rvq rd) w = Some (vq, r)" "ring_rel (cf_vatopa cf) \<lparr>rs_drv = vq, rs_dev = d, rs_ring = r\<rparr> A"
    and "ra_free A = x # xs" "linked_fresh (vr_desc r)"
  shows "\<exists>b pool' w' vq' r'. rdev_fill_rx cf rd (i # is') w = rdev_fill_rx cf rd is' w' \<and> b \<notin> live_buffers pool \<and> b \<noteq> 0 \<and>
    live_buffers pool' = insert b (live_buffers pool) \<and> pool_inv pool' \<and> pool_capacity pool' = pool_capacity pool \<and>
    same_geometry pool pool' \<and> w_pools w' = (w_pools w)(rd_mem_pool rd \<mapsto> pool') \<and> get_vq (rd_rvq rd) w' = Some (vq', r') \<and> vq_ident vq' = vq_ident vq \<and>
    ring_rel (cf_vatopa cf) \<lparr>rs_drv = vq', rs_dev = d, rs_ring = r'\<rparr> (A\<lparr>ra_free := xs, ra_pend := ra_pend A @ [buff_token x b]\<rparr>) \<and>
    linked_fresh (vr_desc r') \<and> fill_frame (rd_rvq rd) (vq_ring_mem vq) w w'"
proof -
  from shm.get_fresh [OF assms(3,4)] obtain b pool' where g: "sh_mem_get_buffer pool = Some (b, pool')" "b \<notin> live_buffers pool"
    "live_buffers pool' = insert b (live_buffers pool)" "pool_inv pool'" "pool_capacity pool' = pool_capacity pool" by blast
  have sz: "same_geometry pool pool'"
    using sh_mem_get_buffer_index [OF assms(3)] assms(3,4) g(1) by (auto simp: card_live_buffers)
  have b: "b \<noteq> 0" using live_nonzero [OF g(4)] g(3) by simp
  define w1 where "w1 = env_unlock_mutex ((env_lock_mutex w)\<lparr>w_pools := (w_pools w)(rd_mem_pool rd \<mapsto> pool')\<rparr>)"
  have w1: "w_sh_mem_get_buffer (rd_mem_pool rd) w = Some (b, w1)"
    using assms(1,2) g(1) by (simp add: w_sh_mem_get_buffer_def w1_def Let_def)
  define w2 where "w2 = w1\<lparr>w_mem := store_bytes (w_mem w1) b (replicate (unat RPMSG_BUFFER_SIZE) 0)\<rparr>"
  have q: "get_vq (rd_rvq rd) w2 = Some (vq, r)" using assms(5) by (simp add: w2_def w1_def get_vq_def)
  from w_offer [OF q assms(6,7) b, of RPMSG_BUFFER_SIZE] obtain vq' r' where
    o: "w_add_buffer cf (rd_rvq rd) [(b, RPMSG_BUFFER_SIZE)] 0 1 b w2 = Some (VQUEUE_SUCCESS, put_vq (rd_rvq rd) vq' r' w2)"
    "vq_ident vq' = vq_ident vq"
    "ring_rel (cf_vatopa cf) \<lparr>rs_drv = vq', rs_dev = d, rs_ring = r'\<rparr> (A\<lparr>ra_free := xs, ra_pend := ra_pend A @ [buff_token x b]\<rparr>)" by blast
  let ?w = "put_vq (rd_rvq rd) vq' r' w2"
  have "\<exists>st. virtqueue_add_buffer (cf_dbg cf) (cf_vatopa cf) vq [(b, RPMSG_BUFFER_SIZE)] 0 1 b r = Some (st, vq', r')"
  proof -
    obtain st v r2 where a: "virtqueue_add_buffer (cf_dbg cf) (cf_vatopa cf) vq [(b, RPMSG_BUFFER_SIZE)] 0 1 b r = Some (st, v, r2)"
      "put_vq (rd_rvq rd) v r2 w2 = ?w" using o(1) q by (auto simp: w_add_buffer_def option_bind_simps)
    from a(2) have "get_vq (rd_rvq rd) (put_vq (rd_rvq rd) v r2 w2) = get_vq (rd_rvq rd) ?w" by simp
    then show ?thesis using a(1) by simp
  qed
  then have l: "linked_fresh (vr_desc r')" using add_buffer_links assms(8) by blast
  have "rdev_fill_rx cf rd (i # is') w = rdev_fill_rx cf rd is' ?w"
    using w1 b o(1) by (simp add: w2_def RPMSG_SUCCESS_def VQUEUE_SUCCESS_def)
  moreover have "fill_frame (rd_rvq rd) (vq_ring_mem vq) w ?w"
    using o(2) by (simp add: fill_frame_def tx_frame_def w2_def w1_def put_vq_def vq_ident_def)
  moreover have "w_pools ?w = (w_pools w)(rd_mem_pool rd \<mapsto> pool')" by (simp add: w2_def w1_def)
  ultimately show ?thesis using g(2-5) sz b o(2,3) l by (intro exI [of _ b] exI [of _ pool'] exI [of _ ?w] exI [of _ vq'] exI [of _ r']) simp
qed

lemma fill_frame_trans: "fill_frame p a w1 w2 \<Longrightarrow> fill_frame p a w2 w3 \<Longrightarrow> fill_frame p a w1 w3"
  by (auto simp: fill_frame_def intro: tx_frame_trans)

lemma fill_rx:
  assumes "w_pools w (rd_mem_pool rd) = Some pool" "rd_mem_pool rd \<noteq> NULL" "pool_inv pool"
    and "card (live_buffers pool) + length idxs \<le> pool_capacity pool"
    and "get_vq (rd_rvq rd) w = Some (vq, r)" "ring_rel (cf_vatopa cf) \<lparr>rs_drv = vq, rs_dev = d, rs_ring = r\<rparr> A"
    and "length idxs \<le> length (ra_free A)" "linked_fresh (vr_desc r)"
  shows "\<exists>w' bs pool' vq' r'. rdev_fill_rx cf rd idxs w = Some (RPMSG_SUCCESS, w') \<and> length bs = length idxs \<and> distinct bs \<and>
    set bs \<inter> live_buffers pool = {} \<and> 0 \<notin> set bs \<and> live_buffers pool' = set bs \<union> live_buffers pool \<and> pool_inv pool' \<and>
    same_geometry pool pool' \<and> w_pools w' = (w_pools w)(rd_mem_pool rd \<mapsto> pool') \<and> get_vq (rd_rvq rd) w' = Some (vq', r') \<and> vq_ident vq' = vq_ident vq \<and>
    ring_rel (cf_vatopa cf) \<lparr>rs_drv = vq', rs_dev = d, rs_ring = r'\<rparr> (offer_all bs A) \<and> linked_fresh (vr_desc r') \<and>
    fill_frame (rd_rvq rd) (vq_ring_mem vq) w w'"
  using assms(1,3-8)
proof (induction idxs arbitrary: w pool vq r A)
  case Nil
  have "(w_pools w)(rd_mem_pool rd \<mapsto> pool) = w_pools w" using Nil(1) by auto
  then show ?case using Nil by (intro exI [of _ w] exI [of _ "[]"] exI [of _ pool] exI [of _ vq] exI [of _ r])
    (simp add: offer_all_def fill_frame_def tx_frame_def same_geometry_def)
next
  case (Cons i idxs)
  from Cons.prems(6) obtain x xs where f: "ra_free A = x # xs" by (cases "ra_free A") auto
  have "card (live_buffers pool) < pool_capacity pool" using Cons.prems(3) by simp
  from fill_step [OF Cons.prems(1) assms(2) Cons.prems(2) this Cons.prems(4,5) f Cons.prems(7), of i idxs] obtain b pool1 w1 vq1 r1 where
    s: "rdev_fill_rx cf rd (i # idxs) w = rdev_fill_rx cf rd idxs w1" "b \<notin> live_buffers pool" "b \<noteq> 0"
    "live_buffers pool1 = insert b (live_buffers pool)" "pool_inv pool1" "pool_capacity pool1 = pool_capacity pool"
    "same_geometry pool pool1" "w_pools w1 = (w_pools w)(rd_mem_pool rd \<mapsto> pool1)" "get_vq (rd_rvq rd) w1 = Some (vq1, r1)" "vq_ident vq1 = vq_ident vq"
    "ring_rel (cf_vatopa cf) \<lparr>rs_drv = vq1, rs_dev = d, rs_ring = r1\<rparr> (A\<lparr>ra_free := xs, ra_pend := ra_pend A @ [buff_token x b]\<rparr>)"
    "linked_fresh (vr_desc r1)" "fill_frame (rd_rvq rd) (vq_ring_mem vq) w w1" by blast
  have c: "card (live_buffers pool1) + length idxs \<le> pool_capacity pool1"
    using Cons.prems(2,3) s(2,4,6) shm.live_finite by simp
  have p: "w_pools w1 (rd_mem_pool rd) = Some pool1" using s(8) by simp
  have "length idxs \<le> length (ra_free (A\<lparr>ra_free := xs, ra_pend := ra_pend A @ [buff_token x b]\<rparr>))" using Cons.prems(6) f by simp
  from Cons.IH [OF p s(5) c s(9,11) this s(12)] obtain w' bs pool' vq' r' where
    i: "rdev_fill_rx cf rd idxs w1 = Some (RPMSG_SUCCESS, w')" "length bs = length idxs" "distinct bs" "set bs \<inter> live_buffers pool1 = {}"
    "0 \<notin> set bs" "live_buffers pool' = set bs \<union> live_buffers pool1" "pool_inv pool'" "same_geometry pool1 pool'"
    "w_pools w' = (w_pools w1)(rd_mem_pool rd \<mapsto> pool')" "get_vq (rd_rvq rd) w' = Some (vq', r')" "vq_ident vq' = vq_ident vq1"
    "ring_rel (cf_vatopa cf) \<lparr>rs_drv = vq', rs_dev = d, rs_ring = r'\<rparr> (offer_all bs (A\<lparr>ra_free := xs, ra_pend := ra_pend A @ [buff_token x b]\<rparr>))"
    "linked_fresh (vr_desc r')" "fill_frame (rd_rvq rd) (vq_ring_mem vq1) w1 w'" by blast
  have m: "vq_ring_mem vq1 = vq_ring_mem vq" using s(10) by (simp add: vq_ident_def)
  show ?case
    using i s f fill_frame_trans [OF s(13) i(14) [unfolded m]]
    by (intro exI [of _ w'] exI [of _ "b # bs"] exI [of _ pool'] exI [of _ vq'] exI [of _ r']) (auto simp: offer_all_Cons same_geometry_def simp del: rdev_fill_rx.simps)
qed

end
