(* ===== verification/SystemStart.thy ===== *)
theory SystemStart
  imports Startup Announce
begin

text \<open>
  \<^verbatim>\<open>rpmsg_start_ipc\<close> and \<^verbatim>\<open>rpmsg_init\<close> on the two sides, and the system after both have run: the queues of the
  two processors are the two ends of the same rings.
\<close>

section \<open>State that the start leaves alone\<close>

lemma objectsD:
  assumes "objects w' = objects w"
  shows "w_mem w' = w_mem w" "w_nodes w' = w_nodes w" "w_chnls w' = w_chnls w" "w_epts w' = w_epts w" "w_rdevs w' = w_rdevs w"
    "w_vqs w' = w_vqs w" "w_rings w' = w_rings w" "w_pools w' = w_pools w" "w_procs w' = w_procs w" "w_next w' = w_next w" "w_app w' = w_app w"
  using assms by (simp_all add: objects_def)

lemma tables_keep:
  assumes "ept_inv rdev w T" "chnl_inv rdev w cs" "w_nodes w' = w_nodes w" "w_chnls w' = w_chnls w" "w_epts w' = w_epts w"
    and "w_rdevs w rdev = Some rd" "w_rdevs w' rdev = Some rd'" "rd_rp_endpoints rd' = rd_rp_endpoints rd"
    and "rd_bitmap rd' = rd_bitmap rd" "rd_rp_channels rd' = rd_rp_channels rd" "w_next w \<le> w_next w'"
  shows "ept_inv rdev w' T" "chnl_inv rdev w' cs"
proof -
  have "ept_map w' rdev T" using assms(1) by (intro ept_map_frame [OF _ _ assms(5,6,7,8,9)]) (simp_all add: ept_inv_def assms(3))
  moreover have "objs_fresh w'" using assms(1,3,5,11) by (auto simp: ept_inv_def objs_fresh_def)
  ultimately show "ept_inv rdev w' T" by (simp add: ept_inv_def)
  have "chnl_entry rdev w' = chnl_entry rdev w" using assms(3,4) by (simp add: chnl_entry_def fun_eq_iff)
  then show "chnl_inv rdev w' cs" using assms(2-7,10,11) by (auto simp: chnl_inv_def)
qed

lemma rd_core_ns: "rd_core rd = rd_core rd' \<Longrightarrow> rd_support_ns rd = rd_support_ns rd' \<and> rd_features rd = rd_features rd' \<and> rd_proc rd = rd_proc rd'"
  by (cases rd; cases rd') (simp add: rd_core_def)

lemma chnl_waits_keep: "w_chnls w' = w_chnls w \<Longrightarrow> w_epts w' = w_epts w \<Longrightarrow> chnl_waits rdev cb T w' = chnl_waits rdev cb T w"
  by (simp add: chnl_waits_def fun_eq_iff)

section \<open>The name service endpoint\<close>

definition ns_wanted :: "u32 \<Rightarrow> bool" where
  "ns_wanted f \<longleftrightarrow> f AND push_bit VIRTIO_RPMSG_F_NS 1 \<noteq> 0"

definition start_ns :: "config \<Rightarrow> ptr \<Rightarrow> u32 \<Rightarrow> world \<Rightarrow> (bool \<times> world) option" where
  "start_ns cf rdev f w = (if f AND push_bit VIRTIO_RPMSG_F_NS 1 \<noteq> 0
     then do {
       rd \<leftarrow> w_rdevs w rdev;
       let w = w\<lparr>w_rdevs := (w_rdevs w)(rdev \<mapsto> rd\<lparr>rd_support_ns := True\<rparr>)\<rparr>;
       (ns_ept, w) \<leftarrow> core_create_endpoint cf rdev (Some Rpmsg_ns_callback) rdev RPMSG_NS_EPT_ADDR w;
       Some (ns_ept \<noteq> NULL, w) }
     else Some (True, w))"

text \<open>The endpoint of the name service in the map of endpoints, when the service is wanted.\<close>

definition ns_map :: "u32 \<Rightarrow> ptr \<Rightarrow> (u32 \<rightharpoonup> ptr) \<Rightarrow> (u32 \<rightharpoonup> ptr) \<Rightarrow> world \<Rightarrow> bool" where
  "ns_map f rdev T T' w \<longleftrightarrow> (if ns_wanted f
     then \<exists>e. T' = T(RPMSG_NS_EPT_ADDR \<mapsto> e) \<and> w_epts w e = Some (new_ept RPMSG_NS_EPT_ADDR (Some Rpmsg_ns_callback) rdev)
     else T' = T)"

lemma chnl_waits_ns:
  assumes "chnl_waits rdev cb T w nm c" "T a = None" "w_chnls w' = w_chnls w" "\<And>e. w_epts w e \<noteq> None \<Longrightarrow> w_epts w' e = w_epts w e"
  shows "chnl_waits rdev cb (T(a \<mapsto> x)) w' nm c"
proof -
  from assms(1) obtain b e where b: "w_chnls w c = Some \<lparr>ch_name = nm, ch_src = b, ch_dst = RPMSG_NS_EPT_ADDR, ch_rdev = rdev,
      ch_rp_ept = e, ch_state = RPMSG_CHNL_STATE_IDLE\<rparr>" "T b = Some e"
    "w_epts w e = Some \<lparr>ep_rp_chnl = c, ep_cb = Some cb, ep_addr = b, ep_priv = rdev\<rparr>" by (auto simp: chnl_waits_def)
  moreover have "b \<noteq> a" using b(2) assms(2) by auto
  ultimately show ?thesis using assms(3,4) by (auto simp: chnl_waits_def)
qed

lemma start_ns_ok:
  assumes "ept_inv rdev w T" "chnl_inv rdev w cs" "w_rdevs w rdev = Some rd" "mem_ok cf" "T RPMSG_NS_EPT_ADDR = None"
  shows "\<exists>w' T' rd'. start_ns cf rdev f w = Some (True, w') \<and> ept_inv rdev w' T' \<and> chnl_inv rdev w' cs \<and> w_rdevs w' rdev = Some rd' \<and>
    rd_core rd' = rd_core (rd\<lparr>rd_support_ns := (ns_wanted f \<or> rd_support_ns rd)\<rparr>) \<and> w_vqs w' = w_vqs w \<and> w_rings w' = w_rings w \<and>
    w_pools w' = w_pools w \<and> w_procs w' = w_procs w \<and> ns_map f rdev T T' w' \<and>
    (\<forall>cb nm c. chnl_waits rdev cb T w nm c \<longrightarrow> chnl_waits rdev cb T' w' nm c)"
proof (cases "ns_wanted f")
  case True
  let ?rd = "rd\<lparr>rd_support_ns := True\<rparr>"
  let ?w = "w\<lparr>w_rdevs := (w_rdevs w)(rdev \<mapsto> ?rd)\<rparr>"
  have t: "ept_inv rdev ?w T" "chnl_inv rdev ?w cs" by (rule tables_keep [OF assms(1,2), where rd = rd and rd' = ?rd], simp_all add: assms(3))+
  then have "ept_map ?w rdev T" "objs_fresh ?w" by (simp_all add: ept_inv_def)
  from core_create_endpoint_map [OF this, of RPMSG_NS_EPT_ADDR cf "Some Rpmsg_ns_callback" rdev] assms(4,5) obtain e w' where
    c: "core_create_endpoint cf rdev (Some Rpmsg_ns_callback) rdev RPMSG_NS_EPT_ADDR ?w = Some (e, w')" "e \<noteq> NULL" "objs_fresh w'"
    "ept_frame ?w w'" "w_epts w' e = Some (new_ept RPMSG_NS_EPT_ADDR (Some Rpmsg_ns_callback) rdev)"
    "ept_map w' rdev (T(RPMSG_NS_EPT_ADDR \<mapsto> e))"
    by (auto simp: mem_ok_def RPMSG_NS_EPT_ADDR_def RPMSG_ADDR_ANY_def)
  obtain rd' where rd': "w_rdevs w' rdev = Some rd'" "rd_core rd' = rd_core ?rd" using ept_frame_core [OF c(4), of rdev ?rd] by auto
  have f: "w_chnls w' = w_chnls w" "w_vqs w' = w_vqs w" "w_rings w' = w_rings w" "w_pools w' = w_pools w" "w_procs w' = w_procs w"
    using c(4) by (simp_all add: ept_frame_def)
  have "chnl_waits rdev cb (T(RPMSG_NS_EPT_ADDR \<mapsto> e)) w' nm d" if "chnl_waits rdev cb T w nm d" for cb nm d
    using create_ept_keeps(1) [OF c(1) conjunct2 [OF t(1) [unfolded ept_inv_def]]] by (intro chnl_waits_ns [OF that assms(5) f(1)]) simp
  moreover have "start_ns cf rdev f w = Some (True, w')" using True assms(3) c(1,2) by (simp add: start_ns_def ns_wanted_def)
  ultimately show ?thesis using c(3,5,6) chnl_inv_ept_frame [OF t(2) c(4)] f rd' True
    by (intro exI [of _ w'] exI [of _ "T(RPMSG_NS_EPT_ADDR \<mapsto> e)"] exI [of _ rd']) (auto simp: ept_inv_def ns_map_def)
next
  case False
  then have "start_ns cf rdev f w = Some (True, w)" by (simp add: start_ns_def ns_wanted_def)
  moreover have "rd\<lparr>rd_support_ns := rd_support_ns rd\<rparr> = rd" by simp
  ultimately show ?thesis using False assms by (intro exI [of _ w] exI [of _ T] exI [of _ rd]) (simp add: ns_map_def)
qed

section \<open>The interrupts\<close>

definition ring_pair :: "hil_proc \<Rightarrow> proc_vring \<Rightarrow> proc_vring \<Rightarrow> bool" where
  "ring_pair pr h0 h1 \<longleftrightarrow> pd_num_vrings (hp_vdev pr) = 2 \<and> pd_vring_info (hp_vdev pr) = [h0, h1] \<and>
     pow2_size (pv_num_descs h0) \<and> pow2_size (pv_num_descs h1) \<and> pv_phy_addr h0 \<noteq> pv_phy_addr h1"

definition wire :: "ptr \<Rightarrow> ptr \<Rightarrow> hil_proc \<Rightarrow> hil_proc" where
  "wire p0 p1 pr = pr\<lparr>hp_vdev := (hp_vdev pr)\<lparr>pd_vring_info :=
     [(pd_vring_info (hp_vdev pr) ! 0)\<lparr>pv_vq := p0\<rparr>, (pd_vring_info (hp_vdev pr) ! 1)\<lparr>pv_vq := p1\<rparr>]\<rparr>\<rparr>"

lemma enable_ring:
  assumes "quiet_enable cf" "w_vqs w p = Some q" "w_rdevs w (vq_dev q) = Some rd" "w_procs w (rd_device rd) = Some pr"
    and "i < length (pd_vring_info (hp_vdev pr))"
  shows "\<exists>w'. hil_enable_vring_notifications cf i p w = Some (0, w') \<and>
    objects w' = objects (w\<lparr>w_procs := (w_procs w)(rd_device rd \<mapsto> pr\<lparr>hp_vdev := (hp_vdev pr)\<lparr>pd_vring_info :=
      (pd_vring_info (hp_vdev pr))[i := (pd_vring_info (hp_vdev pr) ! i)\<lparr>pv_vq := p\<rparr>]\<rparr>\<rparr>)\<rparr>)"
proof (cases "op_enable_interrupt (hp_ops pr)")
  case None
  then show ?thesis using assms by (simp add: hil_enable_vring_notifications_def vq_proc_def)
next
  case (Some f)
  then show ?thesis using assms(2-5) assms(1) [unfolded quiet_enable_def, rule_format, of f "rd_device rd" i]
    by (simp add: hil_enable_vring_notifications_def vq_proc_def) (metis option.simps(5) bind.bind_lunit)
qed

lemma enable_two:
  assumes "quiet_enable cf" "w_vqs w p0 = Some q0" "w_vqs w p1 = Some q1" "vq_dev q0 = rdev" "vq_dev q1 = rdev"
    and "w_rdevs w rdev = Some rd" "w_procs w (rd_device rd) = Some pr" "ring_pair pr h0 h1"
  shows "\<exists>w1 w2. hil_enable_vring_notifications cf 0 p0 w = Some (0, w1) \<and> hil_enable_vring_notifications cf 1 p1 w1 = Some (0, w2) \<and>
    objects w2 = objects (w\<lparr>w_procs := (w_procs w)(rd_device rd \<mapsto> wire p0 p1 pr)\<rparr>)"
proof -
  have v: "pd_vring_info (hp_vdev pr) = [h0, h1]" using assms(8) by (simp add: ring_pair_def)
  let ?pr = "pr\<lparr>hp_vdev := (hp_vdev pr)\<lparr>pd_vring_info := [h0\<lparr>pv_vq := p0\<rparr>, h1]\<rparr>\<rparr>"
  from enable_ring [OF assms(1,2), of rd pr 0] assms(4,6,7) v obtain w1 where w1: "hil_enable_vring_notifications cf 0 p0 w = Some (0, w1)"
    "objects w1 = objects (w\<lparr>w_procs := (w_procs w)(rd_device rd \<mapsto> ?pr)\<rparr>)" by auto
  note o1 = objectsD [OF w1(2)]
  from enable_ring [of cf w1 p1 q1 rd ?pr 1] assms(1,3,5,6) o1 obtain w2 where w2: "hil_enable_vring_notifications cf 1 p1 w1 = Some (0, w2)"
    "objects w2 = objects (w1\<lparr>w_procs := (w_procs w1)(rd_device rd \<mapsto> wire p0 p1 pr)\<rparr>)" by (auto simp: wire_def v)
  have "objects w2 = objects (w\<lparr>w_procs := (w_procs w)(rd_device rd \<mapsto> wire p0 p1 pr)\<rparr>)"
    using w2(2) w1(2) by (simp add: objects_def)
  then show ?thesis using w1(1) w2(1) by blast
qed

section \<open>The queues of a side\<close>

definition tx_name :: "char list" where "tx_name = ''tx_vq'' @ replicate 27 NUL"
definition rx_name :: "char list" where "rx_name = ''rx_vq'' @ replicate 27 NUL"

lemma queue_names:
  "env_strncpy (cstring ''tx_vq'') VIRTQUEUE_MAX_NAME_SZ = Some tx_name" "env_strncpy (cstring ''rx_vq'') VIRTQUEUE_MAX_NAME_SZ = Some rx_name"
  by code_simp+

definition two_queues :: "ptr \<Rightarrow> virtqueue \<Rightarrow> virtqueue \<Rightarrow> vring_mem \<Rightarrow> vring_mem \<Rightarrow> remote_device \<Rightarrow> world \<Rightarrow> world" where
  "two_queues rdev q0 q1 r0 r1 rd w = (vq_alloc q1 (start_ring r1) (vq_alloc q0 (start_ring r0) w))\<lparr>w_rdevs := (w_rdevs w)(rdev \<mapsto> rd)\<rparr>"

lemma two_queues_frame [simp]:
  "w_mem (two_queues rdev q0 q1 r0 r1 rd w) = w_mem w" "w_nodes (two_queues rdev q0 q1 r0 r1 rd w) = w_nodes w"
  "w_chnls (two_queues rdev q0 q1 r0 r1 rd w) = w_chnls w" "w_epts (two_queues rdev q0 q1 r0 r1 rd w) = w_epts w"
  "w_rdevs (two_queues rdev q0 q1 r0 r1 rd w) = (w_rdevs w)(rdev \<mapsto> rd)" "w_pools (two_queues rdev q0 q1 r0 r1 rd w) = w_pools w"
  "w_procs (two_queues rdev q0 q1 r0 r1 rd w) = w_procs w" "w_app (two_queues rdev q0 q1 r0 r1 rd w) = w_app w"
  "w_next (two_queues rdev q0 q1 r0 r1 rd w) = Suc (Suc (w_next w))"
  "w_vqs (two_queues rdev q0 q1 r0 r1 rd w) = (w_vqs w)(w_next w \<mapsto> q0, Suc (w_next w) \<mapsto> q1)"
  by (simp_all add: two_queues_def)

lemma two_queues_get [simp]:
  "vq_ring_mem q0 \<noteq> vq_ring_mem q1 \<Longrightarrow> get_vq (w_next w) (two_queues rdev q0 q1 r0 r1 rd w) = Some (q0, start_ring r0)"
  "get_vq (Suc (w_next w)) (two_queues rdev q0 q1 r0 r1 rd w) = Some (q1, start_ring r1)"
  by (simp_all add: two_queues_def get_vq_def)

lemma create_queues:
  assumes "w_rdevs w rdev = Some rd" "w_procs w (rd_proc rd) = Some pr" "ring_pair pr h0 h1" "mem_ok cf" "0 < w_next w"
    and "ring_given (rd_role rd) h0 r0 w" "ring_given (rd_role rd) h1 r1 w"
    and "env_strncpy s0 VIRTQUEUE_MAX_NAME_SZ = Some n0" "env_strncpy s1 VIRTQUEUE_MAX_NAME_SZ = Some n1"
    and "q0 = dev_vq rdev 0 n0 h0 f0" "q1 = dev_vq rdev 1 n1 h1 f1"
  shows "rd_role rd = RPMSG_MASTER \<Longrightarrow> rpmsg_rdev_create_virtqueues cf rdev RPMSG_MAX_VQ_PER_RDEV [s0, s1] [f0, f1] w =
      Some (RPMSG_SUCCESS, two_queues rdev q0 q1 r0 r1 (rd\<lparr>rd_tvq := w_next w, rd_rvq := Suc (w_next w)\<rparr>) w)"
    "rd_role rd = RPMSG_REMOTE \<Longrightarrow> w_pools w (rd_mem_pool rd) = Some pool \<Longrightarrow>
      rpmsg_rdev_create_virtqueues cf rdev RPMSG_MAX_VQ_PER_RDEV [s0, s1] [f0, f1] w =
      rdev_fill_rx cf (rd\<lparr>rd_tvq := Suc (w_next w), rd_rvq := w_next w\<rparr>) [0..<min (unat (pv_num_descs h0)) (sp_total_buffs pool div 2)]
        (two_queues rdev q0 q1 r0 r1 (rd\<lparr>rd_tvq := Suc (w_next w), rd_rvq := w_next w\<rparr>) w)"
proof -
  have p: "pd_num_vrings (hp_vdev pr) = 2" "pd_vring_info (hp_vdev pr) = [h0, h1]" "pow2_size (pv_num_descs h0)"
    "pow2_size (pv_num_descs h1)" "pv_phy_addr h0 \<noteq> pv_phy_addr h1" using assms(3) by (simp_all add: ring_pair_def)
  have c: "rdev_create_vqs cf rdev [0..<2] [s0, s1] [f0, f1] [h0, h1] [] w =
      Some (RPMSG_SUCCESS, [w_next w, Suc (w_next w)], vq_alloc q1 (start_ring r1) (vq_alloc q0 (start_ring r0) w))"
    unfolding assms(10,11) by (rule create_two_vqs [OF assms(1,4,5) refl p(3-5) assms(6-9)])
  have s: "sint (2 :: u32) = 2" by simp
  show "rd_role rd = RPMSG_MASTER \<Longrightarrow> rpmsg_rdev_create_virtqueues cf rdev RPMSG_MAX_VQ_PER_RDEV [s0, s1] [f0, f1] w =
      Some (RPMSG_SUCCESS, two_queues rdev q0 q1 r0 r1 (rd\<lparr>rd_tvq := w_next w, rd_rvq := Suc (w_next w)\<rparr>) w)"
    using assms(1,2) p c by (simp add: rpmsg_rdev_create_virtqueues_def hil_get_vdev_info_def hil_get_vring_info_def RPMSG_MAX_VQ_PER_RDEV_def
        RPMSG_MASTER_def RPMSG_REMOTE_def two_queues_def)
  show "rpmsg_rdev_create_virtqueues cf rdev RPMSG_MAX_VQ_PER_RDEV [s0, s1] [f0, f1] w =
      rdev_fill_rx cf (rd\<lparr>rd_tvq := Suc (w_next w), rd_rvq := w_next w\<rparr>) [0..<min (unat (pv_num_descs h0)) (sp_total_buffs pool div 2)]
        (two_queues rdev q0 q1 r0 r1 (rd\<lparr>rd_tvq := Suc (w_next w), rd_rvq := w_next w\<rparr>) w)"
    if "rd_role rd = RPMSG_REMOTE" "w_pools w (rd_mem_pool rd) = Some pool"
    using assms(1,2) p c that by (simp add: rpmsg_rdev_create_virtqueues_def hil_get_vdev_info_def hil_get_vring_info_def RPMSG_MAX_VQ_PER_RDEV_def
        RPMSG_MASTER_def RPMSG_REMOTE_def two_queues_def assms(10) Let_def)
qed

section \<open>The remote starts\<close>

text \<open>The state of a device in operation, seen from the tables and the queues.\<close>

definition dev_up :: "ptr \<Rightarrow> remote_device \<Rightarrow> virtqueue \<Rightarrow> vring_mem \<Rightarrow> virtqueue \<Rightarrow> vring_mem \<Rightarrow> world \<Rightarrow> bool" where
  "dev_up rdev rd tq tr rq rr w \<longleftrightarrow> w_rdevs w rdev = Some rd \<and> rd_state rd = RPMSG_DEV_STATE_ACTIVE \<and>
     rd_tvq rd \<noteq> NULL \<and> rd_rvq rd \<noteq> NULL \<and> rd_tvq rd \<noteq> rd_rvq rd \<and>
     get_vq (rd_tvq rd) w = Some (tq, tr) \<and> get_vq (rd_rvq rd) w = Some (rq, rr) \<and>
     vq_dev tq = rdev \<and> vq_dev rq = rdev \<and> notify_wired w tq \<and> notify_wired w rq"

lemma start_ipc_unfold:
  "rpmsg_start_ipc cf rdev w = do {
     rd \<leftarrow> w_rdevs w rdev;
     (status, w) \<leftarrow> (if rd_role rd = RPMSG_MASTER
        then rpmsg_rdev_create_virtqueues cf rdev RPMSG_MAX_VQ_PER_RDEV [cstring ''tx_vq'', cstring ''rx_vq''] [Rpmsg_tx_callback, Rpmsg_rx_callback] w
        else rpmsg_rdev_create_virtqueues cf rdev RPMSG_MAX_VQ_PER_RDEV [cstring ''rx_vq'', cstring ''tx_vq''] [Rpmsg_rx_callback, Rpmsg_tx_callback] w);
     (if status \<noteq> RPMSG_SUCCESS then Some (status, w)
      else do {
        dev_features \<leftarrow> rpmsg_rdev_get_feature rdev w;
        (ok, w) \<leftarrow> start_ns cf rdev dev_features w;
        (if \<not> ok then Some (RPMSG_ERR_NO_MEM, w)
         else do {
           rd \<leftarrow> w_rdevs w rdev;
           let vqs = (if rd_role rd = RPMSG_MASTER then [rd_tvq rd, rd_rvq rd] else [rd_rvq rd, rd_tvq rd]);
           (status, w) \<leftarrow> hil_enable_vring_notifications cf 0 (vqs ! 0) w;
           (if status \<noteq> RPMSG_SUCCESS then Some (status, w)
            else do {
              (status, w) \<leftarrow> hil_enable_vring_notifications cf 1 (vqs ! 1) w;
              (if status \<noteq> RPMSG_SUCCESS then Some (status, w) else rpmsg_rdev_notify cf rdev w) }) }) }) }"
proof (cases "w_rdevs w rdev")
  case (Some rd)
  then show ?thesis
    by (cases "rd_role rd = RPMSG_MASTER") (simp_all only: rpmsg_start_ipc_def start_ns_def Let_def bind.bind_lunit split_conv if_True if_False not_True_eq_False simp_thms)
qed (simp add: rpmsg_start_ipc_def)

lemma role_distinct: "RPMSG_MASTER \<noteq> RPMSG_REMOTE"
  by (simp add: RPMSG_MASTER_def RPMSG_REMOTE_def)

lemma start_ipc_remote:
  assumes tab: "ept_inv rdev w T" "chnl_inv rdev w cs" "list_all2 (chnl_waits rdev cb T w) nms cs" "T RPMSG_NS_EPT_ADDR = None"
    and rd: "w_rdevs w rdev = Some rd" "rd_role rd = RPMSG_MASTER" "rd_device rd = rd_proc rd" "w_procs w (rd_proc rd) = Some pr"
    and hw: "ring_pair pr h0 h1" "mem_ok cf" "quiet_enable cf" "ring_given RPMSG_MASTER h0 r0 w" "ring_given RPMSG_MASTER h1 r1 w"
  shows "\<exists>w' T' rd'. rpmsg_start_ipc cf rdev w = Some (RPMSG_SUCCESS, w') \<and> ept_inv rdev w' T' \<and> chnl_inv rdev w' cs \<and>
    ns_map (rd_features rd) rdev T T' w' \<and> list_all2 (chnl_waits rdev cb T' w') nms cs \<and>
    rd_support_ns rd' = (ns_wanted (rd_features rd) \<or> rd_support_ns rd) \<and> rd_role rd' = RPMSG_MASTER \<and>
    rd_channel_created rd' = rd_channel_created rd \<and>
    dev_up rdev rd' (dev_vq rdev 0 tx_name h0 Rpmsg_tx_callback) (start_ring r0) (dev_vq rdev 1 rx_name h1 Rpmsg_rx_callback) (start_ring r1) w'"
proof -
  have pos: "0 < w_next w" using tab(1) by (simp add: ept_inv_def objs_fresh_def)
  have pa: "pv_phy_addr h0 \<noteq> pv_phy_addr h1" using hw(1) by (simp add: ring_pair_def)
  define q0 where "q0 = dev_vq rdev 0 tx_name h0 Rpmsg_tx_callback"
  define q1 where "q1 = dev_vq rdev 1 rx_name h1 Rpmsg_rx_callback"
  define rd1 where "rd1 = rd\<lparr>rd_tvq := w_next w, rd_rvq := Suc (w_next w)\<rparr>"
  define w1 where "w1 = two_queues rdev q0 q1 r0 r1 rd1 w"
  have q: "vq_dev q0 = rdev" "vq_dev q1 = rdev" "vq_ring_mem q0 \<noteq> vq_ring_mem q1" using pa by (simp_all add: q0_def q1_def)
  have c: "rpmsg_rdev_create_virtqueues cf rdev RPMSG_MAX_VQ_PER_RDEV [cstring ''tx_vq'', cstring ''rx_vq'']
      [Rpmsg_tx_callback, Rpmsg_rx_callback] w = Some (RPMSG_SUCCESS, w1)"
    unfolding w1_def rd1_def by (rule create_queues(1) [OF rd(1,4) hw(1,2) pos _ _ queue_names q0_def q1_def rd(2)]) (simp_all add: hw(4,5) rd(2))
  have t1: "ept_inv rdev w1 T" "chnl_inv rdev w1 cs"
    by (rule tables_keep [OF tab(1,2), where rd = rd and rd' = rd1], simp_all add: w1_def rd(1) rd1_def)+
  have r1: "w_rdevs w1 rdev = Some rd1" by (simp add: w1_def)
  from start_ns_ok [OF t1 r1 hw(2) tab(4), of "rd_features rd1"] obtain w2 T' rd2 where
    n: "start_ns cf rdev (rd_features rd1) w1 = Some (True, w2)" "ept_inv rdev w2 T'" "chnl_inv rdev w2 cs" "w_rdevs w2 rdev = Some rd2"
    "rd_core rd2 = rd_core (rd1\<lparr>rd_support_ns := (ns_wanted (rd_features rd1) \<or> rd_support_ns rd1)\<rparr>)" "w_vqs w2 = w_vqs w1"
    "w_rings w2 = w_rings w1" "w_procs w2 = w_procs w1" "ns_map (rd_features rd1) rdev T T' w2"
    "\<And>cb nm c. chnl_waits rdev cb T w1 nm c \<Longrightarrow> chnl_waits rdev cb T' w2 nm c" by auto
  have d2: "rd_tvq rd2 = w_next w" "rd_rvq rd2 = Suc (w_next w)" "rd_role rd2 = RPMSG_MASTER" "rd_device rd2 = rd_proc rd"
    "rd_support_ns rd2 = (ns_wanted (rd_features rd) \<or> rd_support_ns rd)" "rd_channel_created rd2 = rd_channel_created rd"
    using rd_coreD [OF n(5)] rd_core_ns [OF n(5)] rd(2,3) by (simp_all add: rd1_def)
  have v2: "w_vqs w2 (w_next w) = Some q0" "w_vqs w2 (Suc (w_next w)) = Some q1" "w_procs w2 (rd_device rd2) = Some pr"
    using n(6,8) rd(4) d2(4) by (simp_all add: w1_def)
  from enable_two [OF hw(3) v2(1,2) q(1,2) n(4) v2(3) hw(1)] obtain w3 w4 where
    e: "hil_enable_vring_notifications cf 0 (w_next w) w2 = Some (0, w3)" "hil_enable_vring_notifications cf 1 (Suc (w_next w)) w3 = Some (0, w4)"
    "objects w4 = objects (w2\<lparr>w_procs := (w_procs w2)(rd_device rd2 \<mapsto> wire (w_next w) (Suc (w_next w)) pr)\<rparr>)" by blast
  note o4 = objectsD [OF e(3)]
  define rd' where "rd' = rd2\<lparr>rd_state := RPMSG_DEV_STATE_ACTIVE\<rparr>"
  define w' where "w' = w4\<lparr>w_rdevs := (w_rdevs w4)(rdev \<mapsto> rd')\<rparr>"
  have "rpmsg_start_ipc cf rdev w = Some (RPMSG_SUCCESS, w')"
    using rd(1,2) c r1 n(1,4) d2(1-3) e(1,2) o4(5) role_distinct
    by (simp add: start_ipc_unfold rpmsg_rdev_get_feature_def rpmsg_rdev_notify_def RPMSG_SUCCESS_def hil_set_status_def w'_def rd'_def)
  moreover have "ept_inv rdev w' T'" "chnl_inv rdev w' cs"
    by (rule tables_keep [OF n(2,3), where rd = rd2 and rd' = rd'], simp_all add: w'_def o4 n(4) rd'_def)+
  moreover have "ns_map (rd_features rd) rdev T T' w'" using n(9) by (simp add: ns_map_def w'_def o4 rd1_def)
  moreover have "list_all2 (chnl_waits rdev cb T' w') nms cs"
  proof -
    have "chnl_waits rdev cb T' w' = chnl_waits rdev cb T' w2" by (rule chnl_waits_keep) (simp_all add: w'_def o4)
    moreover have "chnl_waits rdev cb T w1 = chnl_waits rdev cb T w" by (rule chnl_waits_keep) (simp_all add: w1_def)
    ultimately show ?thesis using tab(3) n(10) by (auto elim: list_all2_mono)
  qed
  moreover have "dev_up rdev rd' q0 (start_ring r0) q1 (start_ring r1) w'"
  proof -
    have "get_vq x w' = get_vq x w1" for x by (simp add: get_vq_def w'_def o4 n(6,7))
    moreover have "notify_wired w' x" if "x = q0 \<or> x = q1" for x
      using that q(1,2) d2(4) by (auto simp: notify_wired_def q0_def q1_def w'_def o4 rd'_def wire_def)
    ultimately show ?thesis using q d2(1,2) pos by (simp add: dev_up_def rd'_def) (simp add: w'_def w1_def rd'_def)
  qed
  ultimately show ?thesis using d2(3,5,6) by (intro exI [of _ w'] exI [of _ T'] exI [of _ rd']) (simp add: q0_def q1_def rd'_def)
qed

section \<open>The master starts\<close>

text \<open>The driver's end of a ring, for whatever device joins it.\<close>

definition drv_end :: "config \<Rightarrow> u16 \<Rightarrow> virtqueue \<Rightarrow> vring_mem \<Rightarrow> ring_abs \<Rightarrow> bool" where
  "drv_end cf n q r A \<longleftrightarrow> linked_fresh (vr_desc r) \<and> length (vr_desc r) = unat n \<and>
     (\<forall>d. fresh_dev n d \<longrightarrow> ring_rel (cf_vatopa cf) \<lparr>rs_drv = q, rs_dev = d, rs_ring = r\<rparr> A)"

lemma drv_endI:
  assumes "ring_rel (cf_vatopa cf) \<lparr>rs_drv = q, rs_dev = d, rs_ring = r\<rparr> A" "fresh_dev n d" "linked_fresh (vr_desc r)"
  shows "drv_end cf n q r A"
proof -
  have "length (vr_desc r) = unat n" using assms(1,2) by (simp add: ring_rel_def ring_geometry_def fresh_dev_def)
  then show ?thesis unfolding drv_end_def using ring_rel_dev [OF assms(1,2)] assms(3) by blast
qed

lemma drv_end_new:
  assumes "pow2_size (pv_num_descs hw)" "env_strncpy s VIRTQUEUE_MAX_NAME_SZ = Some nm"
  shows "drv_end cf (pv_num_descs hw) (dev_vq rdev i nm hw f) (start_ring (vring_zero (unat (pv_num_descs hw)))) (ring_abs0 (unat (pv_num_descs hw)))"
proof -
  have d: "fresh_dev (pv_num_descs hw) (dev_vq rdev i nm hw f)" by (rule new_vq_fresh_dev) simp
  show ?thesis by (rule drv_endI [OF new_ring_rel [OF assms(1) _ assms(2) d] d]) (simp_all add: start_ring_fresh)
qed

lemma master_queues:
  assumes rd: "w_rdevs w rdev = Some rd" "rd_role rd = RPMSG_REMOTE" "w_procs w (rd_proc rd) = Some pr"
    and hw: "ring_pair pr h0 h1" "mem_ok cf" "0 < w_next w"
    and pl: "w_pools w (rd_mem_pool rd) = Some pool" "rd_mem_pool rd \<noteq> NULL" "pool_inv pool" "live_buffers pool = {}"
    and k: "k = min (unat (pv_num_descs h0)) (sp_total_buffs pool div 2)" "k \<le> pool_capacity pool"
    and q: "q0 = dev_vq rdev 0 rx_name h0 Rpmsg_rx_callback" "q1 = dev_vq rdev 1 tx_name h1 Rpmsg_tx_callback"
    and rd1: "rd1 = rd\<lparr>rd_tvq := Suc (w_next w), rd_rvq := w_next w\<rparr>"
  shows "\<exists>w' bs pool' q r r1. rpmsg_rdev_create_virtqueues cf rdev RPMSG_MAX_VQ_PER_RDEV [cstring ''rx_vq'', cstring ''tx_vq'']
      [Rpmsg_rx_callback, Rpmsg_tx_callback] w = Some (RPMSG_SUCCESS, w') \<and> length bs = k \<and> distinct bs \<and> 0 \<notin> set bs \<and>
    w_pools w' (rd_mem_pool rd) = Some pool' \<and> pool_inv pool' \<and> same_geometry pool pool' \<and> live_buffers pool' = set bs \<and> w_rdevs w' = (w_rdevs w)(rdev \<mapsto> rd1) \<and>
    w_nodes w' = w_nodes w \<and> w_chnls w' = w_chnls w \<and> w_epts w' = w_epts w \<and> w_procs w' = w_procs w \<and> w_next w \<le> w_next w' \<and>
    get_vq (w_next w) w' = Some (q, r) \<and> vq_ident q = vq_ident q0 \<and> get_vq (Suc (w_next w)) w' = Some (q1, r1) \<and>
    drv_end cf (pv_num_descs h0) q r (offer_all bs (ring_abs0 (unat (pv_num_descs h0)))) \<and>
    drv_end cf (pv_num_descs h1) q1 r1 (ring_abs0 (unat (pv_num_descs h1)))"
proof -
  let ?z = "\<lambda>h. vring_zero (unat (pv_num_descs h))"
  have p: "pow2_size (pv_num_descs h0)" "pow2_size (pv_num_descs h1)" "pv_phy_addr h0 \<noteq> pv_phy_addr h1" using hw(1) by (simp_all add: ring_pair_def)
  define w1 where "w1 = two_queues rdev q0 q1 (?z h0) (?z h1) rd1 w"
  have qm: "vq_ring_mem q0 = pv_phy_addr h0" "vq_ring_mem q1 = pv_phy_addr h1" by (simp_all add: q)
  have c: "rpmsg_rdev_create_virtqueues cf rdev RPMSG_MAX_VQ_PER_RDEV [cstring ''rx_vq'', cstring ''tx_vq'']
      [Rpmsg_rx_callback, Rpmsg_tx_callback] w = rdev_fill_rx cf rd1 [0..<k] w1"
    unfolding w1_def rd1 k(1) by (rule create_queues(2) [OF rd(1,3) hw _ _ queue_names(2,1) q rd(2) pl(1)]) (simp_all add: ring_given_def rd(2))
  have g1: "get_vq (rd_rvq rd1) w1 = Some (q0, start_ring (?z h0))" "get_vq (Suc (w_next w)) w1 = Some (q1, start_ring (?z h1))"
    using p(3) qm by (simp_all add: w1_def rd1)
  have d0: "fresh_dev (pv_num_descs h0) q0" by (simp add: q new_vq_fresh_dev)
  have e0: "drv_end cf (pv_num_descs h0) q0 (start_ring (?z h0)) (ring_abs0 (unat (pv_num_descs h0)))"
    unfolding q by (rule drv_end_new [OF p(1) queue_names(2)])
  have e1: "drv_end cf (pv_num_descs h1) q1 (start_ring (?z h1)) (ring_abs0 (unat (pv_num_descs h1)))"
    unfolding q by (rule drv_end_new [OF p(2) queue_names(1)])
  have f: "w_pools w1 (rd_mem_pool rd1) = Some pool" "rd_mem_pool rd1 \<noteq> NULL" "card (live_buffers pool) + length [0..<k] \<le> pool_capacity pool"
    "length [0..<k] \<le> length (ra_free (ring_abs0 (unat (pv_num_descs h0))))"
    using pl k by (simp_all add: w1_def rd1 ring_abs0_def)
  have rel: "ring_rel (cf_vatopa cf) \<lparr>rs_drv = q0, rs_dev = q0, rs_ring = start_ring (?z h0)\<rparr> (ring_abs0 (unat (pv_num_descs h0)))"
    using e0 d0 by (simp add: drv_end_def)
  from fill_rx [OF f(1,2) pl(3) f(3) g1(1) rel f(4) start_ring_fresh(1)] obtain w' bs pool' q r where
    i: "rdev_fill_rx cf rd1 [0..<k] w1 = Some (RPMSG_SUCCESS, w')" "length bs = k" "distinct bs" "0 \<notin> set bs"
    "live_buffers pool' = set bs" "pool_inv pool'" "w_pools w' = (w_pools w1)(rd_mem_pool rd1 \<mapsto> pool')" "get_vq (rd_rvq rd1) w' = Some (q, r)"
    "vq_ident q = vq_ident q0" "linked_fresh (vr_desc r)" "fill_frame (rd_rvq rd1) (vq_ring_mem q0) w1 w'"
    "ring_rel (cf_vatopa cf) \<lparr>rs_drv = q, rs_dev = q0, rs_ring = r\<rparr> (offer_all bs (ring_abs0 (unat (pv_num_descs h0))))"
    "same_geometry pool pool'" using pl(4) by auto
  have "get_vq (Suc (w_next w)) w' = Some (q1, start_ring (?z h1))"
    using i(11) g1(2) p(3) qm by (auto simp: fill_frame_def get_vq_def option_bind_simps w1_def rd1)
  moreover have "drv_end cf (pv_num_descs h0) q r (offer_all bs (ring_abs0 (unat (pv_num_descs h0))))"
    by (rule drv_endI [OF i(12) d0 i(10)])
  ultimately show ?thesis using c i e1
    by (intro exI [of _ w'] exI [of _ bs] exI [of _ pool'] exI [of _ q] exI [of _ r] exI [of _ "start_ring (?z h1)"])
      (simp add: fill_frame_def tx_frame_def rd1 w1_def)
qed

lemma start_ipc_master:
  assumes tab: "ept_inv rdev w T" "chnl_inv rdev w cs" "T RPMSG_NS_EPT_ADDR = None"
    and rd: "w_rdevs w rdev = Some rd" "rd_role rd = RPMSG_REMOTE" "w_procs w (rd_proc rd) = Some pr" "rd_device rd = rd_proc rd"
    and hw: "ring_pair pr h0 h1" "mem_ok cf" "quiet_enable cf" "quiet_notify cf"
    and pl: "w_pools w (rd_mem_pool rd) = Some pool" "rd_mem_pool rd \<noteq> NULL" "pool_inv pool" "live_buffers pool = {}"
    and k: "k = min (unat (pv_num_descs h0)) (sp_total_buffs pool div 2)" "k \<le> pool_capacity pool"
  shows "\<exists>w' T' rd' bs pool' tq tr rq rr. rpmsg_start_ipc cf rdev w = Some (RPMSG_SUCCESS, w') \<and> ept_inv rdev w' T' \<and> chnl_inv rdev w' cs \<and>
    ns_map (rd_features rd) rdev T T' w' \<and> rd_support_ns rd' = (ns_wanted (rd_features rd) \<or> rd_support_ns rd) \<and> rd_role rd' = RPMSG_REMOTE \<and>
    rd_channel_created rd' = rd_channel_created rd \<and> rd_default_cb rd' = rd_default_cb rd \<and> length bs = k \<and> distinct bs \<and> 0 \<notin> set bs \<and> w_pools w' (rd_mem_pool rd') = Some pool' \<and> rd_mem_pool rd' \<noteq> NULL \<and> pool_inv pool' \<and>
    same_geometry pool pool' \<and> live_buffers pool' = set bs \<and> dev_up rdev rd' tq tr rq rr w' \<and> vq_ring_mem tq = pv_phy_addr h1 \<and> vq_ring_mem rq = pv_phy_addr h0 \<and>
    vq_callback tq = Some Rpmsg_tx_callback \<and> vq_callback rq = Some Rpmsg_rx_callback \<and>
    drv_end cf (pv_num_descs h0) rq rr (offer_all bs (ring_abs0 (unat (pv_num_descs h0)))) \<and>
    drv_end cf (pv_num_descs h1) tq tr (ring_abs0 (unat (pv_num_descs h1)))"
proof -
  have pos: "0 < w_next w" using tab(1) by (simp add: ept_inv_def objs_fresh_def)
  define q0 where "q0 = dev_vq rdev 0 rx_name h0 Rpmsg_rx_callback"
  define q1 where "q1 = dev_vq rdev 1 tx_name h1 Rpmsg_tx_callback"
  define rd1 where "rd1 = rd\<lparr>rd_tvq := Suc (w_next w), rd_rvq := w_next w\<rparr>"
  from master_queues [OF rd(1-3) hw(1,2) pos pl k q0_def q1_def rd1_def] obtain w1 bs pool' q r r1 where
    c: "rpmsg_rdev_create_virtqueues cf rdev RPMSG_MAX_VQ_PER_RDEV [cstring ''rx_vq'', cstring ''tx_vq'']
      [Rpmsg_rx_callback, Rpmsg_tx_callback] w = Some (RPMSG_SUCCESS, w1)"
    and b: "length bs = k" "distinct bs" "0 \<notin> set bs" "w_pools w1 (rd_mem_pool rd) = Some pool'" "pool_inv pool'" "live_buffers pool' = set bs" "same_geometry pool pool'"
    and f: "w_rdevs w1 = (w_rdevs w)(rdev \<mapsto> rd1)" "w_nodes w1 = w_nodes w" "w_chnls w1 = w_chnls w" "w_epts w1 = w_epts w"
      "w_procs w1 = w_procs w" "w_next w \<le> w_next w1"
    and g: "get_vq (w_next w) w1 = Some (q, r)" "vq_ident q = vq_ident q0" "get_vq (Suc (w_next w)) w1 = Some (q1, r1)"
    and e: "drv_end cf (pv_num_descs h0) q r (offer_all bs (ring_abs0 (unat (pv_num_descs h0))))"
      "drv_end cf (pv_num_descs h1) q1 r1 (ring_abs0 (unat (pv_num_descs h1)))" by blast
  have t1: "ept_inv rdev w1 T" "chnl_inv rdev w1 cs"
    by (rule tables_keep [OF tab(1,2), where rd = rd and rd' = rd1], simp_all add: f rd(1) rd1_def)+
  have r1: "w_rdevs w1 rdev = Some rd1" by (simp add: f)
  from start_ns_ok [OF t1 r1 hw(2) tab(3), of "rd_features rd1"] obtain w2 T' rd2 where
    n: "start_ns cf rdev (rd_features rd1) w1 = Some (True, w2)" "ept_inv rdev w2 T'" "chnl_inv rdev w2 cs" "w_rdevs w2 rdev = Some rd2"
    "rd_core rd2 = rd_core (rd1\<lparr>rd_support_ns := (ns_wanted (rd_features rd1) \<or> rd_support_ns rd1)\<rparr>)" "w_vqs w2 = w_vqs w1"
    "w_rings w2 = w_rings w1" "w_procs w2 = w_procs w1" "ns_map (rd_features rd1) rdev T T' w2" "w_pools w2 = w_pools w1" by auto
  have d2: "rd_tvq rd2 = Suc (w_next w)" "rd_rvq rd2 = w_next w" "rd_role rd2 = RPMSG_REMOTE" "rd_device rd2 = rd_proc rd"
    "rd_support_ns rd2 = (ns_wanted (rd_features rd) \<or> rd_support_ns rd)" "rd_mem_pool rd2 = rd_mem_pool rd"
    "rd_channel_created rd2 = rd_channel_created rd" "rd_default_cb rd2 = rd_default_cb rd"
    using rd_coreD [OF n(5)] rd_core_ns [OF n(5)] rd(2,4) by (simp_all add: rd1_def)
  have qd: "vq_dev q = rdev" "vq_dev q1 = rdev" "vq_ring_mem q = pv_phy_addr h0" "vq_ring_mem q1 = pv_phy_addr h1" "vq_notify q = Some Hil_vring_notify"
    "vq_notify q1 = Some Hil_vring_notify" "vq_queue_index q = 0" "vq_queue_index q1 = 1" "vq_callback q = Some Rpmsg_rx_callback"
    "vq_callback q1 = Some Rpmsg_tx_callback" using g(2) by (simp_all add: vq_ident_def q0_def q1_def)
  have v2: "w_vqs w2 (w_next w) = Some q" "w_vqs w2 (Suc (w_next w)) = Some q1" "w_procs w2 (rd_device rd2) = Some pr"
    using n(6,8) rd(3) d2(4) f(5) g by (auto simp: get_vq_def option_bind_simps)
  from enable_two [OF hw(3) v2(1,2) qd(1,2) n(4) v2(3) hw(1)] obtain w3 w4 where
    en: "hil_enable_vring_notifications cf 0 (w_next w) w2 = Some (0, w3)" "hil_enable_vring_notifications cf 1 (Suc (w_next w)) w3 = Some (0, w4)"
    "objects w4 = objects (w2\<lparr>w_procs := (w_procs w2)(rd_device rd2 \<mapsto> wire (w_next w) (Suc (w_next w)) pr)\<rparr>)" by blast
  note o4 = objectsD [OF en(3)]
  have g4: "get_vq x w4 = get_vq x w1" for x by (simp add: get_vq_def o4 n(6,7))
  have wired: "notify_wired w4 x" if "x = q \<or> x = q1" for x
    using that qd d2(4) n(4) by (auto simp: notify_wired_def o4 wire_def)
  have idle: "\<not> vq_inuse q" using e(1) new_vq_fresh_dev [of "INIT_VRING_ALLOC_INFO h0" "pv_num_descs h0"] by (auto simp: drv_end_def ring_rel_def ring_geometry_def)
  define rd' where "rd' = rd2\<lparr>rd_state := RPMSG_DEV_STATE_ACTIVE\<rparr>"
  define rq where "rq = q\<lparr>vq_queued_cnt := 0\<rparr>"
  define w' where "w' = w4\<lparr>w_vqs := (w_vqs w4)(w_next w \<mapsto> rq), w_rdevs := (w_rdevs w4)(rdev \<mapsto> rd')\<rparr>"
  have "w_kick cf (w_next w) w4 = Some (w4\<lparr>w_vqs := (w_vqs w4)(w_next w \<mapsto> rq)\<rparr>)"
    unfolding rq_def by (rule w_kick_quiet [OF _ idle hw(4)]) (use g4 g(1) wired in auto)
  then have "rpmsg_start_ipc cf rdev w = Some (RPMSG_SUCCESS, w')"
    using rd(1,2) c r1 n(1,4) d2(1-3) en(1,2) o4(5) role_distinct
    by (simp add: start_ipc_unfold rpmsg_rdev_get_feature_def rpmsg_rdev_notify_def RPMSG_SUCCESS_def hil_get_status_def w'_def rd'_def)
  moreover have "ept_inv rdev w' T'" "chnl_inv rdev w' cs"
    by (rule tables_keep [OF n(2,3), where rd = rd2 and rd' = rd'], simp_all add: w'_def o4 n(4) rd'_def)+
  moreover have "ns_map (rd_features rd) rdev T T' w'" using n(9) by (simp add: ns_map_def w'_def o4 rd1_def)
  moreover have "dev_up rdev rd' q1 r1 rq r w'"
  proof -
    have "notify_wired w' x" if "x = rq \<or> x = q1" for x
      using that qd d2(4) by (auto simp: notify_wired_def rq_def w'_def o4 rd'_def wire_def)
    moreover have "get_vq (w_next w) w' = Some (rq, r)" "get_vq (Suc (w_next w)) w' = Some (q1, r1)"
      using g o4(6,7) n(6,7) by (auto simp: get_vq_def option_bind_simps w'_def rq_def)
    ultimately show ?thesis using qd d2(1,2) pos by (simp add: dev_up_def rd'_def) (simp add: w'_def rd'_def rq_def)
  qed
  moreover have "drv_end cf (pv_num_descs h0) rq r (offer_all bs (ring_abs0 (unat (pv_num_descs h0))))"
    using e(1) by (simp add: drv_end_def rq_def)
  moreover have "w_pools w' (rd_mem_pool rd') = Some pool'" using b(4) n(10) d2(6) by (simp add: w'_def rd'_def o4)
  ultimately show ?thesis using b(1-3,5-7) d2(3,5-8) qd e(2) pl(2)
    by (intro exI [of _ w'] exI [of _ T'] exI [of _ rd'] exI [of _ bs] exI [of _ pool'] exI [of _ q1] exI [of _ r1] exI [of _ rq] exI [of _ r])
      (simp add: rd'_def rq_def)
qed

section \<open>A cold start\<close>

text \<open>Nothing has been created yet: no channels, no endpoints, no processor records.\<close>

definition cold :: "world \<Rightarrow> bool" where
  "cold w \<longleftrightarrow> no_tables w \<and> w_proc_list w = NULL"

lemma create_proc_cold:
  assumes "cold w" "cf_proc_info cf dev_id = Some pr" "mem_ok cf"
  shows "\<exists>w1. hil_create_proc cf dev_id w = Some (w_next w, w1) \<and> w_next w \<noteq> NULL \<and> w_procs w1 (w_next w) = Some pr \<and> no_tables w1 \<and>
    w_rings w1 = w_rings w"
proof -
  have c: "0 < w_next w" "w_proc_list w = NULL" "no_tables w" using assms(1) by (simp_all add: cold_def no_tables_def objs_fresh_def)
  have f: "find_node (w_nodes w) P NULL = Some NULL" for P by (simp add: find_node.simps)
  show ?thesis using c assms(2,3)
    by (auto simp: hil_create_proc_def f alloc_ok env_map_memory_def plat_call_def add_to_list_def no_tables_def objs_fresh_def Let_def)
qed

text \<open>What the remote needs of its platform: two rings, and channel names for fewer than the name service's address.\<close>

definition remote_platform :: "config \<Rightarrow> u32 \<Rightarrow> hil_proc \<Rightarrow> proc_vring \<Rightarrow> proc_vring \<Rightarrow> (nat \<Rightarrow> char list) \<Rightarrow> bool" where
  "remote_platform cf dev_id pr h0 h1 nm \<longleftrightarrow> cf_proc_info cf dev_id = Some pr \<and> mem_ok cf \<and> quiet_enable cf \<and> ring_pair pr h0 h1 \<and>
     nat (sint (hp_num_chnls pr)) < 53 \<and> nat (sint (hp_num_chnls pr)) \<le> length (hp_chnls pr) \<and>
     (\<forall>i < nat (sint (hp_num_chnls pr)). env_strncpy (hp_chnls pr ! i) RPMSG_NAME_SIZE = Some (nm i))"

lemma ns_addr_unused: "n < 53 \<Longrightarrow> RPMSG_NS_EPT_ADDR \<notin> addrs_upto n"
proof
  assume n: "n < 53" and "RPMSG_NS_EPT_ADDR \<in> addrs_upto n"
  then have "unat RPMSG_NS_EPT_ADDR \<in> {1..n}" using unat_addrs_upto [of n] by auto
  then show False using n by (simp add: RPMSG_NS_EPT_ADDR_def)
qed

text \<open>The channels of the remote after its start, and the name service next to them.\<close>

definition announcing :: "ptr \<Rightarrow> rx_cb \<Rightarrow> hil_proc \<Rightarrow> (nat \<Rightarrow> char list) \<Rightarrow> world \<Rightarrow> bool" where
  "announcing rdev cb pr nm w \<longleftrightarrow> (\<exists>T T0 cs. ept_inv rdev w T \<and> chnl_inv rdev w cs \<and> ns_map (pd_dfeatures (hp_vdev pr)) rdev T0 T w \<and>
     dom T0 = addrs_upto (nat (sint (hp_num_chnls pr))) \<and>
     list_all2 (chnl_waits rdev cb T w) (rev (map nm [0..<nat (sint (hp_num_chnls pr))])) cs)"

lemma init_remote:
  assumes "cold w" "remote_platform cf dev_id pr h0 h1 nm"
    and "w_rings w (pv_phy_addr h0) = Some r0" "length (vr_desc r0) = unat (pv_num_descs h0)"
    and "w_rings w (pv_phy_addr h1) = Some r1" "length (vr_desc r1) = unat (pv_num_descs h1)"
  shows "\<exists>rdev w' rd. rpmsg_init cf dev_id rdev0 cc cd (Some cb) RPMSG_MASTER w = Some (RPMSG_SUCCESS, rdev, w') \<and>
    announcing rdev cb pr nm w' \<and> rd_role rd = RPMSG_MASTER \<and> rd_support_ns rd = ns_wanted (pd_dfeatures (hp_vdev pr)) \<and> rd_channel_created rd = cc \<and>
    dev_up rdev rd (dev_vq rdev 0 tx_name h0 Rpmsg_tx_callback) (start_ring r0) (dev_vq rdev 1 rx_name h1 Rpmsg_rx_callback) (start_ring r1) w'"
proof -
  let ?n = "nat (sint (hp_num_chnls pr))" and ?f = "pd_dfeatures (hp_vdev pr)"
  have p: "cf_proc_info cf dev_id = Some pr" "mem_ok cf" "quiet_enable cf" "ring_pair pr h0 h1" "?n < 53" "?n \<le> length (hp_chnls pr)"
    "\<forall>i < ?n. env_strncpy (hp_chnls pr ! i) RPMSG_NAME_SIZE = Some (nm i)" using assms(2) by (auto simp: remote_platform_def)
  from create_proc_cold [OF assms(1) p(1,2)] obtain w1 where h: "hil_create_proc cf dev_id w = Some (w_next w, w1)" "w_next w \<noteq> NULL"
    "w_procs w1 (w_next w) = Some pr" "no_tables w1" "w_rings w1 = w_rings w" by blast
  let ?rdev = "w_next w1" and ?rd = "new_rdev (w_next w) RPMSG_MASTER cc cd cb ?f"
  from rdev_init_remote [OF h(1-4) p(2) refl _ p(6,7), of cc cd cb] p(5) obtain w2 T cs where
    i: "rpmsg_rdev_init cf dev_id RPMSG_MASTER cc cd (Some cb) w = Some (RPMSG_SUCCESS, Some ?rdev, w2)" "ept_inv ?rdev w2 T" "chnl_inv ?rdev w2 cs"
    "dom T = addrs_upto ?n" "list_all2 (chnl_waits ?rdev cb T w2) (rev (map nm [0..<?n])) cs" "table_frame ?rdev (rdev_alloc ?rd w1) w2" by auto
  from i(6) obtain rd where rd: "w_rdevs w2 ?rdev = Some rd" "rd_core rd = rd_core ?rd" by (auto simp: table_frame_def)
  have d: "rd_role rd = RPMSG_MASTER" "rd_device rd = rd_proc rd" "rd_proc rd = w_next w" "rd_features rd = ?f" "\<not> rd_support_ns rd" "rd_channel_created rd = cc"
    using rd_coreD [OF rd(2)] rd_core_ns [OF rd(2)] by simp_all
  have w2: "w_procs w2 (rd_proc rd) = Some pr" "w_rings w2 = w_rings w" using i(6) h(3,5) d(3) by (simp_all add: table_frame_def)
  have g: "ring_given RPMSG_MASTER h0 r0 w2" "ring_given RPMSG_MASTER h1 r1 w2"
    using assms(3-6) w2(2) role_distinct by (simp_all add: ring_given_def)
  have "T RPMSG_NS_EPT_ADDR = None" using ns_addr_unused [OF p(5)] i(4) by (auto simp: domIff)
  from start_ipc_remote [OF i(2,3,5) this rd(1) d(1,2) w2(1) p(4,2,3) g] obtain w' T' rd' where
    s: "rpmsg_start_ipc cf ?rdev w2 = Some (RPMSG_SUCCESS, w')" "ept_inv ?rdev w' T'" "chnl_inv ?rdev w' cs" "ns_map ?f ?rdev T T' w'"
    "list_all2 (chnl_waits ?rdev cb T' w') (rev (map nm [0..<?n])) cs" "rd_support_ns rd' = ns_wanted ?f" "rd_role rd' = RPMSG_MASTER"
    "dev_up ?rdev rd' (dev_vq ?rdev 0 tx_name h0 Rpmsg_tx_callback) (start_ring r0) (dev_vq ?rdev 1 rx_name h1 Rpmsg_rx_callback) (start_ring r1) w'"
    "rd_channel_created rd' = cc" using d(4-6) by auto
  have "rpmsg_init cf dev_id rdev0 cc cd (Some cb) RPMSG_MASTER w = Some (RPMSG_SUCCESS, ?rdev, w')"
    using i(1) s(1) by (simp add: rpmsg_init_def env_init_def RPMSG_SUCCESS_def)
  moreover have "announcing ?rdev cb pr nm w'" using s(2-5) i(4) by (auto simp: announcing_def)
  ultimately show ?thesis using s(6-9) by blast
qed

text \<open>
  What the master needs of its platform: two rings, and shared memory for a pool whose bitmap reaches the buffers that are
  offered at the start.
\<close>

definition master_platform :: "config \<Rightarrow> u32 \<Rightarrow> hil_proc \<Rightarrow> proc_vring \<Rightarrow> proc_vring \<Rightarrow> sh_mem_pool \<Rightarrow> bool" where
  "master_platform cf dev_id pr h0 h1 pool \<longleftrightarrow> cf_proc_info cf dev_id = Some pr \<and> mem_ok cf \<and> quiet_enable cf \<and> quiet_notify cf \<and> ring_pair pr h0 h1 \<and>
     shm_start_addr (hp_sh_buff pr) \<noteq> 0 \<and> shm_size (hp_sh_buff pr) \<noteq> 0 \<and>
     unat (shm_start_addr (hp_sh_buff pr)) + unat (shm_size (hp_sh_buff pr)) + 512 \<le> 2 ^ 32 \<and> unat (shm_size (hp_sh_buff pr)) + 512 \<le> 2 ^ 31 \<and>
     sh_mem_create_pool True (shm_start_addr (hp_sh_buff pr)) (shm_size (hp_sh_buff pr)) RPMSG_BUFFER_SIZE = Some (Some pool) \<and>
     min (unat (pv_num_descs h0)) (sp_total_buffs pool div 2) \<le> pool_capacity pool"

lemma init_master:
  assumes "cold w" "master_platform cf dev_id pr h0 h1 pool"
  shows "\<exists>rdev w' T rd bs pool' tq tr rq rr. rpmsg_init cf dev_id rdev0 cc cd (Some cb) RPMSG_REMOTE w = Some (RPMSG_SUCCESS, rdev, w') \<and>
    ept_inv rdev w' T \<and> chnl_inv rdev w' [] \<and> ns_map (pd_dfeatures (hp_vdev pr)) rdev Map.empty T w' \<and>
    rd_role rd = RPMSG_REMOTE \<and> rd_support_ns rd = ns_wanted (pd_dfeatures (hp_vdev pr)) \<and> rd_channel_created rd = cc \<and>
    rd_default_cb rd = Some cb \<and> length bs = min (unat (pv_num_descs h0)) (sp_total_buffs pool div 2) \<and> distinct bs \<and> 0 \<notin> set bs \<and>
    w_pools w' (rd_mem_pool rd) = Some pool' \<and> rd_mem_pool rd \<noteq> NULL \<and> pool_inv pool' \<and> same_geometry pool pool' \<and> live_buffers pool' = set bs \<and>
    dev_up rdev rd tq tr rq rr w' \<and> vq_ring_mem tq = pv_phy_addr h1 \<and> vq_ring_mem rq = pv_phy_addr h0 \<and>
    vq_callback tq = Some Rpmsg_tx_callback \<and> vq_callback rq = Some Rpmsg_rx_callback \<and>
    drv_end cf (pv_num_descs h0) rq rr (offer_all bs (ring_abs0 (unat (pv_num_descs h0)))) \<and>
    drv_end cf (pv_num_descs h1) tq tr (ring_abs0 (unat (pv_num_descs h1)))"
proof -
  let ?f = "pd_dfeatures (hp_vdev pr)" and ?sh = "hp_sh_buff pr"
  have p: "cf_proc_info cf dev_id = Some pr" "mem_ok cf" "quiet_enable cf" "quiet_notify cf" "ring_pair pr h0 h1"
    and sh: "shm_start_addr ?sh \<noteq> 0" "shm_size ?sh \<noteq> 0" "unat (shm_start_addr ?sh) + unat (shm_size ?sh) + 512 \<le> 2 ^ 32"
      "unat (shm_size ?sh) + 512 \<le> 2 ^ 31"
      "sh_mem_create_pool True (shm_start_addr ?sh) (shm_size ?sh) RPMSG_BUFFER_SIZE = Some (Some pool)"
    and k: "min (unat (pv_num_descs h0)) (sp_total_buffs pool div 2) \<le> pool_capacity pool" using assms(2) by (auto simp: master_platform_def)
  have al: "WORD_ALIGN RPMSG_BUFFER_SIZE = 512" "RPMSG_BUFFER_SIZE \<noteq> 0" by (simp_all add: WORD_ALIGN_def WORD_SIZE_def RPMSG_BUFFER_SIZE_def)
  have pool: "pool_inv pool" "live_buffers pool = {}"
    using sh_mem_create_pool_establishes [of "shm_start_addr ?sh" "shm_size ?sh" RPMSG_BUFFER_SIZE] sh al by auto
  from create_proc_cold [OF assms(1) p(1,2)] obtain w1 where h: "hil_create_proc cf dev_id w = Some (w_next w, w1)" "w_next w \<noteq> NULL"
    "w_procs w1 (w_next w) = Some pr" "no_tables w1" by blast
  let ?rdev = "w_next w1"
  define rd where "rd = (new_rdev (w_next w) RPMSG_REMOTE cc cd cb ?f)\<lparr>rd_mem_pool := Suc ?rdev\<rparr>"
  from rdev_init_master [OF h p(2) sh(5,1,2), of cc cd cb] obtain w2 where
    i: "rpmsg_rdev_init cf dev_id RPMSG_REMOTE cc cd (Some cb) w = Some (RPMSG_SUCCESS, Some ?rdev, w2)" "no_tables w2"
    "w_pools w2 = (w_pools w1)(Suc ?rdev \<mapsto> pool)" "w_procs w2 = w_procs w1" "w_rdevs w2 ?rdev = Some rd" unfolding rd_def by blast
  have d: "rd_role rd = RPMSG_REMOTE" "w_procs w2 (rd_proc rd) = Some pr" "rd_device rd = rd_proc rd" "w_pools w2 (rd_mem_pool rd) = Some pool"
    "rd_mem_pool rd \<noteq> NULL" using h(3) i(3,4) by (simp_all add: rd_def)
  have t: "ept_inv ?rdev w2 Map.empty" "chnl_inv ?rdev w2 []" by (rule tables_empty [OF i(2,5)], simp_all add: rd_def)+
  have e: "(Map.empty :: u32 \<rightharpoonup> ptr) RPMSG_NS_EPT_ADDR = None" by simp
  from start_ipc_master [OF t e i(5) d(1-3) p(5,2-4) d(4,5) pool refl k] obtain w' T' rd' bs pool' tq tr rq rr where
    s: "rpmsg_start_ipc cf ?rdev w2 = Some (RPMSG_SUCCESS, w')" and
    r: "ept_inv ?rdev w' T'" "chnl_inv ?rdev w' []" "ns_map (rd_features rd) ?rdev Map.empty T' w'"
    "rd_support_ns rd' = (ns_wanted (rd_features rd) \<or> rd_support_ns rd)" "rd_role rd' = RPMSG_REMOTE"
    "rd_channel_created rd' = rd_channel_created rd" "rd_default_cb rd' = rd_default_cb rd" "length bs = min (unat (pv_num_descs h0)) (sp_total_buffs pool div 2)" "distinct bs" "0 \<notin> set bs"
    "w_pools w' (rd_mem_pool rd') = Some pool'" "rd_mem_pool rd' \<noteq> NULL" "pool_inv pool'" "same_geometry pool pool'"
    "live_buffers pool' = set bs" "dev_up ?rdev rd' tq tr rq rr w'" "vq_ring_mem tq = pv_phy_addr h1" "vq_ring_mem rq = pv_phy_addr h0"
    "vq_callback tq = Some Rpmsg_tx_callback" "vq_callback rq = Some Rpmsg_rx_callback"
    "drv_end cf (pv_num_descs h0) rq rr (offer_all bs (ring_abs0 (unat (pv_num_descs h0))))"
    "drv_end cf (pv_num_descs h1) tq tr (ring_abs0 (unat (pv_num_descs h1)))" by blast
  have ft: "rd_features rd = ?f" "\<not> rd_support_ns rd" "rd_channel_created rd = cc" "rd_default_cb rd = Some cb" by (simp_all add: rd_def)
  have "rpmsg_init cf dev_id rdev0 cc cd (Some cb) RPMSG_REMOTE w = Some (RPMSG_SUCCESS, ?rdev, w')"
    using i(1) s by (simp add: rpmsg_init_def env_init_def RPMSG_SUCCESS_def)
  then show ?thesis using r unfolding ft(1) using ft(2-4)
    by (intro exI [of _ ?rdev] exI [of _ w'] exI [of _ T'] exI [of _ rd'] exI [of _ bs] exI [of _ pool'] exI [of _ tq] exI [of _ tr]
        exI [of _ rq] exI [of _ rr]) simp
qed

section \<open>The two sides together\<close>

text \<open>The remote starts on the shared memory the master left behind.\<close>

definition shared_with :: "world \<Rightarrow> world \<Rightarrow> world" where
  "shared_with wm wr = wr\<lparr>w_mem := w_mem wm, w_rings := w_rings wm\<rparr>"

lemma shared_with_cold: "cold wr \<Longrightarrow> cold (shared_with wm wr)"
  by (simp add: cold_def shared_with_def no_tables_def objs_fresh_def)

text \<open>The ends of one ring after the device has joined it.\<close>

lemma ring_joined:
  assumes "drv_end cf n q r A" "pv_num_descs hw = n"
  shows "ring_rel (cf_vatopa cf) \<lparr>rs_drv = q, rs_dev = dev_vq rdev i nm hw f, rs_ring = start_ring r\<rparr> A"
proof (rule ring_rel_start)
  have "fresh_dev n (dev_vq rdev i nm hw f)" by (rule new_vq_fresh_dev) (simp add: assms(2))
  then show "ring_rel (cf_vatopa cf) \<lparr>rs_drv = q, rs_dev = dev_vq rdev i nm hw f, rs_ring = r\<rparr> A" using assms(1) by (simp add: drv_end_def)
qed (use assms(1) in \<open>simp add: drv_end_def\<close>)

lemma both_start:
  assumes "cold wm" "cold wr" "master_platform cm idm pm hm0 hm1 pool" "remote_platform cr idr pr hr0 hr1 nm"
    and "pv_phy_addr hr0 = pv_phy_addr hm0" "pv_phy_addr hr1 = pv_phy_addr hm1"
    and "pv_num_descs hr0 = pv_num_descs hm0" "pv_num_descs hr1 = pv_num_descs hm1"
  shows "\<exists>rdm wm' dm rdr wr' dr bs pool' mt mr rt rr S0 S1 R0 R1 T.
    rpmsg_init cm idm NULL ccm cdm (Some cbm) RPMSG_REMOTE wm = Some (RPMSG_SUCCESS, rdm, wm') \<and>
    rpmsg_init cr idr NULL ccr cdr (Some cbr) RPMSG_MASTER (shared_with wm' wr) = Some (RPMSG_SUCCESS, rdr, wr') \<and>
    dev_up rdm dm mt R1 mr R0 wm' \<and> rd_role dm = RPMSG_REMOTE \<and> dev_up rdr dr rt S0 rr S1 wr' \<and> rd_role dr = RPMSG_MASTER \<and>
    vq_callback mr = Some Rpmsg_rx_callback \<and> vq_callback rr = Some Rpmsg_rx_callback \<and>
    ring_rel (cf_vatopa cm) \<lparr>rs_drv = mr, rs_dev = rt, rs_ring = S0\<rparr> (offer_all bs (ring_abs0 (unat (pv_num_descs hm0)))) \<and>
    ring_rel (cf_vatopa cm) \<lparr>rs_drv = mt, rs_dev = rr, rs_ring = S1\<rparr> (ring_abs0 (unat (pv_num_descs hm1))) \<and>
    length bs = min (unat (pv_num_descs hm0)) (sp_total_buffs pool div 2) \<and> distinct bs \<and>
    w_pools wm' (rd_mem_pool dm) = Some pool' \<and> pool_inv pool' \<and> same_geometry pool pool' \<and> rd_support_ns dr = ns_wanted (pd_dfeatures (hp_vdev pr)) \<and> live_buffers pool' = set bs \<and>
    ept_inv rdm wm' T \<and> chnl_inv rdm wm' [] \<and> announcing rdr cbr pr nm wr' \<and>
    ns_map (pd_dfeatures (hp_vdev pm)) rdm Map.empty T wm' \<and> rd_channel_created dm = ccm \<and> rd_default_cb dm = Some cbm \<and> rd_mem_pool dm \<noteq> NULL \<and>
    rd_channel_created dr = ccr \<and> vq_ring_mem mt = pv_phy_addr hm1 \<and> vq_ring_mem mr = pv_phy_addr hm0 \<and>
    vq_ring_mem rt = pv_phy_addr hm0 \<and> vq_ring_mem rr = pv_phy_addr hm1"
proof -
  from init_master [OF assms(1,3), of NULL ccm cdm cbm] obtain rdm wm' T dm bs pool' mt R1 mr R0 where
    m: "rpmsg_init cm idm NULL ccm cdm (Some cbm) RPMSG_REMOTE wm = Some (RPMSG_SUCCESS, rdm, wm')" "ept_inv rdm wm' T" "chnl_inv rdm wm' []"
    "rd_role dm = RPMSG_REMOTE" "length bs = min (unat (pv_num_descs hm0)) (sp_total_buffs pool div 2)" "distinct bs"
    "w_pools wm' (rd_mem_pool dm) = Some pool'" "pool_inv pool'" "live_buffers pool' = set bs" "dev_up rdm dm mt R1 mr R0 wm'"
    "vq_ring_mem mt = pv_phy_addr hm1" "vq_ring_mem mr = pv_phy_addr hm0" "vq_callback mr = Some Rpmsg_rx_callback" "same_geometry pool pool'"
    "ns_map (pd_dfeatures (hp_vdev pm)) rdm Map.empty T wm'" "rd_channel_created dm = ccm" "rd_default_cb dm = Some cbm" "rd_mem_pool dm \<noteq> NULL"
    and e: "drv_end cm (pv_num_descs hm0) mr R0 (offer_all bs (ring_abs0 (unat (pv_num_descs hm0))))"
      "drv_end cm (pv_num_descs hm1) mt R1 (ring_abs0 (unat (pv_num_descs hm1)))" by blast
  have "w_rings wm' (pv_phy_addr hm0) = Some R0" "w_rings wm' (pv_phy_addr hm1) = Some R1"
    using m(10-12) by (auto simp: dev_up_def get_vq_def option_bind_simps)
  then have g: "w_rings (shared_with wm' wr) (pv_phy_addr hr0) = Some R0" "w_rings (shared_with wm' wr) (pv_phy_addr hr1) = Some R1"
    "length (vr_desc R0) = unat (pv_num_descs hr0)" "length (vr_desc R1) = unat (pv_num_descs hr1)"
    using e assms(5-8) by (simp_all add: shared_with_def drv_end_def)
  from init_remote [OF shared_with_cold [OF assms(2)] assms(4) g(1,3,2,4), of NULL ccr cdr cbr] obtain rdr wr' dr where
    r: "rpmsg_init cr idr NULL ccr cdr (Some cbr) RPMSG_MASTER (shared_with wm' wr) = Some (RPMSG_SUCCESS, rdr, wr')"
    "announcing rdr cbr pr nm wr'" "rd_role dr = RPMSG_MASTER"
    "dev_up rdr dr (dev_vq rdr 0 tx_name hr0 Rpmsg_tx_callback) (start_ring R0) (dev_vq rdr 1 rx_name hr1 Rpmsg_rx_callback) (start_ring R1) wr'"
    "rd_support_ns dr = ns_wanted (pd_dfeatures (hp_vdev pr))" "rd_channel_created dr = ccr" by blast
  note j = ring_joined [OF e(1) assms(7), of rdr 0 tx_name Rpmsg_tx_callback] ring_joined [OF e(2) assms(8), of rdr 1 rx_name Rpmsg_rx_callback]
  show ?thesis
    by (intro exI conjI, rule m(1), rule r(1), rule m(10), rule m(4), rule r(4), rule r(3), rule m(13), simp, rule j(1), rule j(2), rule m(5), rule m(6),
        rule m(7), rule m(8), rule m(14), rule r(5), rule m(9), rule m(2), rule m(3), rule r(2), rule m(15), rule m(16), rule m(17), rule m(18), rule r(6), rule m(11), rule m(12),
        simp add: assms(5), simp add: assms(6))
qed

text \<open>
  Property C3.  The master and then the remote call \<^verbatim>\<open>rpmsg_init\<close>, each on a platform that describes the same two rings, the
  remote on the shared memory as the master left it.  Both calls succeed and both devices are in operation.  The first
  ring joins the receive queue of the master and the transmit queue of the remote; it holds one buffer of the pool per
  descriptor, or half the pool, and these buffers, all different, are the ones the pool counts as handed out, so that the
  remote can send at once.  The second ring joins the transmit queue of the master and the receive queue of the remote
  and is empty.  The channels of the remote's table wait to be announced, and the master knows no channel.
\<close>

theorem rpmsg_init_joins_two_sides:
  assumes "cold wm" "cold wr" "master_platform cm idm pm hm0 hm1 pool" "remote_platform cr idr pr hr0 hr1 nm"
    and "pv_phy_addr hr0 = pv_phy_addr hm0" "pv_phy_addr hr1 = pv_phy_addr hm1"
    and "pv_num_descs hr0 = pv_num_descs hm0" "pv_num_descs hr1 = pv_num_descs hm1"
  shows "\<exists>rdm wm' dm rdr wr' dr bs pool' mt mr rt rr S0 S1 R0 R1 T.
    rpmsg_init cm idm NULL ccm cdm (Some cbm) RPMSG_REMOTE wm = Some (RPMSG_SUCCESS, rdm, wm') \<and>
    rpmsg_init cr idr NULL ccr cdr (Some cbr) RPMSG_MASTER (shared_with wm' wr) = Some (RPMSG_SUCCESS, rdr, wr') \<and>
    dev_up rdm dm mt R1 mr R0 wm' \<and> rd_role dm = RPMSG_REMOTE \<and> dev_up rdr dr rt S0 rr S1 wr' \<and> rd_role dr = RPMSG_MASTER \<and>
    vq_callback mr = Some Rpmsg_rx_callback \<and> vq_callback rr = Some Rpmsg_rx_callback \<and>
    ring_rel (cf_vatopa cm) \<lparr>rs_drv = mr, rs_dev = rt, rs_ring = S0\<rparr> (offer_all bs (ring_abs0 (unat (pv_num_descs hm0)))) \<and>
    ring_rel (cf_vatopa cm) \<lparr>rs_drv = mt, rs_dev = rr, rs_ring = S1\<rparr> (ring_abs0 (unat (pv_num_descs hm1))) \<and>
    length bs = min (unat (pv_num_descs hm0)) (sp_total_buffs pool div 2) \<and> distinct bs \<and>
    w_pools wm' (rd_mem_pool dm) = Some pool' \<and> pool_inv pool' \<and> live_buffers pool' = set bs \<and>
    ept_inv rdm wm' T \<and> chnl_inv rdm wm' [] \<and> announcing rdr cbr pr nm wr'"
  using both_start [OF assms, of ccm cdm cbm ccr cdr cbr] by (elim exE conjE) (intro exI conjI; assumption)

section \<open>The announcements after the start\<close>

text \<open>Both sides see every buffer of the pool at the same address.\<close>

definition pool_addressed :: "config \<Rightarrow> config \<Rightarrow> sh_mem_pool \<Rightarrow> bool" where
  "pool_addressed cm cr pool \<longleftrightarrow> (\<forall>i < sp_total_buffs pool. cf_vatopa cr (cf_patova cr (cf_vatopa cm (buff_addr pool i))) = buff_addr pool i)"

lemma live_buffer_index:
  assumes "pool_inv p'" "same_geometry p p'" "b \<in> live_buffers p'"
  shows "\<exists>i < sp_total_buffs p. b = buff_addr p i"
  using assms by (auto simp: live_buffers_def pool_inv_def same_geometry_def buff_addr_def)

lemma buffers_disjoint:
  assumes "pool_inv p" "sp_buff_size p = 512" "i < j" "j < sp_total_buffs p"
  shows "range32 (buff_addr p i) 56 \<inter> range32 (buff_addr p j) 56 = {}"
proof -
  have n: "unat (sp_start_addr p) + 512 * sp_total_buffs p \<le> 2 ^ 32" using assms(1,2) by (simp add: pool_inv_def)
  have e: "buff_addr p k = sp_start_addr p + of_nat (512 * k)" for k by (simp add: buff_addr_def assms(2))
  have "512 * i + 56 \<le> 512 * j" "512 * j + 56 \<le> 2 ^ 32" using assms(3,4) n by linarith+
  then show ?thesis unfolding e by (rule range32_disjoint)
qed

lemma master_pool_size: "master_platform cf dev_id pr h0 h1 pool \<Longrightarrow> sp_buff_size pool = 512"
  by (auto simp: master_platform_def sh_mem_create_pool_def Let_def WORD_ALIGN_def WORD_SIZE_def RPMSG_BUFFER_SIZE_def split: if_splits)

lemma offer_hdr:
  "pool_inv p' \<Longrightarrow> same_geometry p p' \<Longrightarrow> pool_addressed cm cr p \<Longrightarrow> b \<in> live_buffers p' \<Longrightarrow> msg_hdr cr (cf_vatopa cm) (buff_token x b) = b"
  using live_buffer_index [of p' p b] by (auto simp: msg_hdr_def pool_addressed_def)

lemma offers_apart:
  assumes "pool_inv p'" "same_geometry p p'" "sp_buff_size p = 512" "pool_addressed cm cr p" "set bs = live_buffers p'" "distinct bs" "length xs = length bs"
  shows "apart cr (cf_vatopa cm) (map2 buff_token xs bs)"
proof -
  have hdr: "msg_hdr cr (cf_vatopa cm) (buff_token x b) = b" if "b \<in> set bs" for x b
    using offer_hdr [OF assms(1,2,4)] that assms(5) by simp
  have dis: "range32 (bs ! i) 56 \<inter> range32 (bs ! j) 56 = {}" if ij: "i < j" "j < length bs" for i j
  proof -
    have "bs ! i \<noteq> bs ! j" using ij assms(6) by (simp add: nth_eq_iff_index_eq)
    moreover obtain a b where ab: "a \<in> alloc_set p'" "bs ! i = buff_addr p' a" "b \<in> alloc_set p'" "bs ! j = buff_addr p' b"
      using nth_mem [of i bs] nth_mem [of j bs] ij by (auto simp: assms(5) live_buffers_def)
    moreover have t: "a < sp_total_buffs p'" "b < sp_total_buffs p'" using ab(1,3) assms(1) by (auto simp: pool_inv_def)
    moreover have "sp_buff_size p' = 512" using assms(2,3) by (simp add: same_geometry_def)
    ultimately show ?thesis using buffers_disjoint [OF assms(1), of a b] buffers_disjoint [OF assms(1), of b a]
      by (cases a b rule: linorder_cases) (auto simp: Int_commute)
  qed
  have nz: "\<forall>b \<in> set bs. b \<noteq> 0" using live_nonzero [OF assms(1)] assms(5) by auto
  show ?thesis
    unfolding apart_def
  proof (intro conjI)
    show "sorted_wrt (\<lambda>t t'. range32 (msg_hdr cr (cf_vatopa cm) t) 56 \<inter> range32 (msg_hdr cr (cf_vatopa cm) t') 56 = {}) (map2 buff_token xs bs)"
      using assms(7) dis hdr by (simp add: sorted_wrt_iff_nth_less)
    show "\<forall>t \<in> set (map2 buff_token xs bs). msg_hdr cr (cf_vatopa cm) t \<noteq> 0" using nz hdr by (auto dest: set_zip_rightD)
  qed
qed

lemma announcing_idle:
  assumes "announcing rdev cb pr nm w" "\<forall>i < nat (sint (hp_num_chnls pr)). name_ok (chnl_zero\<lparr>ch_name := nm i\<rparr>)"
  shows "\<exists>T cs. ept_inv rdev w T \<and> list_all2 (chnl_waits rdev cb T w) (rev (map nm [0..<nat (sint (hp_num_chnls pr))])) cs \<and> chnl_inv rdev w cs \<and> length cs = nat (sint (hp_num_chnls pr)) \<and> filter (is_idle (w_chnls w)) cs = cs \<and>
    (\<forall>c \<in> set cs. \<exists>ch. w_chnls w c = Some ch \<and> name_ok ch) \<and>
    list_all2 (\<lambda>n c. \<exists>ch. w_chnls w c = Some ch \<and> ch_name ch = n) (rev (map nm [0..<nat (sint (hp_num_chnls pr))])) cs"
proof -
  let ?n = "nat (sint (hp_num_chnls pr))"
  from assms(1) obtain T cs where c: "chnl_inv rdev w cs" "list_all2 (chnl_waits rdev cb T w) (rev (map nm [0..<?n])) cs" "ept_inv rdev w T"
    by (auto simp: announcing_def)
  have s: "\<exists>ch i. w_chnls w c = Some ch \<and> ch_state ch = RPMSG_CHNL_STATE_IDLE \<and> i < ?n \<and> ch_name ch = nm i" if "c \<in> set cs" for c
  proof -
    from that obtain j where j: "j < length cs" "c = cs ! j" by (auto simp: in_set_conv_nth)
    then have "chnl_waits rdev cb T w (rev (map nm [0..<?n]) ! j) c" "rev (map nm [0..<?n]) ! j \<in> set (map nm [0..<?n])"
      using c(2) list_all2_lengthD [OF c(2)] nth_mem [of j "rev (map nm [0..<?n])"] by (auto simp: list_all2_conv_all_nth)
    then show ?thesis by (auto simp: chnl_waits_def)
  qed
  have "\<forall>c \<in> set cs. \<exists>ch. w_chnls w c = Some ch \<and> name_ok ch"
  proof
    fix c assume "c \<in> set cs"
    from s [OF this] obtain ch i where "w_chnls w c = Some ch" "i < ?n" "ch_name ch = nm i" by blast
    then show "\<exists>ch. w_chnls w c = Some ch \<and> name_ok ch" using assms(2) by (auto simp: name_ok_def)
  qed
  moreover have "filter (is_idle (w_chnls w)) cs = cs" using s by (force simp: filter_id_conv is_idle_def)
  moreover have "list_all2 (\<lambda>n c. \<exists>ch. w_chnls w c = Some ch \<and> ch_name ch = n) (rev (map nm [0..<?n])) cs"
    using c(2) by (rule list_all2_mono) (auto simp: chnl_waits_def)
  ultimately show ?thesis using c list_all2_lengthD [OF c(2)] by (intro exI [of _ T] exI [of _ cs]) simp
qed

lemma announce_offered:
  assumes "announcing rdr cbr pr nm wr'" "dev_up rdr dr rt S0 rr S1 wr'" "rd_role dr = RPMSG_MASTER" "rd_support_ns dr"
    and "\<forall>i < nat (sint (hp_num_chnls pr)). env_strncpy (hp_chnls pr ! i) RPMSG_NAME_SIZE = Some (nm i)"
    and "ring_rel (cf_vatopa cm) \<lparr>rs_drv = mr, rs_dev = rt, rs_ring = S0\<rparr> (offer_all bs (ring_abs0 m))" "length bs \<le> m" "distinct bs"
    and "pool_inv pool'" "same_geometry pool pool'" "live_buffers pool' = set bs" "sp_buff_size pool = 512" "pool_addressed cm cr pool"
    and "quiet_notify cr" "nat (sint (hp_num_chnls pr)) \<le> length bs"
  shows "\<exists>wr2 rt2 S2 cs ts T. rpmsg_tx_callback cr rt wr' = Some wr2 \<and> chnl_inv rdr wr' cs \<and> ept_inv rdr wr' T \<and>
    list_all2 (chnl_waits rdr cbr T wr') (rev (map nm [0..<nat (sint (hp_num_chnls pr))])) cs \<and> walk_frame wr' wr2 \<and>
    only_vq (rd_tvq dr) (vq_ring_mem rt) wr' wr2 \<and> vq_ident rt2 = vq_ident rt \<and> w_chnls wr2 = leave_idle RPMSG_CHNL_STATE_NS cs (w_chnls wr') \<and>
    list_all2 (\<lambda>n c. \<exists>ch. w_chnls wr' c = Some ch \<and> ch_name ch = n \<and> w_chnls wr2 c = Some (ch\<lparr>ch_state := RPMSG_CHNL_STATE_NS\<rparr>))
      (rev (map nm [0..<nat (sint (hp_num_chnls pr))])) cs \<and>
    list_all2 (\<lambda>b c. \<exists>ch. w_chnls wr' c = Some ch \<and> name_ok ch \<and> ns_buffer (w_mem wr2) b ch) (take (length cs) bs) cs \<and>
    get_vq (rd_tvq dr) wr2 = Some (rt2, S2) \<and> map tk_cookie ts = take (length cs) bs \<and>
    ring_rel (cf_vatopa cm) \<lparr>rs_drv = mr, rs_dev = rt2, rs_ring = S2\<rparr>
      ((offer_all bs (ring_abs0 m))\<lparr>ra_pend := drop (length cs) (ra_pend (offer_all bs (ring_abs0 m))), ra_used := map (\<lambda>t. (t, RPMSG_BUFFER_SIZE)) ts\<rparr>)"
proof -
  let ?n = "nat (sint (hp_num_chnls pr))" and ?A = "offer_all bs (ring_abs0 m)"
  have nms: "\<forall>i < ?n. name_ok (chnl_zero\<lparr>ch_name := nm i\<rparr>)" using assms(5) by (auto simp: name_ok_def dest: env_strncpy_idem)
  from announcing_idle [OF assms(1) nms] obtain T cs where tw: "ept_inv rdr wr' T" "list_all2 (chnl_waits rdr cbr T wr') (rev (map nm [0..<?n])) cs"
    and c: "chnl_inv rdr wr' cs" "length cs = ?n" "filter (is_idle (w_chnls wr')) cs = cs"
    "\<forall>c \<in> set cs. \<exists>ch. w_chnls wr' c = Some ch \<and> name_ok ch"
    "list_all2 (\<lambda>n c. \<exists>ch. w_chnls wr' c = Some ch \<and> ch_name ch = n) (rev (map nm [0..<?n])) cs" by blast
  have pend: "ra_pend ?A = map2 buff_token (take (length bs) (map of_nat [0..<m])) bs" "ra_used ?A = []"
    using take_zip [of "length bs" "map (of_nat :: nat \<Rightarrow> u16) [0..<m]" bs] by (simp_all add: offer_all_def ring_abs0_def)
  have len: "length (ra_pend ?A) = length bs" "length cs \<le> length bs" using assms(7,15) c(2) by (simp_all add: pend)
  have ap: "apart cr (cf_vatopa cm) (ra_pend ?A)"
    unfolding pend by (rule offers_apart [OF assms(9,10,12,13) assms(11) [symmetric] assms(8)]) (use assms(7) in simp)
  have d: "w_rdevs wr' rdr = Some dr" "vq_dev rt = rdr" "get_vq (rd_tvq dr) wr' = Some (rt, S0)" "notify_wired wr' rt"
    using assms(2) by (simp_all add: dev_up_def)
  define ts where "ts = take (length cs) (ra_pend ?A)"
  from tx_callback_announces [OF c(1,4) d(1) assms(3,4) d(2,3) assms(6,14) d(4) _ ap] len obtain wr2 rt2 S2 where
    a: "rpmsg_tx_callback cr rt wr' = Some wr2" "w_chnls wr2 = leave_idle RPMSG_CHNL_STATE_NS cs (w_chnls wr')"
    "list_all2 (\<lambda>t c. \<exists>ch. w_chnls wr' c = Some ch \<and> ns_buffer (w_mem wr2) (msg_hdr cr (cf_vatopa cm) t) ch) ts cs"
    "get_vq (rd_tvq dr) wr2 = Some (rt2, S2)"
    "ring_rel (cf_vatopa cm) \<lparr>rs_drv = mr, rs_dev = rt2, rs_ring = S2\<rparr> (?A\<lparr>ra_pend := drop (length cs) (ra_pend ?A), ra_used := ra_used ?A @ map (\<lambda>t. (t, tk_len t)) ts\<rparr>)"
    "walk_frame wr' wr2" "only_vq (rd_tvq dr) (vq_ring_mem rt) wr' wr2" "vq_ident rt2 = vq_ident rt"
    unfolding Let_def c(3) ts_def by auto
  have tb: "list_all2 (\<lambda>t b. msg_hdr cr (cf_vatopa cm) t = b \<and> tk_cookie t = b \<and> tk_len t = RPMSG_BUFFER_SIZE) (ra_pend ?A) bs"
    using offer_hdr [OF assms(9,10,13)] assms(7,11) by (simp add: pend list_all2_conv_all_nth tk_len_def)
  then have tb: "list_all2 (\<lambda>t b. msg_hdr cr (cf_vatopa cm) t = b \<and> tk_cookie t = b \<and> tk_len t = RPMSG_BUFFER_SIZE) ts (take (length cs) bs)"
    unfolding ts_def by (rule list_all2_takeI)
  have cookies: "map tk_cookie ts = take (length cs) bs" "map (\<lambda>t. (t, tk_len t)) ts = map (\<lambda>t. (t, RPMSG_BUFFER_SIZE)) ts"
    using tb by (auto simp: list_all2_conv_all_nth list_eq_iff_nth_eq)
  have "list_all2 (\<lambda>b c. \<exists>ch. w_chnls wr' c = Some ch \<and> ns_buffer (w_mem wr2) b ch) (take (length cs) bs) cs"
    using a(3) tb by (auto simp: list_all2_conv_all_nth)
  then have bufs: "list_all2 (\<lambda>b c. \<exists>ch. w_chnls wr' c = Some ch \<and> name_ok ch \<and> ns_buffer (w_mem wr2) b ch) (take (length cs) bs) cs"
    by (rule list.rel_mono_strong) (use c(4) in fastforce)
  have "list_all2 (\<lambda>n c. \<exists>ch. w_chnls wr' c = Some ch \<and> ch_name ch = n \<and> w_chnls wr2 c = Some (ch\<lparr>ch_state := RPMSG_CHNL_STATE_NS\<rparr>))
      (rev (map nm [0..<?n])) cs"
    using c(3) by (intro list.rel_mono_strong [OF c(5)]) (auto simp: a(2) leave_idle_def filter_id_conv)
  then show ?thesis using tw a(1,2,4,6-8) a(5) [unfolded pend(2) append_Nil cookies(2)] c(1) bufs cookies(1) by blast
qed

text \<open>
  Property C4.  From power-up to the announcements.  After the two calls of \<^verbatim>\<open>rpmsg_init\<close> the master's notification lets the
  remote run \<^verbatim>\<open>rpmsg_tx_callback\<close> on its transmit queue.  With the name service among the features of the device and no more
  channels than offered buffers, every channel of the remote's table ends up in state NS; the announcement of each, with
  its name and address and addressed to the name service, is in one of the first buffers the master had offered at
  its own start, in the order of the channel list, and exactly these buffers wait as returned in the receive ring of the master.
\<close>

theorem start_then_announce:
  assumes "cold wm" "cold wr" "master_platform cm idm pm hm0 hm1 pool" "remote_platform cr idr pr hr0 hr1 nm"
    and "pv_phy_addr hr0 = pv_phy_addr hm0" "pv_phy_addr hr1 = pv_phy_addr hm1"
    and "pv_num_descs hr0 = pv_num_descs hm0" "pv_num_descs hr1 = pv_num_descs hm1"
    and "quiet_notify cr" "pool_addressed cm cr pool" "ns_wanted (pd_dfeatures (hp_vdev pr))"
    and "nat (sint (hp_num_chnls pr)) \<le> unat (pv_num_descs hm0)" "nat (sint (hp_num_chnls pr)) \<le> sp_total_buffs pool div 2"
  shows "\<exists>rdm wm' dm rdr wr' dr bs mr rt wr2 rt2 S2 cs ts.
    rpmsg_init cm idm NULL ccm cdm (Some cbm) RPMSG_REMOTE wm = Some (RPMSG_SUCCESS, rdm, wm') \<and>
    rpmsg_init cr idr NULL ccr cdr (Some cbr) RPMSG_MASTER (shared_with wm' wr) = Some (RPMSG_SUCCESS, rdr, wr') \<and>
    w_rdevs wm' rdm = Some dm \<and> w_vqs wm' (rd_rvq dm) = Some mr \<and> w_rdevs wr' rdr = Some dr \<and> w_vqs wr' (rd_tvq dr) = Some rt \<and>
    rpmsg_tx_callback cr rt wr' = Some wr2 \<and> chnl_inv rdr wr' cs \<and>
    list_all2 (\<lambda>n c. \<exists>ch. w_chnls wr' c = Some ch \<and> ch_name ch = n \<and> w_chnls wr2 c = Some (ch\<lparr>ch_state := RPMSG_CHNL_STATE_NS\<rparr>))
      (rev (map nm [0..<nat (sint (hp_num_chnls pr))])) cs \<and>
    list_all2 (\<lambda>b c. \<exists>ch. w_chnls wr' c = Some ch \<and> ns_buffer (w_mem wr2) b ch) (take (length cs) bs) cs \<and>
    get_vq (rd_tvq dr) wr2 = Some (rt2, S2) \<and> map tk_cookie ts = take (length cs) bs \<and>
    ring_rel (cf_vatopa cm) \<lparr>rs_drv = mr, rs_dev = rt2, rs_ring = S2\<rparr>
      ((offer_all bs (ring_abs0 (unat (pv_num_descs hm0))))\<lparr>ra_pend := drop (length cs) (ra_pend (offer_all bs (ring_abs0 (unat (pv_num_descs hm0))))),
        ra_used := map (\<lambda>t. (t, RPMSG_BUFFER_SIZE)) ts\<rparr>)"
proof -
  let ?n = "nat (sint (hp_num_chnls pr))" and ?m = "unat (pv_num_descs hm0)"
  from both_start [OF assms(1-8), of ccm cdm cbm ccr cdr cbr] obtain rdm wm' dm rdr wr' dr bs pool' mt mr rt rr S0 S1 R0 R1 where
    i: "rpmsg_init cm idm NULL ccm cdm (Some cbm) RPMSG_REMOTE wm = Some (RPMSG_SUCCESS, rdm, wm')"
      "rpmsg_init cr idr NULL ccr cdr (Some cbr) RPMSG_MASTER (shared_with wm' wr) = Some (RPMSG_SUCCESS, rdr, wr')"
    and u: "dev_up rdm dm mt R1 mr R0 wm'" "dev_up rdr dr rt S0 rr S1 wr'" "rd_role dr = RPMSG_MASTER"
    and rel: "ring_rel (cf_vatopa cm) \<lparr>rs_drv = mr, rs_dev = rt, rs_ring = S0\<rparr> (offer_all bs (ring_abs0 ?m))"
    and b: "length bs = min ?m (sp_total_buffs pool div 2)" "distinct bs" "pool_inv pool'" "same_geometry pool pool'" "live_buffers pool' = set bs"
    and ns: "rd_support_ns dr = ns_wanted (pd_dfeatures (hp_vdev pr))" and an: "announcing rdr cbr pr nm wr'" by blast
  have h: "rd_support_ns dr" "\<forall>i < ?n. env_strncpy (hp_chnls pr ! i) RPMSG_NAME_SIZE = Some (nm i)" "length bs \<le> ?m" "?n \<le> length bs"
    using ns assms(4,11-13) b(1) by (simp_all add: remote_platform_def)
  from announce_offered [OF an u(2,3) h(1,2) rel h(3) b(2-5) master_pool_size [OF assms(3)] assms(10,9) h(4)] obtain wr2 rt2 S2 cs ts where
    a: "rpmsg_tx_callback cr rt wr' = Some wr2" "chnl_inv rdr wr' cs"
      "list_all2 (\<lambda>n c. \<exists>ch. w_chnls wr' c = Some ch \<and> ch_name ch = n \<and> w_chnls wr2 c = Some (ch\<lparr>ch_state := RPMSG_CHNL_STATE_NS\<rparr>)) (rev (map nm [0..<?n])) cs"
      "list_all2 (\<lambda>b c. \<exists>ch. w_chnls wr' c = Some ch \<and> name_ok ch \<and> ns_buffer (w_mem wr2) b ch) (take (length cs) bs) cs"
      "get_vq (rd_tvq dr) wr2 = Some (rt2, S2)" "map tk_cookie ts = take (length cs) bs"
      "ring_rel (cf_vatopa cm) \<lparr>rs_drv = mr, rs_dev = rt2, rs_ring = S2\<rparr>
        ((offer_all bs (ring_abs0 ?m))\<lparr>ra_pend := drop (length cs) (ra_pend (offer_all bs (ring_abs0 ?m))), ra_used := map (\<lambda>t. (t, RPMSG_BUFFER_SIZE)) ts\<rparr>)"
    by blast
  have "list_all2 (\<lambda>b c. \<exists>ch. w_chnls wr' c = Some ch \<and> ns_buffer (w_mem wr2) b ch) (take (length cs) bs) cs"
    using a(4) by (rule list_all2_mono) blast
  moreover have "w_rdevs wm' rdm = Some dm" "w_vqs wm' (rd_rvq dm) = Some mr" "w_rdevs wr' rdr = Some dr" "w_vqs wr' (rd_tvq dr) = Some rt"
    using u(1,2) by (auto simp: dev_up_def get_vq_def option_bind_simps)
  ultimately show ?thesis using i a(1-3,5-7) by blast
qed

section \<open>An instance\<close>

definition ring_example_at :: "u32 \<Rightarrow> proc_vring" where
  "ring_example_at a = \<lparr>pv_vq = NULL, pv_phy_addr = a, pv_num_descs = 4, pv_align = 4096, pv_intr_info = proc_intr0\<rparr>"

definition board_example :: hil_proc where
  "board_example = tx_proc_example\<lparr>hp_sh_buff := \<lparr>shm_start_addr = 0x08008000, shm_size = 0x1000, shm_flags = 0\<rparr>,
     hp_vdev := \<lparr>pd_num_vrings = 2, pd_dfeatures = 1, pd_gfeatures = 0, pd_vring_info = [ring_example_at 0x08000000, ring_example_at 0x08004000]\<rparr>,
     hp_num_chnls := 1, hp_chnls := [cstring ''rpmsg-openamp-demo-channel'']\<rparr>"

definition board_cfg_example :: config where
  "board_cfg_example = cfg_example\<lparr>cf_proc_info := (\<lambda>c. if c = 1 then Some board_example else None)\<rparr>"

definition board_pool_example :: sh_mem_pool where
  "board_pool_example = \<lparr>sp_start_addr = 0x08008000, sp_buff_size = 512, sp_total_buffs = 8, sp_used_buffs = 0, sp_bmp_size = 1, sp_bitmap = [0]\<rparr>"

definition demo_name :: "char list" where
  "demo_name = ''rpmsg-openamp-demo-channel'' @ replicate 6 NUL"

lemma board_ring_pair: "ring_pair board_example (ring_example_at 0x08000000) (ring_example_at 0x08004000)"
proof -
  have "pow2_size 4" unfolding pow2_size_def by (rule exI [of _ 2]) simp
  then show ?thesis by (simp add: ring_pair_def board_example_def ring_example_at_def)
qed

lemma board_quiet: "mem_ok board_cfg_example" "quiet_enable board_cfg_example" "quiet_notify board_cfg_example"
  by (simp_all add: mem_ok_def quiet_enable_def quiet_notify_def board_cfg_example_def cfg_example_def)

lemma board_master: "master_platform board_cfg_example 1 board_example (ring_example_at 0x08000000) (ring_example_at 0x08004000) board_pool_example"
proof -
  have "sh_mem_create_pool True 0x08008000 0x1000 RPMSG_BUFFER_SIZE = Some (Some board_pool_example)" by code_simp
  moreover have "min (unat (4 :: u16)) (sp_total_buffs board_pool_example div 2) \<le> pool_capacity board_pool_example" by code_simp
  ultimately show ?thesis using board_ring_pair board_quiet
    by (simp add: master_platform_def) (simp add: board_cfg_example_def board_example_def ring_example_at_def)
qed

lemma board_remote:
  "remote_platform board_cfg_example 1 board_example (ring_example_at 0x08000000) (ring_example_at 0x08004000) (\<lambda>i. demo_name)"
proof -
  have "env_strncpy (cstring ''rpmsg-openamp-demo-channel'') RPMSG_NAME_SIZE = Some demo_name" by code_simp
  then show ?thesis using board_ring_pair board_quiet
    by (simp add: remote_platform_def) (simp add: board_cfg_example_def board_example_def)
qed

theorem rpmsg_init_joins_two_sides_witness:
  "\<exists>rdm wm' rdr wr' mr rt S0 bs. rpmsg_init board_cfg_example 1 NULL None None (Some (App_rx_cb 0)) RPMSG_REMOTE world0 = Some (RPMSG_SUCCESS, rdm, wm') \<and>
    rpmsg_init board_cfg_example 1 NULL None None (Some (App_rx_cb 1)) RPMSG_MASTER (shared_with wm' world0) = Some (RPMSG_SUCCESS, rdr, wr') \<and>
    ring_rel (\<lambda>a. a) \<lparr>rs_drv = mr, rs_dev = rt, rs_ring = S0\<rparr> (offer_all bs (ring_abs0 4)) \<and> length bs = 4 \<and> distinct bs \<and>
    announcing rdr (App_rx_cb 1) board_example (\<lambda>i. demo_name) wr'"
proof -
  have c: "cold world0" by (simp add: cold_def no_tables_def objs_fresh_def world0_def)
  have v: "cf_vatopa board_cfg_example = (\<lambda>a. a)" "unat (pv_num_descs (ring_example_at a)) = 4" "sp_total_buffs board_pool_example div 2 = 4" for a
    by (simp_all add: board_cfg_example_def cfg_example_def ring_example_at_def board_pool_example_def)
  show ?thesis
    using rpmsg_init_joins_two_sides [OF c c board_master board_remote, of None None "App_rx_cb 0" None None "App_rx_cb 1"]
    unfolding v by (simp add: min.idem) blast
qed

theorem start_then_announce_witness:
  "\<exists>rdm wm' rdr wr' rt wr2 c ch b. rpmsg_init board_cfg_example 1 NULL None None (Some (App_rx_cb 0)) RPMSG_REMOTE world0 = Some (RPMSG_SUCCESS, rdm, wm') \<and>
    rpmsg_init board_cfg_example 1 NULL None None (Some (App_rx_cb 1)) RPMSG_MASTER (shared_with wm' world0) = Some (RPMSG_SUCCESS, rdr, wr') \<and>
    rpmsg_tx_callback board_cfg_example rt wr' = Some wr2 \<and> w_chnls wr' c = Some ch \<and> ch_name ch = demo_name \<and> ns_buffer (w_mem wr2) b ch"
proof -
  have c: "cold world0" by (simp add: cold_def no_tables_def objs_fresh_def world0_def)
  have h: "quiet_notify board_cfg_example" "pool_addressed board_cfg_example board_cfg_example board_pool_example"
    "ns_wanted (pd_dfeatures (hp_vdev board_example))" "nat (sint (hp_num_chnls board_example)) = 1"
    "unat (pv_num_descs (ring_example_at a)) = 4" "sp_total_buffs board_pool_example div 2 = 4" for a
    using board_quiet(3) by (simp_all add: pool_addressed_def board_cfg_example_def cfg_example_def ns_wanted_def board_example_def
        VIRTIO_RPMSG_F_NS_def ring_example_at_def board_pool_example_def)
  show ?thesis
    using start_then_announce [OF c c board_master board_remote refl refl refl refl h(1-3), of None None "App_rx_cb 0" None None "App_rx_cb 1"]
    unfolding h(4-6) by (clarsimp simp: list_all2_Cons1 list_all2_Cons2) blast
qed

end
