(* ===== verification/BringUp.thy ===== *)
theory BringUp
  imports SystemStart RpmsgRxMaster
begin

text \<open>
  The first channel, from power-up to use.  After the start of both sides and the announcement of the remote, the receive callback
  of the master opens the channel and answers, and the receive callback of the remote completes the handshake.
\<close>

section \<open>The master receives an announcement\<close>

lemma name_service_ept:
  "ep_rp_chnl (new_ept a cb priv) = NULL" "ep_cb (new_ept a cb priv) = cb" "ep_priv (new_ept a cb priv) = priv"
  by (simp_all add: new_ept_def ept_zero_def)

lemma deliver_ns:
  assumes "ept_inv rdev w T" "T RPMSG_NS_EPT_ADDR = Some e" "w_epts w e = Some (new_ept RPMSG_NS_EPT_ADDR (Some Rpmsg_ns_callback) rdev)"
    and "ns_buffer (w_mem w) h ch"
  shows "\<exists>node w1. rpmsg_rdev_get_endpoint_from_addr rdev (load32 (w_mem w) (h + 4)) w = Some (node, w1) \<and> node \<noteq> NULL \<and>
    w1 = env_unlock_mutex (env_lock_mutex w) \<and>
    rpmsg_deliver cf rdev node h w1 = rpmsg_ns_callback cf (RPMSG_LOCATE_DATA h) RPMSG_NS_MSG_SIZE rdev w1"
proof -
  have l: "load32 (w_mem w) (h + 4) = RPMSG_NS_EPT_ADDR" "load16 (w_mem w) (h + 12) = RPMSG_NS_MSG_SIZE" using assms(4) by (simp_all add: ns_buffer_def)
  from get_endpoint_map [OF assms(1,2)] obtain node n where
    "rpmsg_rdev_get_endpoint_from_addr rdev RPMSG_NS_EPT_ADDR w = Some (node, env_unlock_mutex (env_lock_mutex w))" "node \<noteq> NULL"
    "w_nodes w node = Some n" "ll_data n = e" by blast
  then show ?thesis using assms(3) l
    by (intro exI [of _ node] exI [of _ "env_unlock_mutex (env_lock_mutex w)"])
      (simp add: rpmsg_deliver_def name_service_ept chnl_in_ns_def call_rx_cb_def)
qed

text \<open>The queues and the buffer the master has when it receives the announcement \<open>b0\<close> and answers in \<open>b1\<close>.\<close>

definition ns_receivable ::
  "config \<Rightarrow> ptr \<Rightarrow> remote_device \<Rightarrow> virtqueue \<Rightarrow> vring_mem \<Rightarrow> virtqueue \<Rightarrow> vring_mem \<Rightarrow> sh_mem_pool \<Rightarrow> u32 \<Rightarrow> u32 \<Rightarrow> world \<Rightarrow> bool" where
  "ns_receivable cf rdev rd tq tr rq rr pool b0 b1 w \<longleftrightarrow> dev_up rdev rd tq tr rq rr w \<and> rd_role rd = RPMSG_REMOTE \<and>
     vq_ring_mem rq \<noteq> vq_ring_mem tq \<and> w_pools w (rd_mem_pool rd) = Some pool \<and> rd_mem_pool rd \<noteq> NULL \<and>
     (\<exists>pool'. sh_mem_get_buffer pool = Some (b1, pool')) \<and> b0 \<noteq> 0 \<and> b1 \<noteq> 0 \<and> RPMSG_LOCATE_DATA b0 \<noteq> 0 \<and>
     cf_vatopa cf b0 = b0 \<and> cf_vatopa cf b1 = b1 \<and> range32 (RPMSG_LOCATE_DATA b0) 40 \<inter> range32 b1 16 = {}"

lemma ns_reply_ready:
  assumes "ns_receivable cf rdev rd tq tr rq rr pool b0 b1 w" "quiet_notify cf" "ring_rel (cf_vatopa cf) \<lparr>rs_drv = tq, rs_dev = d, rs_ring = tr\<rparr> A"
    and "ra_used A = []" "ra_free A = x # xs"
  shows "reply_ready cf rdev rd w (RPMSG_LOCATE_DATA b0) tq tr d A b1 RPMSG_BUFFER_SIZE A x xs"
  using assms by (auto simp: reply_ready_def ns_receivable_def dev_up_def tx_source_def RPMSG_BUFFER_SIZE_def)

lemma master_rx_opens:
  assumes tab: "ept_inv rdev w T" "chnl_inv rdev w cs" "T RPMSG_NS_EPT_ADDR = Some e"
      "w_epts w e = Some (new_ept RPMSG_NS_EPT_ADDR (Some Rpmsg_ns_callback) rdev)" "card (dom T) < 127"
    and rd: "ns_receivable cf rdev rd tq tr rq rr pool b0 b1 w" "rd_default_cb rd = Some cb" "vq_dev v = rdev"
    and cf: "recording_chnls cf" "mem_ok cf" "quiet_notify cf" "cf_vatopa cf 0 = 0"
    and rx: "ring_rel (cf_vatopa cf) \<lparr>rs_drv = rq, rs_dev = d0, rs_ring = rr\<rparr> A0" "ra_used A0 = [(t, n)]" "tk_cookie t = b0"
    and tx: "ring_rel (cf_vatopa cf) \<lparr>rs_drv = tq, rs_dev = d1, rs_ring = tr\<rparr> A1" "ra_used A1 = []" "ra_free A1 = x # xs"
    and msg: "ns_buffer (w_mem w) b0 ch" "name_ok ch"
  shows "\<exists>w' c ept a tq' tr' rq' rr' x0 xs0. rpmsg_rx_callback cf v w = Some w' \<and> c \<noteq> NULL \<and> T a = None \<and> a \<noteq> 0 \<and>
    ept_inv rdev w' (T(a \<mapsto> ept)) \<and> chnl_inv rdev w' (c # cs) \<and>
    w_chnls w' = (w_chnls w)(c \<mapsto> \<lparr>ch_name = ch_name ch, ch_src = a, ch_dst = ch_src ch, ch_rdev = rdev, ch_rp_ept = ept,
      ch_state = RPMSG_CHNL_STATE_ACTIVE\<rparr>) \<and>
    w_app w' = w_app w @ chnl_events (rd_channel_created rd) c \<and>
    w_mem w' = put_msg b1 a (ch_src ch) (load_bytes (w_mem w) (RPMSG_LOCATE_DATA b0) 40) 40 (w_mem w) \<and>
    get_vq (rd_tvq rd) w' = Some (tq', tr') \<and> vq_ring_mem tq' = vq_ring_mem tq \<and> get_vq (rd_rvq rd) w' = Some (rq', rr') \<and>
    ring_rel (cf_vatopa cf) \<lparr>rs_drv = tq', rs_dev = d1, rs_ring = tr'\<rparr> (A1\<lparr>ra_free := xs, ra_pend := ra_pend A1 @ [buff_token x b1]\<rparr>) \<and>
    tk_chain t @ ra_free A0 = x0 # xs0 \<and>
    ring_rel (cf_vatopa cf) \<lparr>rs_drv = rq', rs_dev = d0, rs_ring = rr'\<rparr>
      (A0\<lparr>ra_used := [], ra_free := xs0, ra_pend := ra_pend A0 @ [\<lparr>tk_chain = [x0], tk_bufs = [(b0, n)], tk_cookie = b0\<rparr>]\<rparr>)"
proof -
  note R = rd(1) [unfolded ns_receivable_def dev_up_def]
  have q: "get_vq (rd_rvq rd) w = Some (rq, rr)" "get_vq (rd_tvq rd) w = Some (tq, tr)" "rd_rvq rd \<noteq> NULL" "rd_tvq rd \<noteq> rd_rvq rd"
    "vq_ring_mem rq \<noteq> vq_ring_mem tq" "w_rdevs w rdev = Some rd" "rd_role rd = RPMSG_REMOTE" "b0 \<noteq> 0" "cf_vatopa cf b0 = b0" "cf_vatopa cf b1 = b1"
    using R by blast+
  have "t \<in> set (tokens A0)" by (simp add: tokens_def rx(2))
  then have "tk_chain t \<noteq> []" using token_chain_nonempty [OF rx(1)] by blast
  then obtain x0 xs0 where x0: "tk_chain t @ ra_free A0 = x0 # xs0" by (cases "tk_chain t") auto
  have gl: "get_vq (rd_rvq rd) (env_lock_mutex w) = Some (rq, rr)" using q(1) by simp
  from w_reclaim [OF gl rx(1,2) q(3), of cf] obtain rq1 rr1 where
    g: "w_get_buffer cf (rd_rvq rd) (env_lock_mutex w) = Some (b0, Some n, put_vq (rd_rvq rd) rq1 rr1 (env_lock_mutex w))" "vq_ident rq1 = vq_ident rq"
    "ring_rel (cf_vatopa cf) \<lparr>rs_drv = rq1, rs_dev = d0, rs_ring = rr1\<rparr> (A0\<lparr>ra_free := x0 # xs0, ra_used := []\<rparr>)"
    using rx(3) x0 by auto
  have m1: "vq_ring_mem rq1 = vq_ring_mem rq" using g(2) by (simp add: vq_ident_def)
  define w1 where "w1 = env_unlock_mutex (put_vq (rd_rvq rd) rq1 rr1 (env_lock_mutex w))"
  have gr: "rpmsg_get_rx_buffer cf rdev (cf_uninit_len cf) (cf_uninit_idx cf) (env_lock_mutex w) =
      Some (b0, n, cf_uninit_idx cf, put_vq (rd_rvq rd) rq1 rr1 (env_lock_mutex w))"
    using g(1) q(6-9) by (simp add: rpmsg_get_rx_buffer_def)
  have o1: "w_mem w1 = w_mem w" "w_nodes w1 = w_nodes w" "w_chnls w1 = w_chnls w" "w_epts w1 = w_epts w" "w_rdevs w1 = w_rdevs w"
    "w_pools w1 = w_pools w" "w_procs w1 = w_procs w" "w_app w1 = w_app w" "w_next w1 = w_next w" "w_allocs w1 = w_allocs w"
    by (simp_all add: w1_def)
  have q1: "get_vq (rd_rvq rd) w1 = Some (rq1, rr1)" "get_vq (rd_tvq rd) w1 = Some (tq, tr)"
    using q(2,4,5) m1 by (auto simp: w1_def get_vq_def put_vq_def option_bind_simps)
  have t1: "ept_inv rdev w1 T" "chnl_inv rdev w1 cs" using tab(1,2) inv_cong [of w1 w rdev] by (simp_all add: o1)
  have "w_epts w1 e = Some (new_ept RPMSG_NS_EPT_ADDR (Some Rpmsg_ns_callback) rdev)" "ns_buffer (w_mem w1) b0 ch" using tab(4) msg(1) by (simp_all add: o1)
  from deliver_ns [OF t1(1) tab(3) this, of cf] obtain node w2 where
    d: "rpmsg_rdev_get_endpoint_from_addr rdev (load32 (w_mem w1) (b0 + 4)) w1 = Some (node, w2)" "node \<noteq> NULL" "w2 = env_unlock_mutex (env_lock_mutex w1)"
    "rpmsg_deliver cf rdev node b0 w2 = rpmsg_ns_callback cf (RPMSG_LOCATE_DATA b0) RPMSG_NS_MSG_SIZE rdev w2" by blast
  have o2: "w_mem w2 = w_mem w" "w_chnls w2 = w_chnls w" "w_rdevs w2 = w_rdevs w" "w_app w2 = w_app w" "w_allocs w2 = w_allocs w" "w_procs w2 = w_procs w"
    "w_pools w2 = w_pools w" by (simp_all add: d(3) o1)
  have q2: "get_vq (rd_rvq rd) w2 = Some (rq1, rr1)" "get_vq (rd_tvq rd) w2 = Some (tq, tr)" using q1 by (simp_all add: d(3))
  have t2: "ept_inv rdev w2 T" "chnl_inv rdev w2 cs" using t1 inv_cong [of w2 w1 rdev] by (simp_all add: d(3))
  have "ns_receivable cf rdev rd tq tr rq1 rr1 pool b0 b1 w2"
  proof -
    have "notify_wired w2 tq" "notify_wired w2 rq1" "vq_dev rq1 = vq_dev rq"
      using R notify_wired_cong [of tq tq w2 w] notify_wired_cong [OF g(2), of w2 w] g(2) o2 by (simp_all add: vq_ident_def)
    then show ?thesis using R q2 o2 m1 by (simp add: ns_receivable_def dev_up_def)
  qed
  from ns_reply_ready [OF this cf(3) tx] have rr: "reply_ready cf rdev rd w2 (RPMSG_LOCATE_DATA b0) tq tr d1 A1 b1 RPMSG_BUFFER_SIZE A1 x xs" .
  have "w_rdevs w2 rdev = Some rd" "ns_msg_at (w_mem w2) (RPMSG_LOCATE_DATA b0) (ch_name ch) (ch_src ch) RPMSG_NS_CREATE"
    "env_strncpy (ch_name ch) RPMSG_NAME_SIZE = Some (ch_name ch)" "\<forall>i < 4. cf_alloc_ok cf (w_allocs w2 + i)"
    using q(6) msg cf(2) by (simp_all add: o2 ns_buffer_def name_ok_def mem_ok_def)
  from ns_announcement_opens [OF t2 cf(1) this(1) rd(2) this(2-4) tab(5) rr] obtain c ept a w3 tq' tr' rd1 where
    s: "rpmsg_ns_callback cf (RPMSG_LOCATE_DATA b0) RPMSG_NS_MSG_SIZE rdev w2 = Some w3" "c \<noteq> NULL" "T a = None" "a \<noteq> 0"
    "ept_inv rdev w3 (T(a \<mapsto> ept))" "chnl_inv rdev w3 (c # cs)"
    "w_chnls w3 = (w_chnls w2)(c \<mapsto> \<lparr>ch_name = ch_name ch, ch_src = a, ch_dst = ch_src ch, ch_rdev = rdev, ch_rp_ept = ept,
      ch_state = RPMSG_CHNL_STATE_ACTIVE\<rparr>)"
    "w_mem w3 = put_msg b1 a (ch_src ch) (load_bytes (w_mem w2) (RPMSG_LOCATE_DATA b0) 40) 40 (w_mem w2)"
    "w_app w3 = w_app w2 @ chnl_events (rd_channel_created rd) c" "get_vq (rd_tvq rd) w3 = Some (tq', tr')"
    "ring_rel (cf_vatopa cf) \<lparr>rs_drv = tq', rs_dev = d1, rs_ring = tr'\<rparr> (A1\<lparr>ra_free := xs, ra_pend := ra_pend A1 @ [buff_token x b1]\<rparr>)"
    "w_rdevs w3 rdev = Some rd1" "rd_core rd1 = rd_core rd" "only_vq (rd_tvq rd) (vq_ring_mem tq) w2 w3" "vq_ident tq' = vq_ident tq"
    unfolding q(10) by blast
  note core = rd_coreD [OF s(13)]
  have q3: "get_vq (rd_rvq rd) (env_lock_mutex w3) = Some (rq1, rr1)" using only_vq_get [OF s(14) _ q2(1)] q(4,5) m1 by simp
  have "ra_free (A0\<lparr>ra_free := x0 # xs0, ra_used := []\<rparr>) = x0 # xs0" by simp
  from w_offer [OF q3 g(3) this q(8), of n] obtain rq2 rr2 where
    k: "w_add_buffer cf (rd_rvq rd) [(b0, n)] 0 1 b0 (env_lock_mutex w3) = Some (VQUEUE_SUCCESS, put_vq (rd_rvq rd) rq2 rr2 (env_lock_mutex w3))"
    "vq_ident rq2 = vq_ident rq1"
    "ring_rel (cf_vatopa cf) \<lparr>rs_drv = rq2, rs_dev = d0, rs_ring = rr2\<rparr>
      (A0\<lparr>ra_used := [], ra_free := xs0, ra_pend := ra_pend A0 @ [\<lparr>tk_chain = [x0], tk_bufs = [(b0, n)], tk_cookie = b0\<rparr>]\<rparr>)" by auto
  define w4 where "w4 = put_vq (rd_rvq rd) rq2 rr2 (env_lock_mutex w3)"
  define w' where "w' = env_unlock_mutex (put_vq (rd_rvq rd) rq2 rr2 w4)"
  have e4: "w_rdevs w4 rdev = Some rd1" "rd_role rd1 = RPMSG_REMOTE" "rd_rvq rd1 = rd_rvq rd" using s(12) core q(7) by (simp_all add: w4_def)
  have "rpmsg_return_buffer cf rdev b0 n (cf_uninit_idx cf) (env_lock_mutex w3) = Some w4"
    using k(1) s(12) e4(2,3) by (simp add: rpmsg_return_buffer_def w4_def)
  moreover have "rpmsg_get_rx_buffer cf rdev n (cf_uninit_idx cf) w4 = Some (0, n, cf_uninit_idx cf, put_vq (rd_rvq rd) rq2 rr2 w4)"
    using get_rx_none [of w4 rdev rd1 rq2 rr2 "cf_vatopa cf" d0 _ cf n "cf_uninit_idx cf", OF e4(1,2) _ _ k(3)] q(3) e4(3) cf(4) by (simp add: w4_def)
  moreover have "rpmsg_rx_callback cf v w = do {
      (hdr, len, idx, w) \<leftarrow> rpmsg_get_rx_buffer cf rdev (cf_uninit_len cf) (cf_uninit_idx cf) (env_lock_mutex w);
      rpmsg_rx_loop cf rdev hdr len idx (env_unlock_mutex w) }"
    using q(6,7) rd(3) role_distinct by (simp add: rpmsg_rx_callback_def Let_def)
  ultimately have "rpmsg_rx_callback cf v w = rpmsg_rx_loop cf rdev 0 n (cf_uninit_idx cf) w'"
    using gr d(1) [unfolded o1(1)] d(2,4) s(1) q(8) by (simp add: w1_def [symmetric] w'_def [symmetric] rpmsg_rx_loop.simps [of cf rdev b0])
  then have "rpmsg_rx_callback cf v w = Some w'" by (simp add: rpmsg_rx_loop.simps)
  moreover have "ept_inv rdev w' (T(a \<mapsto> ept))" "chnl_inv rdev w' (c # cs)"
    using s(5,6) inv_cong [of w' w3 rdev] by (simp_all add: w'_def w4_def)
  moreover have "get_vq (rd_tvq rd) w' = Some (tq', tr')" "get_vq (rd_rvq rd) w' = Some (rq2, rr2)"
  proof -
    have "vq_ring_mem tq' \<noteq> vq_ring_mem rq2" using s(15) k(2) m1 q(5) by (auto simp: vq_ident_def)
    then show "get_vq (rd_tvq rd) w' = Some (tq', tr')" "get_vq (rd_rvq rd) w' = Some (rq2, rr2)"
      using s(10) q(4) by (auto simp: w'_def w4_def get_vq_def put_vq_def option_bind_simps)
  qed
  moreover have "w_chnls w' = w_chnls w3" "w_app w' = w_app w3" "w_mem w' = w_mem w3" by (simp_all add: w'_def w4_def)
  moreover have "vq_ring_mem tq' = vq_ring_mem tq" using s(15) by (simp add: vq_ident_def)
  ultimately show ?thesis using s(2-4,7-9,11) k(3) x0 unfolding o2
    by (intro exI [of _ w'] exI [of _ c] exI [of _ ept] exI [of _ a] exI [of _ tq'] exI [of _ tr'] exI [of _ rq2] exI [of _ rr2] exI [of _ x0] exI [of _ xs0]) simp
qed

section \<open>The remote receives the answer\<close>

lemma remote_rx_completes:
  assumes tab: "ept_inv rdev w T" "chnl_inv rdev w [c]" "w_rdevs w rdev = Some rd" "rd_role rd = RPMSG_MASTER" "vq_dev v = rdev"
    and cf: "recording_chnls cf" "cf_vatopa cf 0 = 0"
    and rx: "get_vq (rd_rvq rd) w = Some (rq, rr)" "ring_rel va \<lparr>rs_drv = d, rs_dev = rq, rs_ring = rr\<rparr> A" "ra_pend A = [t]"
      "msg_hdr cf va t = h" "h \<noteq> 0"
    and ch: "T (load32 (w_mem w) (h + 4)) = Some e" "w_epts w e = Some ep" "ep_rp_chnl ep = c" "w_chnls w c = Some ch" "ch_state ch = RPMSG_CHNL_STATE_NS"
  shows "\<exists>w' rq' rr'. rpmsg_rx_callback cf v w = Some w' \<and>
    w_chnls w' = (w_chnls w)(c \<mapsto> ch\<lparr>ch_dst := load32 (w_mem w) h, ch_state := RPMSG_CHNL_STATE_ACTIVE\<rparr>) \<and>
    w_app w' = w_app w @ chnl_events (rd_channel_created rd) c \<and> get_vq (rd_rvq rd) w' = Some (rq', rr') \<and>
    ring_rel va \<lparr>rs_drv = d, rs_dev = rq', rs_ring = rr'\<rparr> (A\<lparr>ra_pend := [], ra_used := ra_used A @ [(t, tk_len t)]\<rparr>)"
proof -
  have role: "rd_role rd \<noteq> RPMSG_REMOTE" using tab(4) role_distinct by simp
  have cN: "c \<noteq> NULL" using tab(2) by (simp add: chnl_inv_def)
  have "rx_active rd w"
  proof -
    from tab(2,3) obtain ys where y: "node_seq (w_nodes w) (rd_rp_channels rd) ys" "list_all2 (chnl_entry rdev w) ys [c]" by (auto simp: chnl_inv_def)
    then obtain y where "ys = [y]" "chnl_entry rdev w y c" by (auto simp: list_all2_Cons2)
    moreover from this y(1) have "rd_rp_channels rd = y" by (simp add: node_seq_def)
    ultimately show ?thesis using ch(4,5) by (auto simp: rx_active_def chnl_entry_def RPMSG_CHNL_STATE_NS_def RPMSG_CHNL_STATE_IDLE_def)
  qed
  then have cb: "rpmsg_rx_callback cf v w = do {
      (hdr, len, idx, w) \<leftarrow> rpmsg_get_rx_buffer cf rdev (cf_uninit_len cf) (cf_uninit_idx cf) (env_lock_mutex w);
      rpmsg_rx_loop cf rdev hdr len idx (env_unlock_mutex w) }" using rx_callback_messages [of w v rd cf] tab(3,5) by simp
  have "w_rdevs (env_lock_mutex w) rdev = Some rd" "get_vq (rd_rvq rd) (env_lock_mutex w) = Some (rq, rr)" using tab(3) rx(1) by simp_all
  from get_rx_pending [OF this(1) role this(2) rx(2,3), of cf "cf_uninit_len cf" "cf_uninit_idx cf"] obtain rq1 where
    g: "rpmsg_get_rx_buffer cf rdev (cf_uninit_len cf) (cf_uninit_idx cf) (env_lock_mutex w) =
      Some (h, tk_len t, tk_head t, put_vq (rd_rvq rd) rq1 rr (env_lock_mutex w))"
    "ring_rel va \<lparr>rs_drv = d, rs_dev = rq1, rs_ring = rr\<rparr> (A\<lparr>ra_pend := [], ra_taken := ra_taken A @ [t]\<rparr>)" unfolding rx(4) by blast
  define w1 where "w1 = env_unlock_mutex (put_vq (rd_rvq rd) rq1 rr (env_lock_mutex w))"
  have t1: "ept_inv rdev w1 T" using tab(1) inv_cong(1) [of w1 w rdev T] by (simp add: w1_def)
  have o1: "w_mem w1 = w_mem w" "w_chnls w1 = w_chnls w" "w_epts w1 = w_epts w" "w_rdevs w1 = w_rdevs w" "w_app w1 = w_app w"
    "w_vqs w1 (rd_rvq rd) = Some rq1" by (simp_all add: w1_def put_vq_def)
  have "T (load32 (w_mem w1) (h + 4)) = Some e" using ch(1) by (simp add: o1)
  from get_endpoint_map [OF t1 this] obtain node n where
    e: "rpmsg_rdev_get_endpoint_from_addr rdev (load32 (w_mem w) (h + 4)) w1 = Some (node, env_unlock_mutex (env_lock_mutex w1))" "node \<noteq> NULL"
    "w_nodes w1 node = Some n" "ll_data n = e" unfolding o1 by blast
  define w2 where "w2 = (env_unlock_mutex (env_lock_mutex w1))\<lparr>w_chnls := (w_chnls w)(c \<mapsto> ch\<lparr>ch_dst := load32 (w_mem w) h, ch_state := RPMSG_CHNL_STATE_ACTIVE\<rparr>),
      w_app := w_app w @ chnl_events (rd_channel_created rd) c\<rparr>"
  have dl: "rpmsg_deliver cf rdev node h (env_unlock_mutex (env_lock_mutex w1)) = Some w2"
    using e(3,4) ch(2-5) cN tab(3) by (simp add: rpmsg_deliver_def chnl_in_ns_def call_chnl_cb_recording [OF cf(1)] o1 w2_def)
  have q2: "get_vq (rd_rvq rd) (env_lock_mutex w2) = Some (rq1, rr)" by (simp add: w2_def w1_def get_vq_def put_vq_def)
  have "ra_taken (A\<lparr>ra_pend := [], ra_taken := ra_taken A @ [t]\<rparr>) = ra_taken A @ [t]" by simp
  from w_give_taken [OF q2 g(2) this, of cf "tk_len t"] obtain rq2 rr2 where
    k: "w_add_consumed_buffer cf (rd_rvq rd) (tk_head t) (tk_len t) (env_lock_mutex w2) = Some (VQUEUE_SUCCESS, put_vq (rd_rvq rd) rq2 rr2 (env_lock_mutex w2))"
    "ring_rel va \<lparr>rs_drv = d, rs_dev = rq2, rs_ring = rr2\<rparr> (A\<lparr>ra_pend := [], ra_taken := ra_taken A, ra_used := ra_used A @ [(t, tk_len t)]\<rparr>)" by auto
  define w3 where "w3 = put_vq (rd_rvq rd) rq2 rr2 (env_lock_mutex w2)"
  have r3: "w_rdevs w2 rdev = Some rd" "w_rdevs w3 rdev = Some rd" "get_vq (rd_rvq rd) w3 = Some (rq2, rr2)" using tab(3) by (simp_all add: w3_def w2_def o1)
  have "rpmsg_return_buffer cf rdev h (tk_len t) (tk_head t) (env_lock_mutex w2) = Some w3"
    using k(1) r3(1) role by (simp add: rpmsg_return_buffer_def w3_def)
  moreover have "rpmsg_get_rx_buffer cf rdev (tk_len t) (tk_head t) w3 = Some (0, tk_len t, tk_head t, put_vq (rd_rvq rd) rq2 rr2 w3)"
    using get_rx_empty [OF r3(2) role r3(3) k(2), of cf "tk_len t" "tk_head t"] cf(2) by simp
  ultimately have "rpmsg_rx_callback cf v w = rpmsg_rx_loop cf rdev 0 (tk_len t) (tk_head t) (env_unlock_mutex (put_vq (rd_rvq rd) rq2 rr2 w3))"
    using cb g(1) e(1,2) dl rx(5) by (simp add: w1_def [symmetric] rpmsg_rx_loop.simps [of cf rdev h] o1(1))
  then have "rpmsg_rx_callback cf v w = Some (env_unlock_mutex (put_vq (rd_rvq rd) rq2 rr2 w3))" by (simp add: rpmsg_rx_loop.simps)
  moreover have "A\<lparr>ra_pend := [], ra_taken := ra_taken A, ra_used := us\<rparr> = A\<lparr>ra_pend := [], ra_used := us\<rparr>" for us by (cases A) simp
  ultimately show ?thesis using k(2)
    by (intro exI [of _ "env_unlock_mutex (put_vq (rd_rvq rd) rq2 rr2 w3)"] exI [of _ rq2] exI [of _ rr2]) (simp add: w3_def w2_def)
qed

section \<open>Both together\<close>

lemma ept_inv_same:
  "ept_inv rdev w T \<Longrightarrow> w_nodes w' = w_nodes w \<Longrightarrow> w_epts w' = w_epts w \<Longrightarrow> w_rdevs w' rdev = w_rdevs w rdev \<Longrightarrow> w_next w' = w_next w \<Longrightarrow> ept_inv rdev w' T"
  using ept_map_cong [of w rdev T w'] by (simp add: ept_inv_def objs_fresh_def)

lemma chnl_inv_left:
  assumes "chnl_inv rdev w cs" "walk_frame w w'" "w_chnls w' = leave_idle st ds (w_chnls w)"
  shows "chnl_inv rdev w' cs"
proof -
  have e: "chnl_entry rdev w y c \<Longrightarrow> chnl_entry rdev w' y c" for y c
    using assms(2) by (auto simp: chnl_entry_def walk_frame_def assms(3) leave_idle_def)
  have "w_chnls w' p = None \<longleftrightarrow> w_chnls w p = None" for p by (simp add: assms(3) leave_idle_def)
  moreover have "list_all2 (chnl_entry rdev w) ys cs \<Longrightarrow> list_all2 (chnl_entry rdev w') ys cs" for ys by (erule list_all2_mono) (rule e)
  ultimately show ?thesis using assms(1,2) unfolding chnl_inv_def walk_frame_def by auto
qed

text \<open>The buffer the master answers in is a fresh one of the pool.\<close>

lemma fresh_reply:
  assumes "pool_inv p" "card (live_buffers p) < pool_capacity p" "sp_buff_size p = 512" "b0 \<in> live_buffers p"
  shows "\<exists>b1 p'. sh_mem_get_buffer p = Some (b1, p') \<and> b1 \<noteq> 0 \<and> (\<exists>i < sp_total_buffs p. b1 = buff_addr p i) \<and>
    RPMSG_LOCATE_DATA b0 \<noteq> 0 \<and> range32 (RPMSG_LOCATE_DATA b0) 40 \<inter> range32 b1 16 = {}"
proof -
  have "card (alloc_set p) < pool_capacity p" using assms(1,2) by (simp add: card_live_buffers)
  from sh_mem_get_buffer_index [OF assms(1) this] obtain j p' where
    g: "sh_mem_get_buffer p = Some (buff_addr p j, p')" "j < sp_total_buffs p" "j \<notin> alloc_set p" by blast
  obtain i where i: "i \<in> alloc_set p" "b0 = buff_addr p i" using assms(4) by (auto simp: live_buffers_def)
  have it: "i < sp_total_buffs p" "i \<noteq> j" using i(1) g(3) assms(1) by (auto simp: pool_inv_def)
  have "range32 b0 56 \<inter> range32 (buff_addr p j) 56 = {}"
    using buffers_disjoint [OF assms(1,3), of i j] buffers_disjoint [OF assms(1,3), of j i] it g(2) i(2)
    by (cases i j rule: linorder_cases) (auto simp: Int_commute)
  moreover have "range32 (RPMSG_LOCATE_DATA b0) 40 \<subseteq> range32 b0 56" "range32 (buff_addr p j) 16 \<subseteq> range32 (buff_addr p j) 56"
    using range32_subset [of 16 40 56 b0] range32_subset [of 0 16 56 "buff_addr p j"] by (simp_all add: RPMSG_LOCATE_DATA_def RPMSG_HDR_SIZE_def)
  moreover have "unat b0 + 512 \<le> 2 ^ 32"
  proof -
    have "unat (sp_start_addr p) + 512 * sp_total_buffs p \<le> 2 ^ 32" using assms(1,3) by (simp add: pool_inv_def)
    moreover have "unat b0 = unat (sp_start_addr p) + 512 * i" using buff_addr_bound(1) [OF assms(1) it(1)] assms(3) i(2) by simp
    ultimately show ?thesis using it(1) by linarith
  qed
  then have "unat (b0 + 16) = unat b0 + 16" by (simp add: unat_word_ariths)
  then have "RPMSG_LOCATE_DATA b0 \<noteq> 0" by (auto simp: RPMSG_LOCATE_DATA_def RPMSG_HDR_SIZE_def)
  ultimately show ?thesis using g(1,2) buff_addr_nonzero [OF assms(1) g(2)]
    by (intro exI [of _ "buff_addr p j"] exI [of _ p']) blast
qed

lemma first_channel_opens:
  assumes tm: "ept_inv rdm wm' T" "chnl_inv rdm wm' []" "ns_map f rdm Map.empty T wm'" "ns_wanted f"
    and dm: "ns_receivable cm rdm dm mt S1 mr S2 pool b0 b1 (shared_with wr2 wm')" "rd_default_cb dm = Some cbm" "rd_channel_created dm = ccm"
    and cm: "recording_chnls cm" "mem_ok cm" "quiet_notify cm" "cf_vatopa cm 0 = 0"
    and rx: "ring_rel (cf_vatopa cm) \<lparr>rs_drv = mr, rs_dev = rt, rs_ring = S2\<rparr> A0" "ra_used A0 = [(t, n)]" "tk_cookie t = b0"
    and tx: "ring_rel (cf_vatopa cm) \<lparr>rs_drv = mt, rs_dev = rr, rs_ring = S1\<rparr> (ring_abs0 k)" "0 < k"
    and msg: "ns_buffer (w_mem wr2) b0 ch" "name_ok ch"
  shows "\<exists>wm3 c ept a tq tr x A. rpmsg_rx_callback cm mr (shared_with wr2 wm') = Some wm3 \<and> a \<noteq> 0 \<and>
    w_chnls wm3 c = Some \<lparr>ch_name = ch_name ch, ch_src = a, ch_dst = ch_src ch, ch_rdev = rdm, ch_rp_ept = ept, ch_state = RPMSG_CHNL_STATE_ACTIVE\<rparr> \<and>
    w_app wm3 = w_app wm' @ chnl_events ccm c \<and>
    w_mem wm3 = put_msg b1 a (ch_src ch) (load_bytes (w_mem wr2) (RPMSG_LOCATE_DATA b0) 40) 40 (w_mem wr2) \<and>
    w_rings wm3 (vq_ring_mem mt) = Some tr \<and>
    ring_rel (cf_vatopa cm) \<lparr>rs_drv = tq, rs_dev = rr, rs_ring = tr\<rparr> A \<and> ra_pend A = [buff_token x b1]"
proof -
  let ?wm = "shared_with wr2 wm'"
  obtain e where e: "T = [RPMSG_NS_EPT_ADDR \<mapsto> e]" "w_epts wm' e = Some (new_ept RPMSG_NS_EPT_ADDR (Some Rpmsg_ns_callback) rdm)"
    using tm(3,4) by (auto simp: ns_map_def)
  have tw: "ept_inv rdm ?wm T" "chnl_inv rdm ?wm []" using tm inv_cong [of ?wm wm' rdm] by (simp_all add: shared_with_def)
  have v: "T RPMSG_NS_EPT_ADDR = Some e" "w_epts ?wm e = Some (new_ept RPMSG_NS_EPT_ADDR (Some Rpmsg_ns_callback) rdm)" "card (dom T) < 127"
    "vq_dev mr = rdm" "ns_buffer (w_mem ?wm) b0 ch"
    using e dm(1) msg(1) by (simp_all add: shared_with_def ns_receivable_def dev_up_def)
  obtain x xs where x: "ra_free (ring_abs0 k) = x # xs" using tx(2) by (cases "ra_free (ring_abs0 k)") (auto simp: ring_abs0_def)
  have r: "ra_used (ring_abs0 k) = []" "ra_pend (ring_abs0 k) = []" by (simp_all add: ring_abs0_def)
  from master_rx_opens [OF tw v(1-3) dm(1,2) v(4) cm rx tx(1) r(1) x v(5) msg(2)] obtain wm3 c ept a tq tr where
    o: "rpmsg_rx_callback cm mr ?wm = Some wm3" "a \<noteq> 0" "w_chnls wm3 = (w_chnls ?wm)(c \<mapsto> \<lparr>ch_name = ch_name ch, ch_src = a, ch_dst = ch_src ch,
      ch_rdev = rdm, ch_rp_ept = ept, ch_state = RPMSG_CHNL_STATE_ACTIVE\<rparr>)" "w_app wm3 = w_app ?wm @ chnl_events (rd_channel_created dm) c"
    "w_mem wm3 = put_msg b1 a (ch_src ch) (load_bytes (w_mem ?wm) (RPMSG_LOCATE_DATA b0) 40) 40 (w_mem ?wm)"
    "get_vq (rd_tvq dm) wm3 = Some (tq, tr)" "vq_ring_mem tq = vq_ring_mem mt"
    "ring_rel (cf_vatopa cm) \<lparr>rs_drv = tq, rs_dev = rr, rs_ring = tr\<rparr> ((ring_abs0 k)\<lparr>ra_free := xs, ra_pend := ra_pend (ring_abs0 k) @ [buff_token x b1]\<rparr>)" by blast
  have "w_rings wm3 (vq_ring_mem mt) = Some tr" using o(6,7) by (auto simp: get_vq_def option_bind_simps)
  then show ?thesis using o(1-5,8) r(2) dm(3)
    by (intro exI [of _ wm3] exI [of _ c] exI [of _ ept] exI [of _ a] exI [of _ tq] exI [of _ tr] exI [of _ x]
        exI [of _ "(ring_abs0 k)\<lparr>ra_free := xs, ra_pend := [buff_token x b1]\<rparr>"]) (simp add: shared_with_def)
qed

lemma first_channel_completes:
  assumes tab: "ept_inv rdr wr' T" "chnl_inv rdr wr' [c]" "walk_frame wr' wr2" "w_chnls wr2 = leave_idle RPMSG_CHNL_STATE_NS [c] (w_chnls wr')"
    and dr: "w_rdevs wr' rdr = Some dr" "rd_role dr = RPMSG_MASTER" "vq_dev rr = rdr" "w_vqs wr2 (rd_rvq dr) = Some rr"
    and cr: "recording_chnls cr" "cf_vatopa cr 0 = 0"
    and rx: "w_rings wm3 (vq_ring_mem rr) = Some tr" "ring_rel va \<lparr>rs_drv = tq, rs_dev = rr, rs_ring = tr\<rparr> A" "ra_pend A = [t]" "msg_hdr cr va t = b1" "b1 \<noteq> 0"
    and msg: "w_mem wm3 = put_msg b1 a ar payload len m" "length payload + 16 \<le> 2 ^ 32"
    and ch: "T ar = Some e" "w_epts wr' e = Some ep" "ep_rp_chnl ep = c" "w_chnls wr2 c = Some ch" "ch_state ch = RPMSG_CHNL_STATE_NS"
  shows "\<exists>wr4. rpmsg_rx_callback cr rr (shared_with wm3 wr2) = Some wr4 \<and> w_chnls wr4 c = Some (ch\<lparr>ch_dst := a, ch_state := RPMSG_CHNL_STATE_ACTIVE\<rparr>) \<and>
    w_app wr4 = w_app wr' @ chnl_events (rd_channel_created dr) c"
proof -
  let ?wr = "shared_with wm3 wr2"
  have t: "ept_inv rdr ?wr T" by (rule ept_inv_same [OF tab(1)]) (use tab(3) in \<open>simp_all add: shared_with_def walk_frame_def\<close>)
  have k: "chnl_inv rdr ?wr [c]" using chnl_inv_left [OF tab(2-4)] inv_cong(2) [of ?wr wr2 rdr "[c]"] by (simp add: shared_with_def)
  have q: "w_rdevs ?wr rdr = Some dr" "get_vq (rd_rvq dr) ?wr = Some (rr, tr)"
    using tab(3) dr(1,4) rx(1) by (simp_all add: walk_frame_def shared_with_def get_vq_def)
  have l: "load32 (w_mem ?wr) b1 = a" "T (load32 (w_mem ?wr) (b1 + 4)) = Some e"
    using ch(1) put_msg_fields [OF msg(2), of b1 a ar len m] by (simp_all add: shared_with_def msg(1))
  have ep: "w_epts ?wr e = Some ep" "w_chnls ?wr c = Some ch" using ch(2,4) tab(3) by (simp_all add: shared_with_def walk_frame_def)
  from remote_rx_completes [OF t k q(1) dr(2,3) cr q(2) rx(2-5) l(2) ep(1) ch(3) ep(2) ch(5)] l(1) tab(3) show ?thesis
    by (auto simp: shared_with_def walk_frame_def)
qed

text \<open>
  Property C2.  A channel comes up.  Two processors of a platform that translates the addresses of the shared memory to
  themselves start from nothing; the table of the remote names one channel, both sides have the name service, and the pool has a
  buffer more than the master offers.  The master calls \<^verbatim>\<open>rpmsg_init\<close>, then the remote; the remote's transmit callback announces the channel,
  the master's receive callback opens it and answers, and the remote's receive callback takes the answer; each callback sees the shared memory the
  other side has left.  Every call returns, and at the end both sides have an active channel of the announced name, the address of each is
  the destination of the other, and each application has been told once.
\<close>

theorem channel_comes_up:
  assumes "cold wm" "cold wr" "master_platform cm idm pm hm0 hm1 pool" "remote_platform cr idr pr hr0 hr1 nm"
    and "pv_phy_addr hr0 = pv_phy_addr hm0" "pv_phy_addr hr1 = pv_phy_addr hm1"
    and "pv_num_descs hr0 = pv_num_descs hm0" "pv_num_descs hr1 = pv_num_descs hm1"
    and "quiet_notify cr" "ns_wanted (pd_dfeatures (hp_vdev pm))" "ns_wanted (pd_dfeatures (hp_vdev pr))" "nat (sint (hp_num_chnls pr)) = 1"
    and "cf_vatopa cm = (\<lambda>a. a)" "cf_vatopa cr = (\<lambda>a. a)" "cf_patova cr = (\<lambda>a. a)" "recording_chnls cm" "recording_chnls cr"
    and "2 \<le> sp_total_buffs pool" "min (unat (pv_num_descs hm0)) (sp_total_buffs pool div 2) < pool_capacity pool"
  shows "\<exists>rdm wm' dm mr rdr wr' dr rt rr wr2 wm3 wr4 c ept a c' ept' a'.
    rpmsg_init cm idm NULL ccm cdm (Some cbm) RPMSG_REMOTE wm = Some (RPMSG_SUCCESS, rdm, wm') \<and>
    rpmsg_init cr idr NULL ccr cdr (Some cbr) RPMSG_MASTER (shared_with wm' wr) = Some (RPMSG_SUCCESS, rdr, wr') \<and>
    w_rdevs wm' rdm = Some dm \<and> w_vqs wm' (rd_rvq dm) = Some mr \<and> vq_callback mr = Some Rpmsg_rx_callback \<and>
    w_rdevs wr' rdr = Some dr \<and> w_vqs wr' (rd_tvq dr) = Some rt \<and> w_vqs wr' (rd_rvq dr) = Some rr \<and> vq_callback rr = Some Rpmsg_rx_callback \<and>
    rpmsg_tx_callback cr rt wr' = Some wr2 \<and> rpmsg_rx_callback cm mr (shared_with wr2 wm') = Some wm3 \<and>
    rpmsg_rx_callback cr rr (shared_with wm3 wr2) = Some wr4 \<and>
    w_chnls wm3 c = Some \<lparr>ch_name = nm 0, ch_src = a, ch_dst = a', ch_rdev = rdm, ch_rp_ept = ept, ch_state = RPMSG_CHNL_STATE_ACTIVE\<rparr> \<and>
    w_chnls wr4 c' = Some \<lparr>ch_name = nm 0, ch_src = a', ch_dst = a, ch_rdev = rdr, ch_rp_ept = ept', ch_state = RPMSG_CHNL_STATE_ACTIVE\<rparr> \<and>
    a \<noteq> 0 \<and> w_app wm3 = w_app wm' @ chnl_events ccm c \<and> w_app wr4 = w_app wr' @ chnl_events ccr c'"
proof -
  let ?m = "unat (pv_num_descs hm0)"
  from both_start [OF assms(1-8), of ccm cdm cbm ccr cdr cbr] obtain rdm wm' dm rdr wr' dr bs pool' mt mr rt rr S0 S1 R0 R1 T where
    i: "rpmsg_init cm idm NULL ccm cdm (Some cbm) RPMSG_REMOTE wm = Some (RPMSG_SUCCESS, rdm, wm')"
      "rpmsg_init cr idr NULL ccr cdr (Some cbr) RPMSG_MASTER (shared_with wm' wr) = Some (RPMSG_SUCCESS, rdr, wr')"
    and u: "dev_up rdm dm mt R1 mr R0 wm'" "rd_role dm = RPMSG_REMOTE" "dev_up rdr dr rt S0 rr S1 wr'" "rd_role dr = RPMSG_MASTER"
      "vq_callback mr = Some Rpmsg_rx_callback" "vq_callback rr = Some Rpmsg_rx_callback"
    and rel: "ring_rel (cf_vatopa cm) \<lparr>rs_drv = mr, rs_dev = rt, rs_ring = S0\<rparr> (offer_all bs (ring_abs0 ?m))"
      "ring_rel (cf_vatopa cm) \<lparr>rs_drv = mt, rs_dev = rr, rs_ring = S1\<rparr> (ring_abs0 (unat (pv_num_descs hm1)))"
    and b: "length bs = min ?m (sp_total_buffs pool div 2)" "distinct bs" "w_pools wm' (rd_mem_pool dm) = Some pool'" "pool_inv pool'"
      "same_geometry pool pool'" "live_buffers pool' = set bs"
    and ns: "rd_support_ns dr = ns_wanted (pd_dfeatures (hp_vdev pr))" and tm: "ept_inv rdm wm' T" "chnl_inv rdm wm' []"
    and an: "announcing rdr cbr pr nm wr'" and nm0: "ns_map (pd_dfeatures (hp_vdev pm)) rdm Map.empty T wm'"
    and cc: "rd_channel_created dm = ccm" "rd_default_cb dm = Some cbm" "rd_mem_pool dm \<noteq> NULL" "rd_channel_created dr = ccr"
    and mem: "vq_ring_mem mt = pv_phy_addr hm1" "vq_ring_mem mr = pv_phy_addr hm0" "vq_ring_mem rt = pv_phy_addr hm0" "vq_ring_mem rr = pv_phy_addr hm1"
    by (elim exE conjE) (rule that; assumption)
  have pm: "pv_phy_addr hm0 \<noteq> pv_phy_addr hm1" "0 < ?m" "0 < unat (pv_num_descs hm1)"
    using assms(3) pow2_size_pos by (auto simp: master_platform_def ring_pair_def)
  have sz: "sp_buff_size pool = 512" "sp_buff_size pool' = 512" using master_pool_size [OF assms(3)] b(5) by (simp_all add: same_geometry_def)
  have pa: "pool_addressed cm cr pool" using assms(13-15) by (simp add: pool_addressed_def)
  have h: "rd_support_ns dr" "\<forall>i < nat (sint (hp_num_chnls pr)). env_strncpy (hp_chnls pr ! i) RPMSG_NAME_SIZE = Some (nm i)" "length bs \<le> ?m"
    "nat (sint (hp_num_chnls pr)) \<le> length bs" using ns assms(4,11,12,18) b(1) pm(2) by (simp_all add: remote_platform_def)
  from announce_offered [OF an u(3,4) h(1,2) rel(1) h(3) b(2,4-6) sz(1) pa assms(9) h(4)] obtain wr2 rt2 S2 cs ts Tr where
    a: "rpmsg_tx_callback cr rt wr' = Some wr2" "chnl_inv rdr wr' cs" "ept_inv rdr wr' Tr" "list_all2 (chnl_waits rdr cbr Tr wr') (rev (map nm [0..<1])) cs"
      "walk_frame wr' wr2" "only_vq (rd_tvq dr) (vq_ring_mem rt) wr' wr2" "vq_ident rt2 = vq_ident rt"
      "w_chnls wr2 = leave_idle RPMSG_CHNL_STATE_NS cs (w_chnls wr')"
      "list_all2 (\<lambda>n c. \<exists>ch. w_chnls wr' c = Some ch \<and> ch_name ch = n \<and> w_chnls wr2 c = Some (ch\<lparr>ch_state := RPMSG_CHNL_STATE_NS\<rparr>)) (rev (map nm [0..<1])) cs"
      "list_all2 (\<lambda>b c. \<exists>ch. w_chnls wr' c = Some ch \<and> name_ok ch \<and> ns_buffer (w_mem wr2) b ch) (take (length cs) bs) cs"
      "get_vq (rd_tvq dr) wr2 = Some (rt2, S2)" "map tk_cookie ts = take (length cs) bs"
      "ring_rel (cf_vatopa cm) \<lparr>rs_drv = mr, rs_dev = rt2, rs_ring = S2\<rparr>
        ((offer_all bs (ring_abs0 ?m))\<lparr>ra_pend := drop (length cs) (ra_pend (offer_all bs (ring_abs0 ?m))), ra_used := map (\<lambda>t. (t, RPMSG_BUFFER_SIZE)) ts\<rparr>)"
    unfolding assms(12) by blast
  from a(4,9) obtain c' ch ar er where c': "cs = [c']" "ch = \<lparr>ch_name = nm 0, ch_src = ar, ch_dst = RPMSG_NS_EPT_ADDR, ch_rdev = rdr, ch_rp_ept = er,
      ch_state = RPMSG_CHNL_STATE_IDLE\<rparr>" "w_chnls wr' c' = Some ch" "Tr ar = Some er"
    "w_epts wr' er = Some \<lparr>ep_rp_chnl = c', ep_cb = Some cbr, ep_addr = ar, ep_priv = rdr\<rparr>" "w_chnls wr2 c' = Some (ch\<lparr>ch_state := RPMSG_CHNL_STATE_NS\<rparr>)"
    by (auto simp: list_all2_Cons1 chnl_waits_def)
  obtain b0 bs' t where b0: "bs = b0 # bs'" "ts = [t]" "tk_cookie t = b0" "ns_buffer (w_mem wr2) b0 ch" "name_ok ch"
    using a(10,12) c'(1,3) b(1) pm(2) assms(18) by (cases bs) (auto simp: map_eq_Cons_conv)
  have b0': "b0 \<noteq> 0" "b0 \<in> live_buffers pool'" using live_nonzero [OF b(4)] b(6) b0(1) by auto
  have "card (live_buffers pool') < pool_capacity pool'"
    using assms(19) b(1,2,6) same_geometry_capacity [OF b(5)] by (simp add: distinct_card)
  from fresh_reply [OF b(4) this sz(2) b0'(2)] obtain b1 pool2 where
    f: "sh_mem_get_buffer pool' = Some (b1, pool2)" "b1 \<noteq> 0" "RPMSG_LOCATE_DATA b0 \<noteq> 0" "range32 (RPMSG_LOCATE_DATA b0) 40 \<inter> range32 b1 16 = {}" by blast
  let ?wm = "shared_with wr2 wm'"
  have rings: "w_rings wr2 (pv_phy_addr hm0) = Some S2" "w_rings wr2 (pv_phy_addr hm1) = Some S1" "w_vqs wr2 (rd_rvq dr) = Some rr"
    using a(6,7,11) u(3) mem pm(1) by (auto simp: get_vq_def option_bind_simps vq_ident_def only_vq_def dev_up_def)
  have nr: "ns_receivable cm rdm dm mt S1 mr S2 pool' b0 b1 ?wm"
    using u(1,2) rings mem pm(1) b(3) cc(3) f b0'(1) assms(13) notify_wired_cong [of _ _ ?wm wm']
    by (auto simp: ns_receivable_def dev_up_def shared_with_def get_vq_def option_bind_simps)
  have v: "mem_ok cm" "quiet_notify cm" "cf_vatopa cm 0 = 0" "cf_vatopa cr 0 = 0" using assms(3,13,14) by (simp_all add: master_platform_def)
  have used: "ra_used ((offer_all bs (ring_abs0 ?m))\<lparr>ra_pend := drop (length cs) (ra_pend (offer_all bs (ring_abs0 ?m))), ra_used := map (\<lambda>t. (t, RPMSG_BUFFER_SIZE)) ts\<rparr>) =
      [(t, RPMSG_BUFFER_SIZE)]" by (simp add: b0(2))
  from first_channel_opens [OF tm nm0 assms(10) nr cc(2,1) assms(16) v(1-3) a(13) used b0(3) rel(2) pm(3) b0(4,5)] obtain wm3 c ept a tq tr x A where
    o: "rpmsg_rx_callback cm mr ?wm = Some wm3" "a \<noteq> 0"
    "w_chnls wm3 c = Some \<lparr>ch_name = nm 0, ch_src = a, ch_dst = ar, ch_rdev = rdm, ch_rp_ept = ept, ch_state = RPMSG_CHNL_STATE_ACTIVE\<rparr>"
    "w_app wm3 = w_app wm' @ chnl_events ccm c" "w_mem wm3 = put_msg b1 a ar (load_bytes (w_mem wr2) (RPMSG_LOCATE_DATA b0) 40) 40 (w_mem wr2)"
    "w_rings wm3 (vq_ring_mem rr) = Some tr" "ring_rel (cf_vatopa cm) \<lparr>rs_drv = tq, rs_dev = rr, rs_ring = tr\<rparr> A" "ra_pend A = [buff_token x b1]"
    unfolding c'(2) mem by auto
  have q: "w_rdevs wm' rdm = Some dm" "w_vqs wm' (rd_rvq dm) = Some mr" "w_rdevs wr' rdr = Some dr" "w_vqs wr' (rd_tvq dr) = Some rt" "w_vqs wr' (rd_rvq dr) = Some rr"
    "vq_dev rr = rdr" "msg_hdr cr (cf_vatopa cm) (buff_token x b1) = b1"
    using u(1,3) assms(13-15) by (auto simp: dev_up_def get_vq_def option_bind_simps msg_hdr_def)
  from first_channel_completes [OF a(3,2,5,8) [unfolded c'(1)] q(3) u(4) q(6) rings(3) assms(17) v(4) o(6-8) q(7) f(2) o(5) _ c'(4,5) _ c'(6)] cc(4)
  obtain wr4 where w4: "rpmsg_rx_callback cr rr (shared_with wm3 wr2) = Some wr4" "w_chnls wr4 c' = Some (ch\<lparr>ch_dst := a, ch_state := RPMSG_CHNL_STATE_ACTIVE\<rparr>)"
    "w_app wr4 = w_app wr' @ chnl_events ccr c'" by (auto simp: c'(2))
  have ch4: "w_chnls wr4 c' = Some \<lparr>ch_name = nm 0, ch_src = ar, ch_dst = a, ch_rdev = rdr, ch_rp_ept = er, ch_state = RPMSG_CHNL_STATE_ACTIVE\<rparr>"
    using w4(2) by (simp add: c'(2))
  show ?thesis
    by (intro exI conjI, rule i(1), rule i(2), rule q(1), rule q(2), rule u(5), rule q(3), rule q(4), rule q(5), rule u(6), rule a(1), rule o(1), rule w4(1),
        rule o(3), rule ch4, rule o(2), rule o(4), rule w4(3))
qed

theorem channel_comes_up_witness:
  "\<exists>rdm wm' mr rdr wr' rt rr wr2 wm3 wr4 c ept a c' ept' a'.
    rpmsg_init board_cfg_example 1 NULL (Some 7) None (Some (App_rx_cb 0)) RPMSG_REMOTE world0 = Some (RPMSG_SUCCESS, rdm, wm') \<and>
    rpmsg_init board_cfg_example 1 NULL (Some 8) None (Some (App_rx_cb 1)) RPMSG_MASTER (shared_with wm' world0) = Some (RPMSG_SUCCESS, rdr, wr') \<and>
    rpmsg_tx_callback board_cfg_example rt wr' = Some wr2 \<and> rpmsg_rx_callback board_cfg_example mr (shared_with wr2 wm') = Some wm3 \<and>
    rpmsg_rx_callback board_cfg_example rr (shared_with wm3 wr2) = Some wr4 \<and>
    w_chnls wm3 c = Some \<lparr>ch_name = demo_name, ch_src = a, ch_dst = a', ch_rdev = rdm, ch_rp_ept = ept, ch_state = RPMSG_CHNL_STATE_ACTIVE\<rparr> \<and>
    w_chnls wr4 c' = Some \<lparr>ch_name = demo_name, ch_src = a', ch_dst = a, ch_rdev = rdr, ch_rp_ept = ept', ch_state = RPMSG_CHNL_STATE_ACTIVE\<rparr> \<and>
    w_app wm3 = w_app wm' @ [Chnl_event 7 c]"
proof -
  have c: "cold world0" by (simp add: cold_def no_tables_def objs_fresh_def world0_def)
  have h: "ns_wanted (pd_dfeatures (hp_vdev board_example))" "nat (sint (hp_num_chnls board_example)) = 1"
    "cf_vatopa board_cfg_example = (\<lambda>a. a)" "cf_patova board_cfg_example = (\<lambda>a. a)" "recording_chnls board_cfg_example" "2 \<le> sp_total_buffs board_pool_example"
    by (simp_all add: board_cfg_example_def cfg_example_def ns_wanted_def board_example_def recording_chnls_def
        VIRTIO_RPMSG_F_NS_def board_pool_example_def)
  have k: "min (unat (pv_num_descs (ring_example_at 0x08000000))) (sp_total_buffs board_pool_example div 2) < pool_capacity board_pool_example" by code_simp
  show ?thesis
    using channel_comes_up [OF c c board_master board_remote refl refl refl refl board_quiet(3) h(1,1,2,3,3-5,5,6) k,
        of "Some 7" None "App_rx_cb 0" "Some 8" None "App_rx_cb 1"] by (auto simp: chnl_events_def) blast
qed

end
