(* ===== verification/Boards.thy ===== *)
theory Boards
  imports RscTable Platform
begin

text \<open>
  The tables of the boards under \<^verbatim>\<open>apps/machine\<close> and of \<^verbatim>\<open>apps/linux_firmware_remoteproc_slave\<close>: processor tables
  (\<^verbatim>\<open>platform_info.c\<close>) and resource tables (\<^verbatim>\<open>rsc_table.c\<close>).  They are the data the library is started with: the
  processor comes from the first, its rings from the second.  The tables are shown to fit together: the parser
  accepts every one, and the memory of the rings, of the shared buffers and of the images does not overlap.
\<close>

section \<open>Processor tables\<close>

definition demo_channel :: "char list" where
  "demo_channel = cstring ''rpmsg-openamp-demo-channel'' @ replicate 5 NUL"

text \<open>The ops tables of the two drivers.\<close>

definition a9_proc_ops :: hil_platform_ops where
  "a9_proc_ops = \<lparr>op_enable_interrupt = Some A9_fn, op_reg_ipi_after_deinit = None, op_notify = Some A9_fn,
     op_boot_cpu = Some A9_fn, op_shutdown_cpu = Some A9_fn\<rparr>"

definition a53_proc_ops :: hil_platform_ops where
  "a53_proc_ops = \<lparr>op_enable_interrupt = Some A53_fn, op_reg_ipi_after_deinit = Some A53_fn, op_notify = Some A53_fn,
     op_boot_cpu = Some A53_fn, op_shutdown_cpu = Some A53_fn\<rparr>"

text \<open>A ring slot of a processor table: only the interrupt is filled in.\<close>

definition table_vring :: "u32 \<Rightarrow> ptr \<Rightarrow> proc_vring" where
  "table_vring vect ipi = \<lparr>pv_vq = NULL, pv_phy_addr = 0, pv_num_descs = 0, pv_align = 0,
     pv_intr_info = \<lparr>in_vect_id = vect, in_priority = 0x1006, in_trigger_type = 1, in_data = ipi\<rparr>\<rparr>"

definition z7_proc_table :: "hil_proc list" where
  "z7_proc_table = map (\<lambda>cpu. \<lparr>hp_cpu_id = cpu, hp_sh_buff = \<lparr>shm_start_addr = 0x08008000, shm_size = 0x00200000, shm_flags = 0\<rparr>,
     hp_vdev = \<lparr>pd_num_vrings = 0, pd_dfeatures = 0, pd_gfeatures = 0, pd_vring_info = [table_vring 15 NULL, table_vring 14 NULL]\<rparr>,
     hp_num_chnls = 1, hp_chnls = [demo_channel], hp_ops = a9_proc_ops\<rparr>) [0, 1]"

text \<open>\<^verbatim>\<open>platform_info_remoteproc_master.c\<close>: the same with other interrupt vectors.\<close>

definition z7_master_proc_table :: "hil_proc list" where
  "z7_master_proc_table = map (\<lambda>cpu. \<lparr>hp_cpu_id = cpu, hp_sh_buff = \<lparr>shm_start_addr = 0x08008000, shm_size = 0x00200000, shm_flags = 0\<rparr>,
     hp_vdev = \<lparr>pd_num_vrings = 0, pd_dfeatures = 0, pd_gfeatures = 0, pd_vring_info = [table_vring 6 NULL, table_vring 3 NULL]\<rparr>,
     hp_num_chnls = 1, hp_chnls = [demo_channel], hp_ops = a9_proc_ops\<rparr>) [0, 1]"

text \<open>\<open>ipi\<close> is the address of the static structure \<^verbatim>\<open>chn_ipi_info\<close>.\<close>

definition r5_proc_table :: "ptr \<Rightarrow> hil_proc list" where
  "r5_proc_table ipi = map (\<lambda>cpu. \<lparr>hp_cpu_id = cpu, hp_sh_buff = \<lparr>shm_start_addr = 0x3ED08000, shm_size = 0x00200000, shm_flags = 0\<rparr>,
     hp_vdev = \<lparr>pd_num_vrings = 0, pd_dfeatures = 0, pd_gfeatures = 0, pd_vring_info = [table_vring 0xFFFFFFFF ipi, table_vring 65 ipi]\<rparr>,
     hp_num_chnls = 1, hp_chnls = [demo_channel], hp_ops = a53_proc_ops\<rparr>) [0, 1]"

definition r5_chn_ipi_info :: ipi_info where
  "r5_chn_ipi_info = \<lparr>ipi_base_addr = 0xff310000, ipi_chn_mask = 0x01000000\<rparr>"

section \<open>Resource tables\<close>

definition NO_RESOURCE_ENTRIES :: nat where "NO_RESOURCE_ENTRIES = 8"

text \<open>A string initialiser of a \<^verbatim>\<open>uint8_t\<close> array of 32 elements.\<close>

definition name32 :: "string \<Rightarrow> u8 list" where
  "name32 s = map of_char s @ replicate (32 - length s) 0"

definition board_carveout :: "u32 \<Rightarrow> u32 \<Rightarrow> string \<Rightarrow> rsc" where
  "board_carveout da len name = Carveout \<lparr>cv_type = 0, cv_da = da, cv_pa = da, cv_len = len, cv_flags = 0, cv_reserved = 0,
     cv_name = name32 name\<rparr>"

definition board_vdev :: "u32 \<Rightarrow> u32 \<Rightarrow> rsc" where
  "board_vdev tx rx = Vdev \<lparr>vd_type = 3, vd_id = 7, vd_notifyid = 0, vd_dfeatures = 1, vd_gfeatures = 0, vd_config_len = 0,
     vd_status = 0, vd_num_of_vrings = 2, vd_reserved0 = 0, vd_reserved1 = 0\<rparr>
     [\<lparr>vv_da = tx, vv_align = 0x1000, vv_num = 256, vv_notifyid = 1, vv_reserved = 0\<rparr>,
      \<lparr>vv_da = rx, vv_align = 0x1000, vv_num = 256, vv_notifyid = 2, vv_reserved = 0\<rparr>]"

definition z7_resources :: "rsc list" where
  "z7_resources = [board_carveout 0x00000000 0x08000000 ''ELF_COUT'', board_vdev 0x08000000 0x08004000]"

definition linux_slave_resources :: "rsc list" where
  "linux_slave_resources = [board_carveout 0x00000000 0x08000000 ''ELF_COUT'', board_vdev 0x08000000 0x08004000]"

definition r5_resources :: "rsc list" where
  "r5_resources = [board_carveout 0xFFFC0000 0x20000 ''OCM0_COUT'', board_carveout 0xFFFF0000 0x10000 ''ELF_DATA_COUT'',
     board_vdev 0x3ED00000 0x3ED04000]"

section \<open>Memory regions\<close>

text \<open>A region is a start address and a size; the regions of a board lie in the address space and do not overlap.\<close>

type_synonym region = "u32 \<times> u32"

fun regions_disjoint :: "region list \<Rightarrow> bool" where
  "regions_disjoint [] \<longleftrightarrow> True"
| "regions_disjoint ((a, n) # rs) \<longleftrightarrow> unat a + unat n \<le> 2 ^ 32 \<and>
     list_all (\<lambda>(b, m). unat a + unat n \<le> unat b \<or> unat b + unat m \<le> unat a) rs \<and> regions_disjoint rs"

text \<open>The regions of a configured processor: its rings and the shared buffers.\<close>

definition proc_regions :: "hil_proc \<Rightarrow> region list" where
  "proc_regions pr = map (\<lambda>v. (pv_phy_addr v, vring_size (ucast (pv_num_descs v)) (pv_align v))) (pd_vring_info (hp_vdev pr)) @
     [(shm_start_addr (hp_sh_buff pr), shm_size (hp_sh_buff pr))]"

fun rsc_carveouts :: "rsc list \<Rightarrow> region list" where
  "rsc_carveouts [] = []"
| "rsc_carveouts (Carveout c # rs) = (cv_da c, cv_len c) # rsc_carveouts rs"
| "rsc_carveouts (Vdev d vs # rs) = rsc_carveouts rs"

definition boards :: "ptr \<Rightarrow> (hil_proc list \<times> rsc list) list" where
  "boards ipi = [(z7_proc_table, z7_resources), (z7_master_proc_table, z7_resources), (z7_proc_table, linux_slave_resources),
     (r5_proc_table ipi, r5_resources)]"

lemmas board_defs = boards_def z7_proc_table_def z7_master_proc_table_def r5_proc_table_def z7_resources_def
  linux_slave_resources_def r5_resources_def board_carveout_def board_vdev_def table_vring_def

lemma boards_valid: "(procs, rs) \<in> set (boards ipi) \<Longrightarrow> (\<forall>r \<in> set rs. valid_rsc r) \<and> length rs \<le> NO_RESOURCE_ENTRIES"
  by (auto simp: board_defs name32_def NO_RESOURCE_ENTRIES_def)

lemma boards_procs:
  "(procs, rs) \<in> set (boards ipi) \<Longrightarrow> platform_get_processor_info procs cpu = Some pr \<Longrightarrow> pr \<in> set procs"
  by (auto simp: board_defs split: if_splits)

text \<open>The configured processor, for every board and every processor of it.\<close>

definition board_ok :: "rsc list \<Rightarrow> hil_proc \<Rightarrow> hil_proc \<Rightarrow> bool" where
  "board_ok rs pr pr' \<longleftrightarrow> hil_proc_wf pr' \<and> unat (pd_num_vrings (hp_vdev pr')) = 2 \<and> bit (pd_dfeatures (hp_vdev pr')) 0 \<and>
     regions_disjoint (proc_regions pr' @ rsc_carveouts rs) \<and>
     list_all (\<lambda>v. pv_num_descs v = 256) (pd_vring_info (hp_vdev pr')) \<and>
     map pv_intr_info (pd_vring_info (hp_vdev pr')) = map pv_intr_info (pd_vring_info (hp_vdev pr))"

lemma boards_all:
  "list_all (\<lambda>(procs, rs). list_all (\<lambda>pr. length (pd_vring_info (hp_vdev pr)) = 2 \<and> board_ok rs pr (fold rsc_configure rs pr)) procs)
     (boards ipi)"
  by (simp add: board_defs board_ok_def proc_regions_def hil_proc_wf_def set_vrings_def set_vring_def vring_size_def Let_def)

lemma boards_configured:
  "(procs, rs) \<in> set (boards ipi) \<Longrightarrow> pr \<in> set procs \<Longrightarrow>
     length (pd_vring_info (hp_vdev pr)) = 2 \<and> board_ok rs pr (fold rsc_configure rs pr)"
  using boards_all [of ipi] by (fastforce simp: list_all_iff)

text \<open>
  Property C30.  The shipped tables fit together.  For every board, every processor the platform code finds in the board's processor table,
  and the board's resource table anywhere in memory (not wrapping around), parsing the table succeeds and leaves
  the processor with two rings of 256 descriptors, the name-service feature and its interrupts; the two rings, the
  shared buffer memory and the carveouts of the images lie within the address space and do not overlap.
\<close>

theorem board_tables_consistent:
  assumes "(procs, rs) \<in> set (boards ipi)" "platform_get_processor_info procs cpu = Some pr"
    and "holds (w_mem w) a (encode_table NO_RESOURCE_ENTRIES rs)" "unat a + length (encode_table NO_RESOURCE_ENTRIES rs) \<le> 2 ^ 32"
      "length (encode_table NO_RESOURCE_ENTRIES rs) \<le> unat sz" "w_procs w (rp_proc rproc) = Some pr"
  shows "\<exists>w' pr'. handle_rsc_table rproc a sz w = Some (RPROC_SUCCESS, w') \<and> w_procs w' (rp_proc rproc) = Some pr' \<and> board_ok rs pr pr'"
proof -
  have pr: "length (pd_vring_info (hp_vdev pr)) = 2" "board_ok rs pr (fold rsc_configure rs pr)"
    using boards_configured [OF assms(1) boards_procs [OF assms(1,2)]] by simp_all
  show ?thesis using handle_rsc_table_encode [OF assms(3) _ _ assms(4-6) pr(1)] boards_valid [OF assms(1)] pr(2) by simp
qed

definition r5_world_example :: world where
  "r5_world_example = (rsc_world_example (store_bytes (\<lambda>a. 0) 0x1000 (encode_table NO_RESOURCE_ENTRIES r5_resources)))
     \<lparr>w_procs := [5 \<mapsto> hd (r5_proc_table 9)]\<rparr>"

lemma length_r5_resources: "length (encode_table NO_RESOURCE_ENTRIES r5_resources) = 228"
  by (subst length_encode_table) (simp_all add: board_defs NO_RESOURCE_ENTRIES_def encode_carveout_def name32_def)

theorem board_tables_consistent_witness:
  "\<exists>w' pr'. handle_rsc_table rproc_example 0x1000 228 r5_world_example = Some (RPROC_SUCCESS, w') \<and> w_procs w' 5 = Some pr' \<and>
     board_ok r5_resources (hd (r5_proc_table 9)) pr'"
proof -
  have b: "(r5_proc_table 9, r5_resources) \<in> set (boards 9)" by (simp add: boards_def)
  have p: "platform_get_processor_info (r5_proc_table 9) HIL_RSVD_CPU_ID = Some (hd (r5_proc_table 9))" by (simp add: r5_proc_table_def)
  have h: "holds (w_mem r5_world_example) 0x1000 (encode_table NO_RESOURCE_ENTRIES r5_resources)"
    by (simp add: r5_world_example_def rsc_world_example_def holds_store_bytes length_r5_resources)
  have w: "w_procs r5_world_example (rp_proc rproc_example) = Some (hd (r5_proc_table 9))" "rp_proc rproc_example = 5"
    by (simp_all add: r5_world_example_def rproc_example_def)
  show ?thesis using board_tables_consistent [OF b p h _ _ w(1), of 228] w(2) by (simp add: length_r5_resources)
qed

end
