(* ===== verification/MatrixDemo.thy ===== *)
theory MatrixDemo
  imports Memory
begin

text \<open>
  The matrix multiplication of the demonstration applications \<^verbatim>\<open>apps/matrix_multiply/matrix_multiplyd.c\<close> (the remote) and
  \<^verbatim>\<open>matrix_multiplyd_remoteproc_master.c\<close> (the master), on the six by six arrays of the sources, and the bytes of a
  matrix in a message.
\<close>

section \<open>Matrices\<close>

definition MAX_SIZE :: nat where "MAX_SIZE = 6"

record matrix =
  mx_size :: u32
  mx_elements :: "u32 list list"

definition mget :: "'a list list \<Rightarrow> nat \<Rightarrow> nat \<Rightarrow> 'a option" where
  "mget es i j = do { row \<leftarrow> aget es i; aget row j }"

definition mset :: "'a list list \<Rightarrow> nat \<Rightarrow> nat \<Rightarrow> 'a \<Rightarrow> 'a list list option" where
  "mset es i j v = do { row \<leftarrow> aget es i; row \<leftarrow> aset row j v; aset es i row }"

text \<open>The three loops; an element outside the six by six array is an access outside its bounds.\<close>

fun mm_loop_k :: "u32 list list \<Rightarrow> u32 list list \<Rightarrow> nat \<Rightarrow> nat \<Rightarrow> nat list \<Rightarrow> u32 list list \<Rightarrow> u32 list list option" where
  "mm_loop_k m n i j [] r = Some r"
| "mm_loop_k m n i j (k # ks) r = do {
     a \<leftarrow> mget m i k; b \<leftarrow> mget n k j; c \<leftarrow> mget r i j;
     r \<leftarrow> mset r i j (c + a * b);
     mm_loop_k m n i j ks r }"

fun mm_loop_j :: "u32 list list \<Rightarrow> u32 list list \<Rightarrow> nat list \<Rightarrow> nat \<Rightarrow> nat list \<Rightarrow> u32 list list \<Rightarrow> u32 list list option" where
  "mm_loop_j m n ks i [] r = Some r"
| "mm_loop_j m n ks i (j # js) r = do { r \<leftarrow> mm_loop_k m n i j ks r; mm_loop_j m n ks i js r }"

fun mm_loop_i :: "u32 list list \<Rightarrow> u32 list list \<Rightarrow> nat list \<Rightarrow> nat list \<Rightarrow> nat list \<Rightarrow> u32 list list \<Rightarrow> u32 list list option" where
  "mm_loop_i m n ks js [] r = Some r"
| "mm_loop_i m n ks js (i # is') r = do { r \<leftarrow> mm_loop_j m n ks i js r; mm_loop_i m n ks js is' r }"

text \<open>\<^verbatim>\<open>Matrix_Multiply\<close> of \<^verbatim>\<open>matrix_multiplyd.c\<close>: the result is cleared with \<^verbatim>\<open>env_memset\<close>.\<close>

definition Matrix_Multiply :: "matrix \<Rightarrow> matrix \<Rightarrow> matrix option" where
  "Matrix_Multiply m n = do {
     let sz = mx_size m;
     es \<leftarrow> mm_loop_i (mx_elements m) (mx_elements n) [0..<unat sz] [0..<unat (mx_size n)] [0..<unat sz]
       (replicate MAX_SIZE (replicate MAX_SIZE 0));
     Some \<lparr>mx_size = sz, mx_elements = es\<rparr> }"

text \<open>\<^verbatim>\<open>Matrix_Multiply\<close> of \<^verbatim>\<open>matrix_multiplyd_remoteproc_master.c\<close>: only the elements that are computed are cleared.\<close>

fun mm_zero_j :: "nat \<Rightarrow> nat list \<Rightarrow> u32 list list \<Rightarrow> u32 list list option" where
  "mm_zero_j i [] r = Some r"
| "mm_zero_j i (j # js) r = do { r \<leftarrow> mset r i j 0; mm_zero_j i js r }"

fun mm_zero_i :: "nat list \<Rightarrow> nat list \<Rightarrow> u32 list list \<Rightarrow> u32 list list option" where
  "mm_zero_i js [] r = Some r"
| "mm_zero_i js (i # is') r = do { r \<leftarrow> mm_zero_j i js r; mm_zero_i js is' r }"

definition master_Matrix_Multiply :: "matrix \<Rightarrow> matrix \<Rightarrow> matrix \<Rightarrow> matrix option" where
  "master_Matrix_Multiply m n r = do {
     let sz = mx_size m;
     es \<leftarrow> mm_zero_i [0..<unat (mx_size n)] [0..<unat sz] (mx_elements r);
     es \<leftarrow> mm_loop_i (mx_elements m) (mx_elements n) [0..<unat sz] [0..<unat (mx_size n)] [0..<unat sz] es;
     Some \<lparr>mx_size = sz, mx_elements = es\<rparr> }"

subsection \<open>Matrices as functions\<close>

definition mat :: "(nat \<Rightarrow> nat \<Rightarrow> u32) \<Rightarrow> u32 list list" where
  "mat f = map (\<lambda>i. map (f i) [0..<MAX_SIZE]) [0..<MAX_SIZE]"

definition matrix_wf :: "matrix \<Rightarrow> bool" where
  "matrix_wf m \<longleftrightarrow> length (mx_elements m) = MAX_SIZE \<and> (\<forall>row \<in> set (mx_elements m). length row = MAX_SIZE) \<and> unat (mx_size m) \<le> MAX_SIZE"

lemma mat_of_elements:
  assumes "length es = MAX_SIZE" "\<forall>row \<in> set es. length row = MAX_SIZE"
  shows "es = mat (\<lambda>i j. es ! i ! j)"
  using assms by (intro nth_equalityI) (auto simp: mat_def intro!: nth_equalityI)

lemma mget_mat: "i < MAX_SIZE \<Longrightarrow> j < MAX_SIZE \<Longrightarrow> mget (mat f) i j = Some (f i j)"
  by (simp add: mget_def mat_def)

lemma mset_mat: "i < MAX_SIZE \<Longrightarrow> j < MAX_SIZE \<Longrightarrow> mset (mat f) i j v = Some (mat (f(i := (f i)(j := v))))"
  by (auto simp: mset_def mat_def intro!: nth_equalityI simp: nth_list_update)

lemma mat_cong: "(\<And>i j. i < MAX_SIZE \<Longrightarrow> j < MAX_SIZE \<Longrightarrow> f i j = g i j) \<Longrightarrow> mat f = mat g"
  by (simp add: mat_def)

lemma mm_loop_k_mat:
  assumes "i < MAX_SIZE" "j < MAX_SIZE" "set ks \<subseteq> {..<MAX_SIZE}"
  shows "mm_loop_k (mat f) (mat g) i j ks (mat r) = Some (mat (r(i := (r i)(j := r i j + (\<Sum>k\<leftarrow>ks. f i k * g k j)))))"
  using assms(3)
proof (induction ks arbitrary: r)
  case (Cons k ks)
  then show ?case using assms(1,2) by (auto simp: mget_mat mset_mat add.assoc intro!: arg_cong [where f = mat] ext)
qed simp

lemma mm_loop_j_mat:
  assumes "i < MAX_SIZE" "set ks \<subseteq> {..<MAX_SIZE}" "set js \<subseteq> {..<MAX_SIZE}" "distinct js"
  shows "mm_loop_j (mat f) (mat g) ks i js (mat r) =
    Some (mat (r(i := (\<lambda>j. if j \<in> set js then r i j + (\<Sum>k\<leftarrow>ks. f i k * g k j) else r i j))))"
  using assms(3,4)
proof (induction js arbitrary: r)
  case (Cons j js)
  then show ?case using assms(1,2)
    by (auto simp: mm_loop_k_mat intro!: arg_cong [where f = mat] ext)
qed simp

lemma mm_loop_i_mat:
  assumes "set is' \<subseteq> {..<MAX_SIZE}" "set ks \<subseteq> {..<MAX_SIZE}" "set js \<subseteq> {..<MAX_SIZE}" "distinct js" "distinct is'"
  shows "mm_loop_i (mat f) (mat g) ks js is' (mat r) =
    Some (mat (\<lambda>i j. if i \<in> set is' \<and> j \<in> set js then r i j + (\<Sum>k\<leftarrow>ks. f i k * g k j) else r i j))"
  using assms(1,5)
proof (induction is' arbitrary: r)
  case (Cons i is')
  then show ?case using assms(2-4)
    by (auto simp: mm_loop_j_mat intro!: arg_cong [where f = mat] ext)
qed simp

lemma mm_zero_j_mat:
  assumes "i < MAX_SIZE" "set js \<subseteq> {..<MAX_SIZE}"
  shows "mm_zero_j i js (mat r) = Some (mat (r(i := (\<lambda>j. if j \<in> set js then 0 else r i j))))"
  using assms(2)
proof (induction js arbitrary: r)
  case (Cons j js)
  then show ?case using assms(1) by (auto simp: mset_mat intro!: arg_cong [where f = mat] ext)
qed simp

lemma mm_zero_i_mat:
  assumes "set is' \<subseteq> {..<MAX_SIZE}" "set js \<subseteq> {..<MAX_SIZE}"
  shows "mm_zero_i js is' (mat r) = Some (mat (\<lambda>i j. if i \<in> set is' \<and> j \<in> set js then 0 else r i j))"
  using assms(1)
proof (induction is' arbitrary: r)
  case (Cons i is')
  then show ?case using assms(2) by (auto simp: mm_zero_j_mat intro!: arg_cong [where f = mat] ext)
qed simp

text \<open>The product, modulo \<open>2 ^ 32\<close>; outside the result it is the old content of the array.\<close>

definition mat_product :: "matrix \<Rightarrow> matrix \<Rightarrow> (nat \<Rightarrow> nat \<Rightarrow> u32) \<Rightarrow> u32 list list" where
  "mat_product m n old = mat (\<lambda>i j. if i < unat (mx_size m) \<and> j < unat (mx_size n)
     then (\<Sum>k < unat (mx_size m). mx_elements m ! i ! k * mx_elements n ! k ! j) else old i j)"

lemma mm_loop_i_wf:
  assumes "matrix_wf m" "matrix_wf n"
  shows "mm_loop_i (mx_elements m) (mx_elements n) [0..<unat (mx_size m)] [0..<unat (mx_size n)] [0..<unat (mx_size m)]
      (mat (\<lambda>i j. if i < unat (mx_size m) \<and> j < unat (mx_size n) then 0 else old i j)) = Some (mat_product m n old)"
proof -
  let ?f = "\<lambda>i j. mx_elements m ! i ! j" and ?g = "\<lambda>i j. mx_elements n ! i ! j"
  have e: "mx_elements m = mat ?f" "mx_elements n = mat ?g" using assms by (auto simp: matrix_wf_def intro: mat_of_elements)
  have s: "unat (mx_size m) \<le> MAX_SIZE" "unat (mx_size n) \<le> MAX_SIZE" using assms by (simp_all add: matrix_wf_def)
  have sum: "(\<Sum>k\<leftarrow>[0..<c]. h k) = (\<Sum>k<c. h k)" for c and h :: "nat \<Rightarrow> u32"
    by (simp add: interv_sum_list_conv_sum_set_nat atLeast0LessThan)
  have "mm_loop_i (mat ?f) (mat ?g) [0..<unat (mx_size m)] [0..<unat (mx_size n)] [0..<unat (mx_size m)]
      (mat (\<lambda>i j. if i < unat (mx_size m) \<and> j < unat (mx_size n) then 0 else old i j)) = Some (mat_product m n old)"
    using s by (subst mm_loop_i_mat) (auto simp: mat_product_def sum intro!: mat_cong)
  then show ?thesis using e by simp
qed

lemma Matrix_Multiply_wf:
  assumes "matrix_wf m" "matrix_wf n"
  shows "Matrix_Multiply m n = Some \<lparr>mx_size = mx_size m, mx_elements = mat_product m n (\<lambda>i j. 0)\<rparr>"
proof -
  have z: "replicate MAX_SIZE (replicate MAX_SIZE 0) = mat (\<lambda>i j. if i < unat (mx_size m) \<and> j < unat (mx_size n) then 0 else 0)"
    by (auto simp: mat_def intro!: nth_equalityI)
  show ?thesis using mm_loop_i_wf [OF assms, of "\<lambda>i j. 0"] by (simp add: Matrix_Multiply_def z)
qed


definition matrix_example :: "u32 \<Rightarrow> matrix" where
  "matrix_example c = \<lparr>mx_size = 2, mx_elements = mat (\<lambda>i j. c + of_nat (2 * i + j))\<rparr>"

lemma matrix_example_wf: "matrix_wf (matrix_example c)"
  by (auto simp: matrix_example_def matrix_wf_def mat_def MAX_SIZE_def)


section \<open>Matrices in memory\<close>

definition SIZEOF_MATRIX :: nat where "SIZEOF_MATRIX = 148"

text \<open>The structure at an address: the size and the elements row by row.\<close>

definition matrix_at :: "memory \<Rightarrow> u32 \<Rightarrow> matrix" where
  "matrix_at m a = \<lparr>mx_size = load32 m a, mx_elements = mat (\<lambda>i j. load32 m (a + of_nat (4 + 4 * (MAX_SIZE * i + j))))\<rparr>"

definition matrix_bytes :: "matrix \<Rightarrow> u8 list" where
  "matrix_bytes m = le32 (mx_size m) @ concat (map le32 (concat (mx_elements m)))"

lemma nth_concat_rows:
  "\<forall>row \<in> set xss. length row = n \<Longrightarrow> i < length xss \<Longrightarrow> j < n \<Longrightarrow> concat xss ! (n * i + j) = xss ! i ! j"
proof (induction xss arbitrary: i)
  case (Cons xs xss)
  then show ?case by (cases i) (simp_all add: nth_append)
qed simp

lemma length_concat_rows: "\<forall>row \<in> set xss. length row = n \<Longrightarrow> length (concat xss) = length xss * n"
  by (induction xss) auto

lemma length_matrix_bytes: "matrix_wf m \<Longrightarrow> length (matrix_bytes m) = SIZEOF_MATRIX"
proof -
  have "length (concat (map le32 ws)) = 4 * length ws" for ws by (induction ws) auto
  then show "matrix_wf m \<Longrightarrow> ?thesis"
    using length_concat_rows [of "mx_elements m" MAX_SIZE]
    by (simp add: matrix_bytes_def SIZEOF_MATRIX_def matrix_wf_def MAX_SIZE_def)
qed

lemma holds_words:
  "holds m a (concat (map le32 ws)) \<Longrightarrow> i < length ws \<Longrightarrow> load32 m (a + of_nat (4 * i)) = ws ! i"
proof (induction ws arbitrary: a i)
  case (Cons w ws)
  then have h: "holds m a (le32 w)" "holds m (a + 4) (concat (map le32 ws))" by (simp_all add: holds_append)
  show ?case
  proof (cases i)
    case 0
    then show ?thesis using h(1) by (simp add: holds_le32)
  next
    case (Suc k)
    then show ?thesis using Cons.IH [OF h(2), of k] Cons.prems(2) by (simp add: algebra_simps)
  qed
qed simp

lemma matrix_at_bytes:
  assumes "matrix_wf m" "holds mem a (matrix_bytes m)"
  shows "matrix_at mem a = m"
proof -
  have h: "holds mem a (le32 (mx_size m))" "holds mem (a + 4) (concat (map le32 (concat (mx_elements m))))"
    using assms(2) by (simp_all add: matrix_bytes_def holds_append)
  have wf: "length (mx_elements m) = MAX_SIZE" "\<forall>row \<in> set (mx_elements m). length row = MAX_SIZE"
    using assms(1) by (simp_all add: matrix_wf_def)
  have "load32 mem (a + of_nat (4 + 4 * (MAX_SIZE * i + j))) = mx_elements m ! i ! j" if "i < MAX_SIZE" "j < MAX_SIZE" for i j
  proof -
    have "MAX_SIZE * i + j < length (concat (mx_elements m))"
      using that wf(1) length_concat_rows [OF wf(2)] by (simp add: MAX_SIZE_def)
    from holds_words [OF h(2) this] show ?thesis
      using nth_concat_rows [OF wf(2), of i j] that wf(1) by (simp add: algebra_simps)
  qed
  then have "mat (\<lambda>i j. load32 mem (a + of_nat (4 + 4 * (MAX_SIZE * i + j)))) = mx_elements m"
    using mat_of_elements [OF wf] by (metis (no_types, lifting) mat_cong)
  then show ?thesis using holds_le32 [OF h(1)] by (simp add: matrix_at_def)
qed

end
