(* ===== verification/Demos.thy ===== *)
theory Demos
  imports MatrixDemo Remoteproc Retarget RpmsgTx
begin

text \<open>
  The demonstration applications under \<^verbatim>\<open>apps\<close>: the callbacks of the echo test, the matrix multiplication, the function
  test suite and the remote procedure call demo.  Their static pointers and flags are arguments and results, their static
  buffers are addresses of the memory.  The receive callbacks run inside the receive loop of the library, which matters
  when a callback shuts the device down.
\<close>

definition SHUTDOWN_MSG :: u32 where "SHUTDOWN_MSG = 0xEF56A55A"

text \<open>\<^verbatim>\<open>rpmsg_channel_created\<close> of the echo test and of the matrix demo, on both processors: the results are \<^verbatim>\<open>app_rp_chnl\<close> and \<^verbatim>\<open>rp_ept\<close>.\<close>

definition demo_channel_created :: "config \<Rightarrow> rx_cb \<Rightarrow> ptr \<Rightarrow> world \<Rightarrow> (ptr \<times> ptr \<times> world) option" where
  "demo_channel_created cf rpmsg_read_cb rp_chnl w = do {
     (rp_ept, w) \<leftarrow> rpmsg_create_ept cf rp_chnl (Some rpmsg_read_cb) NULL RPMSG_ADDR_ANY w;
     Some (rp_chnl, rp_ept, w) }"

definition demo_channel_deleted :: "ptr \<Rightarrow> world \<Rightarrow> world option" where
  "demo_channel_deleted rp_ept w = rpmsg_destroy_ept rp_ept w"

section \<open>Echo test\<close>

text \<open>The remote side; \<open>proc\<close> is the static handle of the remote processor.\<close>

definition echo_read_cb :: "config \<Rightarrow> ptr \<Rightarrow> ptr \<Rightarrow> u32 \<Rightarrow> u16 \<Rightarrow> rproc_state \<Rightarrow> rproc_state option" where
  "echo_read_cb cf proc rp_chnl data len s =
     (if load32 (w_mem (st_w s)) data = SHUTDOWN_MSG
      then do { (r, s) \<leftarrow> remoteproc_resource_deinit cf proc s; Some s }
      else do { (r, s) \<leftarrow> in_w (rpmsg_send cf rp_chnl data (int (unat len))) s; Some s })"

text \<open>The master side; the result has the new value of \<^verbatim>\<open>shutdown_called\<close>.\<close>

definition echo_master_read_cb :: "config \<Rightarrow> bool \<Rightarrow> ptr \<Rightarrow> u32 \<Rightarrow> u16 \<Rightarrow> world \<Rightarrow> (bool \<times> world) option" where
  "echo_master_read_cb cf shutdown_called rp_chnl data len w =
     (if load32 (w_mem w) data = SHUTDOWN_MSG then Some (True, w)
      else do { (r, w) \<leftarrow> rpmsg_send cf rp_chnl data (int (unat len)) w; Some (shutdown_called, w) })"

section \<open>Matrix multiplication\<close>

text \<open>
  The remote side.  \<open>matrix_array\<close> and \<open>matrix_result\<close> are the addresses of the static arrays of two matrices and of one; a
  message longer than the two matrices is copied past the end of the first.
\<close>

definition matrix_read_cb :: "config \<Rightarrow> ptr \<Rightarrow> ptr \<Rightarrow> u32 \<Rightarrow> u32 \<Rightarrow> u32 \<Rightarrow> u16 \<Rightarrow> rproc_state \<Rightarrow> rproc_state option" where
  "matrix_read_cb cf proc app_rp_chnl matrix_array matrix_result data len s =
     (if load32 (w_mem (st_w s)) data = SHUTDOWN_MSG
      then do { (r, s) \<leftarrow> remoteproc_resource_deinit cf proc s; Some s }
      else if 2 * SIZEOF_MATRIX < unat len then None
      else do {
        let mem = env_memcpy (w_mem (st_w s)) matrix_array data (ucast len);
        res \<leftarrow> Matrix_Multiply (matrix_at mem matrix_array) (matrix_at mem (matrix_array + of_nat SIZEOF_MATRIX));
        let mem = store_bytes mem matrix_result (matrix_bytes res);
        (r, s) \<leftarrow> in_w (rpmsg_send cf app_rp_chnl matrix_result (int SIZEOF_MATRIX)) (s\<lparr>st_w := (st_w s)\<lparr>w_mem := mem\<rparr>\<rparr>);
        Some s })"

text \<open>The master side: the callback stores the message, the main loop multiplies.  The flags are \<^verbatim>\<open>shutdown_called\<close> and \<^verbatim>\<open>int_flag\<close>.\<close>

definition matrix_master_read_cb :: "u32 \<Rightarrow> bool \<Rightarrow> u32 \<Rightarrow> u16 \<Rightarrow> memory \<Rightarrow> (bool \<times> bool \<times> memory) option" where
  "matrix_master_read_cb matrix_array shutdown_called data len mem =
     (if load32 mem data = SHUTDOWN_MSG then Some (True, True, mem)
      else if 2 * SIZEOF_MATRIX < unat len then None
      else Some (shutdown_called, True, env_memcpy mem matrix_array data (ucast len)))"

text \<open>One turn of the main loop; the first result says whether the loop is left, the second is the new \<^verbatim>\<open>int_flag\<close>.\<close>

definition matrix_master_turn ::
  "config \<Rightarrow> ptr \<Rightarrow> u32 \<Rightarrow> u32 \<Rightarrow> bool \<Rightarrow> bool \<Rightarrow> world \<Rightarrow> (bool \<times> bool \<times> world) option" where
  "matrix_master_turn cf app_rp_chnl matrix_array matrix_result int_flag shutdown_called w =
     (if \<not> int_flag then Some (False, int_flag, w)
      else if shutdown_called then Some (True, int_flag, w)
      else do {
        let mem = w_mem w;
        res \<leftarrow> master_Matrix_Multiply (matrix_at mem matrix_array) (matrix_at mem (matrix_array + of_nat SIZEOF_MATRIX))
          (matrix_at mem matrix_result);
        (r, w) \<leftarrow> rpmsg_send cf app_rp_chnl matrix_result (int SIZEOF_MATRIX)
          (w\<lparr>w_mem := store_bytes mem matrix_result (matrix_bytes res)\<rparr>);
        Some (False, False, w) })"

section \<open>Closing down on the master\<close>

text \<open>
  The end of \<^verbatim>\<open>main\<close> of the echo test and the matrix demo on the master, after the main loop: \<open>msg\<close> is the address of
  \<^verbatim>\<open>shutdown_msg\<close>.
\<close>

definition demo_master_close :: "config \<Rightarrow> ptr \<Rightarrow> ptr \<Rightarrow> u32 \<Rightarrow> rproc_state \<Rightarrow> rproc_state option" where
  "demo_master_close cf app_rp_chnl proc msg s = do {
     (r, s) \<leftarrow> in_w (rpmsg_send cf app_rp_chnl msg 4) s;
     (r, s) \<leftarrow> remoteproc_shutdown cf proc s;
     (r, s) \<leftarrow> remoteproc_deinit proc s;
     Some s }"

section \<open>Function test suite\<close>

definition CREATE_EPT :: u32 where "CREATE_EPT = 0"
definition DELETE_EPT :: u32 where "DELETE_EPT = 1"
definition CREATE_CHNL :: u32 where "CREATE_CHNL = 2"
definition DELETE_CHNL :: u32 where "DELETE_CHNL = 3"
definition QUERY_FW_NAME :: u32 where "QUERY_FW_NAME = 6"
definition CMD_START :: u32 where "CMD_START = 0xEF56A55A"

definition fts_firmware_name :: string where
  "fts_firmware_name = ''baremetal-fn-test-suite-remote-firmware''"

text \<open>The static variables of \<^verbatim>\<open>func_test_suite.c\<close>; \<open>ft_r_buffer\<close> and \<open>ft_name\<close> are the addresses of \<^verbatim>\<open>r_buffer\<close> and \<^verbatim>\<open>firmware_name\<close>.\<close>

record test_suite =
  ft_intr_flag :: bool
  ft_rp_ept :: ptr
  ft_app_rp_chnl :: ptr
  ft_Src :: u32
  ft_Len :: u32
  ft_r_buffer :: u32
  ft_name :: u32

definition fts_channel_created :: "ptr \<Rightarrow> test_suite \<Rightarrow> test_suite" where
  "fts_channel_created rp_chnl t = t\<lparr>ft_app_rp_chnl := rp_chnl\<rparr>"

definition fts_read_default_cb :: "u32 \<Rightarrow> u16 \<Rightarrow> u32 \<Rightarrow> test_suite \<Rightarrow> memory \<Rightarrow> (test_suite \<times> memory) option" where
  "fts_read_default_cb data len src t mem =
     (if 512 < unat len then None
      else Some (t\<lparr>ft_Src := src, ft_Len := ucast len, ft_intr_flag := True\<rparr>, env_memcpy mem (ft_r_buffer t) data (ucast len)))"

definition fts_read_ept_cb :: "config \<Rightarrow> test_suite \<Rightarrow> ptr \<Rightarrow> u32 \<Rightarrow> u16 \<Rightarrow> u32 \<Rightarrow> world \<Rightarrow> (int \<times> world) option" where
  "fts_read_ept_cb cf t rp_chnl data len src w = do {
     ep \<leftarrow> w_epts w (ft_rp_ept t);
     rpmsg_send_offchannel cf rp_chnl (ep_addr ep) src data (int (unat len)) w }"

text \<open>The acknowledgement: the message goes back to its sender.\<close>

definition fts_ack :: "config \<Rightarrow> test_suite \<Rightarrow> world \<Rightarrow> (int \<times> world) option" where
  "fts_ack cf t w = rpmsg_sendto cf (ft_app_rp_chnl t) (ft_r_buffer t) (sint (ft_Len t)) (ft_Src t) w"

text \<open>The commands; the result says whether the loop is left (\<^verbatim>\<open>uninit\<close>).  \<open>cb\<close> is \<^verbatim>\<open>rpmsg_read_ept_cb\<close>.\<close>

definition fts_command ::
  "config \<Rightarrow> rx_cb \<Rightarrow> ptr \<Rightarrow> u32 \<Rightarrow> test_suite \<Rightarrow> rproc_state \<Rightarrow> (bool \<times> test_suite \<times> rproc_state) option" where
  "fts_command cf cb proc cm_code t s =
     (if cm_code = CREATE_EPT then do {
        (ept, s) \<leftarrow> in_w (rpmsg_create_ept cf (ft_app_rp_chnl t) (Some cb) NULL (load32 (w_mem (st_w s)) (ft_r_buffer t + 12))) s;
        let t = t\<lparr>ft_rp_ept := ept\<rparr>;
        (if ept = NULL then Some (False, t, s)
         else do { (r, s) \<leftarrow> in_w (fts_ack cf t) s; Some (False, t, s) }) }
      else if cm_code = DELETE_EPT then do {
        s \<leftarrow> in_w0 (rpmsg_destroy_ept (ft_rp_ept t)) s;
        (r, s) \<leftarrow> in_w (fts_ack cf t) s;
        Some (False, t, s) }
      else if cm_code = CREATE_CHNL then Some (False, t, s)
      else if cm_code = DELETE_CHNL then do {
        (r, s) \<leftarrow> in_w (fts_ack cf t) s;
        (r, s) \<leftarrow> remoteproc_resource_deinit cf proc s;
        Some (True, t, s) }
      else if cm_code = QUERY_FW_NAME then do {
        (r, s) \<leftarrow> in_w (rpmsg_send cf (ft_app_rp_chnl t) (ft_name t) (int (length fts_firmware_name) + 1)) s;
        Some (False, t, s) }
      else do { (r, s) \<leftarrow> in_w (fts_ack cf t) s; Some (False, t, s) })"

text \<open>One turn of the loop of \<^verbatim>\<open>main\<close>.\<close>

definition fts_turn :: "config \<Rightarrow> rx_cb \<Rightarrow> ptr \<Rightarrow> test_suite \<Rightarrow> rproc_state \<Rightarrow> (bool \<times> test_suite \<times> rproc_state) option" where
  "fts_turn cf cb proc t s =
     (if \<not> ft_intr_flag t then Some (False, t, s)
      else do {
        let mem = w_mem (st_w s);
        (uninit, t, s) \<leftarrow>
          (if load32 mem (ft_r_buffer t) = CMD_START then fts_command cf cb proc (load32 mem (ft_r_buffer t + 4)) t s
           else do { (r, s) \<leftarrow> in_w (fts_ack cf t) s; Some (False, t, s) });
        Some (uninit, t\<lparr>ft_intr_flag := False\<rparr>, s) })"

section \<open>Remote procedure call demo\<close>

text \<open>\<^verbatim>\<open>rpmsg_channel_created\<close> and \<^verbatim>\<open>shutdown_cb\<close> of \<^verbatim>\<open>rpc_demo.c\<close>; the other callbacks are empty.\<close>

definition rpc_demo_channel_created :: "ptr \<Rightarrow> ptr \<times> bool" where
  "rpc_demo_channel_created rp_chnl = (rp_chnl, True)"

definition rpc_demo_shutdown_cb :: "config \<Rightarrow> ptr \<Rightarrow> ptr \<Rightarrow> rpc_state \<Rightarrow> rproc_state \<Rightarrow> (rpc_state \<times> rproc_state) option" where
  "rpc_demo_shutdown_cb cf proc rp_chnl t s = do {
     (r, t) \<leftarrow> rpmsg_retarget_deinit rp_chnl (t\<lparr>rt_w := st_w s\<rparr>);
     (r, s) \<leftarrow> remoteproc_resource_deinit cf proc (s\<lparr>st_w := rt_w t\<rparr>);
     Some (t\<lparr>rt_w := st_w s\<rparr>, s) }"

end
