(* ===== verification/DemoProps.thy ===== *)
theory DemoProps
  imports Demos RemoteprocProps
begin

text \<open>
  Properties of the demonstration applications: the answers of the echo test and of the matrix demo, and what the shutdown
  message does to the receive loop the callback was called from.
\<close>

section \<open>The shutdown message\<close>

text \<open>
  The receive callback \<open>f\<close> of an application as the callback of the library's receive loop; \<open>s\<close> has the remote processors and
  loaders, which only the shutdown changes.
\<close>

definition with_rx_cb :: "(ptr \<Rightarrow> u32 \<Rightarrow> u16 \<Rightarrow> rproc_state \<Rightarrow> rproc_state option) \<Rightarrow> rproc_state \<Rightarrow> config \<Rightarrow> config" where
  "with_rx_cb f s cf = cf\<lparr>cf_rx_cb := (\<lambda>n chnl data len priv src w. map_option st_w (f chnl data len (s\<lparr>st_w := w\<rparr>)))\<rparr>"

definition closes_device :: "config \<Rightarrow> ptr \<Rightarrow> (ptr \<Rightarrow> u32 \<Rightarrow> u16 \<Rightarrow> rproc_state \<Rightarrow> rproc_state option) \<Rightarrow> bool" where
  "closes_device cf proc f \<longleftrightarrow> (\<forall>chnl data len s. load32 (w_mem (st_w s)) data = SHUTDOWN_MSG \<longrightarrow>
     f chnl data len s = map_option snd (remoteproc_resource_deinit cf proc s))"

lemma closes_device_echo: "closes_device cf proc (echo_read_cb cf proc)"
  by (auto simp: closes_device_def echo_read_cb_def split: bind_split prod.splits)

lemma closes_device_matrix: "closes_device cf proc (\<lambda>c. matrix_read_cb cf proc chnl arr res)"
  by (auto simp: closes_device_def matrix_read_cb_def split: bind_split prod.splits)

lemma hil_delete_proc_rdevs: "hil_delete_proc p w = Some w' \<Longrightarrow> w_rdevs w' = w_rdevs w"
  by (auto simp: hil_delete_proc_def option_bind_simps split: if_splits prod.splits)

lemma rpmsg_deinit_frees_rdev: "rpmsg_deinit cf rdev w = Some w' \<Longrightarrow> rdev \<noteq> NULL \<Longrightarrow> w_rdevs w' rdev = None"
  by (auto simp: rpmsg_deinit_def rpmsg_rdev_deinit_def option_bind_simps env_deinit_def)

lemma resource_deinit_frees_rdev:
  assumes "remoteproc_resource_deinit cf proc s = Some (st, s')" "proc \<noteq> NULL" "st_rprocs s proc = Some r" "rp_rdev r \<noteq> NULL"
  shows "w_rdevs (st_w s') (rp_rdev r) = None"
proof -
  have c: "w_rdevs (env_flush_invalidate_all_caches (snd (env_deinit w))) = w_rdevs w" for w
    by (simp add: env_deinit_def env_flush_invalidate_all_caches_def plat_call_def)
  have d: "w_rdevs w1 (rp_rdev r) = None" if "rpmsg_deinit cf (rp_rdev r) w0 = Some w1" for w0 w1
    using rpmsg_deinit_frees_rdev [OF that assms(4)] .
  have h: "w_rdevs w2 (rp_rdev r) = None" if "hil_delete_proc p w1 = Some w2" "w_rdevs w1 (rp_rdev r) = None" for p w1 w2
    using hil_delete_proc_rdevs [OF that(1)] that(2) by simp
  show ?thesis using assms unfolding remoteproc_resource_deinit_def in_w0_def
    by (simp add: option_bind_simps split: if_splits option.splits) (auto simp: c dest: d h)
qed

lemma deliver_closes:
  assumes "closes_device cf proc f" "proc \<noteq> NULL" "st_rprocs s proc = Some r" "rp_rdev r \<noteq> NULL"
    and "w_nodes w node = Some nd" "w_epts w (ll_data nd) = Some ep" "ep_cb ep = Some (App_rx_cb k)"
    and "chnl_in_ns (ep_rp_chnl ep) w = Some False" "load32 (w_mem w) (RPMSG_LOCATE_DATA hdr) = SHUTDOWN_MSG"
    and "rpmsg_deliver (with_rx_cb f s cf') rdev node hdr w = Some w'"
  shows "w_rdevs w' (rp_rdev r) = None"
proof -
  obtain st s' where "remoteproc_resource_deinit cf proc (s\<lparr>st_w := w\<rparr>) = Some (st, s')" "w' = st_w s'"
    using assms by (auto simp: rpmsg_deliver_def call_rx_cb_def with_rx_cb_def closes_device_def)
  then show ?thesis using resource_deinit_frees_rdev assms(2-4) by simp
qed

lemma rx_loop_without_device:
  assumes "hdr \<noteq> 0" "rpmsg_rdev_get_endpoint_from_addr rdev (load32 (w_mem w) (hdr + 4)) w = Some (node, w1)" "node \<noteq> NULL"
    and "\<And>w'. rpmsg_deliver cf rdev node hdr w1 = Some w' \<Longrightarrow> w_rdevs w' rdev = None"
  shows "rpmsg_rx_loop cf rdev hdr len idx w = None"
  using assms
  by (subst rpmsg_rx_loop.simps) (auto simp: rpmsg_return_buffer_def split: bind_split)

text \<open>
  Property C28.  The shutdown message of the echo test and of the matrix demo ends in freed memory.  The receive callback
  closes the remote processor, and with it the device whose receive loop called it; when the callback returns the loop locks
  the device and gives the buffer back to its queue, and both are gone.  So the receive loop never returns normally
  after a shutdown message.
\<close>

theorem shutdown_message_use_after_free:
  assumes "f = echo_read_cb cf proc \<or> f = (\<lambda>c. matrix_read_cb cf proc chnl arr res)"
    and "proc \<noteq> NULL" "st_rprocs s proc = Some r" "rp_rdev r = rdev" "rdev \<noteq> NULL"
    and "hdr \<noteq> 0" "rpmsg_rdev_get_endpoint_from_addr rdev (load32 (w_mem w) (hdr + 4)) w = Some (node, w1)" "node \<noteq> NULL"
    and "w_nodes w1 node = Some nd" "w_epts w1 (ll_data nd) = Some ep" "ep_cb ep = Some (App_rx_cb k)"
    and "chnl_in_ns (ep_rp_chnl ep) w1 = Some False" "load32 (w_mem w1) (RPMSG_LOCATE_DATA hdr) = SHUTDOWN_MSG"
  shows "(\<forall>w'. rpmsg_deliver (with_rx_cb f s cf) rdev node hdr w1 = Some w' \<longrightarrow> w_rdevs w' rdev = None) \<and>
    rpmsg_rx_loop (with_rx_cb f s cf) rdev hdr len idx w = None"
proof -
  have "closes_device cf proc f" using assms(1) closes_device_echo closes_device_matrix by auto
  then have freed: "w_rdevs w' rdev = None" if "rpmsg_deliver (with_rx_cb f s cf) rdev node hdr w1 = Some w'" for w'
    using deliver_closes [OF _ assms(2,3) _ assms(9-13) that] assms(4,5) by simp
  then show ?thesis using rx_loop_without_device [OF assms(6-8) freed] by simp
qed

definition shutdown_ept_example :: rpmsg_endpoint where
  "shutdown_ept_example = \<lparr>ep_rp_chnl = NULL, ep_cb = Some (App_rx_cb 0), ep_addr = 7, ep_priv = NULL\<rparr>"

definition shutdown_world_example :: world where
  "shutdown_world_example = world0\<lparr>w_rdevs := [1 \<mapsto> rdev_zero\<lparr>rd_proc := 5, rd_rp_endpoints := 8\<rparr>], w_procs := [5 \<mapsto> hil_proc0],
     w_nodes := [6 \<mapsto> llist0\<lparr>ll_data := 5\<rparr>, 8 \<mapsto> llist0\<lparr>ll_data := 9\<rparr>], w_proc_list := 6, w_epts := [9 \<mapsto> shutdown_ept_example],
     w_mem := store32 ((\<lambda>a. 0)(0x504 := 7)) 0x510 SHUTDOWN_MSG\<rparr>"

definition shutdown_state_example :: rproc_state where
  "shutdown_state_example = state0\<lparr>st_rprocs := [3 \<mapsto> rproc_zero\<lparr>rp_proc := 5, rp_rdev := 1\<rparr>], st_w := shutdown_world_example\<rparr>"

lemma shutdown_example_facts:
  "case rpmsg_rdev_get_endpoint_from_addr 1 (load32 (w_mem shutdown_world_example) (0x500 + 4)) shutdown_world_example of
     None \<Rightarrow> False | Some (node, w1) \<Rightarrow> node = 8 \<and> w_nodes w1 8 = Some (llist0\<lparr>ll_data := 9\<rparr>) \<and> w_epts w1 9 = Some shutdown_ept_example \<and>
       load32 (w_mem w1) (RPMSG_LOCATE_DATA 0x500) = SHUTDOWN_MSG \<and>
       \<not> Option.is_none (rpmsg_deliver (with_rx_cb (echo_read_cb cfg_example 3) shutdown_state_example cfg_example) 1 8 0x500 w1)"
  by code_simp

theorem shutdown_message_use_after_free_witness:
  "rpmsg_rx_loop (with_rx_cb (echo_read_cb cfg_example 3) shutdown_state_example cfg_example) 1 0x500 512 0 shutdown_world_example = None"
proof -
  obtain w1 where w1: "rpmsg_rdev_get_endpoint_from_addr 1 (load32 (w_mem shutdown_world_example) (0x500 + 4)) shutdown_world_example = Some (8, w1)"
    "w_nodes w1 8 = Some (llist0\<lparr>ll_data := 9\<rparr>)" "w_epts w1 9 = Some shutdown_ept_example"
    "load32 (w_mem w1) (RPMSG_LOCATE_DATA 0x500) = SHUTDOWN_MSG"
    using shutdown_example_facts by (auto split: option.split_asm prod.split_asm)
  show ?thesis
    by (rule conjunct2 [OF shutdown_message_use_after_free [where proc = 3 and r = "rproc_zero\<lparr>rp_proc := 5, rp_rdev := 1\<rparr>" and node = 8
          and nd = "llist0\<lparr>ll_data := 9\<rparr>" and ep = shutdown_ept_example and ?w1.0 = w1 and k = 0 and cf = cfg_example]])
      (use w1 in \<open>simp_all add: shutdown_state_example_def rproc_zero_def llist0_def shutdown_ept_example_def chnl_in_ns_def\<close>)
qed

section \<open>The answers\<close>

text \<open>The application's channel is active and the master has offered the buffer of token \<open>t\<close> on the transmit ring.\<close>

definition can_reply :: "config \<Rightarrow> (u32 \<Rightarrow> u32) \<Rightarrow> ptr \<Rightarrow> rpmsg_channel \<Rightarrow> remote_device \<Rightarrow> virtqueue \<Rightarrow> virtqueue \<Rightarrow> vring_mem \<Rightarrow>
    ring_abs \<Rightarrow> token \<Rightarrow> world \<Rightarrow> bool" where
  "can_reply cf va chnl ch rd d vq r A t w \<longleftrightarrow> send_active chnl ch rd w \<and> rd_role rd \<noteq> RPMSG_REMOTE \<and>
     get_vq (rd_tvq rd) w = Some (vq, r) \<and> ring_rel va \<lparr>rs_drv = d, rs_dev = vq, rs_ring = r\<rparr> A \<and> ra_pend A \<noteq> [] \<and> hd (ra_pend A) = t \<and>
     msg_hdr cf va t \<noteq> 0 \<and> quiet_notify cf \<and> notify_wired w vq"

text \<open>A message in memory.\<close>

definition msg_at :: "memory \<Rightarrow> u32 \<Rightarrow> u32 \<Rightarrow> u32 \<Rightarrow> u8 list \<Rightarrow> bool" where
  "msg_at m hdr src dst payload \<longleftrightarrow> load32 m hdr = src \<and> load32 m (hdr + 4) = dst \<and> load16 m (hdr + 12) = of_nat (length payload) \<and>
     holds m (RPMSG_LOCATE_DATA hdr) payload"

lemma can_reply_mem: "can_reply cf va chnl ch rd d vq r A t (w\<lparr>w_mem := m\<rparr>) = can_reply cf va chnl ch rd d vq r A t w"
proof -
  have "notify_wired (w\<lparr>w_mem := m\<rparr>) vq = notify_wired w vq" by (rule notify_wired_cong) simp_all
  then show ?thesis by (simp add: can_reply_def send_active_def get_vq_def)
qed

text \<open>What a reply leaves behind: the message is in the buffer of \<open>t\<close>, and the buffer is the last one given back.\<close>

definition replied :: "config \<Rightarrow> (u32 \<Rightarrow> u32) \<Rightarrow> u32 \<Rightarrow> u32 \<Rightarrow> remote_device \<Rightarrow> virtqueue \<Rightarrow> ring_abs \<Rightarrow> token \<Rightarrow> u8 list \<Rightarrow> world \<Rightarrow> bool" where
  "replied cf va src dst rd d A t payload w \<longleftrightarrow> msg_at (w_mem w) (msg_hdr cf va t) src dst payload \<and>
     (\<exists>vq r. get_vq (rd_tvq rd) w = Some (vq, r) \<and> ring_rel va \<lparr>rs_drv = d, rs_dev = vq, rs_ring = r\<rparr>
        (A\<lparr>ra_pend := tl (ra_pend A), ra_used := ra_used A @ [(t, tk_len t)]\<rparr>))"

lemma raw_reply:
  assumes "can_reply cf va chnl ch rd d vq r A t w" "n + 16 \<le> unat (tk_len t)"
    and "range32 data n \<inter> range32 (msg_hdr cf va t) 16 = {}"
  shows "\<exists>w'. rpmsg_send_offchannel_raw cf chnl src dst data (int n) True w = Some (RPMSG_SUCCESS, w') \<and>
    replied cf va src dst rd d A t (load_bytes (w_mem w) data n) w' \<and> tx_frame w w'"
proof -
  note a = assms(1) [unfolded can_reply_def]
  have p: "ra_pend A = t # tl (ra_pend A)" using a by (metis list.collapse)
  have l: "n + 16 \<le> 2 ^ 32" using assms(2) unsigned_less [of "tk_len t", where 'a = nat] by simp
  have "send_active chnl ch rd w" "rd_role rd \<noteq> RPMSG_REMOTE" "get_vq (rd_tvq rd) w = Some (vq, r)"
    "ring_rel va \<lparr>rs_drv = d, rs_dev = vq, rs_ring = r\<rparr> A" "msg_hdr cf va t \<noteq> 0" "quiet_notify cf" "notify_wired w vq"
    using a by simp_all
  note s = this
  have n: "int n + 16 \<le> int (unat (tk_len t))" using assms(2) by linarith
  have "0 \<le> int n" "range32 data (nat (int n)) \<inter> range32 (msg_hdr cf va t) 16 = {}" using assms(3) by simp_all
  from remote_send [OF s(1-4) p s(5-7) this(1) n this(2), of src dst True]
  obtain w' vq' r' where w': "rpmsg_send_offchannel_raw cf chnl src dst data (int n) True w = Some (RPMSG_SUCCESS, w')"
    "w_mem w' = put_msg (msg_hdr cf va t) src dst (load_bytes (w_mem w) data n) (of_nat n) (w_mem w)"
    "tx_frame w w'" "get_vq (rd_tvq rd) w' = Some (vq', r')"
    "ring_rel va \<lparr>rs_drv = d, rs_dev = vq', rs_ring = r'\<rparr> (A\<lparr>ra_pend := tl (ra_pend A), ra_used := ra_used A @ [(t, tk_len t)]\<rparr>)"
    by auto
  moreover have "replied cf va src dst rd d A t (load_bytes (w_mem w) data n) w'"
    using w'(2,4,5) put_msg_fields [of "load_bytes (w_mem w) data n"] l by (simp add: replied_def msg_at_def holds_def)
  ultimately show ?thesis by blast
qed

lemma send_reply:
  assumes "can_reply cf va chnl ch rd d vq r A t w" "data \<noteq> 0" "n + 16 \<le> unat (tk_len t)"
    and "range32 data n \<inter> range32 (msg_hdr cf va t) 16 = {}"
  shows "\<exists>w'. rpmsg_send cf chnl data (int n) w = Some (RPMSG_SUCCESS, w') \<and>
      replied cf va (ch_src ch) (ch_dst ch) rd d A t (load_bytes (w_mem w) data n) w' \<and> tx_frame w w'"
    "\<exists>w'. rpmsg_sendto cf chnl data (int n) dst w = Some (RPMSG_SUCCESS, w') \<and>
      replied cf va (ch_src ch) dst rd d A t (load_bytes (w_mem w) data n) w' \<and> tx_frame w w'"
  using raw_reply [OF assms(1,3,4)] assms(1,2)
  by (simp_all add: rpmsg_send_def rpmsg_sendto_def can_reply_def send_active_def)

text \<open>The echo test sends the payload back on the channel it came from.\<close>

lemma echo_returns_message:
  assumes "can_reply cf va chnl ch rd d vq r A t (st_w s)" "data \<noteq> 0" "unat len + 16 \<le> unat (tk_len t)"
    and "range32 data (unat len) \<inter> range32 (msg_hdr cf va t) 16 = {}" "load32 (w_mem (st_w s)) data \<noteq> SHUTDOWN_MSG"
  shows "\<exists>w'. echo_read_cb cf proc chnl data len s = Some (s\<lparr>st_w := w'\<rparr>) \<and>
    replied cf va (ch_src ch) (ch_dst ch) rd d A t (load_bytes (w_mem (st_w s)) data (unat len)) w'"
  using send_reply(1) [OF assms(1-4)] assms(5) by (auto simp: echo_read_cb_def in_w_def)

text \<open>
  The function test suite sends everything that is not a command back to its sender.  \<^verbatim>\<open>DELETE_EPT\<close> does not clear the
  pointer: a second one destroys a freed endpoint.
\<close>

lemma fts_echoes_data:
  assumes "can_reply cf va (ft_app_rp_chnl ts) ch rd d vq r A t (st_w s)" "ft_r_buffer ts \<noteq> 0" "unat (ft_Len ts) + 16 \<le> unat (tk_len t)"
    and "unat (ft_Len ts) < 2 ^ 31" "range32 (ft_r_buffer ts) (unat (ft_Len ts)) \<inter> range32 (msg_hdr cf va t) 16 = {}"
    and "ft_intr_flag ts" "load32 (w_mem (st_w s)) (ft_r_buffer ts) \<noteq> CMD_START"
  shows "\<exists>w'. fts_turn cf cb proc ts s = Some (False, ts\<lparr>ft_intr_flag := False\<rparr>, s\<lparr>st_w := w'\<rparr>) \<and>
    replied cf va (ch_src ch) (ft_Src ts) rd d A t (load_bytes (w_mem (st_w s)) (ft_r_buffer ts) (unat (ft_Len ts))) w'"
proof -
  have "sint (ft_Len ts) = int (unat (ft_Len ts))" using assms(4) by (simp add: sint_small)
  then show ?thesis using send_reply(2) [OF assms(1-3,5), of "ft_Src ts"] assms(6,7)
    by (auto simp: fts_turn_def fts_ack_def in_w_def Let_def)
qed

lemma fts_delete_ept_twice:
  assumes "ft_rp_ept ts \<noteq> NULL" "w_epts (st_w s) (ft_rp_ept ts) = None"
  shows "fts_command cf cb proc DELETE_EPT ts s = None"
  using assms by (simp add: fts_command_def DELETE_EPT_def CREATE_EPT_def in_w0_def rpmsg_destroy_ept_def)

lemma mat_product_wf: "matrix_wf m \<Longrightarrow> matrix_wf \<lparr>mx_size = mx_size m, mx_elements = mat_product m n old\<rparr>"
  by (auto simp: matrix_wf_def mat_product_def mat_def)

text \<open>
  Property C31.  The matrix demo answers with the product.  When a message with two matrices of at most six rows arrives, the callback
  of the remote copies it into its static array, multiplies, and sends the result, all 148 bytes of it, on its channel: the
  first buffer the master has offered holds the message with the bytes of the product, and it is the last of the buffers given
  back.
\<close>

theorem matrix_demo_replies_product:
  assumes "can_reply cf va chnl ch rd d vq r A t (st_w s)" "SIZEOF_MATRIX + 16 \<le> unat (tk_len t)"
    and "matrix_wf m" "matrix_wf n" "holds (w_mem (st_w s)) data (matrix_bytes m @ matrix_bytes n)"
    and "res \<noteq> 0" "range32 res SIZEOF_MATRIX \<inter> range32 (msg_hdr cf va t) 16 = {}"
  shows "\<exists>w'. matrix_read_cb cf proc chnl arr res data 296 s = Some (s\<lparr>st_w := w'\<rparr>) \<and>
    replied cf va (ch_src ch) (ch_dst ch) rd d A t (matrix_bytes \<lparr>mx_size = mx_size m, mx_elements = mat_product m n (\<lambda>i j. 0)\<rparr>) w'"
proof -
  let ?p = "\<lparr>mx_size = mx_size m, mx_elements = mat_product m n (\<lambda>i j. 0)\<rparr>"
  let ?mem = "env_memcpy (w_mem (st_w s)) arr data 296"
  have len: "length (matrix_bytes m) = SIZEOF_MATRIX" "length (matrix_bytes n) = SIZEOF_MATRIX" "length (matrix_bytes ?p) = SIZEOF_MATRIX"
    using assms(3,4) mat_product_wf length_matrix_bytes by simp_all
  then have l2: "length (matrix_bytes m @ matrix_bytes n) = 296" by (simp add: SIZEOF_MATRIX_def)
  have "holds ?mem arr (matrix_bytes m @ matrix_bytes n)"
    using env_memcpy_copies(1) [of "w_mem (st_w s)" arr data 296] assms(5) l2 by (simp add: holds_def del: length_append)
  then have "matrix_at ?mem arr = m" "matrix_at ?mem (arr + of_nat SIZEOF_MATRIX) = n"
    using assms(3,4) len by (simp_all add: holds_append matrix_at_bytes)
  moreover have "Matrix_Multiply m n = Some ?p" using Matrix_Multiply_wf [OF assms(3,4)] .
  moreover have "load32 (w_mem (st_w s)) data \<noteq> SHUTDOWN_MSG"
  proof -
    have "load32 (w_mem (st_w s)) data = mx_size m" using assms(5) by (auto simp: matrix_bytes_def holds_append intro: holds_le32)
    then show ?thesis using assms(3) by (auto simp: matrix_wf_def SHUTDOWN_MSG_def MAX_SIZE_def)
  qed
  moreover define w2 where "w2 = (st_w s)\<lparr>w_mem := store_bytes ?mem res (matrix_bytes ?p)\<rparr>"
  moreover from assms(1) have "can_reply cf va chnl ch rd d vq r A t w2" by (simp add: w2_def can_reply_mem)
  from send_reply(1) [OF this assms(6,2,7)] obtain w' where
    "rpmsg_send cf chnl res (int SIZEOF_MATRIX) w2 = Some (RPMSG_SUCCESS, w')"
    "replied cf va (ch_src ch) (ch_dst ch) rd d A t (load_bytes (w_mem w2) res SIZEOF_MATRIX) w'" by blast
  moreover have "load_bytes (w_mem w2) res SIZEOF_MATRIX = matrix_bytes ?p"
    using load_store_bytes [of "matrix_bytes ?p" ?mem res] len(3) by (simp add: w2_def SIZEOF_MATRIX_def)
  ultimately show ?thesis by (intro exI [of _ w']) (simp add: matrix_read_cb_def in_w_def Let_def SIZEOF_MATRIX_def)
qed

definition matrix_state_example :: rproc_state where
  "matrix_state_example = state0\<lparr>st_w := rtx_world_example\<lparr>w_mem :=
     store_bytes (\<lambda>a. 0) 0x600 (matrix_bytes (matrix_example 1) @ matrix_bytes (matrix_example 5))\<rparr>\<rparr>"

definition token_example :: token where
  "token_example = \<lparr>tk_chain = [0], tk_bufs = [(0x100, 512)], tk_cookie = 0x100\<rparr>"

lemma can_reply_example:
  "can_reply cfg_example (\<lambda>a. a) 5 tx_chnl_example rtx_rdev_example rx_drv_example rtx_vq_example rx_ring_example rx_abs_example
     token_example (st_w matrix_state_example)"
proof -
  have "send_active 5 tx_chnl_example rtx_rdev_example rtx_world_example" "rd_role rtx_rdev_example \<noteq> RPMSG_REMOTE"
    "get_vq (rd_tvq rtx_rdev_example) rtx_world_example = Some (rtx_vq_example, rx_ring_example)"
    "ra_pend rx_abs_example = [token_example]" "msg_hdr cfg_example (\<lambda>a. a) token_example \<noteq> 0"
    by (simp_all add: send_active_def rtx_world_example_def tx_world_example_def world0_def tx_chnl_example_def rtx_rdev_example_def
        tx_rdev_example_def rdev_zero_def chnl_zero_def rpmsg_const_defs get_vq_def rtx_vq_example_def rx_dev_example_def rx_abs_example_def
        token_example_def msg_hdr_def cfg_example_def)
  then have "can_reply cfg_example (\<lambda>a. a) 5 tx_chnl_example rtx_rdev_example rx_drv_example rtx_vq_example rx_ring_example rx_abs_example
     token_example rtx_world_example"
    using rtx_rel_example tx_hyps_example(7) rtx_wired_example by (simp add: can_reply_def)
  then show ?thesis by (simp add: matrix_state_example_def can_reply_mem)
qed

theorem matrix_demo_replies_product_witness:
  "\<exists>w'. matrix_read_cb cfg_example 3 5 0xA00 0x900 0x600 296 matrix_state_example = Some (matrix_state_example\<lparr>st_w := w'\<rparr>) \<and>
     msg_at (w_mem w') 0x100 9 7 (matrix_bytes \<lparr>mx_size = 2, mx_elements = mat (\<lambda>i j. if i < 2 \<and> j < 2 then [[19, 22], [43, 50]] ! i ! j else 0)\<rparr>)"
proof -
  have h: "msg_hdr cfg_example (\<lambda>a. a) token_example = 0x100" "tk_len token_example = 512"
    by (simp_all add: msg_hdr_def cfg_example_def tk_len_def token_example_def)
  have d: "range32 0x900 SIZEOF_MATRIX \<inter> range32 (msg_hdr cfg_example (\<lambda>a. a) token_example) 16 = {}"
    using range32_disjoint [of 0 16 2048 148 "0x100"] by (simp add: h SIZEOF_MATRIX_def Int_commute)
  have b: "holds (w_mem (st_w matrix_state_example)) 0x600 (matrix_bytes (matrix_example 1) @ matrix_bytes (matrix_example 5))"
    using holds_store_bytes [of "matrix_bytes (matrix_example 1) @ matrix_bytes (matrix_example 5)" "\<lambda>a. 0" "0x600"]
      length_matrix_bytes [OF matrix_example_wf] by (simp add: matrix_state_example_def SIZEOF_MATRIX_def)
  have c: "ch_src tx_chnl_example = 9" "ch_dst tx_chnl_example = 7" by (simp_all add: tx_chnl_example_def)
  have p: "mx_size (matrix_example 1) = 2" "mat_product (matrix_example 1) (matrix_example 5) (\<lambda>i j. 0) =
      mat (\<lambda>i j. if i < 2 \<and> j < 2 then [[19, 22], [43, 50]] ! i ! j else 0)"
    by code_simp+
  have l: "SIZEOF_MATRIX + 16 \<le> unat (tk_len token_example)" by (simp add: h SIZEOF_MATRIX_def)
  show ?thesis
    using matrix_demo_replies_product [OF can_reply_example l matrix_example_wf matrix_example_wf b _ d, of 3 "0xA00"]
    by (auto simp: replied_def h c p)
qed

end
