(* ===== verification/Spec2Isabelle.thy ===== *)
theory Spec2Isabelle
  imports Prelude Memory Env LList ShMem Vring Virtqueue VqProtocol VqBoundary World Hil
    RpmsgAddr Rpmsg RpmsgApi RpmsgInit VqFrame RpmsgRx RpmsgTx RpmsgErr
    RpmsgRxMaster Platform EndToEnd
    RscTable ElfLoader Loader ElfProps Remoteproc RemoteprocProps Retarget
    EptMap Channels NameService Announce RingStart Startup SystemStart BringUp Boards MatrixDemo Demos DemoProps
begin

text \<open>
  A verification library for OpenAMP: messaging between the processors of a heterogeneous chip, and control of the
  life cycle of remote processors, for bare-metal systems (the tree \<^verbatim>\<open>src/lib\<close>), with the tables of its boards and its
  demonstration applications (\<^verbatim>\<open>src/apps\<close>).

  \<^bold>\<open>The program.\<close>  Two processors share memory.  Each message buffer travels in a ring of descriptors, the
  virtqueue (\<^verbatim>\<open>lib/virtio\<close>): the driver offers buffers in the available ring, the device takes them,
  uses them and puts them in the used ring, from where the driver takes them back.  On top of a pair of queues the
  messaging layer rpmsg (\<^verbatim>\<open>lib/rpmsg\<close>) has channels and endpoints; it takes a buffer (from the pool of
  \<^verbatim>\<open>lib/common/sh_mem.c\<close> or from a queue), writes header and payload, hands the buffer over and kicks the peer, whose
  receive callback passes the message to the endpoint and returns the buffer.  The hardware interface layer
  \<^verbatim>\<open>lib/common/hil.c\<close> knows the processors and calls the platform's drivers; the environment
  \<^verbatim>\<open>lib/system/generic/env.c\<close> supplies locks, interrupts, memory and strings.  remoteproc
  (\<^verbatim>\<open>lib/remoteproc\<close>) parses the resource table that describes the rings, loads an ELF image, starts the
  processor and then starts rpmsg.  \<^verbatim>\<open>lib/proxy\<close> forwards system calls of the remote processor as messages.

  \<^bold>\<open>Conventions.\<close>  Machine integers are words of their width (the targets are 32-bit little-endian ARM).  An
  operation that can run into undefined behaviour of C, stop in a failed assertion, or not end returns an option and
  \<open>None\<close> is that outcome; error codes are ordinary results.  State is passed explicitly; heaps of C objects are
  maps from abstract pointers.  Loops over a known range are structural recursion over the list of indices or a
  count; loops whose end depends on data (lists, receive loop, relocation) are partial functions into
  \<^typ>\<open>'a option\<close>, and their termination is a theorem.  No fuel is used, except that the interrupts of a
  spinning loop are an argument, one entry per turn: using it up is the outcome of spinning for ever.

  \<^bold>\<open>Theories and sources.\<close>

  \<^item> \<open>Prelude\<close>, \<open>Memory\<close>: machine types, arrays, ring-index arithmetic, the byte memory with its load and store laws and
    encoded fields (\<^verbatim>\<open>env_memcpy\<close>, \<^verbatim>\<open>env_memset\<close>).
  \<^item> \<open>Env\<close>: \<^verbatim>\<open>env.c\<close> and the interrupt mask of \<^verbatim>\<open>machine_system.c\<close>: mutexes, handler table, dispatcher, spin locks, strings.
  \<^item> \<open>LList\<close>: \<^verbatim>\<open>llist.c\<close>; locale \<open>heap_list\<close>, interpreted on the code's insertion and removal.
  \<^item> \<open>ShMem\<close>: \<^verbatim>\<open>sh_mem.c\<close>; locale \<open>buffer_pool\<close>, interpreted on the bitmap pool.
  \<^item> \<open>Vring\<close>: \<^verbatim>\<open>virtio_ring.h\<close>.  \<open>Virtqueue\<close>: \<^verbatim>\<open>virtqueue.c\<close>, all operations.
  \<^item> \<open>VqProtocol\<close>: both sides on one ring; an abstract machine of lists of free, pending, taken and used chains,
    the relation between the two, and a simulation (locale \<open>refinement\<close>).  \<open>VqBoundary\<close>: full rings, bad indices,
    publication order, notification.  \<open>VqFrame\<close>: what queue operations leave unchanged.
  \<^item> \<open>World\<close>: the state of one processor and the platform configuration \<open>config\<close>.  \<open>Hil\<close>: \<^verbatim>\<open>hil.c\<close>, \<^verbatim>\<open>firmware.c\<close>, \<^verbatim>\<open>virtio.c\<close>.
  \<^item> \<open>RpmsgAddr\<close>, \<open>Rpmsg\<close>, \<open>RpmsgApi\<close>: \<^verbatim>\<open>rpmsg_core.c\<close> and \<^verbatim>\<open>rpmsg.c\<close>.  \<open>RpmsgInit\<close>: \<^verbatim>\<open>remote_device.c\<close>, start and shutdown.
  \<^item> \<open>RpmsgTx\<close>, \<open>RpmsgRx\<close>, \<open>RpmsgRxMaster\<close>, \<open>RpmsgErr\<close>: sending, receiving on either side, error paths.  \<open>EndToEnd\<close>: a
    message sent on one processor reaches the endpoint on the other.
  \<^item> \<open>EptMap\<close>: the endpoint list and the address bitmap of a device as one map from addresses to endpoints (locale
    \<open>address_map\<close>, interpreted on the code's creation, destruction and search), and its steps.  \<open>Channels\<close>: the list of
    channels.  \<open>NameService\<close>: announcements, from the message of one side to the channels of both.
  \<^item> \<open>RingStart\<close>, \<open>Startup\<close>, \<open>Announce\<close>, \<open>SystemStart\<close>, \<open>BringUp\<close>: the start of both processors.  How a ring is created by one side and joined by
    the other, what each step of \<^verbatim>\<open>rpmsg_init\<close> establishes, the announcements of the remote, the two sides together, and the first channel from power-up to use.
  \<^item> \<open>Platform\<close>: the ports and drivers of Zynq-7000 and Zynq UltraScale+; locale \<open>shared_addressing\<close>, interpreted on both
    address translations.
  \<^item> \<open>RscTable\<close>: \<^verbatim>\<open>rsc_table_parser.c\<close>, and the encoding of tables.  \<open>ElfLoader\<close>, \<open>Loader\<close>: \<^verbatim>\<open>elf_loader.c\<close> and
    \<^verbatim>\<open>remoteproc_loader.c\<close>; properties in \<open>ElfProps\<close>.  \<open>Remoteproc\<close>: \<^verbatim>\<open>remoteproc.c\<close>; properties in \<open>RemoteprocProps\<close>.
  \<^item> \<open>Retarget\<close>: \<^verbatim>\<open>rpmsg_retarget.c\<close>.
  \<^item> \<open>Boards\<close>: the processor tables \<^verbatim>\<open>platform_info.c\<close> and the resource tables \<^verbatim>\<open>rsc_table.c\<close> under \<^verbatim>\<open>apps\<close>.  \<open>MatrixDemo\<close>: the matrix
    routines of \<^verbatim>\<open>apps/matrix_multiply\<close>.  \<open>Demos\<close>: the callbacks and loops of the demonstration applications; properties in
    \<open>DemoProps\<close>.

  \<^bold>\<open>What is shown.\<close>  The virtqueue refines the list machine for every interleaving of driver and device steps, so
  buffers are handed over once, in order and without loss.  The pool, the address bitmap and the linked list
  implement sets and sequences.  A send writes exactly its message and hands the buffer over; the receive callback ends,
  delivers every pending message once and in order and returns every buffer; both together give end-to-end
  delivery.  Endpoint creation and destruction implement a map in every reachable state, and an announcement of a
  channel ends with two active channels that point to each other; its revocation restores both tables.  The
  state these theorems start from is the one the code reaches: the calls of \<^verbatim>\<open>rpmsg_init\<close> on the two sides succeed and join their queues over
  both rings, and the remote then announces its channels in the buffers the master has offered; with one channel in its table, both ends of the channel
  become active and point to each other.  Parsing an encoded resource table does what its entries say, and on arbitrary bytes stays within the
  processor's ring slots; the tables of every shipped board are accepted and describe memory regions that do not overlap; loading
  an image puts every section at its address; a failed initialisation of a
  remote processor frees what it allocated.  The matrix routines compute the product, and the demo that uses them
  answers a message with it.  Other theorems establish defects of the code, with the exact
  condition under which they occur: writes outside the descriptor table of a full ring, the bitmap stride of the
  pool, the second lock that masks nothing, lost buffers, unchecked entry types, relocation loops that do not
  end, two uses of freed objects in the remoteproc life cycle, channels of one name that are unlinked wrongly, and the shutdown
  message of the demos, which frees the device whose receive loop is running.

  \<^bold>\<open>Parameters.\<close>  The record \<open>config\<close> has what is not code of the library: the platform's address
  translation and processor table, driver functions, callbacks of the application, the outcome of each allocation, and
  the contents of uninitialised variables.  \<open>EndToEnd\<close> takes the translations from \<open>Platform\<close>, \<open>Boards\<close> supplies the processor
  tables, and \<open>DemoProps\<close> puts the callbacks of the applications in.

  \<^bold>\<open>Not modelled.\<close>  Memory barriers and caches (the memory is sequentially consistent); real time; alignment
  faults; the newlib stubs of the R5 port, which return constants; vendor code for MMU and caches; the assembly trampoline;
  printing; of the applications the start of each \<^verbatim>\<open>main\<close> (board set-up, then one of the modelled calls), the script of the test
  suite on the master and the console dialogue of \<^verbatim>\<open>rpc_demo.c\<close>; the set-up of interrupt controller, caches and vectors in
  \<^verbatim>\<open>apps/system\<close>, which calls vendor functions; and the tree \<^verbatim>\<open>obsolete\<close>, which is not built and is mostly third-party code.
  Possible extensions: interrupts that arrive inside the library's critical sections, and the life cycle of both processors
  from boot to shutdown as one step relation.
\<close>

end
